(* ===== verification/Altior_Prelude.thy ===== *)
theory Altior_Prelude
  imports Main "HOL-Library.Word" "HOL-Library.List_Lexorder" "HOL-Library.Char_ord"
begin

text \<open>
  Shared vocabulary of the development.

  The theory fixes how the Rust types of the repository are read in HOL and collects the facts
  that several components use:
  \<^item> byte strings, Rust strings (UTF-8, so a \<open>string\<close> of bytes whose \<open>length\<close> is Rust's
    \<open>str::len\<close>), \<open>u64\<close> and \<open>u32\<close> limits, big-endian byte encodings;
  \<^item> \<open>Result\<close> as a sum with the error on the left;
  \<^item> an ordered map (\<open>BTreeMap\<close>) as a key-sorted association list, used where the source
    iterates over a map in key order;
  \<^item> reachability of a step relation and a locale that turns a one-step invariant into an
    invariant of all reachable states.
\<close>

section \<open>Collections of rewrite rules\<close>

named_theorems relay_simps \<open>record plumbing of the relay\<close>
named_theorems wire_simps \<open>byte encodings\<close>
named_theorems runtime_simps \<open>supervisor and registry plumbing\<close>

section \<open>Types\<close>

type_synonym byte = "8 word"
type_synonym bytes = "byte list"
type_synonym u32 = "32 word"
type_synonym u64 = "64 word"

text \<open>\<open>Result<'a, 'e>\<close>, the error first.\<close>

type_synonym ('e, 'a) result = "'e + 'a"

abbreviation Err :: "'e \<Rightarrow> ('e, 'a) result" where
  "Err \<equiv> Inl"

abbreviation Okay :: "'a \<Rightarrow> ('e, 'a) result" where
  "Okay \<equiv> Inr"

text \<open>The largest values of \<open>u32\<close> and \<open>u64\<close>, for counters that are kept as \<open>nat\<close>.\<close>

definition u32_max :: nat where
  "u32_max = 4294967295"

definition u64_max :: nat where
  "u64_max = 18446744073709551615"

section \<open>Reachable states and invariants\<close>

inductive reach :: "('s \<Rightarrow> bool) \<Rightarrow> ('s \<Rightarrow> 's \<Rightarrow> bool) \<Rightarrow> 's \<Rightarrow> bool"
  for start :: "'s \<Rightarrow> bool" and move :: "'s \<Rightarrow> 's \<Rightarrow> bool"
where
  reach_start: "start s \<Longrightarrow> reach start move s"
| reach_move: "reach start move s \<Longrightarrow> move s t \<Longrightarrow> reach start move t"

text \<open>
  The contract every state machine of the development is shown to satisfy: its initial states
  satisfy an invariant and every operation keeps it.
\<close>

locale guarded_machine =
  fixes start :: "'s \<Rightarrow> bool"
    and move :: "'s \<Rightarrow> 's \<Rightarrow> bool"
    and good :: "'s \<Rightarrow> bool"
  assumes good_start: "start s \<Longrightarrow> good s"
    and good_move: "good s \<Longrightarrow> move s t \<Longrightarrow> good t"
begin

lemma reach_good: "reach start move s \<Longrightarrow> good s"
  by (induction rule: reach.induct) (auto intro: good_start good_move)

lemma star_good: "move\<^sup>*\<^sup>* s t \<Longrightarrow> good s \<Longrightarrow> good t"
  by (induction rule: rtranclp_induct) (auto intro: good_move)

end

section \<open>Sequences of fallible operations\<close>

text \<open>A stateful fallible operation over a list, stopping at the first error (a \<open>for\<close> loop with
  \<open>?\<close> in its body).\<close>

fun try_all ::
  "('s \<Rightarrow> 'x \<Rightarrow> ('e, 'y) result \<times> 's) \<Rightarrow> 's \<Rightarrow> 'x list \<Rightarrow> ('e, 'y list) result \<times> 's" where
  "try_all f s [] = (Okay [], s)"
| "try_all f s (x # xs) =
     (case f s x of
        (Inl e, s') \<Rightarrow> (Err e, s')
      | (Inr y, s') \<Rightarrow>
          (case try_all f s' xs of
             (Inl e, s'') \<Rightarrow> (Err e, s'')
           | (Inr ys, s'') \<Rightarrow> (Okay (y # ys), s'')))"

lemma try_all_ConsE:
  assumes "try_all f s (x # xs) = (Okay zs, s'')"
  obtains y ys s' where "f s x = (Okay y, s')" "try_all f s' xs = (Okay ys, s'')" "zs = y # ys"
  using assms by (auto split: prod.splits sum.splits)

lemma try_all_append:
  "try_all f s (xs @ ys) =
     (case try_all f s xs of
        (Inl e, s1) \<Rightarrow> (Err e, s1)
      | (Inr as, s1) \<Rightarrow>
          (case try_all f s1 ys of (Inl e, s2) \<Rightarrow> (Err e, s2) | (Inr bs, s2) \<Rightarrow> (Okay (as @ bs), s2)))"
  by (induction xs arbitrary: s) (auto split: sum.splits prod.splits)

section \<open>Incremental decoders\<close>

text \<open>The contract of a decoder that buffers a byte stream and takes one item at a time off the buffer. An
  item that is complete does not depend on what follows, a refused buffer stays refused. Then the items
  of a stream do not depend on how it is cut into chunks.\<close>

locale chunked_decoder =
  fixes step :: "'b list \<Rightarrow> ('e, 'i option) result \<times> 'b list"
    and all_items :: "'b list \<Rightarrow> ('e, 'i list) result \<times> 'b list"
  assumes unfold_items: "all_items buf =
      (case step buf of
         (Inl e, b) \<Rightarrow> (Err e, b)
       | (Inr None, b) \<Rightarrow> (Okay [], b)
       | (Inr (Some x), b) \<Rightarrow>
           (case all_items b of (Inl e, b') \<Rightarrow> (Err e, b') | (Inr xs, b') \<Rightarrow> (Okay (x # xs), b')))"
    and shrinks: "step buf = (Okay (Some x), b) \<Longrightarrow> length b < length buf"
    and keeps: "step buf = (Okay None, b) \<Longrightarrow> b = buf"
    and extend: "step buf = (Okay (Some x), b) \<Longrightarrow> step (buf @ more_bytes) = (Okay (Some x), b @ more_bytes)"
    and extend_err: "step buf = (Err e, b) \<Longrightarrow> isl (fst (step (buf @ more_bytes)))"
begin

lemma items_append:
  "all_items buf = (Okay xs, b) \<Longrightarrow>
   all_items (buf @ ext) =
     (case all_items (b @ ext) of (Inl e, b') \<Rightarrow> (Err e, b') | (Inr ys, b') \<Rightarrow> (Okay (xs @ ys), b'))"
proof (induction "length buf" arbitrary: buf xs rule: less_induct)
  case less
  obtain r b1 where n: "step buf = (r, b1)" by fastforce
  consider e where "r = Inl e" | "r = Inr None" | x where "r = Inr (Some x)"
    by (metis option.exhaust sum.exhaust)
  then show ?case
  proof cases
    case 1
    then show ?thesis using less.prems n by (simp add: unfold_items[of buf])
  next
    case 2
    then have "xs = []" "b = buf" using less.prems n keeps[of buf b1] by (auto simp: unfold_items[of buf])
    then show ?thesis by (simp split: prod.split sum.split)
  next
    case (3 x)
    then obtain ys where ys: "all_items b1 = (Okay ys, b)" "xs = x # ys"
      using less.prems n by (auto simp: unfold_items[of buf] split: prod.splits sum.splits)
    have "all_items (buf @ ext) = (case all_items (b1 @ ext) of
        (Inl e, b') \<Rightarrow> (Err e, b') | (Inr xs, b') \<Rightarrow> (Okay (x # xs), b'))"
      using extend[of buf x b1 ext] n 3 by (subst unfold_items) simp
    then show ?thesis
      using less.hyps[OF shrinks ys(1)] n 3 ys(2) by (simp split: prod.split sum.split)
  qed
qed

lemma items_append_err: "all_items buf = (Err e, b) \<Longrightarrow> isl (fst (all_items (buf @ ext)))"
proof (induction "length buf" arbitrary: buf rule: less_induct)
  case less
  obtain r b1 where n: "step buf = (r, b1)" by fastforce
  consider e where "r = Inl e" | "r = Inr None" | x where "r = Inr (Some x)"
    by (metis option.exhaust sum.exhaust)
  then show ?case
  proof cases
    case (1 e')
    then show ?thesis using extend_err[of buf e' b1 ext] n
      by (subst unfold_items) (auto simp: isl_def split: prod.splits)
  next
    case 2
    then show ?thesis using less.prems n by (simp add: unfold_items[of buf])
  next
    case (3 x)
    then have "all_items b1 = (Err e, b)"
      using less.prems n by (auto simp: unfold_items[of buf] split: prod.splits sum.splits)
    then have "isl (fst (all_items (b1 @ ext)))" using less.hyps[OF shrinks] n 3 by simp
    then show ?thesis
      using extend[of buf x b1 ext] n 3 by (subst unfold_items) (auto simp: isl_def split: prod.splits)
  qed
qed

lemma items_rest: "all_items buf = (Okay xs, b) \<Longrightarrow> step b = (Okay None, b)"
proof (induction "length buf" arbitrary: buf xs rule: less_induct)
  case less
  obtain r b1 where n: "step buf = (r, b1)" by fastforce
  show ?case
    using less.prems n less.hyps[of b1] shrinks[of buf _ b1] keeps[of buf b1]
    by (auto simp: unfold_items[of buf] split: sum.splits option.splits prod.splits)
qed

lemma items_none: "step buf = (Okay None, b) \<Longrightarrow> all_items buf = (Okay [], b)"
  by (subst unfold_items) simp

text \<open>Feeding chunk by chunk gives what decoding the whole stream gives.\<close>

lemma chunks:
  "step buf = (Okay None, buf) \<Longrightarrow> all_items (buf @ concat cs) = (Okay xs, b) \<Longrightarrow>
   \<exists>xss. try_all (\<lambda>bu c. all_items (bu @ c)) buf cs = (Okay xss, b) \<and> concat xss = xs"
proof (induction cs arbitrary: buf xs)
  case Nil
  then show ?case by (simp add: items_none)
next
  case (Cons c cs)
  obtain r b1 where c: "all_items (buf @ c) = (r, b1)" by fastforce
  have "\<not> isl r" using Cons.prems(2) items_append_err[of "buf @ c" _ b1 "concat cs"] c by (auto simp: isl_def)
  then obtain ys where r: "r = Okay ys" by (cases r) auto
  then obtain zs where "all_items (b1 @ concat cs) = (Okay zs, b)" "xs = ys @ zs"
    using Cons.prems(2) items_append[of "buf @ c" ys b1 "concat cs"] c
    by (auto split: prod.splits sum.splits)
  then show ?case using Cons.IH[of b1 zs] items_rest[of "buf @ c" ys b1] c r by auto
qed

end

section \<open>Lists\<close>

lemma find_None_filter: "List.find P xs = None \<longleftrightarrow> filter P xs = []"
  by (auto simp: find_None_iff filter_empty_conv)

lemma find_append_None:
  "List.find P xs = None \<Longrightarrow> List.find P (xs @ ys) = List.find P ys"
  by (induction xs) (auto split: if_splits)

lemma find_append_Some:
  "List.find P xs = Some x \<Longrightarrow> List.find P (xs @ ys) = Some x"
  by (induction xs) (auto split: if_splits)

lemma sorted_wrt_snoc:
  "sorted_wrt R (xs @ [x]) \<longleftrightarrow> sorted_wrt R xs \<and> (\<forall>y\<in>set xs. R y x)"
  by (auto simp: sorted_wrt_append)

lemma sorted_wrt_last: "sorted_wrt R xs \<Longrightarrow> x \<in> set xs \<Longrightarrow> x = last xs \<or> R x (last xs)"
  by (induction xs) auto

lemma sorted_wrt_dropWhile: "sorted_wrt R xs \<Longrightarrow> sorted_wrt R (dropWhile P xs)"
  by (induction xs) auto

lemma last_dropWhile: "dropWhile P xs \<noteq> [] \<Longrightarrow> last (dropWhile P xs) = last xs"
  by (induction xs) auto

text \<open>On a list sorted by a key, dropping a prefix below a bound is filtering.\<close>

lemma dropWhile_eq_filter_sorted:
  fixes f :: "'a \<Rightarrow> 'b::linorder"
  assumes "sorted_wrt (\<lambda>x y. f x < f y) xs"
  shows "dropWhile (\<lambda>x. f x \<le> b) xs = filter (\<lambda>x. b < f x) xs"
  using assms
proof (induction xs)
  case Nil
  then show ?case by simp
next
  case (Cons x xs)
  show ?case
  proof (cases "f x \<le> b")
    case True
    then show ?thesis using Cons by simp
  next
    case False
    with Cons.prems have "\<forall>y\<in>set xs. b < f y" by force
    with False show ?thesis by (simp add: filter_id_conv)
  qed
qed

section \<open>Machine words\<close>

lemma unat_plus_one: "c \<noteq> - 1 \<Longrightarrow> unat (c + 1 :: 'a::len word) = unat c + 1"
  by (metis Suc_eq_plus1 add.commute unatSuc add_eq_0_iff2 add.inverse_inverse eq_neg_iff_add_eq_0)

lemma less_not_max: "(c :: 'a::len word) < e \<Longrightarrow> c \<noteq> - 1"
  using word_order.extremum_strict by blast

lemma plus_one_bounds: "(c :: 'a::len word) < e \<Longrightarrow> c \<le> c + 1 \<and> c + 1 \<le> e"
  by (simp add: word_le_nat_alt word_less_nat_alt unat_plus_one less_not_max)

section \<open>UTF-8\<close>

text \<open>\<open>str::from_utf8\<close> succeeds: every character is one of the well-formed byte sequences.\<close>

definition byte_in :: "nat \<Rightarrow> nat \<Rightarrow> char \<Rightarrow> bool" where
  "byte_in lo hi c \<longleftrightarrow> lo \<le> (of_char c :: nat) \<and> (of_char c :: nat) \<le> hi"

fun utf8_valid :: "string \<Rightarrow> bool" where
  "utf8_valid [] = True"
| "utf8_valid (a # s) =
     (if byte_in 0 127 a then utf8_valid s
      else case s of
        [] \<Rightarrow> False
      | b # s1 \<Rightarrow>
          if byte_in 194 223 a then byte_in 128 191 b \<and> utf8_valid s1
          else (case s1 of
            [] \<Rightarrow> False
          | c # s2 \<Rightarrow>
              if byte_in 224 239 a
              then byte_in (if byte_in 224 224 a then 160 else 128)
                     (if byte_in 237 237 a then 159 else 191) b
                   \<and> byte_in 128 191 c \<and> utf8_valid s2
              else (case s2 of
                [] \<Rightarrow> False
              | d # s3 \<Rightarrow>
                  byte_in 240 244 a
                  \<and> byte_in (if byte_in 240 240 a then 144 else 128)
                      (if byte_in 244 244 a then 143 else 191) b
                  \<and> byte_in 128 191 c \<and> byte_in 128 191 d \<and> utf8_valid s3)))"

section \<open>Ordered maps\<close>

text \<open>\<open>BTreeMap\<close> as an association list with strictly increasing keys; a lookup is \<open>map_of\<close>.\<close>

definition bt_ok :: "('k::linorder \<times> 'v) list \<Rightarrow> bool" where
  "bt_ok m \<longleftrightarrow> sorted_wrt (<) (map fst m)"

fun bt_insert :: "'k::linorder \<Rightarrow> 'v \<Rightarrow> ('k \<times> 'v) list \<Rightarrow> ('k \<times> 'v) list" where
  "bt_insert k v [] = [(k, v)]"
| "bt_insert k v ((k', v') # m) =
     (if k < k' then (k, v) # (k', v') # m
      else if k = k' then (k, v) # m
      else (k', v') # bt_insert k v m)"

definition bt_remove :: "'k::linorder \<Rightarrow> ('k \<times> 'v) list \<Rightarrow> ('k \<times> 'v) list" where
  "bt_remove k m = filter (\<lambda>(k', v). k' \<noteq> k) m"

lemma bt_insert_keys: "fst ` set (bt_insert k v m) = insert k (fst ` set m)"
  by (induction k v m rule: bt_insert.induct) auto

lemma bt_insert_length_new:
  "map_of m k = None \<Longrightarrow> length (bt_insert k v m) = Suc (length m)"
  by (induction k v m rule: bt_insert.induct) (auto split: if_splits)

lemma bt_insert_length: "length (bt_insert k v m) \<le> length m + 1"
  by (induction k v m rule: bt_insert.induct) auto

lemma bt_insert_set: "set (bt_insert k v m) \<subseteq> insert (k, v) (set m)"
  by (induction k v m rule: bt_insert.induct) auto

lemma bt_insert_ok: "bt_ok m \<Longrightarrow> bt_ok (bt_insert k v m)"
proof (induction k v m rule: bt_insert.induct)
  case (1 k v)
  then show ?case by (simp add: bt_ok_def)
next
  case (2 k v k' v' m)
  then show ?case
    using bt_insert_keys[of k v m] by (fastforce simp: bt_ok_def)
qed

lemma bt_remove_ok: "bt_ok m \<Longrightarrow> bt_ok (bt_remove k m)"
  unfolding bt_ok_def bt_remove_def by (induction m) auto

lemma map_of_bt_insert [simp]: "bt_ok m \<Longrightarrow> map_of (bt_insert k v m) = (map_of m)(k \<mapsto> v)"
proof (induction k v m rule: bt_insert.induct)
  case (1 k v)
  then show ?case by simp
next
  case (2 k v k' v' m)
  then show ?case by (auto simp: bt_ok_def fun_eq_iff)
qed

lemma map_of_bt_remove [simp]: "map_of (bt_remove k m) = (map_of m)(k := None)"
  unfolding bt_remove_def by (induction m) (auto simp: fun_eq_iff)

lemma bt_ok_Nil [simp]: "bt_ok []"
  by (simp add: bt_ok_def)

lemma bt_ok_distinct: "bt_ok m \<Longrightarrow> distinct (map fst m)"
  unfolding bt_ok_def by (simp add: strict_sorted_iff)

text \<open>Ordered maps with the same entries are equal.\<close>

lemma bt_eqI:
  assumes "bt_ok m" "bt_ok m'" "map_of m = map_of m'"
  shows "m = m'"
proof -
  have d: "distinct (map fst m)" "distinct (map fst m')" using assms(1,2) by (simp_all add: bt_ok_distinct)
  then have eq: "set m = set m'" using assms(3) by (simp add: map_of_inject_set)
  have "inj_on fst (set m \<union> set m')" using d eq by (simp add: distinct_map)
  then show ?thesis
    using assms(1,2) d eq by (intro map_sorted_distinct_set_unique) (auto simp: bt_ok_def strict_sorted_iff)
qed

section \<open>Bytes\<close>

text \<open>\<open>to_be_bytes\<close> and \<open>from_be_bytes\<close> of an unsigned integer of \<open>n\<close> bytes, and the bytes of a
  string (\<open>str::as_bytes\<close>).\<close>

fun be_bytes :: "nat \<Rightarrow> nat \<Rightarrow> bytes" where
  "be_bytes 0 x = []"
| "be_bytes (Suc n) x = be_bytes n (x div 256) @ [of_nat x]"

definition from_be :: "bytes \<Rightarrow> nat" where
  "from_be bs = foldl (\<lambda>acc b. acc * 256 + unat b) 0 bs"

definition be64 :: "u64 \<Rightarrow> bytes" where
  "be64 w = be_bytes 8 (unat w)"

definition be32 :: "u32 \<Rightarrow> bytes" where
  "be32 w = be_bytes 4 (unat w)"

definition str_bytes :: "string \<Rightarrow> bytes" where
  "str_bytes s = map of_char s"

lemma length_be_bytes [simp, wire_simps]: "length (be_bytes n x) = n"
  by (induction n x rule: be_bytes.induct) simp_all

lemma length_be [simp, wire_simps]: "length (be64 w) = 8" "length (be32 v) = 4"
  by (simp_all add: be64_def be32_def)

lemma from_be_snoc: "from_be (bs @ [b]) = from_be bs * 256 + unat b"
  by (simp add: from_be_def)

lemma from_be_be_bytes [simp]: "from_be (be_bytes n x) = x mod 256 ^ n"
proof (induction n x rule: be_bytes.induct)
  case (1 x)
  then show ?case by (simp add: from_be_def)
next
  case (2 n x)
  have "x mod (256 * 256 ^ n) = 256 * (x div 256 mod 256 ^ n) + x mod 256"
    by (rule mod_mult2_eq)
  then show ?case using 2 by (simp add: from_be_snoc unat_of_nat)
qed

lemma from_be64 [simp, wire_simps]: "of_nat (from_be (be64 w)) = w"
proof -
  have "unat w < 256 ^ 8" using unsigned_less[of w, where ?'a = nat] by simp
  then show ?thesis by (simp add: be64_def)
qed

lemma from_be32 [simp, wire_simps]: "of_nat (from_be (be32 w)) = w"
proof -
  have "unat w < 256 ^ 4" using unsigned_less[of w, where ?'a = nat] by simp
  then show ?thesis by (simp add: be32_def)
qed

lemma be_bytes_inj: "be_bytes n x = be_bytes n y \<Longrightarrow> x < 256 ^ n \<Longrightarrow> y < 256 ^ n \<Longrightarrow> x = y"
  by (metis from_be_be_bytes mod_less)

lemma of_char_byte_inj: "(of_char c :: byte) = of_char d \<longleftrightarrow> c = d"
proof
  assume "(of_char c :: byte) = of_char d"
  then have "unat (of_nat (of_char c) :: byte) = unat (of_nat (of_char d) :: byte)"
    by (simp add: of_nat_of_char)
  then have "(of_char c :: nat) = of_char d"
    using of_char_mod_256[where 'a = nat] by (simp add: unat_of_nat)
  then show "c = d" by simp
qed simp

lemma str_bytes_inj [simp]: "str_bytes s = str_bytes t \<longleftrightarrow> s = t"
  unfolding str_bytes_def by (rule inj_map_eq_map) (simp add: inj_on_def of_char_byte_inj)

lemma length_str_bytes [simp, wire_simps]: "length (str_bytes s) = length s"
  by (simp add: str_bytes_def)

end
