(* ===== verification/Relay_Queue.thy ===== *)
theory Relay_Queue
  imports Altior_Prelude
begin

text \<open>
  The content-agnostic relay queue of \<open>crates/altior-relay/src/lib.rs\<close>: one record per struct,
  one definition per method, errors from \<open>error.rs\<close>. The buckets of the \<open>HashMap\<close> are a map;
  the only method that iterates over it, \<open>sweep_expired\<close>, takes the iteration order as a
  parameter. Sequence numbers, ticks and byte counts are \<open>nat\<close>: the source's \<open>u64\<close> and
  \<open>usize\<close> sums cannot wrap before \<open>2^64\<close> pushes.
\<close>

section \<open>Data\<close>

datatype bucket_id = BucketId (bucket_label: string)

record relay_policy =
  max_payload_bytes :: nat
  max_bucket_depth :: nat
  max_age_ticks :: nat
  max_push_id_bytes :: nat
  max_bucket_bytes :: nat

definition policy_permissive :: relay_policy where
  "policy_permissive = \<lparr>max_payload_bytes = 1024 * 1024, max_bucket_depth = 512,
     max_age_ticks = 1000, max_push_id_bytes = 4 * 1024, max_bucket_bytes = 64 * 1024 * 1024\<rparr>"

definition policy_production :: relay_policy where
  "policy_production = \<lparr>max_payload_bytes = 1024 * 1024, max_bucket_depth = 4096,
     max_age_ticks = 86400 * 14, max_push_id_bytes = 4 * 1024,
     max_bucket_bytes = 50 * 1024 * 1024\<rparr>"

datatype relay_error =
    PushIdCollision string nat
  | PushTooLarge nat nat
  | BucketFull nat string
  | PushIdTooLarge nat nat
  | BucketQuotaExceeded string nat nat

datatype push_outcome = Pushed nat | Duplicate nat

record fetched_item =
  item_seq :: nat
  item_id :: string
  item_payload :: bytes

datatype fetch_page =
    Entries (page_items: "fetched_item list") (page_next: nat) (page_more: bool)
  | Compacted nat
  | InvalidCursor nat nat

record compaction_summary =
  sum_up_to :: nat
  sum_payloads :: nat
  sum_bytes :: nat

record bucket_stats =
  st_pending :: nat
  st_fetched :: nat
  st_compacted_payloads :: nat
  st_compacted_bytes :: nat
  st_compacted_up_to :: nat
  st_last_seq :: nat

record queue_entry =
  qe_seq :: nat
  qe_id :: string
  qe_payload :: bytes
  qe_tick :: nat
  qe_fetched :: bool

record bucket =
  entries :: "queue_entry list"
  compacted_up_to :: nat
  cursor :: nat
  compacted_payloads :: nat
  compacted_bytes :: nat

text \<open>\<open>Bucket::default()\<close>.\<close>

definition bucket_default :: bucket where
  "bucket_default = \<lparr>entries = [], compacted_up_to = 0, cursor = 0,
     compacted_payloads = 0, compacted_bytes = 0\<rparr>"

definition find_by_id :: "bucket \<Rightarrow> string \<Rightarrow> queue_entry option" where
  "find_by_id b i = List.find (\<lambda>e. qe_id e = i) (entries b)"

definition retained_bytes :: "bucket \<Rightarrow> nat" where
  "retained_bytes b = sum_list (map (\<lambda>e. length (qe_payload e)) (entries b))"

definition frontier :: "bucket \<Rightarrow> nat" where
  "frontier b = (if entries b = [] then compacted_up_to b else qe_seq (last (entries b)))"

record relay =
  policy :: relay_policy
  buckets :: "bucket_id \<rightharpoonup> bucket"
  next_seq :: nat
  tick :: nat

section \<open>Operations\<close>

definition relay_new :: "relay_policy \<Rightarrow> relay" where
  "relay_new p = \<lparr>policy = p, buckets = Map.empty, next_seq = 1, tick = 0\<rparr>"

definition relay_tick :: "relay \<Rightarrow> nat \<times> relay" where
  "relay_tick r = (let t = tick r + 1 in (t, r\<lparr>tick := t\<rparr>))"

text \<open>\<open>self.buckets.entry(bucket).or_default()\<close>: the slot is created even when the push is
  refused afterwards.\<close>

definition slot_or_default :: "relay \<Rightarrow> bucket_id \<Rightarrow> bucket" where
  "slot_or_default r k = (case buckets r k of None \<Rightarrow> bucket_default | Some b \<Rightarrow> b)"

definition put_slot :: "relay \<Rightarrow> bucket_id \<Rightarrow> bucket \<Rightarrow> relay" where
  "put_slot r k b = r\<lparr>buckets := (buckets r)(k \<mapsto> b)\<rparr>"

definition push ::
  "relay \<Rightarrow> bucket_id \<Rightarrow> string \<Rightarrow> bytes \<Rightarrow> (relay_error, push_outcome) result \<times> relay" where
  "push r k i pl =
     (if length pl > max_payload_bytes (policy r)
      then (Err (PushTooLarge (length pl) (max_payload_bytes (policy r))), r)
      else if length i > max_push_id_bytes (policy r)
      then (Err (PushIdTooLarge (length i) (max_push_id_bytes (policy r))), r)
      else
        let slot = slot_or_default r k; r' = put_slot r k slot in
        if find_by_id slot i = None
           \<and> retained_bytes slot + length pl > max_bucket_bytes (policy r)
        then (Err (BucketQuotaExceeded (bucket_label k) (length pl)
                     (max_bucket_bytes (policy r))), r')
        else if length (entries slot) \<ge> max_bucket_depth (policy r) \<and> find_by_id slot i = None
        then (Err (BucketFull (max_bucket_depth (policy r)) (bucket_label k)), r')
        else
          (case find_by_id slot i of
             Some existing \<Rightarrow>
               if qe_payload existing = pl then (Okay (Duplicate (qe_seq existing)), r')
               else (Err (PushIdCollision i (qe_seq existing)), r')
           | None \<Rightarrow>
               let s = next_seq r;
                   e = \<lparr>qe_seq = s, qe_id = i, qe_payload = pl, qe_tick = tick r,
                        qe_fetched = False\<rparr>
               in (Okay (Pushed s),
                   (put_slot r k (slot\<lparr>entries := entries slot @ [e]\<rparr>))\<lparr>next_seq := s + 1\<rparr>)))"

definition to_item :: "queue_entry \<Rightarrow> fetched_item" where
  "to_item e = \<lparr>item_seq = qe_seq e, item_id = qe_id e, item_payload = qe_payload e\<rparr>"

text \<open>The loop of \<open>fetch\<close> over the deque: entries, items and next cursor so far.\<close>

fun fetch_loop ::
  "nat \<Rightarrow> nat \<Rightarrow> queue_entry list \<Rightarrow> fetched_item list \<Rightarrow> nat
   \<Rightarrow> queue_entry list \<times> fetched_item list \<times> nat \<times> bool" where
  "fetch_loop after limit [] items nc = ([], items, nc, False)"
| "fetch_loop after limit (e # es) items nc =
     (if qe_seq e \<le> after
      then (case fetch_loop after limit es items nc of (es', res) \<Rightarrow> (e # es', res))
      else if length items = limit then (e # es, items, nc, True)
      else (case fetch_loop after limit es
                   (items @ [to_item e]) (qe_seq e)
            of (es', res) \<Rightarrow> (e\<lparr>qe_fetched := True\<rparr> # es', res)))"

definition fetch :: "relay \<Rightarrow> bucket_id \<Rightarrow> nat \<Rightarrow> nat \<Rightarrow> fetch_page \<times> relay" where
  "fetch r k after limit =
     (case buckets r k of
        None \<Rightarrow> (if after > 0 then InvalidCursor after 0 else Entries [] after False, r)
      | Some slot \<Rightarrow>
          if after < compacted_up_to slot then (Compacted (compacted_up_to slot), r)
          else if after > frontier slot then (InvalidCursor after (frontier slot), r)
          else
            (case fetch_loop after limit (entries slot) [] after of
               (es, items, nc, has_more) \<Rightarrow>
                 (Entries items nc has_more,
                  put_slot r k (slot\<lparr>entries := es, cursor := max (max (cursor slot) after) nc\<rparr>))))"

text \<open>The loop of \<open>compact_to\<close>: pops the front while it lies at or below the boundary.\<close>

fun compact_loop :: "nat \<Rightarrow> queue_entry list \<Rightarrow> nat \<Rightarrow> nat \<Rightarrow> queue_entry list \<times> nat \<times> nat" where
  "compact_loop boundary [] payloads nbytes = ([], payloads, nbytes)"
| "compact_loop boundary (e # es) payloads nbytes =
     (if qe_seq e \<le> boundary
      then compact_loop boundary es (payloads + 1) (nbytes + length (qe_payload e))
      else (e # es, payloads, nbytes))"

definition compact_to :: "bucket \<Rightarrow> nat \<Rightarrow> compaction_summary \<times> bucket" where
  "compact_to slot boundary =
     (case compact_loop boundary (entries slot) 0 0 of
        (es, payloads, nbytes) \<Rightarrow>
          let upto = max (compacted_up_to slot) boundary in
          (\<lparr>sum_up_to = upto, sum_payloads = payloads, sum_bytes = nbytes\<rparr>,
           slot\<lparr>entries := es, compacted_up_to := upto,
                compacted_payloads := compacted_payloads slot + payloads,
                compacted_bytes := compacted_bytes slot + nbytes\<rparr>))"

definition compact :: "relay \<Rightarrow> bucket_id \<Rightarrow> compaction_summary \<times> relay" where
  "compact r k =
     (case buckets r k of
        None \<Rightarrow> (\<lparr>sum_up_to = 0, sum_payloads = 0, sum_bytes = 0\<rparr>, r)
      | Some slot \<Rightarrow>
          (case compact_to slot (cursor slot) of (s, slot') \<Rightarrow> (s, put_slot r k slot')))"

text \<open>The retention boundary of one bucket: the largest sequence of its expired prefix.\<close>

definition sweep_boundary :: "relay \<Rightarrow> bucket \<Rightarrow> nat" where
  "sweep_boundary r slot =
     (let expired = takeWhile (\<lambda>e. tick r - qe_tick e > max_age_ticks (policy r)) (entries slot)
      in if expired = [] then compacted_up_to slot else Max (set (map qe_seq expired)))"

fun sweep_expired ::
  "bucket_id list \<Rightarrow> relay \<Rightarrow> (bucket_id \<times> compaction_summary) list \<times> relay" where
  "sweep_expired [] r = ([], r)"
| "sweep_expired (k # ks) r =
     (case buckets r k of
        None \<Rightarrow> sweep_expired ks r
      | Some slot \<Rightarrow>
          (case compact_to slot (sweep_boundary r slot) of
             (s, slot') \<Rightarrow>
               (case sweep_expired ks (put_slot r k slot') of
                  (swept, r') \<Rightarrow> (if sum_payloads s > 0 then (k, s) # swept else swept, r'))))"

definition stats :: "relay \<Rightarrow> bucket_id \<Rightarrow> bucket_stats" where
  "stats r k =
     (case buckets r k of
        None \<Rightarrow> \<lparr>st_pending = 0, st_fetched = 0, st_compacted_payloads = 0,
                st_compacted_bytes = 0, st_compacted_up_to = 0, st_last_seq = 0\<rparr>
      | Some slot \<Rightarrow>
          let n = length (filter qe_fetched (entries slot)) in
          \<lparr>st_pending = length (entries slot) - n, st_fetched = n,
           st_compacted_payloads = compacted_payloads slot,
           st_compacted_bytes = compacted_bytes slot,
           st_compacted_up_to = compacted_up_to slot,
           st_last_seq = (if entries slot = [] then compacted_up_to slot
                          else qe_seq (last (entries slot)))\<rparr>)"

record retained_frame =
  fr_bucket :: bucket_id
  fr_id :: string
  fr_payload :: bytes

definition retained_frames :: "bucket_id list \<Rightarrow> relay \<Rightarrow> retained_frame list" where
  "retained_frames ks r =
     concat (map (\<lambda>k. case buckets r k of
                        None \<Rightarrow> []
                      | Some slot \<Rightarrow>
                          map (\<lambda>e. \<lparr>fr_bucket = k, fr_id = qe_id e, fr_payload = qe_payload e\<rparr>)
                            (entries slot))
              (sort_key bucket_label ks))"

text \<open>A receiver's read loop over any paging source: fetch from the cursor, stop at the first
  page that is empty with nothing after it, otherwise continue from the page's next cursor. This
  is the control flow of \<open>SyncNode::poll\<close> (\<open>crates/altior-core/src/sync/mod.rs\<close>); each round
  spends one unit of fuel, and a page that is not \<open>Entries\<close> ends the loop without a result.\<close>

fun drain ::
  "('m \<Rightarrow> 'k \<Rightarrow> nat \<Rightarrow> nat \<Rightarrow> fetch_page \<times> 'm) \<Rightarrow> nat \<Rightarrow> 'm \<Rightarrow> 'k \<Rightarrow> nat \<Rightarrow> nat
   \<Rightarrow> (fetched_item list \<times> nat) option" where
  "drain ftch 0 m k after limit = None"
| "drain ftch (Suc fuel) m k after limit =
     (case ftch m k after limit of
        (Entries items nc has_more, m') \<Rightarrow>
          if items = [] \<and> \<not> has_more then Some ([], nc)
          else (case drain ftch fuel m' k nc limit of
                  None \<Rightarrow> None
                | Some (rest, fin) \<Rightarrow> Some (items @ rest, fin))
      | _ \<Rightarrow> None)"

inductive relay_step :: "relay \<Rightarrow> relay \<Rightarrow> bool" where
  step_tick: "relay_step r (snd (relay_tick r))"
| step_push: "relay_step r (snd (push r k i pl))"
| step_fetch: "relay_step r (snd (fetch r k after limit))"
| step_compact: "relay_step r (snd (compact r k))"
| step_sweep: "relay_step r (snd (sweep_expired ks r))"

inductive_cases relay_stepE: "relay_step r r'"

text \<open>What every bucket of a running relay satisfies: entries in strictly increasing sequence
  order between the checkpoint and the next sequence, push ids unique, push times in order,
  quotas respected, and the receiver's position within the bucket's frontier.\<close>

definition bucket_ok :: "relay \<Rightarrow> bucket \<Rightarrow> bool" where
  "bucket_ok r b \<longleftrightarrow>
     sorted_wrt (\<lambda>x y. qe_seq x < qe_seq y) (entries b)
   \<and> (\<forall>e\<in>set (entries b). compacted_up_to b < qe_seq e \<and> qe_seq e < next_seq r)
   \<and> compacted_up_to b < next_seq r
   \<and> distinct (map qe_id (entries b))
   \<and> sorted (map qe_tick (entries b)) \<and> (\<forall>e\<in>set (entries b). qe_tick e \<le> tick r)
   \<and> (\<forall>e\<in>set (entries b). length (qe_payload e) \<le> max_payload_bytes (policy r)
                        \<and> length (qe_id e) \<le> max_push_id_bytes (policy r))
   \<and> length (entries b) \<le> max_bucket_depth (policy r)
   \<and> retained_bytes b \<le> max_bucket_bytes (policy r)
   \<and> cursor b \<le> frontier b"

definition relay_ok :: "relay \<Rightarrow> bool" where
  "relay_ok r \<longleftrightarrow> (\<forall>k b. buckets r k = Some b \<longrightarrow> bucket_ok r b) \<and> 0 < next_seq r"

definition relay_start :: "relay \<Rightarrow> bool" where
  "relay_start r \<longleftrightarrow> (\<exists>p. r = relay_new p)"

section \<open>The loops\<close>

definition pending :: "nat \<Rightarrow> queue_entry list \<Rightarrow> queue_entry list" where
  "pending after es = filter (\<lambda>e. after < qe_seq e) es"

lemma pending_simps [simp]:
  "pending a [] = []"
  "pending a (e # es) = (if a < qe_seq e then e # pending a es else pending a es)"
  "pending a (xs @ ys) = pending a xs @ pending a ys"
  by (auto simp: pending_def)

lemma set_pending [simp]: "set (pending a es) = {e \<in> set es. a < qe_seq e}"
  by (auto simp: pending_def)

lemma to_item_sel [simp]:
  "item_seq (to_item e) = qe_seq e" "item_id (to_item e) = qe_id e"
  "item_payload (to_item e) = qe_payload e"
  by (simp_all add: to_item_def)

lemma fetch_loop_result:
  "length items \<le> limit \<Longrightarrow>
   snd (fetch_loop after limit es items nc) =
     (let page = take (limit - length items) (pending after es) in
      (items @ map to_item page,
       if page = [] then nc else qe_seq (last page),
       limit < length items + length (pending after es)))"
proof (induction after limit es items nc rule: fetch_loop.induct)
  case (1 after limit items nc)
  then show ?case by simp
next
  case (2 after limit e es items nc)
  consider (skip) "qe_seq e \<le> after" | (full) "after < qe_seq e" "length items = limit"
    | (more) "after < qe_seq e" "length items < limit"
    using "2.prems" by linarith
  then show ?case
  proof cases
    case skip
    then show ?thesis using "2.IH"(1) "2.prems" by (simp add: split_beta)
  next
    case full
    then show ?thesis by simp
  next
    case more
    let ?items = "items @ [to_item e]"
    have IH: "snd (fetch_loop after limit es ?items (qe_seq e)) =
       (let page = take (limit - length ?items) (pending after es) in
        (?items @ map to_item page, if page = [] then qe_seq e else qe_seq (last page),
         limit < length ?items + length (pending after es)))"
      using more "2.IH"(2) by simp
    have "take (limit - length items) (e # pending after es) =
          e # take (limit - length ?items) (pending after es)"
      using more by (simp add: take_Cons' Suc_diff_Suc)
    then show ?thesis using more IH by (auto simp: split_beta Let_def)
  qed
qed

text \<open>Fetching only sets flags: everything else of an entry stays.\<close>

lemma fetch_loop_frame:
  assumes "fetch_loop after limit es items nc = (es', res)"
  shows "map qe_seq es' = map qe_seq es \<and> map qe_id es' = map qe_id es
    \<and> map qe_payload es' = map qe_payload es \<and> map qe_tick es' = map qe_tick es"
  using assms
  by (induction after limit es items nc arbitrary: es' res rule: fetch_loop.induct)
     (auto split: if_splits prod.splits)

lemma compact_loop_result:
  "compact_loop b es p n =
     (dropWhile (\<lambda>e. qe_seq e \<le> b) es,
      p + length (takeWhile (\<lambda>e. qe_seq e \<le> b) es),
      n + sum_list (map (\<lambda>e. length (qe_payload e)) (takeWhile (\<lambda>e. qe_seq e \<le> b) es)))"
  by (induction b es p n rule: compact_loop.induct) simp_all

lemma compact_to_bucket:
  "snd (compact_to b bd) =
     b\<lparr>entries := dropWhile (\<lambda>e. qe_seq e \<le> bd) (entries b),
       compacted_up_to := max (compacted_up_to b) bd,
       compacted_payloads := compacted_payloads b
         + length (takeWhile (\<lambda>e. qe_seq e \<le> bd) (entries b)),
       compacted_bytes := compacted_bytes b + sum_list (map (\<lambda>e. length (qe_payload e))
         (takeWhile (\<lambda>e. qe_seq e \<le> bd) (entries b)))\<rparr>"
  by (simp add: compact_to_def compact_loop_result Let_def)

section \<open>The invariant\<close>

lemma sorted_wrt_seq_map:
  "sorted_wrt (\<lambda>x y. qe_seq x < qe_seq y) es \<longleftrightarrow> sorted_wrt (<) (map qe_seq es)"
  by (simp add: sorted_wrt_map)

lemma frontier_cong:
  assumes "map qe_seq (entries b') = map qe_seq (entries b)"
    and "compacted_up_to b' = compacted_up_to b"
  shows "frontier b' = frontier b"
proof -
  have "entries b' = [] \<longleftrightarrow> entries b = []" using assms(1) by (metis map_is_Nil_conv)
  moreover have "entries b \<noteq> [] \<Longrightarrow> qe_seq (last (entries b')) = qe_seq (last (entries b))"
    using assms(1) by (metis last_map map_is_Nil_conv)
  ultimately show ?thesis using assms(2) by (simp add: frontier_def)
qed

text \<open>The invariant only looks at sequences, ids, payloads and push times.\<close>

lemma bucket_ok_maps:
  "bucket_ok r b \<longleftrightarrow>
     sorted_wrt (<) (map qe_seq (entries b))
   \<and> (\<forall>x\<in>set (map qe_seq (entries b)). compacted_up_to b < x \<and> x < next_seq r)
   \<and> compacted_up_to b < next_seq r
   \<and> distinct (map qe_id (entries b))
   \<and> sorted (map qe_tick (entries b)) \<and> (\<forall>x\<in>set (map qe_tick (entries b)). x \<le> tick r)
   \<and> (\<forall>x\<in>set (map qe_payload (entries b)). length x \<le> max_payload_bytes (policy r))
   \<and> (\<forall>x\<in>set (map qe_id (entries b)). length x \<le> max_push_id_bytes (policy r))
   \<and> length (map qe_seq (entries b)) \<le> max_bucket_depth (policy r)
   \<and> sum_list (map length (map qe_payload (entries b))) \<le> max_bucket_bytes (policy r)
   \<and> cursor b \<le> frontier b"
  unfolding bucket_ok_def retained_bytes_def sorted_wrt_seq_map
  by (auto simp: comp_def)

lemma bucket_ok_cong:
  assumes "bucket_ok r b"
    and eqs: "map qe_seq (entries b') = map qe_seq (entries b)"
             "map qe_id (entries b') = map qe_id (entries b)"
             "map qe_payload (entries b') = map qe_payload (entries b)"
             "map qe_tick (entries b') = map qe_tick (entries b)"
    and up: "compacted_up_to b' = compacted_up_to b"
    and cur: "cursor b' \<le> frontier b"
  shows "bucket_ok r b'"
  using assms(1) cur frontier_cong[OF eqs(1) up] unfolding bucket_ok_maps eqs up by simp

lemma bucket_ok_mono:
  assumes "bucket_ok r b" "policy r' = policy r" "next_seq r \<le> next_seq r'" "tick r \<le> tick r'"
  shows "bucket_ok r' b"
  using assms unfolding bucket_ok_def by (auto intro: less_le_trans order_trans)

lemma bucket_ok_default: "0 < next_seq r \<Longrightarrow> bucket_ok r bucket_default"
  by (simp add: bucket_ok_def bucket_default_def retained_bytes_def frontier_def)

lemma seq_le_frontier:
  assumes "bucket_ok r b" "e \<in> set (entries b)"
  shows "qe_seq e \<le> frontier b"
proof -
  have "e = last (entries b) \<or> qe_seq e < qe_seq (last (entries b))"
    using sorted_wrt_last[of "\<lambda>x y. qe_seq x < qe_seq y" "entries b" e] assms
    by (simp add: bucket_ok_def)
  then show ?thesis using assms(2) by (auto simp: frontier_def)
qed

lemma compacted_le_frontier: "bucket_ok r b \<Longrightarrow> compacted_up_to b \<le> frontier b"
  by (auto simp: bucket_ok_def frontier_def less_imp_le)

lemma frontier_less_next: "bucket_ok r b \<Longrightarrow> frontier b < next_seq r"
  by (auto simp: bucket_ok_def frontier_def)

lemma relay_okD: "relay_ok r \<Longrightarrow> buckets r k = Some b \<Longrightarrow> bucket_ok r b"
  by (simp add: relay_ok_def)

lemma put_slot_sel [simp]:
  "policy (put_slot r k b) = policy r" "next_seq (put_slot r k b) = next_seq r"
  "tick (put_slot r k b) = tick r" "buckets (put_slot r k b) = (buckets r)(k \<mapsto> b)"
  by (simp_all add: put_slot_def)

lemma relay_ok_mono:
  assumes "relay_ok r" "policy r' = policy r" "next_seq r \<le> next_seq r'" "tick r \<le> tick r'"
    and "buckets r' = buckets r"
  shows "relay_ok r'"
  using assms bucket_ok_mono[of r _ r'] unfolding relay_ok_def by auto

lemma relay_ok_put: "relay_ok r \<Longrightarrow> bucket_ok r b \<Longrightarrow> relay_ok (put_slot r k b)"
  using bucket_ok_mono[of r _ "put_slot r k b"] unfolding relay_ok_def by auto

lemma bucket_ok_slot: "relay_ok r \<Longrightarrow> bucket_ok r (slot_or_default r k)"
  by (auto simp: slot_or_default_def relay_ok_def bucket_ok_default split: option.splits)

lemma relay_ok_tick: "relay_ok r \<Longrightarrow> relay_ok (snd (relay_tick r))"
  by (auto simp: relay_tick_def Let_def elim: relay_ok_mono)

lemma bucket_ok_append:
  assumes ok: "bucket_ok r b" and fresh: "find_by_id b i = None"
    and sizes: "length pl \<le> max_payload_bytes (policy r)" "length i \<le> max_push_id_bytes (policy r)"
    and room: "length (entries b) < max_bucket_depth (policy r)"
              "retained_bytes b + length pl \<le> max_bucket_bytes (policy r)"
    and e: "e = \<lparr>qe_seq = next_seq r, qe_id = i, qe_payload = pl, qe_tick = tick r,
                 qe_fetched = False\<rparr>"
  shows "bucket_ok (r\<lparr>next_seq := next_seq r + 1\<rparr>) (b\<lparr>entries := entries b @ [e]\<rparr>)"
proof -
  have "i \<notin> qe_id ` set (entries b)"
    using fresh by (auto simp: find_by_id_def find_None_iff)
  moreover have "cursor b \<le> next_seq r"
    using ok frontier_less_next[OF ok] unfolding bucket_ok_def by linarith
  ultimately show ?thesis
    using ok sizes room unfolding bucket_ok_def e
    by (auto simp: sorted_wrt_append sorted_append retained_bytes_def frontier_def less_Suc_eq
        dest!: bspec)
qed

lemma relay_ok_push:
  assumes "relay_ok r"
  shows "relay_ok (snd (push r k i pl))"
proof -
  let ?slot = "slot_or_default r k"
  have slot: "bucket_ok r ?slot" using assms by (rule bucket_ok_slot)
  have keep: "relay_ok (put_slot r k ?slot)" using assms slot by (rule relay_ok_put)
  show ?thesis
  proof (cases "length pl > max_payload_bytes (policy r) \<or> length i > max_push_id_bytes (policy r)
      \<or> (find_by_id ?slot i = None \<and> retained_bytes ?slot + length pl > max_bucket_bytes (policy r))
      \<or> (find_by_id ?slot i = None \<and> length (entries ?slot) \<ge> max_bucket_depth (policy r))
      \<or> find_by_id ?slot i \<noteq> None")
    case True
    then show ?thesis using assms keep
      by (auto simp: push_def Let_def split: option.splits)
  next
    case False
    let ?e = "\<lparr>qe_seq = next_seq r, qe_id = i, qe_payload = pl, qe_tick = tick r,
               qe_fetched = False\<rparr>"
    let ?r = "r\<lparr>next_seq := next_seq r + 1\<rparr>"
    have "bucket_ok ?r (?slot\<lparr>entries := entries ?slot @ [?e]\<rparr>)"
      using False by (intro bucket_ok_append[OF slot]) auto
    moreover have "relay_ok ?r"
      using assms by (rule relay_ok_mono) simp_all
    ultimately have "relay_ok (put_slot ?r k (?slot\<lparr>entries := entries ?slot @ [?e]\<rparr>))"
      by (simp add: relay_ok_put)
    moreover have "snd (push r k i pl) = put_slot ?r k (?slot\<lparr>entries := entries ?slot @ [?e]\<rparr>)"
      using False by (auto simp: push_def Let_def put_slot_def)
    ultimately show ?thesis by simp
  qed
qed

lemma fetch_loop_cursor:
  assumes ok: "bucket_ok r b" and "after \<le> frontier b"
    and loop: "fetch_loop after limit (entries b) [] after = (es, items, nc, hm)"
  shows "after \<le> nc \<and> nc \<le> frontier b"
proof -
  let ?page = "take limit (pending after (entries b))"
  have nc: "nc = (if ?page = [] then after else qe_seq (last ?page))"
    using fetch_loop_result[of "[]" limit after "entries b" after] loop by (simp add: Let_def)
  show ?thesis
  proof (cases "?page = []")
    case True
    then show ?thesis using nc assms(2) by simp
  next
    case False
    then have "last ?page \<in> set ?page" by (rule last_in_set)
    then have "last ?page \<in> set (pending after (entries b))" by (rule in_set_takeD)
    then show ?thesis using nc False seq_le_frontier[OF ok] by auto
  qed
qed

lemma relay_ok_fetch:
  assumes "relay_ok r"
  shows "relay_ok (snd (fetch r k after limit))"
proof (cases "buckets r k")
  case None
  then show ?thesis using assms by (simp add: fetch_def)
next
  case (Some b)
  have ok: "bucket_ok r b" using assms Some by (rule relay_okD)
  obtain es items nc hm where
    loop: "fetch_loop after limit (entries b) [] after = (es, items, nc, hm)"
    by (metis prod_cases4)
  show ?thesis
  proof (cases "after < compacted_up_to b \<or> after > frontier b")
    case True
    then show ?thesis using assms Some by (auto simp: fetch_def)
  next
    case False
    let ?b = "b\<lparr>entries := es, cursor := max (max (cursor b) after) nc\<rparr>"
    have "bucket_ok r ?b"
      using fetch_loop_frame[OF loop] fetch_loop_cursor[OF ok _ loop] False ok
      by (intro bucket_ok_cong[OF ok]) (auto simp: bucket_ok_def)
    then have "relay_ok (put_slot r k ?b)" using assms relay_ok_put by blast
    then show ?thesis using Some False loop by (simp add: fetch_def)
  qed
qed

lemma compact_to_frontier:
  assumes ok: "bucket_ok r b" and bd: "bd \<le> frontier b"
  shows "frontier (snd (compact_to b bd)) = frontier b"
proof (cases "dropWhile (\<lambda>e. qe_seq e \<le> bd) (entries b) = []")
  case True
  then have "\<forall>e\<in>set (entries b). qe_seq e \<le> bd" by (simp add: dropWhile_eq_Nil_conv)
  then have "frontier b \<le> max (compacted_up_to b) bd" by (auto simp: frontier_def max.coboundedI2)
  then show ?thesis
    using True bd compacted_le_frontier[OF ok] by (simp add: frontier_def compact_to_bucket)
next
  case False
  then show ?thesis by (auto simp: frontier_def compact_to_bucket last_dropWhile)
qed

lemma bucket_ok_compact_to:
  assumes ok: "bucket_ok r b" and bd: "bd \<le> frontier b"
  shows "bucket_ok r (snd (compact_to b bd))"
proof -
  let ?pre = "takeWhile (\<lambda>e. qe_seq e \<le> bd) (entries b)"
  let ?suf = "dropWhile (\<lambda>e. qe_seq e \<le> bd) (entries b)"
  have split: "entries b = ?pre @ ?suf" by simp
  have "?suf = filter (\<lambda>e. bd < qe_seq e) (entries b)"
    using ok by (intro dropWhile_eq_filter_sorted) (simp add: bucket_ok_def)
  then have above: "\<forall>e\<in>set ?suf. bd < qe_seq e" by simp
  have cur: "cursor (snd (compact_to b bd)) \<le> frontier (snd (compact_to b bd))"
    using ok compact_to_frontier[OF ok bd] by (simp add: bucket_ok_def compact_to_bucket)
  have "bd < next_seq r" using bd frontier_less_next[OF ok] by linarith
  moreover have "sorted_wrt (\<lambda>x y. qe_seq x < qe_seq y) (?pre @ ?suf)"
    "distinct (map qe_id (?pre @ ?suf))" "sorted (map qe_tick (?pre @ ?suf))"
    "length (?pre @ ?suf) \<le> max_bucket_depth (policy r)"
    "sum_list (map (\<lambda>e. length (qe_payload e)) (?pre @ ?suf)) \<le> max_bucket_bytes (policy r)"
    using ok unfolding bucket_ok_def retained_bytes_def split[symmetric] by auto
  ultimately show ?thesis
    using ok above cur unfolding bucket_ok_def retained_bytes_def compact_to_bucket
    by (auto simp: sorted_wrt_append sorted_append simp del: takeWhile_dropWhile_id
        dest: set_dropWhileD)
qed

lemma relay_ok_compact:
  assumes "relay_ok r"
  shows "relay_ok (snd (compact r k))"
proof (cases "buckets r k")
  case None
  then show ?thesis using assms by (simp add: compact_def)
next
  case (Some b)
  then have ok: "bucket_ok r b" using assms by (simp add: relay_ok_def)
  then have "relay_ok (put_slot r k (snd (compact_to b (cursor b))))"
    using assms by (intro relay_ok_put bucket_ok_compact_to) (simp_all add: bucket_ok_def)
  then show ?thesis using Some by (simp add: compact_def split_beta)
qed

lemma sweep_boundary_le: "bucket_ok r b \<Longrightarrow> sweep_boundary r b \<le> frontier b"
  using compacted_le_frontier[of r b] seq_le_frontier[of r b]
  by (auto simp: sweep_boundary_def Let_def dest: set_takeWhileD)

lemma sweep_expired_Some:
  "buckets r k = Some b \<Longrightarrow>
   snd (sweep_expired (k # ks) r) =
     snd (sweep_expired ks (put_slot r k (snd (compact_to b (sweep_boundary r b)))))"
  by (simp add: split_beta)

lemma relay_ok_sweep: "relay_ok r \<Longrightarrow> relay_ok (snd (sweep_expired ks r))"
proof (induction ks arbitrary: r)
  case Nil
  then show ?case by simp
next
  case (Cons k ks)
  show ?case
  proof (cases "buckets r k")
    case None
    then show ?thesis using Cons by simp
  next
    case (Some b)
    then have "bucket_ok r b" using Cons.prems by (simp add: relay_ok_def)
    then have "relay_ok (put_slot r k (snd (compact_to b (sweep_boundary r b))))"
      using Cons.prems sweep_boundary_le by (intro relay_ok_put bucket_ok_compact_to) auto
    then show ?thesis unfolding sweep_expired_Some[OF Some] by (rule Cons.IH)
  qed
qed

lemmas relay_ok_ops = relay_ok_tick relay_ok_push relay_ok_fetch relay_ok_compact relay_ok_sweep

interpretation relay_machine: guarded_machine relay_start relay_step relay_ok
proof unfold_locales
  show "relay_start s \<Longrightarrow> relay_ok s" for s
    by (auto simp: relay_start_def relay_new_def relay_ok_def)
  show "relay_ok s \<Longrightarrow> relay_step s t \<Longrightarrow> relay_ok t" for s t
    by (auto elim!: relay_stepE intro: relay_ok_ops)
qed

section \<open>The interface a receiver relies on\<close>

text \<open>
  What a reader of a paged mailbox needs: within the window between the checkpoint and the
  frontier a page is the next \<open>limit\<close> items in sequence order, its next cursor is the last
  item's sequence, the flag says whether items were left, and reading changes nothing a later
  read can see.
\<close>

locale mailbox =
  fixes ftch :: "'m \<Rightarrow> 'k \<Rightarrow> nat \<Rightarrow> nat \<Rightarrow> fetch_page \<times> 'm"
    and mail_ok :: "'m \<Rightarrow> 'k \<Rightarrow> bool"
    and contents :: "'m \<Rightarrow> 'k \<Rightarrow> fetched_item list"
    and low :: "'m \<Rightarrow> 'k \<Rightarrow> nat"
    and high :: "'m \<Rightarrow> 'k \<Rightarrow> nat"
  assumes contents_sorted: "mail_ok m k \<Longrightarrow> sorted_wrt (\<lambda>x y. item_seq x < item_seq y) (contents m k)"
    and contents_high: "mail_ok m k \<Longrightarrow> i \<in> set (contents m k) \<Longrightarrow> item_seq i \<le> high m k"
    and page: "mail_ok m k \<Longrightarrow> low m k \<le> after \<Longrightarrow> after \<le> high m k \<Longrightarrow>
        fst (ftch m k after limit) =
          (let todo = filter (\<lambda>i. after < item_seq i) (contents m k); now = take limit todo in
           Entries now (if now = [] then after else item_seq (last now)) (limit < length todo))"
    and read_only: "mail_ok m k \<Longrightarrow> low m k \<le> after \<Longrightarrow> after \<le> high m k \<Longrightarrow>
        mail_ok (snd (ftch m k after limit)) k
      \<and> contents (snd (ftch m k after limit)) k = contents m k
      \<and> low (snd (ftch m k after limit)) k = low m k
      \<and> high (snd (ftch m k after limit)) k = high m k"
begin

text \<open>The items after the last one of a page are the items the page left out.\<close>

lemma rest_after_page:
  assumes "mail_ok m k" and now: "now = take limit (filter (\<lambda>i. a < item_seq i) (contents m k))"
    and "now \<noteq> []"
  shows "filter (\<lambda>i. item_seq (last now) < item_seq i) (contents m k)
       = drop limit (filter (\<lambda>i. a < item_seq i) (contents m k))"
proof -
  let ?todo = "filter (\<lambda>i. a < item_seq i) (contents m k)"
  have sorted: "sorted_wrt (\<lambda>x y. item_seq x < item_seq y) (now @ drop limit ?todo)"
    using contents_sorted[OF assms(1)] sorted_wrt_filter now by (metis append_take_drop_id)
  have "last now \<in> set now" using \<open>now \<noteq> []\<close> by simp
  then have a: "a < item_seq (last now)" unfolding now by (metis (mono_tags) filter_set
        in_set_takeD mem_Collect_eq set_filter)
  have low: "\<forall>i\<in>set now. item_seq i \<le> item_seq (last now)"
    using sorted sorted_wrt_last[of _ now] by (fastforce simp: sorted_wrt_append)
  have high: "\<forall>i\<in>set (drop limit ?todo). item_seq (last now) < item_seq i"
    using sorted \<open>last now \<in> set now\<close> by (auto simp: sorted_wrt_append)
  have "filter (\<lambda>i. item_seq (last now) < item_seq i) (contents m k)
      = filter (\<lambda>i. item_seq (last now) < item_seq i) ?todo"
    using a by (auto simp: filter_filter intro!: filter_cong)
  also have "\<dots> = filter (\<lambda>i. item_seq (last now) < item_seq i) (now @ drop limit ?todo)"
    unfolding now by simp
  also have "\<dots> = drop limit ?todo"
    using low high by (simp add: filter_empty_conv filter_id_conv not_less)
  finally show ?thesis .
qed

text \<open>With a positive page size the read loop ends and returns every pending item once, in
  order; fuel for one round per pending item and one more is enough.\<close>

lemma drain_complete:
  assumes "mail_ok m k" "low m k \<le> after" "after \<le> high m k" "0 < limit"
    and "length (filter (\<lambda>i. after < item_seq i) (contents m k)) < fuel"
  shows "\<exists>fin. drain ftch fuel m k after limit =
           Some (filter (\<lambda>i. after < item_seq i) (contents m k), fin) \<and> after \<le> fin \<and> fin \<le> high m k"
  using assms
proof (induction fuel arbitrary: m after)
  case 0
  then show ?case by simp
next
  case (Suc fuel)
  let ?todo = "filter (\<lambda>i. after < item_seq i) (contents m k)"
  let ?now = "take limit ?todo"
  obtain m' where m': "m' = snd (ftch m k after limit)" by simp
  have keep: "mail_ok m' k" "contents m' k = contents m k" "low m' k = low m k" "high m' k = high m k"
    using read_only[OF Suc.prems(1-3)] unfolding m' by blast+
  have f: "ftch m k after limit =
      (Entries ?now (if ?now = [] then after else item_seq (last ?now)) (limit < length ?todo), m')"
    using page[OF Suc.prems(1-3), of limit] unfolding m' by (metis (no_types, lifting) prod.collapse)
  show ?case
  proof (cases "?todo = []")
    case True
    then have f0: "ftch m k after limit = (Entries [] after False, m')" using f Suc.prems(4) by simp
    have "drain ftch (Suc fuel) m k after limit = Some ([], after)" by (simp add: f0)
    then show ?thesis using True Suc.prems(3) by auto
  next
    case False
    then have now: "?now \<noteq> []" using Suc.prems(4) by simp
    let ?nc = "item_seq (last ?now)"
    have "last ?now \<in> set ?todo" using now by (meson in_set_takeD last_in_set)
    then have nc: "after < ?nc" "?nc \<le> high m k" using contents_high[OF Suc.prems(1)] by auto
    have rest: "filter (\<lambda>i. ?nc < item_seq i) (contents m' k) = drop limit ?todo"
      unfolding keep using rest_after_page[OF Suc.prems(1) refl now] .
    have "length (drop limit ?todo) < fuel"
      using Suc.prems(4,5) False by (cases ?todo) auto
    then obtain fin where fin: "drain ftch fuel m' k ?nc limit = Some (drop limit ?todo, fin)"
        "?nc \<le> fin" "fin \<le> high m k"
      using Suc.IH[of m' ?nc] keep nc Suc.prems(2,4) rest by auto
    have f1: "ftch m k after limit = (Entries ?now ?nc (limit < length ?todo), m')"
      using f now by simp
    have "drain ftch (Suc fuel) m k after limit = Some (?now @ drop limit ?todo, fin)"
      using now by (simp add: f1 fin(1) del: append_take_drop_id)
    then show ?thesis using fin(2,3) nc(1) by auto
  qed
qed

end

text \<open>The relay's view of one bucket: retained items, checkpoint, frontier; an unknown bucket
  reads as an empty one.\<close>

definition retained :: "relay \<Rightarrow> bucket_id \<Rightarrow> fetched_item list" where
  "retained r k = (case buckets r k of None \<Rightarrow> [] | Some b \<Rightarrow> map to_item (entries b))"

definition checkpoint :: "relay \<Rightarrow> bucket_id \<Rightarrow> nat" where
  "checkpoint r k = (case buckets r k of None \<Rightarrow> 0 | Some b \<Rightarrow> compacted_up_to b)"

definition head_seq :: "relay \<Rightarrow> bucket_id \<Rightarrow> nat" where
  "head_seq r k = (case buckets r k of None \<Rightarrow> 0 | Some b \<Rightarrow> frontier b)"

lemma map_to_item_eq:
  assumes "map qe_seq es' = map qe_seq es" "map qe_id es' = map qe_id es"
    and "map qe_payload es' = map qe_payload es"
  shows "map to_item es' = map to_item es"
proof (rule nth_equalityI)
  show len: "length (map to_item es') = length (map to_item es)" using assms(1) by (metis length_map)
  fix i assume "i < length (map to_item es')"
  then have i: "i < length es'" "i < length es" using len by simp_all
  have "qe_seq (es' ! i) = qe_seq (es ! i)" "qe_id (es' ! i) = qe_id (es ! i)"
    "qe_payload (es' ! i) = qe_payload (es ! i)"
    using assms i by (metis nth_map)+
  then show "map to_item es' ! i = map to_item es ! i" using i by (simp add: to_item_def)
qed

lemma pending_items: "filter (\<lambda>i. a < item_seq i) (map to_item es) = map to_item (pending a es)"
  by (simp add: pending_def filter_map comp_def)

lemma fetch_in_window:
  assumes "buckets r k = Some b" "compacted_up_to b \<le> after" "after \<le> frontier b"
  obtains es where
    "fetch r k after limit =
       (let now = take limit (pending after (entries b));
            nc = (if now = [] then after else qe_seq (last now)) in
        (Entries (map to_item now) nc (limit < length (pending after (entries b))),
         put_slot r k (b\<lparr>entries := es, cursor := max (max (cursor b) after) nc\<rparr>)))"
    "map to_item es = map to_item (entries b)" "map qe_seq es = map qe_seq (entries b)"
proof -
  obtain es items nc hm where loop: "fetch_loop after limit (entries b) [] after = (es, items, nc, hm)"
    by (metis prod_cases4)
  have "map to_item es = map to_item (entries b)" "map qe_seq es = map qe_seq (entries b)"
    using fetch_loop_frame[OF loop] map_to_item_eq[of es "entries b"] by auto
  moreover have "(items, nc, hm) =
     (let now = take limit (pending after (entries b)) in
      (map to_item now, if now = [] then after else qe_seq (last now),
       limit < length (pending after (entries b))))"
    using fetch_loop_result[of "[]" limit after "entries b" after] loop by simp
  ultimately show thesis using assms loop by (intro that[of es]) (auto simp: fetch_def Let_def)
qed

interpretation relay_mail: mailbox fetch "\<lambda>r k. relay_ok r" retained checkpoint head_seq
proof unfold_locales
  fix r k after limit
  assume ok: "relay_ok r"
  show "sorted_wrt (\<lambda>x y. item_seq x < item_seq y) (retained r k)"
    using ok by (auto simp: retained_def relay_ok_def bucket_ok_def sorted_wrt_map split: option.splits)
  show "item_seq i \<le> head_seq r k" if "i \<in> set (retained r k)" for i
    using that by (auto simp: retained_def head_seq_def intro: seq_le_frontier[OF relay_okD[OF ok]]
        split: option.splits)
  assume win: "checkpoint r k \<le> after" "after \<le> head_seq r k"
  show "fst (fetch r k after limit) =
      (let todo = filter (\<lambda>i. after < item_seq i) (retained r k); now = take limit todo in
       Entries now (if now = [] then after else item_seq (last now)) (limit < length todo))"
  proof (cases "buckets r k")
    case None
    then show ?thesis using win by (simp add: fetch_def retained_def head_seq_def)
  next
    case (Some b)
    then have w: "compacted_up_to b \<le> after" "after \<le> frontier b"
      using win by (simp_all add: checkpoint_def head_seq_def)
    show ?thesis
      by (rule fetch_in_window[OF Some w, of limit])
         (simp add: Some retained_def pending_items take_map last_map Let_def)
  qed
  show "relay_ok (snd (fetch r k after limit))
      \<and> retained (snd (fetch r k after limit)) k = retained r k
      \<and> checkpoint (snd (fetch r k after limit)) k = checkpoint r k
      \<and> head_seq (snd (fetch r k after limit)) k = head_seq r k"
  proof (cases "buckets r k")
    case None
    then show ?thesis using ok by (simp add: fetch_def)
  next
    case (Some b)
    then have w: "compacted_up_to b \<le> after" "after \<le> frontier b"
      using win by (simp_all add: checkpoint_def head_seq_def)
    show ?thesis
    proof (rule fetch_in_window[OF Some w, of limit])
      fix es
      assume "fetch r k after limit =
         (let now = take limit (pending after (entries b));
              nc = (if now = [] then after else qe_seq (last now)) in
          (Entries (map to_item now) nc (limit < length (pending after (entries b))),
           put_slot r k (b\<lparr>entries := es, cursor := max (max (cursor b) after) nc\<rparr>)))"
        and "map to_item es = map to_item (entries b)" "map qe_seq es = map qe_seq (entries b)"
      then show ?thesis
        using Some relay_ok_fetch[OF ok, of k after limit]
        by (auto simp: retained_def checkpoint_def head_seq_def Let_def intro: frontier_cong)
    qed
  qed
qed

section \<open>Pushing\<close>

text \<open>When a push is accepted: it passes the size checks, its id is not retained, and the bucket
  has room; the entry is appended under the next sequence.\<close>

lemma push_Pushed_iff:
  "fst (push r k i pl) = Okay (Pushed s) \<longleftrightarrow>
     s = next_seq r
   \<and> length pl \<le> max_payload_bytes (policy r) \<and> length i \<le> max_push_id_bytes (policy r)
   \<and> find_by_id (slot_or_default r k) i = None
   \<and> retained_bytes (slot_or_default r k) + length pl \<le> max_bucket_bytes (policy r)
   \<and> length (entries (slot_or_default r k)) < max_bucket_depth (policy r)"
  by (auto simp: push_def Let_def split: option.splits)

lemma push_Pushed_state:
  assumes "fst (push r k i pl) = Okay (Pushed s)"
  shows "snd (push r k i pl) =
     (put_slot r k ((slot_or_default r k)\<lparr>entries := entries (slot_or_default r k) @
        [\<lparr>qe_seq = s, qe_id = i, qe_payload = pl, qe_tick = tick r, qe_fetched = False\<rparr>]\<rparr>))
     \<lparr>next_seq := s + 1\<rparr>"
  using assms unfolding push_Pushed_iff by (auto simp: push_def Let_def)

lemma retained_slot: "retained r k = map to_item (entries (slot_or_default r k))"
  by (simp add: retained_def slot_or_default_def bucket_default_def split: option.splits)

lemma retained_below_next:
  assumes "relay_ok r" "it \<in> set (retained r k)"
  shows "item_seq it < next_seq r"
proof (cases "buckets r k")
  case (Some b)
  then have "bucket_ok r b" using assms(1) by (simp add: relay_ok_def)
  then show ?thesis using assms(2) Some by (auto simp: retained_def bucket_ok_def)
qed (use assms(2) in \<open>simp add: retained_def\<close>)

lemma push_Pushed_find:
  assumes "fst (push r k i pl) = Okay (Pushed s)"
  shows "find_by_id (slot_or_default (snd (push r k i pl)) k) i =
      Some \<lparr>qe_seq = s, qe_id = i, qe_payload = pl, qe_tick = tick r, qe_fetched = False\<rparr>"
  using assms unfolding push_Pushed_state[OF assms] push_Pushed_iff
  by (simp add: slot_or_default_def find_by_id_def find_append_None)

text \<open>A push whose id is retained never queues anything.\<close>

lemma push_known_id:
  assumes "buckets r k \<noteq> None" "find_by_id (slot_or_default r k) i = Some e"
  shows "push r k i pl =
    (if length pl > max_payload_bytes (policy r)
     then Err (PushTooLarge (length pl) (max_payload_bytes (policy r)))
     else if length i > max_push_id_bytes (policy r)
     then Err (PushIdTooLarge (length i) (max_push_id_bytes (policy r)))
     else if qe_payload e = pl then Okay (Duplicate (qe_seq e))
     else Err (PushIdCollision i (qe_seq e)), r)"
proof -
  have "put_slot r k (slot_or_default r k) = r"
    using assms(1) by (auto simp: put_slot_def slot_or_default_def fun_upd_idem)
  then show ?thesis using assms(2) by (simp add: push_def Let_def)
qed

section \<open>Compaction and retention\<close>

lemma pending_dropWhile:
  "bd \<le> a \<Longrightarrow> pending a (dropWhile (\<lambda>e. qe_seq e \<le> bd) es) = pending a es"
  by (induction es) auto

lemma fetch_page_compacted:
  assumes "bucket_ok r b" "buckets r k = Some b" "bd \<le> frontier b"
    and "buckets r' k = Some (snd (compact_to b bd))"
  shows "fst (fetch r' k after limit) =
    (if after < max (compacted_up_to b) bd then Compacted (max (compacted_up_to b) bd)
     else fst (fetch r k after limit))"
proof -
  let ?b = "snd (compact_to b bd)"
  have fr: "frontier ?b = frontier b" using assms(1,3) by (rule compact_to_frontier)
  have up: "compacted_up_to ?b = max (compacted_up_to b) bd" by (simp add: compact_to_bucket)
  show ?thesis
  proof (cases "after < max (compacted_up_to b) bd \<or> frontier b < after")
    case True
    then show ?thesis using assms(2,4) fr up by (auto simp: fetch_def)
  next
    case False
    then have w: "compacted_up_to b \<le> after" "after \<le> frontier b"
      and w': "compacted_up_to ?b \<le> after" "after \<le> frontier ?b" using fr up by auto
    have "bd \<le> after" using False by auto
    then have "pending after (entries ?b) = pending after (entries b)"
      by (simp add: compact_to_bucket pending_dropWhile)
    then have "fst (fetch r' k after limit) = fst (fetch r k after limit)"
      by - (rule fetch_in_window[OF assms(2) w, of limit],
            rule fetch_in_window[OF assms(4) w', of limit], simp add: Let_def)
    then show ?thesis using False by simp
  qed
qed

lemma sweep_boundary_put [simp]: "sweep_boundary (put_slot r k b) b' = sweep_boundary r b'"
  by (simp add: sweep_boundary_def)

lemma sweep_frame [simp]:
  "policy (snd (sweep_expired ks r)) = policy r" "next_seq (snd (sweep_expired ks r)) = next_seq r"
  "tick (snd (sweep_expired ks r)) = tick r"
  by (induction ks arbitrary: r) (auto simp: split_beta split: option.splits)

text \<open>A sweep compacts each bucket of its key list to that bucket's own boundary.\<close>

lemma sweep_buckets:
  "distinct ks \<Longrightarrow> buckets (snd (sweep_expired ks r)) k =
     (if k \<in> set ks then map_option (\<lambda>b. snd (compact_to b (sweep_boundary r b))) (buckets r k)
      else buckets r k)"
proof (induction ks arbitrary: r)
  case Nil
  then show ?case by simp
next
  case (Cons k' ks)
  show ?case
  proof (cases "buckets r k'")
    case None
    then show ?thesis using Cons by auto
  next
    case (Some b)
    show ?thesis
      unfolding sweep_expired_Some[OF Some] using Cons Some by auto
  qed
qed

text \<open>The report of a sweep: one summary per bucket that lost entries, in the order of the keys.\<close>

lemma sweep_report:
  "distinct ks \<Longrightarrow> fst (sweep_expired ks r) =
     concat (map (\<lambda>k. case buckets r k of None \<Rightarrow> []
        | Some b \<Rightarrow> let s = fst (compact_to b (sweep_boundary r b)) in
                    if sum_payloads s > 0 then [(k, s)] else []) ks)"
proof (induction ks arbitrary: r)
  case Nil
  then show ?case by simp
next
  case (Cons k ks)
  show ?case
  proof (cases "buckets r k")
    case None
    then show ?thesis using Cons by simp
  next
    case (Some b)
    obtain s b' where c: "compact_to b (sweep_boundary r b) = (s, b')" by fastforce
    have "concat (map (\<lambda>ka. case buckets (put_slot r k b') ka of None \<Rightarrow> []
          | Some b \<Rightarrow> let s = fst (compact_to b (sweep_boundary (put_slot r k b') b)) in
                      if sum_payloads s > 0 then [(ka, s)] else []) ks)
       = concat (map (\<lambda>ka. case buckets r ka of None \<Rightarrow> []
          | Some b \<Rightarrow> let s = fst (compact_to b (sweep_boundary r b)) in
                      if sum_payloads s > 0 then [(ka, s)] else []) ks)"
      using Cons.prems by (intro arg_cong[where f = concat] map_cong refl) (auto split: option.split)
    then show ?thesis using Cons.IH[of "put_slot r k b'"] Cons.prems Some c
      by (simp add: split_beta Let_def)
  qed
qed

section \<open>Sample states\<close>

definition sample_bucket :: bucket_id where
  "sample_bucket = BucketId ''inbox''"

definition relay_sample :: relay where
  "relay_sample = snd (push (snd (push (relay_new policy_permissive) sample_bucket ''a'' [7]))
     sample_bucket ''b'' [8, 9])"

definition sample_slot :: bucket where
  "sample_slot = \<lparr>entries = [\<lparr>qe_seq = 1, qe_id = ''a'', qe_payload = [7], qe_tick = 0,
       qe_fetched = False\<rparr>, \<lparr>qe_seq = 2, qe_id = ''b'', qe_payload = [8, 9], qe_tick = 0,
       qe_fetched = False\<rparr>],
     compacted_up_to = 0, cursor = 0, compacted_payloads = 0, compacted_bytes = 0\<rparr>"

definition relay_read :: relay where
  "relay_read = snd (fetch relay_sample sample_bucket 0 1)"

definition read_slot :: bucket where
  "read_slot = sample_slot\<lparr>entries := [\<lparr>qe_seq = 1, qe_id = ''a'', qe_payload = [7], qe_tick = 0,
       qe_fetched = True\<rparr>, \<lparr>qe_seq = 2, qe_id = ''b'', qe_payload = [8, 9], qe_tick = 0,
       qe_fetched = False\<rparr>], cursor := 1\<rparr>"

definition relay_aged :: relay where
  "relay_aged = relay_sample\<lparr>tick := 1001\<rparr>"

lemma relay_sample_eq:
  "relay_sample = \<lparr>policy = policy_permissive, buckets = [sample_bucket \<mapsto> sample_slot],
     next_seq = 3, tick = 0\<rparr>"
  by (simp add: relay_sample_def push_def relay_new_def policy_permissive_def slot_or_default_def
      bucket_default_def find_by_id_def retained_bytes_def put_slot_def sample_slot_def numeral_2_eq_2 numeral_3_eq_3)

lemma relay_sample_slot: "buckets relay_sample sample_bucket = Some sample_slot"
  by (simp add: relay_sample_eq)

lemma relay_sample_policy: "policy relay_sample = policy_permissive"
  by (simp add: relay_sample_eq)

lemma relay_read_slot: "buckets relay_read sample_bucket = Some read_slot"
  by (simp add: relay_read_def fetch_def relay_sample_slot sample_slot_def frontier_def
      read_slot_def to_item_def)

lemma reach_relay_sample: "reach relay_start relay_step relay_sample"
proof -
  have "reach relay_start relay_step (relay_new policy_permissive)"
    by (rule reach_start) (auto simp: relay_start_def)
  note one = reach_move[OF this step_push]
  show ?thesis unfolding relay_sample_def by (rule reach_move[OF one step_push])
qed

lemma reach_relay_read: "reach relay_start relay_step relay_read"
  unfolding relay_read_def by (rule reach_move[OF reach_relay_sample step_fetch])

lemma reach_ticks: "reach relay_start relay_step r \<Longrightarrow> reach relay_start relay_step (r\<lparr>tick := tick r + n\<rparr>)"
proof (induction n)
  case (Suc n)
  have "snd (relay_tick (r\<lparr>tick := tick r + n\<rparr>)) = r\<lparr>tick := tick r + Suc n\<rparr>"
    by (simp add: relay_tick_def)
  then show ?case using reach_move[OF Suc.IH[OF Suc.prems] step_tick] by simp
qed simp

lemma reach_relay_aged: "reach relay_start relay_step relay_aged"
  using reach_ticks[OF reach_relay_sample, of 1001] by (simp add: relay_aged_def relay_sample_eq)

section \<open>Properties\<close>

text \<open>C1: In every state a relay can reach by ticks, pushes, fetches, compactions and sweeps, each
  bucket is within its quotas (depth, payload bytes, payload and id sizes), holds its entries in
  strictly increasing sequence order above its checkpoint with distinct push ids, and has not
  recorded a receiver position beyond its frontier.\<close>

theorem relay_reachable_invariant:
  assumes "reach relay_start relay_step r" "buckets r k = Some b"
  shows "length (entries b) \<le> max_bucket_depth (policy r)
       \<and> retained_bytes b \<le> max_bucket_bytes (policy r)
       \<and> (\<forall>e\<in>set (entries b). length (qe_payload e) \<le> max_payload_bytes (policy r)
            \<and> length (qe_id e) \<le> max_push_id_bytes (policy r)
            \<and> compacted_up_to b < qe_seq e \<and> qe_seq e < next_seq r)
       \<and> sorted_wrt (\<lambda>x y. qe_seq x < qe_seq y) (entries b)
       \<and> distinct (map qe_id (entries b))
       \<and> cursor b \<le> frontier b"
  using relay_okD[OF relay_machine.reach_good[OF assms(1)] assms(2)] by (simp add: bucket_ok_def)


theorem relay_reachable_invariant_witness:
  "length (entries (the (buckets relay_sample sample_bucket))) = 2
   \<and> retained_bytes (the (buckets relay_sample sample_bucket)) \<le> 64 * 1024 * 1024"
proof -
  have "reach relay_start relay_step relay_sample" by (rule reach_relay_sample)
  moreover have "buckets relay_sample sample_bucket = Some sample_slot" by (rule relay_sample_slot)
  ultimately show ?thesis
    using relay_reachable_invariant[of relay_sample sample_bucket sample_slot]
    by (simp add: relay_sample_policy policy_permissive_def sample_slot_def)
qed

text \<open>C2: From any cursor between a bucket's checkpoint and its frontier, with a positive page
  size, the paging loop of the receiver terminates and returns exactly the retained entries after
  the cursor, each once, in sequence order and byte for byte; one round of fuel per pending entry
  and one more is enough.\<close>

theorem relay_drain_complete:
  assumes "reach relay_start relay_step r" "buckets r k = Some b"
    and "compacted_up_to b \<le> after" "after \<le> frontier b" "0 < limit"
    and "length (filter (\<lambda>e. after < qe_seq e) (entries b)) < fuel"
  shows "\<exists>fin. drain fetch fuel r k after limit =
       Some (map (\<lambda>e. \<lparr>item_seq = qe_seq e, item_id = qe_id e, item_payload = qe_payload e\<rparr>)
               (filter (\<lambda>e. after < qe_seq e) (entries b)), fin)
     \<and> after \<le> fin \<and> fin \<le> frontier b"
proof -
  have ok: "relay_ok r" using assms(1) by (rule relay_machine.reach_good)
  have items: "filter (\<lambda>i. after < item_seq i) (retained r k)
      = map (\<lambda>e. \<lparr>item_seq = qe_seq e, item_id = qe_id e, item_payload = qe_payload e\<rparr>)
          (filter (\<lambda>e. after < qe_seq e) (entries b))"
    by (simp add: retained_def assms(2) to_item_def[abs_def] filter_map comp_def)
  show ?thesis
    using relay_mail.drain_complete[OF ok, of k after limit fuel] assms(2-)
    unfolding items by (simp add: checkpoint_def head_seq_def)
qed

theorem relay_drain_complete_witness:
  "\<exists>fin. drain fetch 3 relay_sample sample_bucket 0 1 =
     Some ([\<lparr>item_seq = 1, item_id = ''a'', item_payload = [7]\<rparr>,
            \<lparr>item_seq = 2, item_id = ''b'', item_payload = [8, 9]\<rparr>], fin)"
  using relay_drain_complete[OF reach_relay_sample relay_sample_slot, of 0 1 3]
  by (auto simp: sample_slot_def frontier_def)

text \<open>C5: Compacting a bucket removes exactly what its receiver has fetched. The entries up to the receiver's fetch cursor
  are removed and counted, every entry beyond it is kept in order, no other bucket changes, and for every cursor from the
  reported boundary on and any page size a fetch returns the same page before and after.\<close>

theorem compact_preserves_fetch:
  assumes "reach relay_start relay_step r" "buckets r k = Some b"
  shows "(\<exists>b'. buckets (snd (compact r k)) k = Some b' \<and> entries b' = filter (\<lambda>e. cursor b < qe_seq e) (entries b))
    \<and> sum_payloads (fst (compact r k)) = length (filter (\<lambda>e. qe_seq e \<le> cursor b) (entries b))
    \<and> (\<forall>k'. k' \<noteq> k \<longrightarrow> buckets (snd (compact r k)) k' = buckets r k')
    \<and> (\<forall>after limit. sum_up_to (fst (compact r k)) \<le> after \<longrightarrow>
         fst (fetch (snd (compact r k)) k after limit) = fst (fetch r k after limit))"
proof -
  have ok: "bucket_ok r b" using relay_machine.reach_good[OF assms(1)] assms(2) by (rule relay_okD)
  then have le: "cursor b \<le> frontier b" and srt: "sorted_wrt (\<lambda>x y. qe_seq x < qe_seq y) (entries b)"
    by (simp_all add: bucket_ok_def sorted_wrt_map)
  have c: "buckets (snd (compact r k)) k = Some (snd (compact_to b (cursor b)))"
    "fst (compact r k) = fst (compact_to b (cursor b))" "k' \<noteq> k \<Longrightarrow> buckets (snd (compact r k)) k' = buckets r k'" for k'
    using assms(2) by (simp_all add: compact_def split_beta put_slot_def)
  have keep: "entries (snd (compact_to b (cursor b))) = filter (\<lambda>e. cursor b < qe_seq e) (entries b)"
    using dropWhile_eq_filter_sorted[OF srt, of "cursor b"] by (simp add: compact_to_bucket)
  have "sorted_wrt (\<lambda>x y. qe_seq x < qe_seq y) es \<Longrightarrow>
      takeWhile (\<lambda>e. qe_seq e \<le> c) es = filter (\<lambda>e. qe_seq e \<le> c) es" for es c
    by (induction es) (auto simp: empty_filter_conv)
  note taken = this[OF srt, of "cursor b"]
  have count: "sum_payloads (fst (compact_to b (cursor b))) = length (filter (\<lambda>e. qe_seq e \<le> cursor b) (entries b))"
    using taken by (simp add: compact_to_def compact_loop_result Let_def)
  have "sum_up_to (fst (compact r k)) = max (compacted_up_to b) (cursor b)"
    by (simp add: c compact_to_def Let_def split_beta)
  then have "fst (fetch (snd (compact r k)) k after limit) = fst (fetch r k after limit)"
    if "sum_up_to (fst (compact r k)) \<le> after" for after limit
    using fetch_page_compacted[OF ok assms(2) le c(1), of after limit] that by simp
  then show ?thesis using c keep count by auto
qed

theorem compact_preserves_fetch_witness:
  "(\<exists>b'. buckets (snd (compact relay_read sample_bucket)) sample_bucket = Some b'
      \<and> entries b' = filter (\<lambda>e. 1 < qe_seq e) (entries read_slot))
   \<and> sum_payloads (fst (compact relay_read sample_bucket)) = 1
   \<and> fst (fetch (snd (compact relay_read sample_bucket)) sample_bucket 1 5)
     = fst (fetch relay_read sample_bucket 1 5)"
proof -
  have "cursor read_slot = 1" "sum_up_to (fst (compact relay_read sample_bucket)) = 1"
    "length (filter (\<lambda>e. qe_seq e \<le> 1) (entries read_slot)) = 1"
    by (simp_all add: compact_def relay_read_slot read_slot_def sample_slot_def compact_to_def Let_def)
  then show ?thesis using compact_preserves_fetch[OF reach_relay_read relay_read_slot] by simp
qed

text \<open>C6: Retention never loses mail silently: after a sweep over all buckets (in whatever order the
  hash map yields them), a fetch from any cursor either returns exactly the page it returned before
  the sweep, or the explicit \<open>Compacted\<close> page whose boundary lies beyond the cursor.\<close>

theorem sweep_never_loses_silently:
  assumes "reach relay_start relay_step r" "distinct ks"
  shows "fst (fetch (snd (sweep_expired ks r)) k after limit) = fst (fetch r k after limit)
       \<or> (\<exists>c > after. fst (fetch (snd (sweep_expired ks r)) k after limit) = Compacted c)"
proof (cases "k \<in> set ks \<and> buckets r k \<noteq> None")
  case True
  then obtain b where b: "buckets r k = Some b" by blast
  have ok: "bucket_ok r b" using relay_machine.reach_good[OF assms(1)] b by (rule relay_okD)
  have "buckets (snd (sweep_expired ks r)) k = Some (snd (compact_to b (sweep_boundary r b)))"
    using sweep_buckets[OF assms(2)] True b by simp
  then show ?thesis
    using fetch_page_compacted[OF ok b sweep_boundary_le[OF ok]] by auto
next
  case False
  then have "buckets (snd (sweep_expired ks r)) k = buckets r k"
    using sweep_buckets[OF assms(2)] by auto
  then show ?thesis by (auto simp: fetch_def split: option.splits prod.splits)
qed

theorem sweep_never_loses_silently_witness:
  "fst (fetch (snd (sweep_expired [sample_bucket] relay_aged)) sample_bucket 0 5) = Compacted 2
   \<and> (\<exists>c > 0. fst (fetch (snd (sweep_expired [sample_bucket] relay_aged)) sample_bucket 0 5)
              = Compacted c)"
proof -
  have "fst (fetch (snd (sweep_expired [sample_bucket] relay_aged)) sample_bucket 0 5) = Compacted 2"
    by (simp add: relay_aged_def relay_sample_slot sample_slot_def sweep_boundary_def
        compact_to_def fetch_def relay_sample_policy policy_permissive_def)
  then show ?thesis
    using sweep_never_loses_silently[OF reach_relay_aged, of "[sample_bucket]" sample_bucket 0 5] by simp
qed

text \<open>An accepted push appends exactly one entry with the pushed bytes to the named bucket, under a
  sequence above everything retained anywhere, touches no other bucket, and makes the push
  idempotent: repeating it returns the original receipt and changes nothing, and reusing the id
  for other bytes is refused without any change.\<close>

theorem push_idempotent:
  assumes "reach relay_start relay_step r"
    and "push r k i pl = (Okay (Pushed s), r')"
  shows "retained r' k = retained r k @ [\<lparr>item_seq = s, item_id = i, item_payload = pl\<rparr>]
       \<and> (\<forall>k'. k' \<noteq> k \<longrightarrow> buckets r' k' = buckets r k')
       \<and> (\<forall>k' it. it \<in> set (retained r k') \<longrightarrow> item_seq it < s)
       \<and> push r' k i pl = (Okay (Duplicate s), r')
       \<and> (\<forall>pl'. pl' \<noteq> pl \<longrightarrow> snd (push r' k i pl') = r' \<and> (\<exists>e. fst (push r' k i pl') = Err e))"
proof -
  have fst: "fst (push r k i pl) = Okay (Pushed s)" and r': "r' = snd (push r k i pl)"
    using assms(2) by simp_all
  note st = push_Pushed_state[OF fst, folded r'] and acc = fst[unfolded push_Pushed_iff]
  have found: "find_by_id (slot_or_default r' k) i =
      Some \<lparr>qe_seq = s, qe_id = i, qe_payload = pl, qe_tick = tick r, qe_fetched = False\<rparr>"
    using push_Pushed_find[OF fst] r' by simp
  have slot: "buckets r' k \<noteq> None" and pol: "policy r' = policy r" by (simp_all add: st)
  note known = push_known_id[OF slot found]
  have "\<forall>k' it. it \<in> set (retained r k') \<longrightarrow> item_seq it < s"
    using retained_below_next[OF relay_machine.reach_good[OF assms(1)]] acc by blast
  moreover have "retained r' k = retained r k @ [\<lparr>item_seq = s, item_id = i, item_payload = pl\<rparr>]"
    unfolding retained_slot[of r k] by (simp add: st retained_def to_item_def)
  moreover have "\<forall>k'. k' \<noteq> k \<longrightarrow> buckets r' k' = buckets r k'" by (simp add: st)
  moreover have "push r' k i pl = (Okay (Duplicate s), r')" using acc pol by (simp add: known)
  ultimately show ?thesis by (simp add: known)
qed

theorem push_idempotent_witness:
  "push relay_sample sample_bucket ''c'' [1]
     = (Okay (Pushed 3), snd (push relay_sample sample_bucket ''c'' [1]))
   \<and> fst (push (snd (push relay_sample sample_bucket ''c'' [1])) sample_bucket ''c'' [1])
     = Okay (Duplicate 3)"
proof -
  have "fst (push relay_sample sample_bucket ''c'' [1]) = Okay (Pushed 3)"
    unfolding push_Pushed_iff
    by (simp add: relay_sample_eq policy_permissive_def slot_or_default_def sample_slot_def
        find_by_id_def retained_bytes_def)
  then have ex: "push relay_sample sample_bucket ''c'' [1]
      = (Okay (Pushed 3), snd (push relay_sample sample_bucket ''c'' [1]))"
    by (metis prod.collapse)
  show ?thesis using push_idempotent[OF reach_relay_sample ex] ex by simp
qed

text \<open>A refused push is invisible: whatever the error, every later fetch of every bucket, at every
  cursor and page size, returns the page it would have returned without the push.\<close>

theorem refused_push_invisible:
  assumes "fst (push r k i pl) = Err e"
  shows "fst (fetch (snd (push r k i pl)) k' after limit) = fst (fetch r k' after limit)"
proof -
  have "snd (push r k i pl) = r \<or> snd (push r k i pl) = put_slot r k (slot_or_default r k)"
    using assms by (auto simp: push_def Let_def split: if_splits option.splits)
  moreover have "fst (fetch (put_slot r k (slot_or_default r k)) k' after limit)
      = fst (fetch r k' after limit)"
    by (auto simp: fetch_def slot_or_default_def bucket_default_def frontier_def
        split: option.splits prod.splits)
  ultimately show ?thesis by auto
qed

theorem refused_push_invisible_witness:
  "fst (push relay_sample (BucketId ''x'') (replicate 5000 CHR ''a'') []) = Err (PushIdTooLarge 5000 4096)
   \<and> fst (fetch (snd (push relay_sample (BucketId ''x'') (replicate 5000 CHR ''a'') []))
          (BucketId ''x'') 0 1) = Entries [] 0 False"
proof -
  have e: "fst (push relay_sample (BucketId ''x'') (replicate 5000 CHR ''a'') [])
      = Err (PushIdTooLarge 5000 4096)"
    by (simp add: push_def relay_sample_eq policy_permissive_def)
  show ?thesis
    using refused_push_invisible[OF e, of "BucketId ''x''" 0 1] e
    by (simp add: fetch_def relay_sample_eq sample_bucket_def)
qed

text \<open>A retention sweep does not depend on the hash map's iteration order: two sweeps over the
  same buckets in different orders leave the same relay and report the same summaries.\<close>

theorem sweep_order_independent:
  assumes "distinct ks" "distinct ks'" "set ks = set ks'"
  shows "snd (sweep_expired ks r) = snd (sweep_expired ks' r)
       \<and> set (fst (sweep_expired ks r)) = set (fst (sweep_expired ks' r))"
proof
  have "buckets (snd (sweep_expired ks r)) = buckets (snd (sweep_expired ks' r))"
    using sweep_buckets[OF assms(1)] sweep_buckets[OF assms(2)] assms(3) by auto
  then show "snd (sweep_expired ks r) = snd (sweep_expired ks' r)" by simp
  show "set (fst (sweep_expired ks r)) = set (fst (sweep_expired ks' r))"
    unfolding sweep_report[OF assms(1)] sweep_report[OF assms(2)] using assms(3) by simp
qed

theorem sweep_order_independent_witness:
  "snd (sweep_expired [sample_bucket, BucketId ''y''] relay_aged)
   = snd (sweep_expired [BucketId ''y'', sample_bucket] relay_aged)"
  using sweep_order_independent[of "[sample_bucket, BucketId ''y'']" "[BucketId ''y'', sample_bucket]"
      relay_aged]
  by (simp add: sample_bucket_def insert_commute)

end
