(* ===== verification/Crypto_Device.thy ===== *)
theory Crypto_Device
  imports Altior_Prelude
begin

text \<open>
  Device identities and the pairing transcript: \<open>crates/altior-crypto/src/device.rs\<close>,
  \<open>error.rs\<close> and \<open>pairing.rs\<close>. The primitives the crate takes from third-party packages (X25519,
  HKDF-SHA256, ChaCha20-Poly1305, Ed25519) are the fields of one record of parameters; a property
  that relies on their documented behaviour names it as a hypothesis below.
\<close>

section \<open>Primitives\<close>

record crypto_prims =
  dh_public :: "bytes \<Rightarrow> bytes"
  dh :: "bytes \<Rightarrow> bytes \<Rightarrow> bytes"
  hkdf :: "bytes option \<Rightarrow> bytes \<Rightarrow> bytes \<Rightarrow> nat \<Rightarrow> bytes"
  aead_encrypt :: "bytes \<Rightarrow> bytes \<Rightarrow> bytes \<Rightarrow> bytes \<Rightarrow> bytes option"
  aead_decrypt :: "bytes \<Rightarrow> bytes \<Rightarrow> bytes \<Rightarrow> bytes \<Rightarrow> bytes option"
  ed_public :: "bytes \<Rightarrow> bytes"
  ed_sign :: "bytes \<Rightarrow> bytes \<Rightarrow> bytes"
  ed_verify :: "bytes \<Rightarrow> bytes \<Rightarrow> bytes \<Rightarrow> bool"

text \<open>RFC 8439: what was sealed under a key, nonce and associated data opens under the same three,
  and the ciphertext is the message plus a 16-byte tag.\<close>

definition aead_correct :: "crypto_prims \<Rightarrow> bool" where
  "aead_correct P \<longleftrightarrow> (\<forall>k n m a c. aead_encrypt P k n m a = Some c \<longrightarrow>
     aead_decrypt P k n c a = Some m \<and> length c = length m + 16)"

text \<open>RFC 7748: both ends of a Diffie-Hellman exchange compute the same secret, and a public key is
  32 bytes.\<close>

definition dh_agree :: "crypto_prims \<Rightarrow> bool" where
  "dh_agree P \<longleftrightarrow> (\<forall>x y. dh P x (dh_public P y) = dh P y (dh_public P x))
                \<and> (\<forall>x. length (dh_public P x) = 32)"

text \<open>RFC 8032: a signature verifies under the signer's public key.\<close>

definition ed_correct :: "crypto_prims \<Rightarrow> bool" where
  "ed_correct P \<longleftrightarrow> (\<forall>sk m. ed_verify P (ed_public P sk) m (ed_sign P sk m)
                         \<and> length (ed_sign P sk m) = 64)"

section \<open>Errors\<close>

text \<open>\<open>CryptoError\<close>; the opaque sources of AEAD and I/O failures carry no information here. The last
  constructor is a panic of the source (\<open>expect\<close> on a value that is absent).\<close>

datatype crypto_error =
    DeviceIdInvalid nat nat
  | DeviceIdCollision string
  | SeedAllZero
  | EnvelopeTruncated nat
  | EnvelopeVersion byte
  | EnvelopeSeal
  | EnvelopeOpen
  | ReplayRejected u64
  | SignatureInvalid
  | CounterExhausted
  | EpochAllZero
  | EphemeralSeedAllZero
  | DegenerateSharedSecret
  | CounterBlockExhausted
  | CounterBlockRewind u64 u64
  | CounterLeaseFailed
  | EpochMismatch u32 u32
  | TurnMismatch u64 u64
  | TurnNotOpen
  | BlobChunkMissing nat bytes
  | BlobChunkMismatch nat
  | CryptoPanic string

section \<open>Devices\<close>

definition device_id_max_len :: nat where
  "device_id_max_len = 128"

text \<open>\<open>DeviceId::new\<close>; an accepted id is the label itself.\<close>

definition device_id_new :: "string \<Rightarrow> (crypto_error, string) result" where
  "device_id_new name =
     (if name = [] \<or> length name > device_id_max_len
      then Err (DeviceIdInvalid (length name) device_id_max_len) else Okay name)"

record device_keys =
  dk_id :: string
  dk_static :: bytes
  dk_signing :: bytes

record device_identity =
  di_id :: string
  di_x25519 :: bytes
  di_ed25519 :: bytes

definition keys_from_seed :: "bytes \<Rightarrow> string \<Rightarrow> (crypto_error, device_keys) result" where
  "keys_from_seed seed i =
     (if seed = replicate 64 0 then Err SeedAllZero
      else Okay \<lparr>dk_id = i, dk_static = take 32 seed, dk_signing = drop 32 seed\<rparr>)"

definition public_identity :: "crypto_prims \<Rightarrow> device_keys \<Rightarrow> device_identity" where
  "public_identity P k = \<lparr>di_id = dk_id k, di_x25519 = dh_public P (dk_static k),
     di_ed25519 = ed_public P (dk_signing k)\<rparr>"

definition keys_sign :: "crypto_prims \<Rightarrow> device_keys \<Rightarrow> bytes \<Rightarrow> bytes" where
  "keys_sign P k msg = ed_sign P (dk_signing k) msg"

definition verify_signature ::
  "crypto_prims \<Rightarrow> device_identity \<Rightarrow> bytes \<Rightarrow> bytes \<Rightarrow> (crypto_error, unit) result" where
  "verify_signature P ident msg sig =
     (if ed_verify P (di_ed25519 ident) msg sig then Okay () else Err SignatureInvalid)"

text \<open>\<open>push_id\<close> of both session modules: a 64-bit length, then the id's bytes.\<close>

definition push_id :: "string \<Rightarrow> bytes" where
  "push_id i = be_bytes 8 (length i) @ str_bytes i"

section \<open>Pairing\<close>

definition push_identity :: "device_identity \<Rightarrow> bytes" where
  "push_identity d = be_bytes 8 (length (di_id d)) @ str_bytes (di_id d) @ di_x25519 d @ di_ed25519 d"

definition pairing_domain :: bytes where
  "pairing_domain = str_bytes ''altior/crypto/v1/pairing''"

text \<open>\<open>PairingTranscript::new\<close>; ids compare bytewise.\<close>

definition transcript_new ::
  "device_identity \<Rightarrow> device_identity \<Rightarrow> (crypto_error, bytes) result" where
  "transcript_new a b =
     (if di_id a = di_id b then Err (DeviceIdCollision (di_id a))
      else if di_id a < di_id b
      then Okay (pairing_domain @ push_identity a @ push_identity b)
      else Okay (pairing_domain @ push_identity b @ push_identity a))"

definition transcript_sign :: "crypto_prims \<Rightarrow> bytes \<Rightarrow> device_keys \<Rightarrow> bytes" where
  "transcript_sign P tr k = ed_sign P (dk_signing k) tr"

text \<open>\<open>Signature::from_slice\<close> refuses a slice that is not 64 bytes.\<close>

definition transcript_verify ::
  "crypto_prims \<Rightarrow> bytes \<Rightarrow> device_identity \<Rightarrow> bytes \<Rightarrow> (crypto_error, unit) result" where
  "transcript_verify P tr signer sig =
     (if length sig \<noteq> 64 then Err SignatureInvalid
      else if ed_verify P (di_ed25519 signer) tr sig then Okay () else Err SignatureInvalid)"

text \<open>Identities as the wire carries them: 32-byte keys and an id of at most 128 bytes.\<close>

definition identity_ok :: "device_identity \<Rightarrow> bool" where
  "identity_ok d \<longleftrightarrow> length (di_x25519 d) = 32 \<and> length (di_ed25519 d) = 32
     \<and> length (di_id d) \<le> device_id_max_len"

section \<open>Lemmas\<close>

lemma push_id_inj:
  assumes "push_id a @ x = push_id b @ y" "length a < 256 ^ 8" "length b < 256 ^ 8"
  shows "a = b \<and> x = y"
proof -
  have "be_bytes 8 (length a) = be_bytes 8 (length b)" and
    rest: "str_bytes a @ x = str_bytes b @ y"
    using assms(1) by (simp_all add: push_id_def append_eq_append_conv)
  then have "length a = length b" using assms(2,3) be_bytes_inj by blast
  then show ?thesis using rest by (simp add: append_eq_append_conv)
qed

lemma push_identity_eq: "push_identity d = push_id (di_id d) @ di_x25519 d @ di_ed25519 d"
  by (simp add: push_identity_def push_id_def)

lemma push_identity_inj:
  assumes "push_identity a @ x = push_identity b @ y" "identity_ok a" "identity_ok b"
  shows "a = b \<and> x = y"
proof -
  have lens: "length (di_id a) < 256 ^ 8" "length (di_id b) < 256 ^ 8"
    using assms(2,3) by (simp_all add: identity_ok_def device_id_max_len_def)
  have "di_id a = di_id b \<and> di_x25519 a @ di_ed25519 a @ x = di_x25519 b @ di_ed25519 b @ y"
    using push_id_inj[OF _ lens] assms(1) by (simp add: push_identity_eq)
  then show ?thesis using assms(2,3) by (auto simp: identity_ok_def append_eq_append_conv)
qed

section \<open>A concrete instance of the primitives\<close>

text \<open>A transparent stand-in that satisfies the three hypotheses, for concrete runs: the ciphertext
  carries the message and a tag made of key, nonce and associated data.\<close>

definition sample_tag :: "bytes \<Rightarrow> bytes \<Rightarrow> bytes \<Rightarrow> bytes" where
  "sample_tag k n a = take 16 (n @ k @ a @ replicate 16 0)"

definition sample_prims :: crypto_prims where
  "sample_prims = \<lparr>dh_public = (\<lambda>x. take 32 (x @ replicate 32 0)),
     dh = (\<lambda>x p. map2 (+) (take 32 (x @ replicate 32 0)) p),
     hkdf = (\<lambda>salt ikm info n. take n (ikm @ info @ replicate n 0)),
     aead_encrypt = (\<lambda>k n m a. Some (m @ sample_tag k n a)),
     aead_decrypt = (\<lambda>k n c a. let m = take (length c - 16) c in
        if c = m @ sample_tag k n a then Some m else None),
     ed_public = (\<lambda>sk. sk),
     ed_sign = (\<lambda>sk m. take 64 (sk @ m @ replicate 64 0)),
     ed_verify = (\<lambda>pk m sig. sig = take 64 (pk @ m @ replicate 64 0))\<rparr>"

lemma length_sample_tag [simp]: "length (sample_tag k n a) = 16"
  by (simp add: sample_tag_def)

lemma sample_prims_sound:
  "aead_correct sample_prims" "dh_agree sample_prims" "ed_correct sample_prims"
proof -
  show "aead_correct sample_prims" by (auto simp: aead_correct_def sample_prims_def)
  have "map2 (+) u v = map2 (+) v u" for u v :: bytes
    by (rule nth_equalityI) (simp_all add: min.commute add.commute)
  then show "dh_agree sample_prims" by (auto simp: dh_agree_def sample_prims_def min_def)
  show "ed_correct sample_prims" by (auto simp: ed_correct_def sample_prims_def min_def)
qed

lemma sample_prims_encrypt [simp]:
  "aead_encrypt sample_prims k n m a = Some (m @ sample_tag k n a)"
  by (simp add: sample_prims_def)

definition sample_keys :: "string \<Rightarrow> byte \<Rightarrow> device_keys" where
  "sample_keys i b = \<lparr>dk_id = i, dk_static = [b], dk_signing = [b]\<rparr>"

section \<open>Properties\<close>

text \<open>The pairing transcript is canonical and binding. Both devices compute the same bytes
  whichever order they name the two identities in, and two transcripts over well-formed identities
  have equal bytes only if they are over the same two identities: no substituted key and no
  renamed device yields the bytes that were signed.\<close>

theorem transcript_canonical_and_binding:
  assumes "identity_ok a" "identity_ok b" "identity_ok c" "identity_ok d"
  shows "transcript_new a b = transcript_new b a
       \<and> (\<forall>tr. transcript_new a b = Okay tr \<longrightarrow> transcript_new c d = Okay tr \<longrightarrow> {a, b} = {c, d})"
proof -
  have two: "{u, v} = {x, y}"
    if "push_identity u @ push_identity v = push_identity x @ push_identity y"
      "identity_ok u" "identity_ok v" "identity_ok x" "identity_ok y" for u v x y
  proof -
    have "u = x \<and> push_identity v = push_identity y" using that push_identity_inj by blast
    then show ?thesis using push_identity_inj[of v "[]" y "[]"] that by simp
  qed
  have "transcript_new a b = transcript_new b a" by (auto simp: transcript_new_def)
  moreover have "{a, b} = {c, d}" if "transcript_new a b = Okay tr" "transcript_new c d = Okay tr" for tr
    using that assms two[of a b c d] two[of a b d c] two[of b a c d] two[of b a d c]
    by (auto simp: transcript_new_def insert_commute split: if_splits)
  ultimately show ?thesis by blast
qed

definition sample_identity :: "string \<Rightarrow> byte \<Rightarrow> device_identity" where
  "sample_identity i b = \<lparr>di_id = i, di_x25519 = replicate 32 b, di_ed25519 = replicate 32 b\<rparr>"

theorem transcript_canonical_and_binding_witness:
  "transcript_new (sample_identity ''laptop'' 1) (sample_identity ''phone'' 2)
     = transcript_new (sample_identity ''phone'' 2) (sample_identity ''laptop'' 1)
   \<and> (\<exists>tr. transcript_new (sample_identity ''laptop'' 1) (sample_identity ''phone'' 2) = Okay tr
        \<and> transcript_new (sample_identity ''laptop'' 1) (sample_identity ''phone'' 3) \<noteq> Okay tr)"
proof -
  have ok: "identity_ok (sample_identity ''laptop'' 1)" "identity_ok (sample_identity ''phone'' 2)"
    "identity_ok (sample_identity ''phone'' 3)"
    by (simp_all add: identity_ok_def sample_identity_def device_id_max_len_def)
  have tr: "\<exists>tr. transcript_new (sample_identity ''laptop'' 1) (sample_identity ''phone'' 2) = Okay tr"
    by (simp add: transcript_new_def sample_identity_def)
  have "replicate 32 (2 :: byte) ! 0 \<noteq> replicate 32 3 ! 0" by simp
  then have "sample_identity ''phone'' 2 \<noteq> sample_identity ''phone'' 3"
    unfolding sample_identity_def by (metis device_identity.select_convs(2))
  then show ?thesis
    using transcript_canonical_and_binding[OF ok(1,2) ok(1,3)] tr
    by (auto simp: doubleton_eq_iff)
qed

end
