(* ===== verification/Crypto_Replay.thy ===== *)
theory Crypto_Replay
  imports Altior_Prelude
begin

unbundle bit_operations_syntax

text \<open>
  The sliding replay window of \<open>crates/altior-crypto/src/session.rs\<close>: a 64-bit bitmap below the
  highest counter seen. The bitmap and the counters are \<open>64 word\<close>s, the shifts and masks those of
  the source. The abstract specification is the set of counters accepted so far; the refinement
  says that the bitmap decides membership in that set exactly inside the window.
\<close>

section \<open>The window\<close>

record replay_window =
  highest :: u64
  seen :: u64

definition window_default :: replay_window where
  "window_default = \<lparr>highest = 0, seen = 0\<rparr>"

text \<open>\<open>ReplayWindow::record\<close>; \<open>1 << n\<close> is \<open>push_bit n 1\<close>.\<close>

definition window_record :: "replay_window \<Rightarrow> u64 \<Rightarrow> replay_window" where
  "window_record w c =
     (if c > highest w
      then let delta = c - highest w;
               shifted = (if delta \<ge> 64 then 0 else push_bit (unat delta) (seen w))
           in \<lparr>highest = c, seen = shifted OR 1\<rparr>
      else if c > 0 then w\<lparr>seen := seen w OR push_bit (unat (highest w - c)) 1\<rparr>
      else w)"

definition window_acceptable :: "replay_window \<Rightarrow> u64 \<Rightarrow> bool" where
  "window_acceptable w c \<longleftrightarrow>
     c \<noteq> 0 \<and> (c > highest w \<or>
       (let delta = highest w - c in
        delta < 64 \<and> (seen w AND push_bit (unat delta) 1) = 0))"

definition window_accept :: "replay_window \<Rightarrow> u64 \<Rightarrow> bool \<times> replay_window" where
  "window_accept w c =
     (if window_acceptable w c then (True, window_record w c) else (False, w))"

section \<open>Specification\<close>

text \<open>The specification's state is the set of accepted counters; a counter is accepted when it is
  positive, new, and fewer than 64 below the highest accepted one.\<close>

definition spec_acceptable :: "nat set \<Rightarrow> nat \<Rightarrow> bool" where
  "spec_acceptable S c \<longleftrightarrow> c \<noteq> 0 \<and> c \<notin> S \<and> (\<forall>h\<in>S. h < c + 64)"

text \<open>The window represents a set: its highest element, and bit \<open>d\<close> for the counter \<open>d\<close> below.\<close>

definition window_rel :: "replay_window \<Rightarrow> nat set \<Rightarrow> bool" where
  "window_rel w S \<longleftrightarrow>
     (\<forall>c\<in>S. 0 < c \<and> c \<le> unat (highest w))
   \<and> (highest w \<noteq> 0 \<longrightarrow> unat (highest w) \<in> S)
   \<and> (\<forall>d<64. bit (seen w) d \<longleftrightarrow> d < unat (highest w) \<and> unat (highest w) - d \<in> S)"

text \<open>A filter that is asked about a sequence of counters, and what it lets through.\<close>

fun filter_run :: "('w \<Rightarrow> 'c \<Rightarrow> bool \<times> 'w) \<Rightarrow> 'w \<Rightarrow> 'c list \<Rightarrow> 'c list \<times> 'w" where
  "filter_run acc w [] = ([], w)"
| "filter_run acc w (c # cs) =
     (case acc w c of (ok, w') \<Rightarrow>
        (case filter_run acc w' cs of (xs, w'') \<Rightarrow> (if ok then c # xs else xs, w'')))"

locale replay_filter =
  fixes acc :: "'w \<Rightarrow> 'c \<Rightarrow> bool \<times> 'w"
    and rep :: "'w \<Rightarrow> 'c set \<Rightarrow> bool"
  assumes accept_new: "rep w S \<Longrightarrow> acc w c = (True, w') \<Longrightarrow> c \<notin> S \<and> rep w' (insert c S)"
    and reject_keeps: "rep w S \<Longrightarrow> acc w c = (False, w') \<Longrightarrow> w' = w"
begin

text \<open>Nothing passes twice, and nothing accepted earlier passes again.\<close>

lemma run_distinct:
  "rep w S \<Longrightarrow> filter_run acc w cs = (xs, w') \<Longrightarrow>
   distinct xs \<and> set xs \<inter> S = {} \<and> rep w' (S \<union> set xs)"
proof (induction cs arbitrary: w S xs)
  case Nil
  then show ?case by simp
next
  case (Cons c cs)
  obtain ok w1 where a: "acc w c = (ok, w1)" by fastforce
  obtain ys where f: "filter_run acc w1 cs = (ys, w')" and xs: "xs = (if ok then c # ys else ys)"
    using Cons.prems(2) a by (auto split: prod.splits)
  show ?case
  proof (cases ok)
    case True
    then have "c \<notin> S" "rep w1 (insert c S)" using accept_new Cons.prems(1) a by auto
    then show ?thesis using Cons.IH[OF _ f, of "insert c S"] True xs by auto
  next
    case False
    then have "w1 = w" using reject_keeps Cons.prems(1) a by simp
    then show ?thesis using Cons.IH[OF _ f, of S] Cons.prems(1) False xs by simp
  qed
qed

end

section \<open>Refinement\<close>

lemma bit_and_push_bit_one:
  fixes w :: u64
  assumes "n < 64"
  shows "w AND push_bit n 1 = 0 \<longleftrightarrow> \<not> bit w n"
proof
  assume "w AND push_bit n 1 = 0"
  then have "\<not> bit (w AND push_bit n 1) n" by simp
  then show "\<not> bit w n" using assms by (simp add: bit_simps)
next
  assume "\<not> bit w n"
  then show "w AND push_bit n 1 = 0" by (intro bit_word_eqI) (auto simp: bit_simps)
qed

lemma unat_diff: "(b :: u64) \<le> a \<Longrightarrow> unat (a - b) = unat a - unat b"
  by (simp add: unat_sub)

lemma window_acceptable_spec:
  assumes "window_rel w S"
  shows "window_acceptable w c \<longleftrightarrow> spec_acceptable S (unat c)"
proof (cases "c > highest w")
  case True
  then have lt: "unat (highest w) < unat c" by (simp add: word_less_nat_alt)
  then have "unat c \<noteq> 0" "unat c \<notin> S" "\<forall>h\<in>S. h < unat c + 64"
    using assms unfolding window_rel_def by force+
  then show ?thesis using True lt by (auto simp: window_acceptable_def spec_acceptable_def)
next
  case False
  then have le: "c \<le> highest w" by simp
  let ?d = "unat (highest w) - unat c"
  have d: "unat (highest w - c) = ?d" using le by (rule unat_diff)
  have cle: "unat c \<le> unat (highest w)" using le by (simp add: word_le_nat_alt)
  have lt64: "highest w - c < 64 \<longleftrightarrow> ?d < 64" by (simp add: word_less_nat_alt d)
  show ?thesis
  proof (cases "c = 0")
    case True
    then show ?thesis by (simp add: window_acceptable_def spec_acceptable_def)
  next
    case nz: False
    then have pos: "0 < unat c" by (simp add: unat_gt_0)
    then have hi: "unat (highest w) \<in> S" and hz: "highest w \<noteq> 0"
      using assms cle unfolding window_rel_def by auto
    have near: "(\<forall>h\<in>S. h < unat c + 64) \<longleftrightarrow> ?d < 64"
    proof
      assume "\<forall>h\<in>S. h < unat c + 64"
      then show "?d < 64" using hi by fastforce
    next
      assume "?d < 64"
      then show "\<forall>h\<in>S. h < unat c + 64" using assms cle unfolding window_rel_def by fastforce
    qed
    have "?d < 64 \<Longrightarrow> bit (seen w) ?d \<longleftrightarrow> unat c \<in> S"
      using assms pos cle unfolding window_rel_def by auto
    then show ?thesis
      using False nz pos near lt64 bit_and_push_bit_one[of ?d "seen w"]
      by (auto simp: window_acceptable_def spec_acceptable_def Let_def d)
  qed
qed

lemma window_record_high:
  assumes rel: "window_rel w S" and gt: "c > highest w"
  shows "window_rel (window_record w c) (insert (unat c) S)"
proof -
  let ?h = "unat (highest w)" let ?c = "unat c" let ?w = "window_record w c"
  have lt: "?h < ?c" using gt by (simp add: word_less_nat_alt)
  have delta: "unat (c - highest w) = ?c - ?h" using gt by (intro unat_diff) simp
  have big: "c - highest w \<ge> 64 \<longleftrightarrow> ?c - ?h \<ge> 64" by (simp add: word_le_nat_alt delta)
  have hi: "highest ?w = c" using gt by (simp add: window_record_def Let_def)
  have bits: "bit (seen ?w) d \<longleftrightarrow> d = 0 \<or> (?c - ?h < 64 \<and> ?c - ?h \<le> d \<and> bit (seen w) (d - (?c - ?h)))"
    if "d < 64" for d
    using gt that big delta
    by (auto simp: window_record_def Let_def bit_simps not_le)
  have "bit (seen ?w) d \<longleftrightarrow> d < ?c \<and> ?c - d \<in> insert ?c S" if d: "d < 64" for d
  proof -
    consider "d = 0" | "0 < d" "d < ?c - ?h" | "0 < d" "?c - ?h \<le> d" by linarith
    then show ?thesis
    proof cases
      case 1
      then show ?thesis using bits[OF d] lt by simp
    next
      case 2
      then have "?c - d > ?h" by linarith
      then have "?c - d \<notin> S" using rel unfolding window_rel_def by force
      then show ?thesis using 2 bits[OF d] lt by auto
    next
      case 3
      let ?e = "d - (?c - ?h)"
      have "bit (seen w) ?e \<longleftrightarrow> ?e < ?h \<and> ?h - ?e \<in> S"
        using rel d unfolding window_rel_def by simp
      moreover have "?e < ?h \<longleftrightarrow> d < ?c" "d < ?c \<Longrightarrow> ?h - ?e = ?c - d"
        using 3 lt by linarith+
      moreover have "?c - ?h < 64" using 3 d by linarith
      moreover have "d < ?c \<Longrightarrow> ?c - d \<noteq> ?c" using 3 by linarith
      ultimately show ?thesis using bits[OF d] 3 by auto
    qed
  qed
  moreover have "\<forall>x\<in>insert ?c S. 0 < x \<and> x \<le> ?c"
    using rel lt unfolding window_rel_def by force
  ultimately show ?thesis unfolding window_rel_def hi by blast
qed

lemma window_record_low:
  assumes rel: "window_rel w S" and le: "c \<le> highest w" and acc: "window_acceptable w c"
  shows "window_rel (window_record w c) (insert (unat c) S)"
proof -
  let ?h = "unat (highest w)" let ?c = "unat c" let ?w = "window_record w c"
  have cle: "?c \<le> ?h" using le by (simp add: word_le_nat_alt)
  have pos: "0 < ?c" using acc by (simp add: window_acceptable_def unat_gt_0)
  have d: "unat (highest w - c) = ?h - ?c" using le by (rule unat_diff)
  have small: "?h - ?c < 64"
    using acc le d by (auto simp: window_acceptable_def Let_def word_less_nat_alt)
  have w: "?w = w\<lparr>seen := seen w OR push_bit (?h - ?c) 1\<rparr>"
    using le pos d by (auto simp: window_record_def not_less unat_gt_0 word_gt_0)
  have "bit (seen ?w) e \<longleftrightarrow> e < ?h \<and> ?h - e \<in> insert ?c S" if e: "e < 64" for e
  proof -
    have "bit (seen ?w) e \<longleftrightarrow> bit (seen w) e \<or> e = ?h - ?c"
      using e by (auto simp: w bit_simps)
    moreover have "bit (seen w) e \<longleftrightarrow> e < ?h \<and> ?h - e \<in> S"
      using rel e unfolding window_rel_def by simp
    moreover have "e = ?h - ?c \<longleftrightarrow> e < ?h \<and> ?h - e = ?c" using pos cle by auto
    ultimately show ?thesis by auto
  qed
  moreover have "highest ?w = highest w" by (simp add: w)
  ultimately show ?thesis using rel pos cle unfolding window_rel_def by auto
qed

lemma window_rel_default: "window_rel window_default {}"
  by (simp add: window_rel_def window_default_def)

lemma window_accept_refines:
  assumes "window_rel w S"
  shows "fst (window_accept w c) \<longleftrightarrow> spec_acceptable S (unat c)"
    and "window_rel (snd (window_accept w c))
          (if spec_acceptable S (unat c) then insert (unat c) S else S)"
proof -
  show "fst (window_accept w c) \<longleftrightarrow> spec_acceptable S (unat c)"
    using window_acceptable_spec[OF assms] by (simp add: window_accept_def)
  show "window_rel (snd (window_accept w c))
          (if spec_acceptable S (unat c) then insert (unat c) S else S)"
    using window_acceptable_spec[OF assms, of c] assms window_record_high window_record_low
    by (cases "c > highest w") (auto simp: window_accept_def not_less)
qed

interpretation window_filter: replay_filter window_accept "\<lambda>w S. window_rel w (unat ` S)"
proof unfold_locales
  fix w and S :: "u64 set" and c :: u64 and w'
  assume rep: "window_rel w (unat ` S)"
  show "c \<notin> S \<and> window_rel w' (unat ` insert c S)" if "window_accept w c = (True, w')"
    using window_accept_refines[OF rep, of c] that by (auto simp: spec_acceptable_def)
  show "w' = w" if "window_accept w c = (False, w')"
    using that by (auto simp: window_accept_def split: if_splits)
qed

section \<open>Properties\<close>

text \<open>The specification run over a sequence of counters.\<close>

fun spec_run :: "nat set \<Rightarrow> nat list \<Rightarrow> nat list" where
  "spec_run S [] = []"
| "spec_run S (c # cs) =
     (if spec_acceptable S c then c # spec_run (insert c S) cs else spec_run S cs)"

lemma filter_run_refines:
  "window_rel w S \<Longrightarrow> map unat (fst (filter_run window_accept w cs)) = spec_run S (map unat cs)"
proof (induction cs arbitrary: w S)
  case Nil
  then show ?case by simp
next
  case (Cons c cs)
  obtain ok w1 where a: "window_accept w c = (ok, w1)" by fastforce
  have "ok \<longleftrightarrow> spec_acceptable S (unat c)"
    and "window_rel w1 (if spec_acceptable S (unat c) then insert (unat c) S else S)"
    using window_accept_refines[OF Cons.prems, of c] a by auto
  then show ?case using a Cons.IH[of w1] by (auto simp: split_beta)
qed

text \<open>C7: The bitmap window implements its specification: fed any sequence of 64-bit counters from
  the empty window, it accepts exactly the counters that are positive, not accepted before, and
  fewer than 64 below the highest accepted one.\<close>

theorem replay_window_refines_spec:
  "map unat (fst (filter_run window_accept window_default cs)) = spec_run {} (map unat cs)"
  using window_rel_default by (rule filter_run_refines)

text \<open>The window never lets a counter through twice, whatever the order of deliveries.\<close>

theorem replay_window_no_duplicates:
  "distinct (fst (filter_run window_accept window_default cs))"
  using window_filter.run_distinct[of window_default "{}" cs]
  by (metis image_empty prod.collapse window_rel_default)

end
