(* ===== verification/Crypto_Session.thy ===== *)
theory Crypto_Session
  imports Crypto_Device Crypto_Replay
begin

text \<open>
  The first-generation encrypted envelope, \<open>crates/altior-crypto/src/session.rs\<close>: one directional
  session per pair of devices, a counter-derived nonce, the wire format
  \<open>version || counter || nonce || ciphertext\<close>, authentication before the replay window. The send
  counter is a \<open>64 word\<close> with the source's checked increment.
\<close>

section \<open>Model\<close>

definition v1_version :: byte where
  "v1_version = 1"

definition v1_kdf_domain :: bytes where
  "v1_kdf_domain = str_bytes ''altior/crypto/session-key''"

definition v1_header_len :: nat where
  "v1_header_len = 1 + 8"

definition nonce_len :: nat where
  "nonce_len = 12"

definition v1_min_envelope_len :: nat where
  "v1_min_envelope_len = v1_header_len + nonce_len + 16"

record session =
  se_key :: bytes
  se_sender :: string
  se_receiver :: string
  send_counter :: u64
  se_replay :: replay_window

definition derive_key ::
  "crypto_prims \<Rightarrow> device_keys \<Rightarrow> device_identity \<Rightarrow> string \<Rightarrow> string
   \<Rightarrow> (crypto_error, bytes) result" where
  "derive_key P loc peer sender receiver =
     (if sender = receiver then Err (DeviceIdCollision sender)
      else Okay (hkdf P None (dh P (dk_static loc) (di_x25519 peer))
             (v1_kdf_domain @ [v1_version] @ str_bytes ''send-direction''
              @ push_id sender @ push_id receiver) 32))"

definition session_outbound ::
  "crypto_prims \<Rightarrow> device_keys \<Rightarrow> device_identity \<Rightarrow> (crypto_error, session) result" where
  "session_outbound P loc peer =
     (case derive_key P loc peer (dk_id loc) (di_id peer) of
        Inl e \<Rightarrow> Err e
      | Inr key \<Rightarrow> Okay \<lparr>se_key = key, se_sender = dk_id loc, se_receiver = di_id peer,
                        send_counter = 0, se_replay = window_default\<rparr>)"

definition session_inbound ::
  "crypto_prims \<Rightarrow> device_keys \<Rightarrow> device_identity \<Rightarrow> (crypto_error, session) result" where
  "session_inbound P loc peer =
     (case derive_key P loc peer (di_id peer) (dk_id loc) of
        Inl e \<Rightarrow> Err e
      | Inr key \<Rightarrow> Okay \<lparr>se_key = key, se_sender = di_id peer, se_receiver = dk_id loc,
                        send_counter = 0, se_replay = window_default\<rparr>)"

definition v1_aad :: "string \<Rightarrow> string \<Rightarrow> u64 \<Rightarrow> bytes" where
  "v1_aad sender receiver c = [v1_version] @ push_id sender @ push_id receiver @ be64 c"

text \<open>Four zero bytes, then the counter.\<close>

definition counter_nonce :: "u64 \<Rightarrow> bytes" where
  "counter_nonce c = replicate 4 0 @ be64 c"

definition session_seal ::
  "crypto_prims \<Rightarrow> session \<Rightarrow> bytes \<Rightarrow> (crypto_error, bytes) result \<times> session" where
  "session_seal P s plain =
     (if send_counter s = - 1 then (Err CounterExhausted, s)
      else
        let c = send_counter s + 1; s' = s\<lparr>send_counter := c\<rparr> in
        (case aead_encrypt P (se_key s) (counter_nonce c) plain
                (v1_aad (se_sender s) (se_receiver s) c) of
           None \<Rightarrow> (Err EnvelopeSeal, s')
         | Some ct \<Rightarrow> (Okay ([v1_version] @ be64 c @ counter_nonce c @ ct), s')))"

definition session_open ::
  "crypto_prims \<Rightarrow> session \<Rightarrow> bytes \<Rightarrow> (crypto_error, bytes) result \<times> session" where
  "session_open P s env =
     (if length env < v1_min_envelope_len then (Err (EnvelopeTruncated (length env)), s)
      else if hd env \<noteq> v1_version then (Err (EnvelopeVersion (hd env)), s)
      else
        let c = of_nat (from_be (take 8 (drop 1 env)));
            nonce = take nonce_len (drop v1_header_len env) in
        (case aead_decrypt P (se_key s) nonce (drop (v1_header_len + nonce_len) env)
                (v1_aad (se_sender s) (se_receiver s) c) of
           None \<Rightarrow> (Err EnvelopeOpen, s)
         | Some plain \<Rightarrow>
             (case window_accept (se_replay s) c of
                (ok, w) \<Rightarrow>
                  (if ok then Okay plain else Err (ReplayRejected c), s\<lparr>se_replay := w\<rparr>))))"

definition session_next_counter :: "session \<Rightarrow> u64" where
  "session_next_counter s = send_counter s + 1"

section \<open>Lemmas\<close>

lemma length_counter_nonce [simp]: "length (counter_nonce c) = 12"
  by (simp add: counter_nonce_def)

lemma v1_parse:
  fixes c :: u64
  assumes "env = [v1_version] @ be64 c @ counter_nonce c @ ct" "16 \<le> length ct"
  shows "\<not> length env < v1_min_envelope_len" "hd env = v1_version"
    "(of_nat (from_be (take 8 (drop 1 env))) :: u64) = c"
    "take nonce_len (drop v1_header_len env) = counter_nonce c"
    "drop (v1_header_len + nonce_len) env = ct"
  using assms by (simp_all add: v1_min_envelope_len_def v1_header_len_def nonce_len_def)

text \<open>The two ends of one direction hold the same key.\<close>

lemma directional_keys_agree:
  assumes "dh_agree P" "session_outbound P a (public_identity P b) = Okay s"
    "session_inbound P b (public_identity P a) = Okay t"
  shows "se_key t = se_key s \<and> se_sender t = se_sender s \<and> se_receiver t = se_receiver s
       \<and> send_counter s = 0 \<and> se_replay t = window_default"
  using assms
  by (auto simp: session_outbound_def session_inbound_def derive_key_def public_identity_def
      dh_agree_def split: sum.splits if_splits)

lemma window_accept_fresh:
  assumes "window_rel w S" "\<forall>x\<in>S. x < unat c" "c \<noteq> 0"
  obtains w' where "window_accept w c = (True, w')" "window_rel w' (insert (unat c) S)"
proof -
  have "spec_acceptable S (unat c)"
    using assms(2,3) by (force simp: spec_acceptable_def unat_eq_0)
  then have "fst (window_accept w c)" "window_rel (snd (window_accept w c)) (insert (unat c) S)"
    using window_accept_refines[OF assms(1), of c] by simp_all
  then show thesis by (intro that[of "snd (window_accept w c)"]) (auto simp: prod_eq_iff)
qed

lemma unat_Suc_counter: "c \<noteq> - 1 \<Longrightarrow> unat (c + 1 :: u64) = unat c + 1"
  by (metis Suc_eq_plus1 add.commute unatSuc add_eq_0_iff2 add.inverse_inverse eq_neg_iff_add_eq_0)

text \<open>A sealed envelope opens at the other end when its counter is above everything accepted.\<close>

lemma session_open_sealed:
  assumes aead: "aead_correct P" and seal: "session_seal P s m = (Okay env, s')"
    and key: "se_key t = se_key s" "se_sender t = se_sender s" "se_receiver t = se_receiver s"
    and win: "window_rel (se_replay t) S" "\<forall>x\<in>S. x \<le> unat (send_counter s)"
  obtains t' where "session_open P t env = (Okay m, t')"
    "se_key t' = se_key s'" "se_sender t' = se_sender s'" "se_receiver t' = se_receiver s'"
    "window_rel (se_replay t') (insert (unat (send_counter s')) S)"
    "\<forall>x\<in>insert (unat (send_counter s')) S. x \<le> unat (send_counter s')"
proof -
  let ?c = "send_counter s + 1"
  obtain ct where enc: "aead_encrypt P (se_key s) (counter_nonce ?c) m
      (v1_aad (se_sender s) (se_receiver s) ?c) = Some ct"
    and env: "env = [v1_version] @ be64 ?c @ counter_nonce ?c @ ct"
    and s': "s' = s\<lparr>send_counter := ?c\<rparr>" and mx: "send_counter s \<noteq> - 1"
    using seal by (auto simp: session_seal_def Let_def split: if_splits option.splits)
  have dec: "aead_decrypt P (se_key s) (counter_nonce ?c) ct
      (v1_aad (se_sender s) (se_receiver s) ?c) = Some m" and len: "16 \<le> length ct"
    using aead enc unfolding aead_correct_def by auto
  have cs: "unat ?c = unat (send_counter s) + 1" using mx by (rule unat_Suc_counter)
  then have "?c \<noteq> 0" by (metis Suc_eq_plus1 nat.distinct(1) unat_0)
  moreover have "\<forall>x\<in>S. x < unat ?c" using win(2) cs by force
  ultimately obtain w' where w': "window_accept (se_replay t) ?c = (True, w')"
    "window_rel w' (insert (unat ?c) S)"
    using window_accept_fresh[OF win(1)] by blast
  have "session_open P t env = (Okay m, t\<lparr>se_replay := w'\<rparr>)"
    using v1_parse[OF env len] dec key w'(1) by (simp add: session_open_def Let_def)
  then show thesis using that s' key w'(2) win(2) cs by (auto simp: le_SucI)
qed

lemma session_batch_opens:
  assumes "aead_correct P" "try_all (session_seal P) s ms = (Okay envs, s')"
    "se_key t = se_key s" "se_sender t = se_sender s" "se_receiver t = se_receiver s"
    "window_rel (se_replay t) S" "\<forall>x\<in>S. x \<le> unat (send_counter s)"
  shows "fst (try_all (session_open P) t envs) = Okay ms"
  using assms
proof (induction ms arbitrary: s t S envs)
  case Nil
  then show ?case by auto
next
  case (Cons m ms)
  obtain env envs' s1 where one: "session_seal P s m = (Okay env, s1)"
    "try_all (session_seal P) s1 ms = (Okay envs', s')" "envs = env # envs'"
    using Cons.prems(2) by (rule try_all_ConsE)
  obtain t1 where t1: "session_open P t env = (Okay m, t1)"
    "se_key t1 = se_key s1" "se_sender t1 = se_sender s1" "se_receiver t1 = se_receiver s1"
    "window_rel (se_replay t1) (insert (unat (send_counter s1)) S)"
    "\<forall>x\<in>insert (unat (send_counter s1)) S. x \<le> unat (send_counter s1)"
    using session_open_sealed[OF Cons.prems(1) one(1) Cons.prems(3-7)] .
  have "fst (try_all (session_open P) t1 envs') = Okay ms"
    using Cons.IH[OF Cons.prems(1) one(2) t1(2-6)] .
  then show ?case using t1(1) one(3) by (auto split: prod.splits sum.splits)
qed

section \<open>Properties\<close>

text \<open>For two devices that exchanged identities, everything one end seals, the other end opens to
  the sealed messages, in order, whatever their number and content, given a correct AEAD and an
  agreeing key exchange.\<close>

theorem session_v1_roundtrip:
  assumes "aead_correct P" "dh_agree P"
    and "session_outbound P a (public_identity P b) = Okay s"
    and "session_inbound P b (public_identity P a) = Okay t"
    and "try_all (session_seal P) s ms = (Okay envs, s')"
  shows "fst (try_all (session_open P) t envs) = Okay ms"
  using session_batch_opens[OF assms(1,5), of t "{}"] directional_keys_agree[OF assms(2-4)]
    window_rel_default by simp

theorem session_v1_roundtrip_witness:
  "\<exists>s t envs s'.
     session_outbound sample_prims (sample_keys ''laptop'' 1)
       (public_identity sample_prims (sample_keys ''phone'' 2)) = Okay s
   \<and> session_inbound sample_prims (sample_keys ''phone'' 2)
       (public_identity sample_prims (sample_keys ''laptop'' 1)) = Okay t
   \<and> try_all (session_seal sample_prims) s [[1], [2, 3]] = (Okay envs, s')
   \<and> fst (try_all (session_open sample_prims) t envs) = Okay [[1], [2, 3]]"
proof -
  let ?a = "sample_keys ''laptop'' 1" and ?b = "sample_keys ''phone'' 2"
  obtain s where s: "session_outbound sample_prims ?a (public_identity sample_prims ?b) = Okay s"
    "send_counter s = 0"
    by (simp add: session_outbound_def derive_key_def sample_keys_def public_identity_def)
  obtain t where t: "session_inbound sample_prims ?b (public_identity sample_prims ?a) = Okay t"
    by (simp add: session_inbound_def derive_key_def sample_keys_def public_identity_def)
  obtain envs s' where e: "try_all (session_seal sample_prims) s [[1], [2, 3]] = (Okay envs, s')"
    using s(2) by (simp add: session_seal_def Let_def)
  show ?thesis using s(1) t e session_v1_roundtrip[OF sample_prims_sound(1,2) s(1) t e] by blast
qed

end
