(* ===== verification/Crypto_Session_V2.thy ===== *)
theory Crypto_Session_V2
  imports Crypto_Session
begin

text \<open>
  The second-generation envelope, \<open>crates/altior-crypto/src/session_v2.rs\<close>: session epochs, leased
  counter blocks, a turn ratchet and strict turn ordering. Counters and turn numbers are
  \<open>64 word\<close>s, the epoch sequence a \<open>32 word\<close>; an unchecked \<open>+= 1\<close> wraps as in a release build.
  The counter lease is a port implemented elsewhere: its answer is an argument of the constructors.
\<close>

section \<open>Model\<close>

definition v2_version :: byte where
  "v2_version = 2"

definition v2_kdf_domain :: bytes where
  "v2_kdf_domain = str_bytes ''altior/crypto/v2-turn-key''"

definition v2_chain_domain :: bytes where
  "v2_chain_domain = str_bytes ''altior/crypto/v2-turn-chain''"

text \<open>Version, epoch sequence, epoch, turn, counter, ephemeral key, nonce, tag.\<close>

definition v2_min_envelope_len :: nat where
  "v2_min_envelope_len = 1 + 4 + 16 + 8 + 8 + 32 + 12 + 16"

definition epoch_from_bytes :: "bytes \<Rightarrow> (crypto_error, bytes) result" where
  "epoch_from_bytes bs = (if bs = replicate 16 0 then Err EpochAllZero else Okay bs)"

record counter_block =
  cb_start :: u64
  cb_end :: u64

definition counter_block_size :: nat where
  "counter_block_size = 10000"

record chain_snapshot =
  cs_chain_ikm :: bytes
  cs_turn_no :: u64

datatype direction = Outbound | Inbound

record session_v2 =
  s2_direction :: direction
  s2_sender :: string
  s2_receiver :: string
  s2_epoch :: bytes
  s2_epoch_seq :: u32
  s2_block :: "counter_block option"
  s2_next_counter :: u64
  s2_eph_pub :: bytes
  s2_peer :: "bytes option"
  s2_static :: "bytes option"
  s2_chain :: "bytes option"
  s2_turn :: u64
  s2_needs_turn :: bool
  s2_replay :: replay_window

definition shared_secret_from ::
  "crypto_prims \<Rightarrow> bytes \<Rightarrow> bytes \<Rightarrow> (crypto_error, bytes) result" where
  "shared_secret_from P secret peer =
     (if dh P secret peer = replicate 32 0 then Err DegenerateSharedSecret
      else Okay (dh P secret peer))"

definition chain_turn :: "crypto_prims \<Rightarrow> bytes \<Rightarrow> bytes \<Rightarrow> bytes" where
  "chain_turn P previous shared = hkdf P (Some previous) shared v2_chain_domain 32"

definition turn_key ::
  "crypto_prims \<Rightarrow> bytes \<Rightarrow> bytes \<Rightarrow> u32 \<Rightarrow> u64 \<Rightarrow> string \<Rightarrow> string \<Rightarrow> bytes" where
  "turn_key P chain epoch epoch_seq turn sender receiver =
     hkdf P None chain (v2_kdf_domain @ [v2_version] @ epoch @ be32 epoch_seq @ be64 turn
       @ push_id sender @ push_id receiver) 32"

definition v2_aad :: "u32 \<Rightarrow> bytes \<Rightarrow> u64 \<Rightarrow> u64 \<Rightarrow> string \<Rightarrow> string \<Rightarrow> bytes" where
  "v2_aad epoch_seq epoch turn c sender receiver =
     [v2_version] @ be32 epoch_seq @ epoch @ be64 turn @ be64 c @ push_id sender @ push_id receiver"

text \<open>The constructors. \<open>reserved\<close> is what \<open>lease.reserve(COUNTER_BLOCK_SIZE)\<close> answered, \<open>None\<close> for
  an I/O failure.\<close>

definition v2_outbound ::
  "crypto_prims \<Rightarrow> device_keys \<Rightarrow> device_identity \<Rightarrow> bytes \<Rightarrow> u32 \<Rightarrow> counter_block option
   \<Rightarrow> (crypto_error, session_v2) result" where
  "v2_outbound P loc peer epoch epoch_seq reserved =
     (if dk_id loc = di_id peer then Err (DeviceIdCollision (dk_id loc))
      else case reserved of
        None \<Rightarrow> Err CounterLeaseFailed
      | Some block \<Rightarrow>
          if cb_start block = 0 then Err (CounterBlockRewind (cb_start block) 0)
          else case shared_secret_from P (dk_static loc) (di_x25519 peer) of
            Inl e \<Rightarrow> Err e
          | Inr static_shared \<Rightarrow>
              Okay \<lparr>s2_direction = Outbound, s2_sender = dk_id loc, s2_receiver = di_id peer,
                s2_epoch = epoch, s2_epoch_seq = epoch_seq, s2_block = Some block,
                s2_next_counter = cb_start block, s2_eph_pub = replicate 32 0,
                s2_peer = Some (di_x25519 peer), s2_static = None,
                s2_chain = Some static_shared, s2_turn = 0, s2_needs_turn = False,
                s2_replay = window_default\<rparr>)"

definition v2_inbound ::
  "crypto_prims \<Rightarrow> device_keys \<Rightarrow> device_identity \<Rightarrow> bytes \<Rightarrow> u32
   \<Rightarrow> (crypto_error, session_v2) result" where
  "v2_inbound P loc peer epoch epoch_seq =
     (if dk_id loc = di_id peer then Err (DeviceIdCollision (dk_id loc))
      else case shared_secret_from P (dk_static loc) (di_x25519 peer) of
        Inl e \<Rightarrow> Err e
      | Inr static_shared \<Rightarrow>
          Okay \<lparr>s2_direction = Inbound, s2_sender = di_id peer, s2_receiver = dk_id loc,
            s2_epoch = epoch, s2_epoch_seq = epoch_seq, s2_block = None,
            s2_next_counter = 0, s2_eph_pub = replicate 32 0,
            s2_peer = None, s2_static = Some (dk_static loc),
            s2_chain = Some static_shared, s2_turn = 0, s2_needs_turn = False,
            s2_replay = window_default\<rparr>)"

definition v2_restore_outbound ::
  "crypto_prims \<Rightarrow> device_keys \<Rightarrow> device_identity \<Rightarrow> bytes \<Rightarrow> u32 \<Rightarrow> chain_snapshot
   \<Rightarrow> counter_block option \<Rightarrow> (crypto_error, session_v2) result" where
  "v2_restore_outbound P loc peer epoch epoch_seq snap reserved =
     (case v2_outbound P loc peer epoch epoch_seq reserved of
        Inl e \<Rightarrow> Err e
      | Inr s \<Rightarrow> Okay (s\<lparr>s2_chain := Some (cs_chain_ikm snap), s2_turn := cs_turn_no snap,
                        s2_needs_turn := cs_turn_no snap > 0\<rparr>))"

definition v2_restore_inbound ::
  "crypto_prims \<Rightarrow> device_keys \<Rightarrow> device_identity \<Rightarrow> bytes \<Rightarrow> u32 \<Rightarrow> chain_snapshot
   \<Rightarrow> (crypto_error, session_v2) result" where
  "v2_restore_inbound P loc peer epoch epoch_seq snap =
     (case v2_inbound P loc peer epoch epoch_seq of
        Inl e \<Rightarrow> Err e
      | Inr s \<Rightarrow> Okay (s\<lparr>s2_chain := Some (cs_chain_ikm snap), s2_turn := cs_turn_no snap\<rparr>))"

definition v2_chain_snapshot :: "session_v2 \<Rightarrow> chain_snapshot option" where
  "v2_chain_snapshot s =
     map_option (\<lambda>ikm. \<lparr>cs_chain_ikm = ikm, cs_turn_no = s2_turn s\<rparr>) (s2_chain s)"

definition set_counter_block ::
  "session_v2 \<Rightarrow> counter_block \<Rightarrow> (crypto_error, unit) result \<times> session_v2" where
  "set_counter_block s block =
     (if cb_end block \<le> cb_start block \<or> cb_start block = 0 \<or> cb_start block < s2_next_counter s
      then (Err (CounterBlockRewind (cb_start block) (s2_next_counter s)), s)
      else (Okay (), s\<lparr>s2_block := Some block\<rparr>))"

definition open_turn ::
  "crypto_prims \<Rightarrow> session_v2 \<Rightarrow> bytes \<Rightarrow> (crypto_error, unit) result \<times> session_v2" where
  "open_turn P s seed =
     (if s2_direction s \<noteq> Outbound then (Err TurnNotOpen, s)
      else if seed = replicate 32 0 then (Err EphemeralSeedAllZero, s)
      else case s2_peer s of
        None \<Rightarrow> (Err (CryptoPanic ''outbound carries the peer key''), s)
      | Some peer \<Rightarrow>
          (case shared_secret_from P seed peer of
             Inl e \<Rightarrow> (Err e, s)
           | Inr shared \<Rightarrow>
               (case s2_chain s of
                  None \<Rightarrow> (Err (CryptoPanic ''outbound always chains''), s)
                | Some previous \<Rightarrow>
                    (Okay (), s\<lparr>s2_chain := Some (chain_turn P previous shared),
                       s2_eph_pub := dh_public P seed, s2_turn := s2_turn s + 1,
                       s2_needs_turn := False\<rparr>))))"

text \<open>The envelope header and its wire form.\<close>

record v2_header =
  h_epoch_seq :: u32
  h_epoch :: bytes
  h_turn :: u64
  h_counter :: u64
  h_eph :: bytes
  h_nonce :: bytes

definition v2_encode :: "v2_header \<Rightarrow> bytes \<Rightarrow> bytes" where
  "v2_encode h ct = [v2_version] @ be32 (h_epoch_seq h) @ h_epoch h @ be64 (h_turn h)
     @ be64 (h_counter h) @ h_eph h @ h_nonce h @ ct"

definition v2_decode :: "bytes \<Rightarrow> (crypto_error, v2_header \<times> bytes) result" where
  "v2_decode env =
     (if length env < v2_min_envelope_len then Err (EnvelopeTruncated (length env))
      else if hd env \<noteq> v2_version then Err (EnvelopeVersion (hd env))
      else Okay (\<lparr>h_epoch_seq = of_nat (from_be (take 4 (drop 1 env))),
                  h_epoch = take 16 (drop 5 env),
                  h_turn = of_nat (from_be (take 8 (drop 21 env))),
                  h_counter = of_nat (from_be (take 8 (drop 29 env))),
                  h_eph = take 32 (drop 37 env),
                  h_nonce = take 12 (drop 69 env)\<rparr>, drop 81 env))"

definition v2_seal ::
  "crypto_prims \<Rightarrow> session_v2 \<Rightarrow> bytes \<Rightarrow> (crypto_error, bytes) result \<times> session_v2" where
  "v2_seal P s plain =
     (if s2_needs_turn s then (Err TurnNotOpen, s)
      else case s2_block s of
        None \<Rightarrow> (Err CounterBlockExhausted, s)
      | Some block \<Rightarrow>
          let c = s2_next_counter s in
          if c \<ge> cb_end block then (Err CounterBlockExhausted, s)
          else
            let s' = s\<lparr>s2_next_counter := c + 1,
                       s2_block := (if c + 1 \<ge> cb_end block then None else Some block)\<rparr> in
            (case s2_chain s of
               None \<Rightarrow> (Err (CryptoPanic ''constructed with a chain''), s')
             | Some chain \<Rightarrow>
                 (case aead_encrypt P
                         (turn_key P chain (s2_epoch s) (s2_epoch_seq s) (s2_turn s)
                            (s2_sender s) (s2_receiver s))
                         (counter_nonce c) plain
                         (v2_aad (s2_epoch_seq s) (s2_epoch s) (s2_turn s) c
                            (s2_sender s) (s2_receiver s)) of
                    None \<Rightarrow> (Err EnvelopeSeal, s')
                  | Some ct \<Rightarrow>
                      (Okay (v2_encode \<lparr>h_epoch_seq = s2_epoch_seq s, h_epoch = s2_epoch s,
                         h_turn = s2_turn s, h_counter = c, h_eph = s2_eph_pub s,
                         h_nonce = counter_nonce c\<rparr> ct), s'))))"

text \<open>\<open>open\<close> prepares a candidate chain for the next turn and commits it only after the AEAD
  accepted the envelope; the replay window starts afresh with each turn.\<close>

definition v2_candidate ::
  "crypto_prims \<Rightarrow> session_v2 \<Rightarrow> v2_header \<Rightarrow> (crypto_error, bytes option) result" where
  "v2_candidate P s h =
     (if h_turn h \<noteq> s2_turn s + 1 then Okay None
      else case s2_static s of
        None \<Rightarrow> Err (CryptoPanic ''inbound'')
      | Some static \<Rightarrow>
          (case shared_secret_from P static (h_eph h) of
             Inl e \<Rightarrow> Err e
           | Inr shared \<Rightarrow>
               (case s2_chain s of
                  None \<Rightarrow> Err (CryptoPanic ''inbound chains'')
                | Some previous \<Rightarrow> Okay (Some (chain_turn P previous shared)))))"

definition v2_open ::
  "crypto_prims \<Rightarrow> session_v2 \<Rightarrow> bytes \<Rightarrow> (crypto_error, bytes) result \<times> session_v2" where
  "v2_open P s env =
     (case v2_decode env of
        Inl e \<Rightarrow> (Err e, s)
      | Inr (h, body) \<Rightarrow>
          if h_epoch_seq h \<noteq> s2_epoch_seq s \<or> h_epoch h \<noteq> s2_epoch s
          then (Err (EpochMismatch (s2_epoch_seq s) (h_epoch_seq h)), s)
          else if h_turn h \<noteq> s2_turn s \<and> h_turn h \<noteq> s2_turn s + 1
          then (Err (TurnMismatch (s2_turn s) (h_turn h)), s)
          else case v2_candidate P s h of
            Inl e \<Rightarrow> (Err e, s)
          | Inr candidate \<Rightarrow>
              (case (case candidate of Some c \<Rightarrow> Some c | None \<Rightarrow> s2_chain s) of
                 None \<Rightarrow> (Err (CryptoPanic ''turn established a chain''), s)
               | Some chain \<Rightarrow>
                   (case aead_decrypt P
                           (turn_key P chain (s2_epoch s) (s2_epoch_seq s) (h_turn h)
                              (s2_sender s) (s2_receiver s))
                           (h_nonce h) body
                           (v2_aad (s2_epoch_seq s) (s2_epoch s) (h_turn h) (h_counter h)
                              (s2_sender s) (s2_receiver s)) of
                      None \<Rightarrow> (Err EnvelopeOpen, s)
                    | Some plain \<Rightarrow>
                        let s1 = (case candidate of
                                    None \<Rightarrow> s
                                  | Some c \<Rightarrow> s\<lparr>s2_chain := Some c, s2_turn := h_turn h,
                                                s2_replay := window_default\<rparr>) in
                        (case window_accept (s2_replay s1) (h_counter h) of
                           (ok, w) \<Rightarrow>
                             (if ok then Okay plain else Err (ReplayRejected (h_counter h)),
                              s1\<lparr>s2_replay := w\<rparr>)))))"

section \<open>The wire format\<close>

definition header_ok :: "v2_header \<Rightarrow> bool" where
  "header_ok h \<longleftrightarrow> length (h_epoch h) = 16 \<and> length (h_eph h) = 32 \<and> length (h_nonce h) = 12"

lemma v2_decode_encode:
  assumes "header_ok h" "16 \<le> length ct"
  shows "v2_decode (v2_encode h ct) = Okay (h, ct)"
  using assms
  by (simp add: v2_decode_def v2_encode_def header_ok_def v2_min_envelope_len_def)

section \<open>Matched sessions\<close>

text \<open>The two ends of one direction at the same turn: same epoch, route and chain; the sender knows
  the receiver's static public key.\<close>

definition matched :: "crypto_prims \<Rightarrow> session_v2 \<Rightarrow> session_v2 \<Rightarrow> bool" where
  "matched P s t \<longleftrightarrow>
     s2_direction s = Outbound \<and> s2_direction t = Inbound
   \<and> s2_epoch t = s2_epoch s \<and> s2_epoch_seq t = s2_epoch_seq s
   \<and> s2_sender t = s2_sender s \<and> s2_receiver t = s2_receiver s
   \<and> s2_chain s \<noteq> None \<and> s2_chain t = s2_chain s \<and> s2_turn t = s2_turn s
   \<and> (\<exists>st. s2_static t = Some st \<and> s2_peer s = Some (dh_public P st))
   \<and> length (s2_epoch s) = 16 \<and> length (s2_eph_pub s) = 32"

lemma v2_seal_OkayE:
  assumes "v2_seal P s m = (Okay env, s')"
  obtains block chain ct where "s2_block s = Some block" "s2_next_counter s < cb_end block"
    "s2_chain s = Some chain" "\<not> s2_needs_turn s"
    "aead_encrypt P (turn_key P chain (s2_epoch s) (s2_epoch_seq s) (s2_turn s)
       (s2_sender s) (s2_receiver s)) (counter_nonce (s2_next_counter s)) m
       (v2_aad (s2_epoch_seq s) (s2_epoch s) (s2_turn s) (s2_next_counter s)
         (s2_sender s) (s2_receiver s)) = Some ct"
    "env = v2_encode \<lparr>h_epoch_seq = s2_epoch_seq s, h_epoch = s2_epoch s, h_turn = s2_turn s,
       h_counter = s2_next_counter s, h_eph = s2_eph_pub s,
       h_nonce = counter_nonce (s2_next_counter s)\<rparr> ct"
    "s' = s\<lparr>s2_next_counter := s2_next_counter s + 1,
       s2_block := (if s2_next_counter s + 1 \<ge> cb_end block then None else Some block)\<rparr>"
  using assms by (auto simp: v2_seal_def Let_def not_le split: if_splits option.splits)

lemma less_end_not_max: "(c :: u64) < e \<Longrightarrow> c \<noteq> - 1"
  using word_order.extremum_strict by blast

lemma v2_seal_counter:
  assumes "v2_seal P s m = (Okay env, s')"
  shows "unat (s2_next_counter s') = unat (s2_next_counter s) + 1"
  using assms by (rule v2_seal_OkayE) (simp add: unat_Suc_counter less_end_not_max)

text \<open>The receiver's state that opens the sender's next envelope: at the same turn with the window
  below the counter, or one turn behind.\<close>

lemma v2_open_sealed_same_turn:
  assumes aead: "aead_correct P" and m: "matched P s t" and seal: "v2_seal P s msg = (Okay env, s')"
    and win: "window_rel (s2_replay t) S" "\<forall>x\<in>S. x < unat (s2_next_counter s)"
    and pos: "s2_next_counter s \<noteq> 0"
  obtains w where "v2_open P t env = (Okay msg, t\<lparr>s2_replay := w\<rparr>)"
    "window_rel w (insert (unat (s2_next_counter s)) S)" "matched P s' (t\<lparr>s2_replay := w\<rparr>)"
  using seal
proof (rule v2_seal_OkayE)
  fix block chain ct
  let ?c = "s2_next_counter s"
  let ?h = "\<lparr>h_epoch_seq = s2_epoch_seq s, h_epoch = s2_epoch s, h_turn = s2_turn s,
     h_counter = ?c, h_eph = s2_eph_pub s, h_nonce = counter_nonce ?c\<rparr>"
  assume chain: "s2_chain s = Some chain"
    and enc: "aead_encrypt P (turn_key P chain (s2_epoch s) (s2_epoch_seq s) (s2_turn s)
       (s2_sender s) (s2_receiver s)) (counter_nonce ?c) msg
       (v2_aad (s2_epoch_seq s) (s2_epoch s) (s2_turn s) ?c (s2_sender s) (s2_receiver s)) = Some ct"
    and env: "env = v2_encode ?h ct"
    and s': "s' = s\<lparr>s2_next_counter := ?c + 1,
       s2_block := (if ?c + 1 \<ge> cb_end block then None else Some block)\<rparr>"
  have dec: "aead_decrypt P (turn_key P chain (s2_epoch s) (s2_epoch_seq s) (s2_turn s)
       (s2_sender s) (s2_receiver s)) (counter_nonce ?c) ct
       (v2_aad (s2_epoch_seq s) (s2_epoch s) (s2_turn s) ?c (s2_sender s) (s2_receiver s)) = Some msg"
    and len: "16 \<le> length ct"
    using aead enc unfolding aead_correct_def by auto
  have "header_ok ?h" using m by (simp add: header_ok_def matched_def)
  then have parse: "v2_decode env = Okay (?h, ct)" using len env v2_decode_encode by simp
  obtain w where w: "window_accept (s2_replay t) ?c = (True, w)" "window_rel w (insert (unat ?c) S)"
    using window_accept_fresh[OF win pos] .
  have "v2_open P t env = (Okay msg, t\<lparr>s2_replay := w\<rparr>)"
    using m chain dec parse w(1)
    by (simp add: v2_open_def v2_candidate_def matched_def)
  moreover have "matched P s' (t\<lparr>s2_replay := w\<rparr>)" using m s' by (auto simp: matched_def)
  ultimately show thesis using that w(2) by blast
qed

text \<open>Opening a turn at the sender and the first envelope of that turn at the receiver.\<close>

lemma open_turn_OkayE:
  assumes "open_turn P s seed = (Okay (), s1)"
  obtains peer chain where "s2_direction s = Outbound" "s2_peer s = Some peer"
    "s2_chain s = Some chain" "dh P seed peer \<noteq> replicate 32 0"
    "s1 = s\<lparr>s2_chain := Some (chain_turn P chain (dh P seed peer)), s2_eph_pub := dh_public P seed,
       s2_turn := s2_turn s + 1, s2_needs_turn := False\<rparr>"
  using assms
  by (auto simp: open_turn_def shared_secret_from_def split: if_splits option.splits sum.splits)

lemma v2_open_next_turn:
  assumes aead: "aead_correct P" and dha: "dh_agree P" and m: "matched P s t"
    and turn: "open_turn P s seed = (Okay (), s1)" and seal: "v2_seal P s1 msg = (Okay env, s2)"
    and pos: "s2_next_counter s \<noteq> 0"
  obtains t2 where "v2_open P t env = (Okay msg, t2)"
    "window_rel (s2_replay t2) {unat (s2_next_counter s1)}" "matched P s2 t2"
  using turn
proof (rule open_turn_OkayE)
  fix peer chain
  assume dir: "s2_direction s = Outbound" and peer: "s2_peer s = Some peer"
    and chain: "s2_chain s = Some chain" and nz: "dh P seed peer \<noteq> replicate 32 0"
    and s1: "s1 = s\<lparr>s2_chain := Some (chain_turn P chain (dh P seed peer)),
       s2_eph_pub := dh_public P seed, s2_turn := s2_turn s + 1, s2_needs_turn := False\<rparr>"
  obtain st where st: "s2_static t = Some st" "peer = dh_public P st"
    using m peer by (auto simp: matched_def)
  have shared: "dh P st (dh_public P seed) = dh P seed peer" using dha st by (simp add: dh_agree_def)
  let ?t = "t\<lparr>s2_chain := s2_chain s1, s2_turn := s2_turn s + 1, s2_replay := window_default\<rparr>"
  have m1: "matched P s1 ?t"
    using m dha by (auto simp: matched_def s1 dh_agree_def)
  have pos1: "s2_next_counter s1 \<noteq> 0" using pos by (simp add: s1)
  obtain w where w: "v2_open P ?t env = (Okay msg, ?t\<lparr>s2_replay := w\<rparr>)"
    "window_rel w {unat (s2_next_counter s1)}" "matched P s2 (?t\<lparr>s2_replay := w\<rparr>)"
    using v2_open_sealed_same_turn[OF aead m1 seal, of "{}"] window_rel_default pos1 by auto
  have "v2_open P t env = v2_open P ?t env"
  proof -
    define h where "h = \<lparr>h_epoch_seq = s2_epoch_seq s1, h_epoch = s2_epoch s1,
         h_turn = s2_turn s1, h_counter = s2_next_counter s1, h_eph = s2_eph_pub s1,
         h_nonce = counter_nonce (s2_next_counter s1)\<rparr>"
    define t1 where "t1 = ?t"
    define c1 where "c1 = chain_turn P chain (dh P seed peer)"
    obtain ct where env: "env = v2_encode h ct" and len: "16 \<le> length ct"
      using seal aead by (auto elim!: v2_seal_OkayE simp: aead_correct_def h_def)
    have "header_ok h" using m1 by (simp add: header_ok_def matched_def h_def)
    then have parse: "v2_decode env = Okay (h, ct)" using env len v2_decode_encode by simp
    have cand: "v2_candidate P t h = Okay (Some c1)" and cand': "v2_candidate P t1 h = Okay None"
      using m st chain shared nz
      by (simp_all add: v2_candidate_def s1 matched_def shared_secret_from_def h_def c1_def t1_def)
    have hs: "h_turn h = s2_turn s + 1" "h_epoch h = s2_epoch t" "h_epoch_seq h = s2_epoch_seq t"
      "s2_turn t = s2_turn s"
      using m by (simp_all add: h_def s1 matched_def)
    have ts: "t\<lparr>s2_chain := Some c1, s2_turn := s2_turn s + 1, s2_replay := window_default\<rparr> = t1"
      "s2_turn t1 = s2_turn s + 1" "s2_epoch t1 = s2_epoch t" "s2_epoch_seq t1 = s2_epoch_seq t"
      "s2_sender t1 = s2_sender t" "s2_receiver t1 = s2_receiver t" "s2_chain t1 = Some c1"
      by (simp_all add: t1_def s1 c1_def)
    have "fst (v2_open P t env) = fst (v2_open P t1 env) \<and>
      (snd (v2_open P t env) = snd (v2_open P t1 env) \<or> fst (v2_open P t1 env) = Err EnvelopeOpen)"
      by (simp add: v2_open_def parse cand cand' hs ts Let_def split: option.split)
    then show ?thesis using w(1) unfolding t1_def by (metis prod.collapse fst_conv sum.distinct(1))
  qed
  then show thesis using w that by simp
qed

lemma v2_batch_opens:
  assumes "aead_correct P" "matched P s t" "try_all (v2_seal P) s ms = (Okay envs, s')"
    "window_rel (s2_replay t) S" "\<forall>x\<in>S. x < unat (s2_next_counter s)" "s2_next_counter s \<noteq> 0"
  shows "\<exists>t'. try_all (v2_open P) t envs = (Okay ms, t') \<and> matched P s' t'"
  using assms
proof (induction ms arbitrary: s t S envs)
  case Nil
  then show ?case by auto
next
  case (Cons m ms)
  obtain env envs' s1 where one: "v2_seal P s m = (Okay env, s1)"
    "try_all (v2_seal P) s1 ms = (Okay envs', s')" "envs = env # envs'"
    using Cons.prems(3) by (rule try_all_ConsE)
  obtain w where w: "v2_open P t env = (Okay m, t\<lparr>s2_replay := w\<rparr>)"
    "window_rel w (insert (unat (s2_next_counter s)) S)" "matched P s1 (t\<lparr>s2_replay := w\<rparr>)"
    using v2_open_sealed_same_turn[OF Cons.prems(1,2) one(1) Cons.prems(4-6)] .
  have c: "unat (s2_next_counter s1) = unat (s2_next_counter s) + 1"
    using one(1) by (rule v2_seal_counter)
  then have "s2_next_counter s1 \<noteq> 0" by (metis Suc_eq_plus1 nat.distinct(1) unat_0)
  then obtain t' where "try_all (v2_open P) (t\<lparr>s2_replay := w\<rparr>) envs' = (Okay ms, t')" "matched P s' t'"
    using Cons.IH[OF Cons.prems(1) w(3) one(2), of "insert (unat (s2_next_counter s)) S"]
      w(2) Cons.prems(5) c by fastforce
  then show ?case using w(1) one(3) by simp
qed

section \<open>Batches\<close>

text \<open>What \<open>SyncNode::flush\<close> does per peer: open a turn, then seal the batch.\<close>

definition v2_send_batch ::
  "crypto_prims \<Rightarrow> session_v2 \<Rightarrow> bytes \<times> bytes list \<Rightarrow> (crypto_error, bytes list) result \<times> session_v2"
where
  "v2_send_batch P s batch =
     (case open_turn P s (fst batch) of
        (Inl e, s') \<Rightarrow> (Err e, s')
      | (Inr _, s1) \<Rightarrow> try_all (v2_seal P) s1 (snd batch))"

lemma matched_constructors:
  assumes "dh_agree P" "v2_outbound P a (public_identity P b) ep eq blk = Okay s"
    "v2_inbound P b (public_identity P a) ep eq = Okay t" "length ep = 16"
  shows "matched P s t \<and> s2_next_counter s \<noteq> 0"
  using assms
  by (auto simp: v2_outbound_def v2_inbound_def public_identity_def shared_secret_from_def
      matched_def dh_agree_def split: if_splits option.splits sum.splits)

lemma seal_all_counter:
  "try_all (v2_seal P) s ms = (Okay envs, s') \<Longrightarrow>
   unat (s2_next_counter s') = unat (s2_next_counter s) + length ms"
proof (induction ms arbitrary: s envs)
  case Nil
  then show ?case by simp
next
  case (Cons m ms)
  obtain env envs' s1 where "v2_seal P s m = (Okay env, s1)"
    "try_all (v2_seal P) s1 ms = (Okay envs', s')"
    using Cons.prems by (rule try_all_ConsE)
  then show ?case using Cons.IH[of s1 envs'] v2_seal_counter by fastforce
qed

lemma v2_batch_next_turn:
  assumes "aead_correct P" "dh_agree P" "matched P s t" "s2_next_counter s \<noteq> 0"
    "v2_send_batch P s (seed, m # ms) = (Okay envs, s')"
  shows "\<exists>t'. try_all (v2_open P) t envs = (Okay (m # ms), t') \<and> matched P s' t'
       \<and> s2_next_counter s' \<noteq> 0"
proof -
  obtain s1 where turn: "open_turn P s seed = (Okay (), s1)"
    and all: "try_all (v2_seal P) s1 (m # ms) = (Okay envs, s')"
    using assms(5) by (auto simp: v2_send_batch_def split: prod.splits sum.splits)
  obtain env envs' s2 where one: "v2_seal P s1 m = (Okay env, s2)"
    "try_all (v2_seal P) s2 ms = (Okay envs', s')" "envs = env # envs'"
    using all by (rule try_all_ConsE)
  obtain t2 where t2: "v2_open P t env = (Okay m, t2)"
    "window_rel (s2_replay t2) {unat (s2_next_counter s1)}" "matched P s2 t2"
    using v2_open_next_turn[OF assms(1-3) turn one(1) assms(4)] .
  have c: "unat (s2_next_counter s2) = unat (s2_next_counter s1) + 1"
    using one(1) by (rule v2_seal_counter)
  then have nz: "s2_next_counter s2 \<noteq> 0" by (metis Suc_eq_plus1 nat.distinct(1) unat_0)
  obtain t' where "try_all (v2_open P) t2 envs' = (Okay ms, t')" "matched P s' t'"
    using v2_batch_opens[OF assms(1) t2(3) one(2) t2(2) _ nz] c by auto
  moreover have "s2_next_counter s' \<noteq> 0"
    using seal_all_counter[OF one(2)] c
    by (metis Suc_eq_plus1 add_Suc nat.distinct(1) unat_0)
  ultimately show ?thesis using t2(1) one(3) by simp
qed

lemma v2_batches_delivered:
  assumes "aead_correct P" "dh_agree P" "matched P s t" "s2_next_counter s \<noteq> 0"
    "try_all (v2_send_batch P) s bs = (Okay envss, s')" "\<forall>b\<in>set bs. snd b \<noteq> []"
  shows "fst (try_all (try_all (v2_open P)) t envss) = Okay (map snd bs)"
  using assms(3-)
proof (induction bs arbitrary: s t envss)
  case Nil
  then show ?case by auto
next
  case (Cons b bs)
  obtain envs envss' s1 where one: "v2_send_batch P s b = (Okay envs, s1)"
    "try_all (v2_send_batch P) s1 bs = (Okay envss', s')" "envss = envs # envss'"
    using Cons.prems(3) by (rule try_all_ConsE)
  obtain seed m ms where b: "b = (seed, m # ms)"
    using Cons.prems(4) by (metis list.exhaust list.set_intros(1) prod.collapse)
  obtain t' where t': "try_all (v2_open P) t envs = (Okay (m # ms), t')" "matched P s1 t'"
      "s2_next_counter s1 \<noteq> 0"
    using v2_batch_next_turn[OF assms(1,2) Cons.prems(1,2)] one(1) b by blast
  have "fst (try_all (try_all (v2_open P)) t' envss') = Okay (map snd bs)"
    using Cons.IH[OF t'(2,3) one(2)] Cons.prems(4) by simp
  then show ?case using t'(1) one(3) b by (auto split: prod.splits sum.splits)
qed

section \<open>Opening\<close>

text \<open>Everything a successful or rejected opening implies about the envelope and the new state.\<close>

lemma v2_open_cases:
  assumes "v2_open P t env = (res, t')"
  obtains (closed) e where "res = Err e" "\<nexists>c. e = ReplayRejected c" "t' = t"
  | (authentic) h body chain plain where
      "v2_decode env = Okay (h, body)" "h_epoch_seq h = s2_epoch_seq t" "h_epoch h = s2_epoch t"
      "h_turn h = s2_turn t \<or> h_turn h = s2_turn t + 1"
      "aead_decrypt P (turn_key P chain (s2_epoch t) (s2_epoch_seq t) (h_turn h)
         (s2_sender t) (s2_receiver t)) (h_nonce h) body
         (v2_aad (s2_epoch_seq t) (s2_epoch t) (h_turn h) (h_counter h)
           (s2_sender t) (s2_receiver t)) = Some plain"
      "t' = t\<lparr>s2_chain := Some chain, s2_turn := h_turn h,
         s2_replay := snd (window_accept
           (if h_turn h = s2_turn t then s2_replay t else window_default) (h_counter h))\<rparr>"
      "res = (if fst (window_accept
           (if h_turn h = s2_turn t then s2_replay t else window_default) (h_counter h))
         then Okay plain else Err (ReplayRejected (h_counter h)))"
      "h_turn h = s2_turn t \<Longrightarrow> s2_chain t = Some chain"
      "v2_candidate P t h = Okay (if h_turn h = s2_turn t then None else Some chain)"
proof (cases "\<exists>h body cand chain plain. v2_decode env = Okay (h, body)
      \<and> h_epoch_seq h = s2_epoch_seq t \<and> h_epoch h = s2_epoch t
      \<and> (h_turn h = s2_turn t \<or> h_turn h = s2_turn t + 1) \<and> v2_candidate P t h = Okay cand
      \<and> (case cand of Some c \<Rightarrow> Some c | None \<Rightarrow> s2_chain t) = Some chain
      \<and> aead_decrypt P (turn_key P chain (s2_epoch t) (s2_epoch_seq t) (h_turn h)
         (s2_sender t) (s2_receiver t)) (h_nonce h) body
         (v2_aad (s2_epoch_seq t) (s2_epoch t) (h_turn h) (h_counter h)
           (s2_sender t) (s2_receiver t)) = Some plain")
  case False
  have "\<exists>e. res = Err e \<and> (\<nexists>c. e = ReplayRejected c) \<and> t' = t"
    using assms False
    by (force simp: v2_open_def v2_decode_def v2_candidate_def shared_secret_from_def
        split: if_splits sum.splits prod.splits option.splits)
  then show thesis using closed by blast
next
  case True
  then obtain h body cand chain plain where a: "v2_decode env = Okay (h, body)"
    "h_epoch_seq h = s2_epoch_seq t" "h_epoch h = s2_epoch t"
    "h_turn h = s2_turn t \<or> h_turn h = s2_turn t + 1" "v2_candidate P t h = Okay cand"
    "(case cand of Some c \<Rightarrow> Some c | None \<Rightarrow> s2_chain t) = Some chain"
    "aead_decrypt P (turn_key P chain (s2_epoch t) (s2_epoch_seq t) (h_turn h)
       (s2_sender t) (s2_receiver t)) (h_nonce h) body
       (v2_aad (s2_epoch_seq t) (s2_epoch t) (h_turn h) (h_counter h)
         (s2_sender t) (s2_receiver t)) = Some plain" by blast
  have one: "s2_turn t + 1 \<noteq> s2_turn t" by simp
  have cand: "cand = (if h_turn h = s2_turn t then None else Some chain)"
    using a(4-6) one by (auto simp: v2_candidate_def split: option.splits sum.splits if_splits)
  then have chain: "h_turn h = s2_turn t \<Longrightarrow> s2_chain t = Some chain" using a(6) by simp
  let ?w = "if h_turn h = s2_turn t then s2_replay t else window_default"
  have st: "t' = t\<lparr>s2_chain := Some chain, s2_turn := h_turn h,
      s2_replay := snd (window_accept ?w (h_counter h))\<rparr>"
    and res: "res = (if fst (window_accept ?w (h_counter h)) then Okay plain
       else Err (ReplayRejected (h_counter h)))"
    using assms a cand chain by (auto simp: v2_open_def Let_def split_beta)
  show thesis using authentic[OF a(1-4,7) st res chain] a(5) cand by blast
qed

end
