(* ===== verification/Crypto_V2_Safety.thy ===== *)
theory Crypto_V2_Safety
  imports Crypto_Session_V2
begin

text \<open>
  What the second-generation session promises over whole runs: delivery of every batch in order,
  counters that only grow, an opener that fails closed and a receiver that accepts no envelope
  position twice. The last section records where the code and its documentation part.
\<close>

section \<open>Runs\<close>

text \<open>The operations of a sender and the envelopes a sequence of them emits; a failed operation emits
  nothing and the run goes on.\<close>

datatype v2_op = OpSeal bytes | OpBlock counter_block | OpTurn bytes

fun v2_run :: "crypto_prims \<Rightarrow> session_v2 \<Rightarrow> v2_op list \<Rightarrow> bytes list" where
  "v2_run P s [] = []"
| "v2_run P s (OpSeal m # ops) =
     (case v2_seal P s m of
        (Inr env, s') \<Rightarrow> env # v2_run P s' ops
      | (Inl _, s') \<Rightarrow> v2_run P s' ops)"
| "v2_run P s (OpBlock b # ops) = v2_run P (snd (set_counter_block s b)) ops"
| "v2_run P s (OpTurn seed # ops) = v2_run P (snd (open_turn P s seed)) ops"

text \<open>The position an envelope claims on the wire.\<close>

definition wire_turn :: "bytes \<Rightarrow> nat" where
  "wire_turn env = unat (of_nat (from_be (take 8 (drop 21 env))) :: u64)"

definition wire_counter :: "bytes \<Rightarrow> nat" where
  "wire_counter env = unat (of_nat (from_be (take 8 (drop 29 env))) :: u64)"

text \<open>The positions a receiver accepts from a sequence of envelopes.\<close>

fun v2_accepted :: "crypto_prims \<Rightarrow> session_v2 \<Rightarrow> bytes list \<Rightarrow> (nat \<times> nat) list" where
  "v2_accepted P t [] = []"
| "v2_accepted P t (env # envs) =
     (case v2_open P t env of
        (Inr _, t') \<Rightarrow> (wire_turn env, wire_counter env) # v2_accepted P t' envs
      | (Inl _, t') \<Rightarrow> v2_accepted P t' envs)"

section \<open>Sealing\<close>

lemma v2_seal_frame:
  assumes "v2_seal P s m = (r, s')"
  shows "s2_epoch s' = s2_epoch s \<and> unat (s2_next_counter s) \<le> unat (s2_next_counter s')"
  using assms less_end_not_max
  by (auto simp: v2_seal_def Let_def not_le unat_Suc_counter split: if_splits option.splits)

lemma v2_seal_wire_counter:
  assumes "v2_seal P s m = (Okay env, s')" "length (s2_epoch s) = 16"
  shows "wire_counter env = unat (s2_next_counter s)
       \<and> unat (s2_next_counter s') = Suc (unat (s2_next_counter s))"
  using assms(1)
proof (rule v2_seal_OkayE)
  fix block chain ct
  assume "env = v2_encode \<lparr>h_epoch_seq = s2_epoch_seq s, h_epoch = s2_epoch s,
     h_turn = s2_turn s, h_counter = s2_next_counter s, h_eph = s2_eph_pub s,
     h_nonce = counter_nonce (s2_next_counter s)\<rparr> ct"
  then have "wire_counter env = unat (s2_next_counter s)"
    using assms(2) by (simp add: wire_counter_def v2_encode_def)
  then show ?thesis using v2_seal_counter[OF assms(1)] by simp
qed

lemma set_counter_block_frame:
  "s2_epoch (snd (set_counter_block s b)) = s2_epoch s"
  "s2_next_counter (snd (set_counter_block s b)) = s2_next_counter s"
  by (simp_all add: set_counter_block_def)

lemma open_turn_frame:
  "s2_epoch (snd (open_turn P s seed)) = s2_epoch s"
  "s2_next_counter (snd (open_turn P s seed)) = s2_next_counter s"
  by (simp_all add: open_turn_def split: option.split sum.split)

lemma v2_run_counters:
  assumes "length (s2_epoch s) = 16"
  shows "sorted_wrt (<) (map wire_counter (v2_run P s ops))
       \<and> (\<forall>env\<in>set (v2_run P s ops). unat (s2_next_counter s) \<le> wire_counter env)"
  using assms
proof (induction P s ops rule: v2_run.induct)
  case (1 P s)
  then show ?case by simp
next
  case (2 P s m ops)
  obtain r s' where e: "v2_seal P s m = (r, s')" by fastforce
  have fr: "length (s2_epoch s') = 16" "unat (s2_next_counter s) \<le> unat (s2_next_counter s')"
    using v2_seal_frame[OF e] 2(3) by simp_all
  show ?case
  proof (cases r)
    case (Inl x)
    then show ?thesis using 2(1)[OF e[symmetric] Inl fr(1)] e fr by fastforce
  next
    case (Inr env)
    then have "wire_counter env = unat (s2_next_counter s)"
      "unat (s2_next_counter s') = Suc (unat (s2_next_counter s))"
      using v2_seal_wire_counter[of P s m env s'] e 2(3) by simp_all
    then show ?thesis using 2(2)[OF e[symmetric] Inr fr(1)] e Inr by fastforce
  qed
next
  case (3 P s b ops)
  then show ?case by (simp add: set_counter_block_frame)
next
  case (4 P s seed ops)
  then show ?case by (simp add: open_turn_frame)
qed

lemma v2_run_length: "length (v2_run P s ops) \<le> length ops"
  by (induction P s ops rule: v2_run.induct) (auto split: prod.splits sum.splits)

section \<open>Accepting\<close>

lemma v2_decode_wire:
  assumes "v2_decode env = Okay (h, body)"
  shows "wire_turn env = unat (h_turn h) \<and> wire_counter env = unat (h_counter h)"
  using assms by (auto simp: v2_decode_def wire_turn_def wire_counter_def split: if_splits)

text \<open>One opening: the turn moves by at most one and the set of accepted counters of the turn grows by
  the accepted one.\<close>

lemma v2_open_progress:
  assumes op: "v2_open P t env = (r, t')" and rel: "window_rel (s2_replay t) S"
    and room: "unat (s2_turn t) + 1 < 2 ^ 64"
  obtains S' where "window_rel (s2_replay t') S'"
    "s2_turn t' = s2_turn t \<and> S \<subseteq> S' \<or> unat (s2_turn t') = unat (s2_turn t) + 1"
    "\<And>p. r = Okay p \<Longrightarrow> wire_turn env = unat (s2_turn t') \<and> wire_counter env \<in> S'
       \<and> (s2_turn t' = s2_turn t \<longrightarrow> wire_counter env \<notin> S)"
  using op
proof (cases rule: v2_open_cases)
  case (closed e)
  then show ?thesis using that[of S] rel by auto
next
  case (authentic h body chain plain)
  define T where "T = (if h_turn h = s2_turn t then S else {})"
  have relT: "window_rel (if h_turn h = s2_turn t then s2_replay t else window_default) T"
    using rel window_rel_default by (simp add: T_def)
  have "s2_turn t \<noteq> - 1"
  proof
    assume "s2_turn t = - 1"
    then have "unat (s2_turn t) + 1 = 2 ^ 64" by (simp add: unsigned_minus_1_eq_mask mask_eq_exp_minus_1)
    then show False using room by simp
  qed
  then have next_turn: "unat (s2_turn t + 1) = unat (s2_turn t) + 1" by (rule unat_Suc_counter)
  have wire: "wire_turn env = unat (h_turn h)" "wire_counter env = unat (h_counter h)"
    using v2_decode_wire[OF authentic(1)] by simp_all
  show ?thesis
    by (rule that[of "if spec_acceptable T (unat (h_counter h))
          then insert (unat (h_counter h)) T else T"])
      (use window_accept_refines[OF relT, of "h_counter h"] authentic(4,6,7) next_turn wire in
       \<open>auto simp: T_def spec_acceptable_def split: if_splits\<close>)
qed

lemma v2_accepted_fresh:
  assumes "window_rel (s2_replay t) S" "unat (s2_turn t) + length envs < 2 ^ 64"
  shows "distinct (v2_accepted P t envs)
       \<and> (\<forall>(a, c)\<in>set (v2_accepted P t envs). unat (s2_turn t) \<le> a \<and> (a = unat (s2_turn t) \<longrightarrow> c \<notin> S))"
  using assms
proof (induction envs arbitrary: t S)
  case Nil
  then show ?case by simp
next
  case (Cons env envs)
  obtain r t' where e: "v2_open P t env = (r, t')" by fastforce
  obtain S' where S': "window_rel (s2_replay t') S'"
    "s2_turn t' = s2_turn t \<and> S \<subseteq> S' \<or> unat (s2_turn t') = unat (s2_turn t) + 1"
    "\<And>p. r = Okay p \<Longrightarrow> wire_turn env = unat (s2_turn t') \<and> wire_counter env \<in> S'
       \<and> (s2_turn t' = s2_turn t \<longrightarrow> wire_counter env \<notin> S)"
    using v2_open_progress[OF e Cons.prems(1)] Cons.prems(2) by auto
  have "unat (s2_turn t') + length envs < 2 ^ 64" using S'(2) Cons.prems(2) by auto
  then have IH: "distinct (v2_accepted P t' envs)"
    "\<forall>(a, c)\<in>set (v2_accepted P t' envs). unat (s2_turn t') \<le> a \<and> (a = unat (s2_turn t') \<longrightarrow> c \<notin> S')"
    using Cons.IH[OF S'(1)] by auto
  have rest: "unat (s2_turn t) \<le> a \<and> (a = unat (s2_turn t) \<longrightarrow> c \<notin> S)"
    if "(a, c) \<in> set (v2_accepted P t' envs)" for a c
    using that IH(2) S'(2) by fastforce
  show ?case
  proof (cases r)
    case (Inl x)
    then show ?thesis using e IH(1) rest by auto
  next
    case (Inr p)
    have "(wire_turn env, wire_counter env) \<notin> set (v2_accepted P t' envs)"
      using IH(2) S'(3)[OF Inr] by auto
    moreover have "unat (s2_turn t) \<le> wire_turn env
      \<and> (wire_turn env = unat (s2_turn t) \<longrightarrow> wire_counter env \<notin> S)"
      using S'(2) S'(3)[OF Inr] by auto
    ultimately show ?thesis using e Inr IH(1) rest by auto
  qed
qed

lemma v2_inbound_fields:
  assumes "v2_inbound P loc peer ep eq = Okay t"
  shows "s2_replay t = window_default \<and> s2_turn t = 0"
  using assms by (auto simp: v2_inbound_def split: if_splits sum.splits)

section \<open>A concrete pair of sessions\<close>

definition sample_epoch :: bytes where
  "sample_epoch = replicate 16 7"

definition sample_block :: counter_block where
  "sample_block = \<lparr>cb_start = 1, cb_end = 4\<rparr>"

definition sample_sender :: session_v2 where
  "sample_sender = projr (v2_outbound sample_prims (sample_keys ''laptop'' 1)
     (public_identity sample_prims (sample_keys ''phone'' 2)) sample_epoch 1 (Some sample_block))"

definition sample_receiver :: session_v2 where
  "sample_receiver = projr (v2_inbound sample_prims (sample_keys ''phone'' 2)
     (public_identity sample_prims (sample_keys ''laptop'' 1)) sample_epoch 1)"

definition sample_wire :: "bytes list" where
  "sample_wire = v2_run sample_prims sample_sender [OpSeal [10], OpTurn [5], OpSeal [11], OpSeal [12]]"

lemma sample_sender_ok:
  "v2_outbound sample_prims (sample_keys ''laptop'' 1)
     (public_identity sample_prims (sample_keys ''phone'' 2)) sample_epoch 1 (Some sample_block)
   = Okay sample_sender"
  by code_simp

lemma sample_receiver_ok:
  "v2_inbound sample_prims (sample_keys ''phone'' 2)
     (public_identity sample_prims (sample_keys ''laptop'' 1)) sample_epoch 1
   = Okay sample_receiver"
  by code_simp

lemma sample_run_accepted:
  "v2_accepted sample_prims sample_receiver (sample_wire @ sample_wire) = [(0, 1), (1, 2), (1, 3)]"
  by code_simp

section \<open>Properties\<close>

text \<open>C26: For two devices that exchanged identities and agreed on an epoch, every batch the sender
  produces (a new ratchet turn, then its envelopes) is opened by the receiver to the batch's
  messages, in order, over any number of turns and whatever the ephemeral seeds, given a correct
  AEAD and an agreeing key exchange.\<close>

theorem v2_conversation_roundtrip:
  assumes "aead_correct P" "dh_agree P" "length ep = 16"
    and "v2_outbound P a (public_identity P b) ep eq (Some blk) = Okay s"
    and "v2_inbound P b (public_identity P a) ep eq = Okay t"
    and "try_all (v2_send_batch P) s bs = (Okay envss, s')" "\<forall>b\<in>set bs. snd b \<noteq> []"
  shows "fst (try_all (try_all (v2_open P)) t envss) = Okay (map snd bs)"
  using matched_constructors[OF assms(2,4,5,3)] v2_batches_delivered[OF assms(1,2) _ _ assms(6,7)]
  by simp

theorem v2_conversation_roundtrip_witness:
  "\<exists>envss s'. try_all (v2_send_batch sample_prims) sample_sender [([5], [[10]]), ([6], [[11], [12]])]
       = (Okay envss, s')
     \<and> fst (try_all (try_all (v2_open sample_prims)) sample_receiver envss)
       = Okay [[[10]], [[11], [12]]]"
proof -
  have ok: "\<not> isl (fst (try_all (v2_send_batch sample_prims) sample_sender
      [([5], [[10]]), ([6], [[11], [12]])]))"
    by code_simp
  then obtain envss s' where run: "try_all (v2_send_batch sample_prims) sample_sender
      [([5], [[10]]), ([6], [[11], [12]])] = (Okay envss, s')"
    by (metis isl_def prod.collapse sum.exhaust)
  have len: "length sample_epoch = 16" by (simp add: sample_epoch_def)
  show ?thesis
    using run v2_conversation_roundtrip[OF sample_prims_sound(1,2) len sample_sender_ok
      sample_receiver_ok run] by simp
qed

text \<open>A sender never repeats a counter, and with it never repeats a nonce: over any interleaving
  of sealing, installing counter blocks and opening turns, with failures in between, the counters on
  the emitted envelopes strictly increase.\<close>

theorem v2_counters_never_repeat:
  assumes "length (s2_epoch s) = 16"
  shows "sorted_wrt (<) (map wire_counter (v2_run P s ops))"
  using v2_run_counters[OF assms] by simp

theorem v2_counters_never_repeat_witness:
  "map wire_counter (v2_run sample_prims sample_sender [OpSeal [10], OpTurn [5], OpSeal [11]]) = [1, 2]
   \<and> sorted_wrt (<) (map wire_counter (v2_run sample_prims sample_sender
       [OpSeal [10], OpTurn [5], OpSeal [11]]))"
proof
  show "map wire_counter (v2_run sample_prims sample_sender [OpSeal [10], OpTurn [5], OpSeal [11]]) = [1, 2]"
    by code_simp
  have "length (s2_epoch sample_sender) = 16" by code_simp
  then show "sorted_wrt (<) (map wire_counter (v2_run sample_prims sample_sender
       [OpSeal [10], OpTurn [5], OpSeal [11]]))"
    by (rule v2_counters_never_repeat)
qed

text \<open>An envelope that authenticates: it carries the session's epoch and the current or the next turn, and its
  body decrypts under the key of exactly the turn, counter and route on the wire, derived from the current chain
  or, for the next turn, from the chain one ratchet step further with the ephemeral key on the wire.\<close>

definition v2_authentic :: "crypto_prims \<Rightarrow> session_v2 \<Rightarrow> bytes \<Rightarrow> v2_header \<Rightarrow> bytes \<Rightarrow> bytes \<Rightarrow> bool" where
  "v2_authentic P t env h chain plain \<longleftrightarrow> (\<exists>body. v2_decode env = Okay (h, body)
     \<and> h_epoch_seq h = s2_epoch_seq t \<and> h_epoch h = s2_epoch t
     \<and> (h_turn h = s2_turn t \<and> s2_chain t = Some chain
        \<or> h_turn h = s2_turn t + 1 \<and> (\<exists>static shared previous. s2_static t = Some static
            \<and> shared_secret_from P static (h_eph h) = Okay shared \<and> s2_chain t = Some previous
            \<and> chain = chain_turn P previous shared))
     \<and> aead_decrypt P (turn_key P chain (s2_epoch t) (s2_epoch_seq t) (h_turn h)
         (s2_sender t) (s2_receiver t)) (h_nonce h) body
         (v2_aad (s2_epoch_seq t) (s2_epoch t) (h_turn h) (h_counter h)
           (s2_sender t) (s2_receiver t)) = Some plain)"

lemma fresh_window_rejects: "window_acceptable window_default c \<longleftrightarrow> c \<noteq> 0"
  using word_neq_0_conv[of c] by (auto simp: window_acceptable_def window_default_def Let_def)

lemma v2_candidate_next:
  "v2_candidate P t h = Okay (Some chain) \<Longrightarrow> \<exists>static shared previous. s2_static t = Some static
     \<and> shared_secret_from P static (h_eph h) = Okay shared \<and> s2_chain t = Some previous
     \<and> chain = chain_turn P previous shared"
  by (auto simp: v2_candidate_def split: if_splits option.splits sum.splits)

text \<open>C27: Opening fails closed. A refusal leaves the session untouched, with one exception: an envelope that
  authenticates for the next turn but carries the counter 0, which sealing never writes, is refused as a replay
  and leaves the session at that turn with an empty window. A message is returned only for an envelope that
  authenticates (epoch, current or next turn, AEAD under the key of exactly that turn, counter and route, the
  next turn's chain being the ratchet step from the current one) and whose counter the replay window of the turn
  admits, and then the session stands at that turn, with that chain and the counter recorded; nothing else of it
  changes.\<close>

theorem v2_open_fail_closed:
  assumes "v2_open P t env = (res, t')"
  shows "case res of
      Inl e \<Rightarrow> t' = t \<or> (\<exists>h chain plain. v2_authentic P t env h chain plain \<and> h_turn h = s2_turn t + 1
         \<and> h_counter h = 0 \<and> e = ReplayRejected 0
         \<and> t' = t\<lparr>s2_chain := Some chain, s2_turn := h_turn h, s2_replay := window_default\<rparr>)
    | Inr plain \<Rightarrow> \<exists>h chain w. v2_authentic P t env h chain plain
         \<and> w = (if h_turn h = s2_turn t then s2_replay t else window_default)
         \<and> window_acceptable w (h_counter h)
         \<and> t' = t\<lparr>s2_chain := Some chain, s2_turn := h_turn h, s2_replay := window_record w (h_counter h)\<rparr>"
  using assms
proof (cases rule: v2_open_cases)
  case (closed e)
  then show ?thesis by simp
next
  case (authentic h body chain plain)
  let ?w = "if h_turn h = s2_turn t then s2_replay t else window_default"
  have auth: "v2_authentic P t env h chain plain"
    using authentic(1-5,8,9) v2_candidate_next[of P t h chain] by (auto simp: v2_authentic_def split: if_splits)
  show ?thesis
  proof (cases "window_acceptable ?w (h_counter h)")
    case True
    then have r: "res = Okay plain"
      "t' = t\<lparr>s2_chain := Some chain, s2_turn := h_turn h, s2_replay := window_record ?w (h_counter h)\<rparr>"
      using authentic(6,7) by (simp_all add: window_accept_def)
    then show ?thesis using auth True unfolding r(1) sum.case by blast
  next
    case False
    then have r: "res = Err (ReplayRejected (h_counter h))"
      "t' = t\<lparr>s2_chain := Some chain, s2_turn := h_turn h, s2_replay := ?w\<rparr>"
      using authentic(6,7) by (simp_all add: window_accept_def)
    show ?thesis
    proof (cases "h_turn h = s2_turn t")
      case True
      then show ?thesis using r authentic(8) by simp
    next
      case other: False
      then have "h_counter h = 0" "h_turn h = s2_turn t + 1"
        "t' = t\<lparr>s2_chain := Some chain, s2_turn := h_turn h, s2_replay := window_default\<rparr>"
        using authentic(4) False fresh_window_rejects r(2) by simp_all
      then show ?thesis using auth unfolding r(1) sum.case by blast
    qed
  qed
qed

text \<open>A tampered envelope, and the first envelope of a conversation.\<close>

theorem v2_open_fail_closed_witness:
  "v2_open sample_prims sample_receiver ((hd sample_wire)[5 := 8]) = (Err (EpochMismatch 1 1), sample_receiver)
   \<and> (\<exists>h chain t'. v2_open sample_prims sample_receiver (hd sample_wire) = (Okay [10], t')
        \<and> v2_authentic sample_prims sample_receiver (hd sample_wire) h chain [10] \<and> s2_chain t' = Some chain)"
proof
  have r: "fst (v2_open sample_prims sample_receiver ((hd sample_wire)[5 := 8])) = Err (EpochMismatch 1 1)"
    by code_simp
  then show "v2_open sample_prims sample_receiver ((hd sample_wire)[5 := 8])
      = (Err (EpochMismatch 1 1), sample_receiver)"
    using v2_open_fail_closed[OF prod.collapse[symmetric],
        of sample_prims sample_receiver "(hd sample_wire)[5 := 8]"]
    by (simp add: prod_eq_iff)
  have "fst (v2_open sample_prims sample_receiver (hd sample_wire)) = Okay [10]" by code_simp
  then obtain t' where op: "v2_open sample_prims sample_receiver (hd sample_wire) = (Okay [10], t')"
    by (metis prod.collapse)
  then show "\<exists>h chain t'. v2_open sample_prims sample_receiver (hd sample_wire) = (Okay [10], t')
        \<and> v2_authentic sample_prims sample_receiver (hd sample_wire) h chain [10] \<and> s2_chain t' = Some chain"
    using v2_open_fail_closed[OF op] by auto
qed

text \<open>C28: A receiver accepts no envelope position twice: from a fresh inbound session, over any
  sequence of envelopes (replayed, reordered, forged), the accepted pairs of turn and counter are
  pairwise different.\<close>

theorem v2_no_position_accepted_twice:
  assumes "v2_inbound P loc peer ep eq = Okay t" "length envs < 2 ^ 64"
  shows "distinct (v2_accepted P t envs)"
  using v2_accepted_fresh[of t "{}" envs P] v2_inbound_fields[OF assms(1)] window_rel_default assms(2)
  by simp

theorem v2_no_position_accepted_twice_witness:
  "v2_accepted sample_prims sample_receiver (sample_wire @ sample_wire) = [(0, 1), (1, 2), (1, 3)]
   \<and> distinct (v2_accepted sample_prims sample_receiver (sample_wire @ sample_wire))"
proof
  show "v2_accepted sample_prims sample_receiver (sample_wire @ sample_wire) = [(0, 1), (1, 2), (1, 3)]"
    by (rule sample_run_accepted)
  have "length sample_wire \<le> 4" 
    using v2_run_length[of sample_prims sample_sender
      "[OpSeal [10], OpTurn [5], OpSeal [11], OpSeal [12]]"]
    by (simp add: sample_wire_def del: v2_run.simps)
  then have "length (sample_wire @ sample_wire) < 2 ^ 64" by simp
  then show "distinct (v2_accepted sample_prims sample_receiver (sample_wire @ sample_wire))"
    using v2_no_position_accepted_twice[OF sample_receiver_ok] by blast
qed

section \<open>Where the code and its documentation differ\<close>

text \<open>A counter block that starts above the next counter is installed without moving the counter, so
  the next envelope carries a counter outside the reserved block.\<close>

theorem v2_seals_unreserved_counter:
  "map wire_counter (v2_run sample_prims sample_sender
     [OpSeal [1], OpSeal [2], OpSeal [3], OpBlock \<lparr>cb_start = 100, cb_end = 200\<rparr>, OpSeal [4]])
   = [1, 2, 3, 4]"
  by code_simp

text \<open>A receiver restored from its chain snapshot accepts again an envelope of the current turn that
  the session it was taken from had accepted.\<close>

theorem v2_restore_forgets_window:
  "\<exists>snap t. v2_chain_snapshot (snd (v2_open sample_prims sample_receiver (hd sample_wire))) = Some snap
     \<and> v2_restore_inbound sample_prims (sample_keys ''phone'' 2)
         (public_identity sample_prims (sample_keys ''laptop'' 1)) sample_epoch 1 snap = Okay t
     \<and> v2_accepted sample_prims sample_receiver [hd sample_wire, hd sample_wire] = [(0, 1)]
     \<and> v2_accepted sample_prims t [hd sample_wire] = [(0, 1)]"
proof -
  let ?snap = "\<lparr>cs_chain_ikm = the (s2_chain sample_receiver), cs_turn_no = 0\<rparr>"
  have snap: "v2_chain_snapshot (snd (v2_open sample_prims sample_receiver (hd sample_wire))) = Some ?snap"
    by code_simp
  have same: "sample_receiver\<lparr>s2_chain := Some (the (s2_chain sample_receiver)), s2_turn := 0\<rparr>
      = sample_receiver"
    by code_simp
  then have "v2_restore_inbound sample_prims (sample_keys ''phone'' 2)
     (public_identity sample_prims (sample_keys ''laptop'' 1)) sample_epoch 1 ?snap = Okay sample_receiver"
    by (simp add: v2_restore_inbound_def sample_receiver_ok)
  moreover have "v2_accepted sample_prims sample_receiver [hd sample_wire, hd sample_wire] = [(0, 1)]"
    by code_simp
  moreover have "v2_accepted sample_prims sample_receiver [hd sample_wire] = [(0, 1)]"
    by code_simp
  ultimately show ?thesis using snap by blast
qed

end
