(* ===== verification/Protocol_Types.thy ===== *)
theory Protocol_Types
  imports Altior_Prelude
begin

text \<open>
  The value types of the Desktop/Core protocol: \<open>crates/altior-protocol/src/version.rs\<close> (protocol
  versions, ranges, product versions), \<open>capability.rs\<close> (declared capabilities), \<open>auth.rs\<close> (launch
  tokens), \<open>error.rs\<close> and the sequence numbers of \<open>event.rs\<close>. Version numbers and sequence numbers
  are words of their width.
\<close>

section \<open>Errors\<close>

record version_range =
  vr_min :: u32
  vr_max :: u32

text \<open>\<open>ProtocolError\<close>; the underlying domain and JSON errors are kept as their message.\<close>

datatype protocol_error =
    InvalidProtocolVersion u32
  | MalformedProtocolVersion string
  | InvalidProtocolVersionRange u32 u32
  | UnsupportedProtocolVersion u32 version_range
  | NoCommonProtocolVersion version_range version_range
  | MalformedProductVersion string
  | MalformedCapabilityId string
  | UnsupportedCommandKind string
  | MalformedEventKind string
  | ZeroSequence
  | SequenceOverflow u64
  | InvalidLaunchTokenCharacter string nat
  | LaunchTokenLength nat
  | InvalidRetainedWindow u64 u64
  | PayloadTooLarge nat nat
  | TextTooLarge nat nat
  | HarnessEnvSecretMismatch nat nat
  | IdError string
  | EntityError string
  | MalformedEnvelope string

section \<open>Decimal numbers\<close>

text \<open>\<open>Display\<close> and \<open>FromStr\<close> of an unsigned integer: decimal digits without leading zeros out, digits
  with an optional \<open>+\<close> in, failing on anything else and on overflow.\<close>

definition digit_char :: "nat \<Rightarrow> char" where
  "digit_char d = char_of (48 + d)"

definition is_digit :: "char \<Rightarrow> bool" where
  "is_digit c \<longleftrightarrow> 48 \<le> (of_char c :: nat) \<and> (of_char c :: nat) \<le> 57"

fun show_nat :: "nat \<Rightarrow> string" where
  "show_nat n = (if n < 10 then [digit_char n] else show_nat (n div 10) @ [digit_char (n mod 10)])"

declare show_nat.simps [simp del]

definition digits_value :: "string \<Rightarrow> nat" where
  "digits_value s = foldl (\<lambda>acc c. acc * 10 + (of_char c - 48)) 0 s"

definition parse_uint :: "nat \<Rightarrow> string \<Rightarrow> nat option" where
  "parse_uint limit s =
     (let ds = (case s of c # cs \<Rightarrow> if c = CHR ''+'' then cs else s | [] \<Rightarrow> []) in
      if ds = [] \<or> \<not> list_all is_digit ds \<or> digits_value ds > limit then None
      else Some (digits_value ds))"

section \<open>Protocol versions\<close>

definition protocol_v1 :: u32 where
  "protocol_v1 = 1"

definition version_try_new :: "u32 \<Rightarrow> (protocol_error, u32) result" where
  "version_try_new v = (if v = 0 then Err (InvalidProtocolVersion v) else Okay v)"

definition version_from_str :: "string \<Rightarrow> (protocol_error, u32) result" where
  "version_from_str s =
     (case parse_uint u32_max s of
        None \<Rightarrow> Err (MalformedProtocolVersion s)
      | Some n \<Rightarrow> version_try_new (of_nat n))"

definition range_try_new :: "u32 \<Rightarrow> u32 \<Rightarrow> (protocol_error, version_range) result" where
  "range_try_new lo hi =
     (if lo > hi then Err (InvalidProtocolVersionRange lo hi)
      else Okay \<lparr>vr_min = lo, vr_max = hi\<rparr>)"

definition range_contains :: "version_range \<Rightarrow> u32 \<Rightarrow> bool" where
  "range_contains r v \<longleftrightarrow> v \<ge> vr_min r \<and> v \<le> vr_max r"

definition range_intersect :: "version_range \<Rightarrow> version_range \<Rightarrow> version_range option" where
  "range_intersect a b =
     (let lo = max (vr_min a) (vr_min b); hi = min (vr_max a) (vr_max b) in
      if lo \<le> hi then Some \<lparr>vr_min = lo, vr_max = hi\<rparr> else None)"

definition supported_protocol_versions :: version_range where
  "supported_protocol_versions = \<lparr>vr_min = protocol_v1, vr_max = protocol_v1\<rparr>"

section \<open>Product versions\<close>

record product_version =
  major :: "16 word"
  minor :: "16 word"
  patch :: "16 word"

text \<open>\<open>str::split('.')\<close>: always at least one part.\<close>

fun split_dot :: "string \<Rightarrow> string list" where
  "split_dot [] = [[]]"
| "split_dot (c # cs) =
     (if c = CHR ''.'' then [] # split_dot cs
      else case split_dot cs of p # ps \<Rightarrow> (c # p) # ps | [] \<Rightarrow> [[c]])"

definition product_version_display :: "product_version \<Rightarrow> string" where
  "product_version_display v =
     show_nat (unat (major v)) @ ''.'' @ show_nat (unat (minor v)) @ ''.'' @ show_nat (unat (patch v))"

definition product_version_from_str :: "string \<Rightarrow> (protocol_error, product_version) result" where
  "product_version_from_str s =
     (case split_dot s of
        [a, b, c] \<Rightarrow>
          (case (parse_uint 65535 a, parse_uint 65535 b, parse_uint 65535 c) of
             (Some x, Some y, Some z) \<Rightarrow>
               Okay \<lparr>major = of_nat x, minor = of_nat y, patch = of_nat z\<rparr>
           | _ \<Rightarrow> Err (MalformedProductVersion s))
      | _ \<Rightarrow> Err (MalformedProductVersion s))"

section \<open>Capabilities\<close>

definition max_id_len :: nat where
  "max_id_len = 64"

definition is_ascii_lowercase :: "char \<Rightarrow> bool" where
  "is_ascii_lowercase c \<longleftrightarrow> 97 \<le> (of_char c :: nat) \<and> (of_char c :: nat) \<le> 122"

definition capability_id_from_str :: "string \<Rightarrow> (protocol_error, string) result" where
  "capability_id_from_str s =
     (if s = [] \<or> length s > max_id_len then Err (MalformedCapabilityId s)
      else if \<not> list_all (\<lambda>c. is_ascii_lowercase c \<or> is_digit c \<or> c = CHR ''.'' \<or> c = CHR ''-'') s
      then Err (MalformedCapabilityId s)
      else Okay s)"

datatype capability_support = Supported | Unsupported

type_synonym capability_set = "(string \<times> capability_support) list"

definition capability_declare ::
  "capability_set \<Rightarrow> string \<Rightarrow> capability_support \<Rightarrow> (protocol_error, unit) result \<times> capability_set"
where
  "capability_declare m i support =
     (case capability_id_from_str i of
        Inl e \<Rightarrow> (Err e, m)
      | Inr cid \<Rightarrow> (Okay (), bt_insert cid support m))"

definition declare_validated ::
  "string \<Rightarrow> capability_support \<Rightarrow> capability_set \<Rightarrow> capability_set" where
  "declare_validated i support m = bt_insert i support m"

fun from_declarations_into ::
  "capability_set \<Rightarrow> (string \<times> capability_support) list \<Rightarrow> (protocol_error, capability_set) result"
where
  "from_declarations_into m [] = Okay m"
| "from_declarations_into m ((i, support) # ds) =
     (case capability_declare m i support of
        (Inl e, _) \<Rightarrow> Err e
      | (Inr _, m') \<Rightarrow> from_declarations_into m' ds)"

definition from_declarations ::
  "(string \<times> capability_support) list \<Rightarrow> (protocol_error, capability_set) result" where
  "from_declarations ds = from_declarations_into [] ds"

definition capability_get :: "capability_set \<Rightarrow> string \<Rightarrow> capability_support option" where
  "capability_get m i = map_of m i"

definition supported_ids :: "capability_set \<Rightarrow> string list" where
  "supported_ids m = map fst (filter (\<lambda>(i, support). support = Supported) m)"

section \<open>Launch tokens\<close>

definition min_token_len :: nat where
  "min_token_len = 32"

definition max_token_len :: nat where
  "max_token_len = 128"

text \<open>A character of a UTF-8 string starts at every byte that is not a continuation byte.\<close>

definition is_continuation :: "char \<Rightarrow> bool" where
  "is_continuation c \<longleftrightarrow> 128 \<le> (of_char c :: nat) \<and> (of_char c :: nat) < 192"

definition chars_count :: "string \<Rightarrow> nat" where
  "chars_count s = length (filter (\<lambda>c. \<not> is_continuation c) s)"

definition is_token_char :: "char \<Rightarrow> bool" where
  "is_token_char c \<longleftrightarrow> is_digit c \<or> 97 \<le> (of_char c :: nat) \<and> (of_char c :: nat) \<le> 102"

fun token_scan :: "nat \<Rightarrow> string \<Rightarrow> (protocol_error, unit) result" where
  "token_scan pos [] = Okay ()"
| "token_scan pos (c # cs) =
     (if is_token_char c then token_scan (pos + 1) cs
      else Err (InvalidLaunchTokenCharacter (c # takeWhile is_continuation cs) pos))"

definition launch_token_try_new :: "string \<Rightarrow> (protocol_error, string) result" where
  "launch_token_try_new v =
     (if chars_count v < min_token_len \<or> chars_count v > max_token_len
      then Err (LaunchTokenLength (chars_count v))
      else case token_scan 0 v of Inl e \<Rightarrow> Err e | Inr _ \<Rightarrow> Okay v)"

section \<open>Sequence numbers\<close>

definition sequence_first :: u64 where
  "sequence_first = 1"

definition sequence_try_new :: "u64 \<Rightarrow> (protocol_error, u64) result" where
  "sequence_try_new v = (if v = 0 then Err ZeroSequence else Okay v)"

definition sequence_next :: "u64 \<Rightarrow> (protocol_error, u64) result" where
  "sequence_next s = (if s = - 1 then Err (SequenceOverflow s) else Okay (s + 1))"

section \<open>Lemmas\<close>

lemma of_char_digit_char: "d < 10 \<Longrightarrow> (of_char (digit_char d) :: nat) = 48 + d"
  by (simp add: digit_char_def)

lemma is_digit_digit_char: "d < 10 \<Longrightarrow> is_digit (digit_char d)"
  by (simp add: is_digit_def of_char_digit_char)

lemma show_nat_digits: "show_nat n \<noteq> [] \<and> list_all is_digit (show_nat n)"
proof (induction n rule: show_nat.induct)
  case (1 n)
  show ?case
  proof (cases "n < 10")
    case True
    then show ?thesis by (simp add: show_nat.simps[of n] is_digit_digit_char)
  next
    case False
    then show ?thesis using 1 by (simp add: show_nat.simps[of n] is_digit_digit_char)
  qed
qed

lemma digits_value_snoc: "digits_value (s @ [c]) = digits_value s * 10 + (of_char c - 48)"
  by (simp add: digits_value_def)

lemma digits_value_show: "digits_value (show_nat n) = n"
proof (induction n rule: show_nat.induct)
  case (1 n)
  show ?case
  proof (cases "n < 10")
    case True
    then show ?thesis
      by (simp add: show_nat.simps[of n] digits_value_def of_char_digit_char)
  next
    case False
    then show ?thesis
      using 1 by (simp add: show_nat.simps[of n] digits_value_snoc of_char_digit_char)
  qed
qed

lemma not_digit [simp]: "\<not> is_digit (CHR ''+'')" "\<not> is_digit (CHR ''.'')"
  by (simp_all add: is_digit_def)

lemma parse_show_nat: "n \<le> limit \<Longrightarrow> parse_uint limit (show_nat n) = Some n"
  using show_nat_digits[of n] digits_value_show[of n]
  by (cases "show_nat n") (auto simp: parse_uint_def)

lemma split_dot_append:
  "list_all is_digit a \<Longrightarrow> split_dot (a @ CHR ''.'' # rest) = a # split_dot rest"
  by (induction a) auto

lemma split_dot_digits: "list_all is_digit a \<Longrightarrow> split_dot a = [a]"
  by (induction a) auto

lemma supported_ids_iff:
  "bt_ok m \<Longrightarrow> i \<in> set (supported_ids m) \<longleftrightarrow> capability_get m i = Some Supported"
  using bt_ok_distinct[of m] by (auto simp: supported_ids_def capability_get_def image_iff)

lemma supported_ids_sorted: "bt_ok m \<Longrightarrow> sorted_wrt (<) (supported_ids m)"
  unfolding bt_ok_def supported_ids_def by (induction m) auto

end
