(* ===== verification/Ipc_Frame.thy ===== *)
theory Ipc_Frame
  imports Protocol_Types
begin

text \<open>
  The length-prefixed frames of the local stream, \<open>crates/altior-ipc/src/frame.rs\<close>, and the errors of
  the crate, \<open>error.rs\<close>, with \<open>IpcPanic\<close> for a panic. A decoder is its buffer; \<open>feed\<close> loops over \<open>decode_next\<close> until the buffer
  holds no complete frame.
\<close>

section \<open>Model\<close>

datatype ipc_error =
    FrameTooLarge nat nat
  | FrameNotUtf8
  | AuthenticationRejected
  | EndpointUnavailable string
  | StaleEndpoint string string
  | SessionOrder string
  | IpcProtocol protocol_error
  | IpcNotFound string
  | IpcAccessDenied string
  | IpcTimeout string
  | InvalidEndpoint string
  | IpcIo string
  | IpcPanic string

definition max_frame_bytes :: nat where
  "max_frame_bytes = 256 * 1024"

definition encode_frame :: "bytes \<Rightarrow> (ipc_error, bytes) result" where
  "encode_frame payload =
     (if length payload > max_frame_bytes then Err (FrameTooLarge (length payload) max_frame_bytes)
      else if length payload > u32_max then Err (FrameTooLarge (length payload) max_frame_bytes)
      else Okay (be_bytes 4 (length payload) @ payload))"

definition feed_bytes :: "bytes \<Rightarrow> bytes \<Rightarrow> bytes" where
  "feed_bytes buf chunk = buf @ chunk"

definition decode_next :: "bytes \<Rightarrow> (ipc_error, bytes option) result \<times> bytes" where
  "decode_next buf =
     (if length buf < 4 then (Okay None, buf)
      else
        let len = from_be (take 4 buf) in
        if len > max_frame_bytes then (Err (FrameTooLarge len max_frame_bytes), buf)
        else if length buf < 4 + len then (Okay None, buf)
        else (Okay (Some (take len (drop 4 buf))), drop (4 + len) buf))"

lemma decode_next_shrinks:
  "decode_next buf = (Okay (Some f), rest) \<Longrightarrow> length rest < length buf"
  by (auto simp: decode_next_def Let_def split: if_splits)

function decode_all :: "bytes \<Rightarrow> (ipc_error, bytes list) result \<times> bytes" where
  "decode_all buf =
     (case decode_next buf of
        (Inl e, b) \<Rightarrow> (Err e, b)
      | (Inr None, b) \<Rightarrow> (Okay [], b)
      | (Inr (Some f), b) \<Rightarrow>
          (case decode_all b of
             (Inl e, b') \<Rightarrow> (Err e, b')
           | (Inr fs, b') \<Rightarrow> (Okay (f # fs), b')))"
  by pat_completeness auto
termination
  by (relation "measure length") (auto dest: decode_next_shrinks[OF sym])

declare decode_all.simps [simp del]

definition feed :: "bytes \<Rightarrow> bytes \<Rightarrow> (ipc_error, bytes list) result \<times> bytes" where
  "feed buf chunk = decode_all (feed_bytes buf chunk)"

definition pending_bytes :: "bytes \<Rightarrow> nat" where
  "pending_bytes buf = length buf"

text \<open>A reader: every chunk that arrives is fed in turn, and it stops at the first error.\<close>

definition feed_chunks :: "bytes \<Rightarrow> bytes list \<Rightarrow> (ipc_error, bytes list list) result \<times> bytes" where
  "feed_chunks buf cs = try_all feed buf cs"

text \<open>The stream a writer produces for a list of payloads.\<close>

definition frame_of :: "bytes \<Rightarrow> bytes" where
  "frame_of p = be_bytes 4 (length p) @ p"

section \<open>Lemmas\<close>

lemma encode_frame_ok: "encode_frame p = Okay f \<longleftrightarrow> length p \<le> max_frame_bytes \<and> f = frame_of p"
  by (auto simp: encode_frame_def frame_of_def max_frame_bytes_def u32_max_def)

lemma decode_next_frame:
  assumes "length p \<le> max_frame_bytes"
  shows "decode_next (frame_of p @ rest) = (Okay (Some p), rest)"
proof -
  have "length p mod 4294967296 = length p" using assms by (simp add: max_frame_bytes_def)
  then show ?thesis using assms by (simp add: decode_next_def frame_of_def)
qed

lemma decode_all_frame:
  assumes "length p \<le> max_frame_bytes"
  shows "decode_all (frame_of p @ rest)
       = (case decode_all rest of (Inl e, b) \<Rightarrow> (Err e, b) | (Inr fs, b) \<Rightarrow> (Okay (p # fs), b))"
  by (subst decode_all.simps) (simp add: decode_next_frame[OF assms])

text \<open>A strict prefix of a frame is not decoded.\<close>

lemma decode_next_partial:
  assumes "length p \<le> max_frame_bytes" "frame_of p = buf @ rest" "rest \<noteq> []"
  shows "decode_next buf = (Okay None, buf)"
proof (cases "length buf < 4")
  case True
  then show ?thesis by (simp add: decode_next_def)
next
  case False
  have len: "length (frame_of p) = 4 + length p" by (simp add: frame_of_def)
  then have short: "length buf < 4 + length p"
    using assms(2,3) by (metis length_append length_greater_0_conv less_add_same_cancel1)
  have "take 4 buf = take 4 (frame_of p)" using assms(2) False by simp
  also have "\<dots> = be_bytes 4 (length p)" by (simp add: frame_of_def)
  finally have "from_be (take 4 buf) = length p"
    using assms(1) by (simp add: max_frame_bytes_def)
  then show ?thesis using False short assms(1) by (simp add: decode_next_def Let_def)
qed

text \<open>What is decodable now does not depend on what arrives later: decoding after more input gives the
  frames decoded before, then those of the rest.\<close>

lemma decode_next_append:
  "decode_next buf = (Okay (Some f), b) \<Longrightarrow> decode_next (buf @ extra) = (Okay (Some f), b @ extra)"
  by (auto simp: decode_next_def Let_def split: if_splits)

lemma decode_next_append_err:
  "decode_next buf = (Err e, b) \<Longrightarrow> decode_next (buf @ extra) = (Err e, b @ extra)"
  by (auto simp: decode_next_def Let_def split: if_splits)

lemma decode_next_keeps: "decode_next buf = (Okay None, b) \<Longrightarrow> b = buf"
  by (auto simp: decode_next_def Let_def split: if_splits)

interpretation frame_decoder: chunked_decoder decode_next decode_all
proof
  show "decode_all buf = (case decode_next buf of
         (Inl e, b) \<Rightarrow> (Err e, b)
       | (Inr None, b) \<Rightarrow> (Okay [], b)
       | (Inr (Some x), b) \<Rightarrow>
           (case decode_all b of (Inl e, b') \<Rightarrow> (Err e, b') | (Inr xs, b') \<Rightarrow> (Okay (x # xs), b')))" for buf
    by (rule decode_all.simps)
qed (use decode_next_shrinks decode_next_keeps decode_next_append decode_next_append_err in \<open>auto simp: isl_def\<close>)

lemma decode_all_frames:
  assumes "\<forall>p\<in>set ps. length p \<le> max_frame_bytes"
  shows "decode_all (concat (map frame_of ps)) = (Okay ps, [])"
  using assms
proof (induction ps)
  case Nil
  then show ?case by (simp add: decode_all.simps[of "[]"] decode_next_def)
next
  case (Cons p ps)
  then show ?case by (simp add: decode_all_frame)
qed

lemma decode_next_bounded:
  "decode_next buf = (Okay (Some f), b) \<Longrightarrow> length f \<le> max_frame_bytes"
  by (auto simp: decode_next_def Let_def split: if_splits)

lemma decode_all_bounded:
  "decode_all buf = (Okay fs, b) \<Longrightarrow> list_all (\<lambda>f. length f \<le> max_frame_bytes) fs"
proof (induction buf arbitrary: fs rule: decode_all.induct)
  case (1 buf)
  obtain r b1 where n: "decode_next buf = (r, b1)" by fastforce
  show ?case
    using "1.prems" n "1.IH"[OF n[symmetric]] decode_next_bounded[of buf _ b1]
    by (auto simp: decode_all.simps[of buf] split: sum.splits option.splits prod.splits)
qed

lemma decode_next_error:
  "decode_next buf = (Err e, b) \<Longrightarrow>
   b = buf \<and> (\<exists>n. n > max_frame_bytes \<and> e = FrameTooLarge n max_frame_bytes)"
  by (auto simp: decode_next_def Let_def split: if_splits)

lemma decode_all_error:
  "decode_all buf = (Err e, b) \<Longrightarrow>
   decode_next b = (Err e, b) \<and> (\<exists>n. n > max_frame_bytes \<and> e = FrameTooLarge n max_frame_bytes)"
proof (induction buf rule: decode_all.induct)
  case (1 buf)
  obtain r b1 where n: "decode_next buf = (r, b1)" by fastforce
  show ?case
    using "1.prems" n "1.IH"[OF n[symmetric]] decode_next_error[of buf _ b1]
    by (auto simp: decode_all.simps[of buf] split: sum.splits option.splits prod.splits)
qed

section \<open>Properties\<close>

text \<open>C40: However the transport cuts a stream of encoded frames into chunks, the decoder returns
  exactly the payloads, in order.\<close>

theorem frames_survive_any_chunking:
  assumes "map encode_frame ps = map Okay fs" "concat cs = concat fs"
  shows "map_sum id concat (fst (feed_chunks [] cs)) = Okay ps"
proof -
  have "list_all2 (\<lambda>p f. encode_frame p = Okay f) ps fs"
    using assms(1) by (simp add: list_all2_conv_all_nth list_eq_iff_nth_eq)
  then have "fs = map frame_of ps \<and> (\<forall>p\<in>set ps. length p \<le> max_frame_bytes)"
    by (induction rule: list_all2_induct) (auto simp: encode_frame_ok)
  then have "decode_all ([] @ concat cs) = (Okay ps, [])" using decode_all_frames assms(2) by simp
  moreover have "decode_next [] = (Okay None, [])" by (simp add: decode_next_def)
  ultimately obtain pss where "try_all (\<lambda>bu c. decode_all (bu @ c)) [] cs = (Okay pss, [])" "concat pss = ps"
    using frame_decoder.chunks by blast
  moreover have "feed = (\<lambda>bu c. decode_all (bu @ c))" by (simp add: fun_eq_iff feed_def feed_bytes_def)
  ultimately show ?thesis by (simp add: feed_chunks_def)
qed

theorem frames_survive_any_chunking_witness:
  "map_sum id concat (fst (feed_chunks [] [[0, 0, 0], [1, 7, 0, 0], [0, 2, 8], [9]])) = Okay [[7], [8, 9]]"
proof (rule frames_survive_any_chunking[of _ "[[0, 0, 0, 1, 7], [0, 0, 0, 2, 8, 9]]"])
  have "frame_of [7] = [0, 0, 0, 1, 7]" "frame_of [8, 9] = [0, 0, 0, 2, 8, 9]" by code_simp+
  then show "map encode_frame [[7], [8, 9]] = map Okay [[0, 0, 0, 1, 7], [0, 0, 0, 2, 8, 9]]"
    by (simp add: encode_frame_ok max_frame_bytes_def)
qed simp

text \<open>The cap is enforced for good. A decoder never returns a frame over the cap and returns every
  complete frame it holds; it fails only on a declared length over the cap, and then everything fed
  afterwards fails with the same error.\<close>

theorem frame_cap_enforced:
  "case feed buf chunk of
     (Inr fs, b) \<Rightarrow> list_all (\<lambda>f. length f \<le> max_frame_bytes) fs \<and> decode_next b = (Okay None, b)
   | (Inl e, b) \<Rightarrow> (\<exists>n. n > max_frame_bytes \<and> e = FrameTooLarge n max_frame_bytes)
       \<and> (\<forall>c. feed b c = (Err e, b @ c))"
proof -
  obtain r b where d: "decode_all (buf @ chunk) = (r, b)" by fastforce
  show ?thesis
  proof (cases r)
    case (Inl e)
    then have err: "decode_next b = (Err e, b)"
      "\<exists>n. n > max_frame_bytes \<and> e = FrameTooLarge n max_frame_bytes"
      using d decode_all_error[of "buf @ chunk" e b] by simp_all
    have "decode_all (b @ c) = (Err e, b @ c)" for c
      by (subst decode_all.simps) (simp add: decode_next_append_err[OF err(1)])
    then show ?thesis using d Inl err(2) by (simp add: feed_def feed_bytes_def)
  next
    case (Inr fs)
    then show ?thesis
      using d decode_all_bounded[of "buf @ chunk" fs b] frame_decoder.items_rest[of "buf @ chunk" fs b]
      by (simp add: feed_def feed_bytes_def)
  qed
qed

end
