(* ===== verification/Protocol_Handshake.thy ===== *)
theory Protocol_Handshake
  imports Protocol_Types
begin

text \<open>
  Version and capability negotiation, \<open>crates/altior-protocol/src/handshake.rs\<close>, and Core's greeting,
  \<open>greeting.rs\<close>.
\<close>

section \<open>Model\<close>

record desktop_hello =
  dh_supported :: version_range
  dh_version :: product_version
  dh_capabilities :: capability_set
  dh_token :: string

record core_hello =
  ch_supported :: version_range
  ch_version :: product_version
  ch_capabilities :: capability_set

record negotiated_handshake =
  selected_version :: u32
  nh_desktop_version :: product_version
  nh_core_version :: product_version
  negotiated_capabilities :: capability_set
  desktop_only :: "string list"
  core_only :: "string list"

definition negotiate ::
  "desktop_hello \<Rightarrow> core_hello \<Rightarrow> (protocol_error, negotiated_handshake) result" where
  "negotiate desktop core =
     (case range_intersect (dh_supported desktop) (ch_supported core) of
        None \<Rightarrow> Err (NoCommonProtocolVersion (dh_supported desktop) (ch_supported core))
      | Some common \<Rightarrow>
          let ds = supported_ids (dh_capabilities desktop);
              cs = supported_ids (ch_capabilities core) in
          Okay \<lparr>selected_version = vr_max common,
            nh_desktop_version = dh_version desktop, nh_core_version = ch_version core,
            negotiated_capabilities =
              fold (\<lambda>i m. declare_validated i Supported m) (filter (\<lambda>i. i \<in> set cs) ds) [],
            desktop_only = filter (\<lambda>i. i \<notin> set cs) ds,
            core_only = filter (\<lambda>i. i \<notin> set ds) cs\<rparr>)"

record retained_window =
  rw_from :: u64
  rw_through :: u64

definition window_validate :: "retained_window \<Rightarrow> (protocol_error, unit) result" where
  "window_validate w =
     (if rw_from w > rw_through w then Err (InvalidRetainedWindow (rw_from w) (rw_through w))
      else Okay ())"

record core_greeting =
  cg_version :: u32
  cg_instance :: string
  cg_core_version :: product_version
  cg_retained :: "retained_window option"

definition greeting_validate :: "core_greeting \<Rightarrow> (protocol_error, unit) result" where
  "greeting_validate g =
     (if \<not> range_contains supported_protocol_versions (cg_version g)
      then Err (UnsupportedProtocolVersion (cg_version g) supported_protocol_versions)
      else case cg_retained g of None \<Rightarrow> Okay () | Some w \<Rightarrow> window_validate w)"

section \<open>Lemmas\<close>

lemma fold_declare:
  assumes "bt_ok m"
  shows "bt_ok (fold (\<lambda>i m. declare_validated i s m) is m)
       \<and> map_of (fold (\<lambda>i m. declare_validated i s m) is m) = (\<lambda>i. if i \<in> set is then Some s else map_of m i)"
  using assms
  by (induction "is" arbitrary: m) (auto simp: declare_validated_def bt_insert_ok fun_eq_iff)

lemma range_intersect_iff:
  "range_intersect a b = Some r \<Longrightarrow>
     range_contains r v \<longleftrightarrow> range_contains a v \<and> range_contains b v"
  "range_intersect a b = None \<Longrightarrow> \<not> (range_contains a v \<and> range_contains b v)"
  by (auto simp: range_intersect_def range_contains_def Let_def split: if_splits)

section \<open>Properties\<close>

text \<open>Negotiation selects the highest protocol version both sides support and fails exactly when
  no version is common; a capability is negotiated exactly when both sides declared it supported, and
  the one-sided lists hold exactly the capabilities only one side declared supported.\<close>

theorem negotiate_highest_common:
  assumes "bt_ok (dh_capabilities d)" "bt_ok (ch_capabilities c)"
  shows "case negotiate d c of
     Inl e \<Rightarrow> e = NoCommonProtocolVersion (dh_supported d) (ch_supported c)
       \<and> (\<nexists>v. range_contains (dh_supported d) v \<and> range_contains (ch_supported c) v)
   | Inr n \<Rightarrow>
       range_contains (dh_supported d) (selected_version n)
       \<and> range_contains (ch_supported c) (selected_version n)
       \<and> (\<forall>v. range_contains (dh_supported d) v \<and> range_contains (ch_supported c) v
              \<longrightarrow> v \<le> selected_version n)
       \<and> (\<forall>i. capability_get (negotiated_capabilities n) i =
              (if capability_get (dh_capabilities d) i = Some Supported
                  \<and> capability_get (ch_capabilities c) i = Some Supported
               then Some Supported else None))
       \<and> (\<forall>i. i \<in> set (desktop_only n) \<longleftrightarrow> capability_get (dh_capabilities d) i = Some Supported
              \<and> capability_get (ch_capabilities c) i \<noteq> Some Supported)
       \<and> (\<forall>i. i \<in> set (core_only n) \<longleftrightarrow> capability_get (ch_capabilities c) i = Some Supported
              \<and> capability_get (dh_capabilities d) i \<noteq> Some Supported)"
proof (cases "range_intersect (dh_supported d) (ch_supported c)")
  case None
  then show ?thesis using range_intersect_iff(2)[OF None] by (simp add: negotiate_def)
next
  case (Some r)
  have le: "vr_min r \<le> vr_max r" using Some by (auto simp: range_intersect_def Let_def split: if_splits)
  then have top: "range_contains r (vr_max r)" "\<And>v. range_contains r v \<Longrightarrow> v \<le> vr_max r"
    by (simp_all add: range_contains_def)
  show ?thesis
    using Some top range_intersect_iff(1)[OF Some] supported_ids_iff[OF assms(1)]
      supported_ids_iff[OF assms(2)]
      fold_declare[of "[]" Supported "filter (\<lambda>i. i \<in> set (supported_ids (ch_capabilities c)))
        (supported_ids (dh_capabilities d))"]
    by (simp add: negotiate_def Let_def capability_get_def)
qed

definition sample_version :: product_version where
  "sample_version = \<lparr>major = 0, minor = 1, patch = 0\<rparr>"

definition sample_desktop :: desktop_hello where
  "sample_desktop = \<lparr>dh_supported = \<lparr>vr_min = 1, vr_max = 3\<rparr>, dh_version = sample_version,
     dh_capabilities = [(''event.streaming'', Supported), (''thread.steering'', Supported)],
     dh_token = ''0f1e2d3c4b5a69788796a5b4c3d2e1f0''\<rparr>"

definition sample_core :: core_hello where
  "sample_core = \<lparr>ch_supported = \<lparr>vr_min = 2, vr_max = 5\<rparr>, ch_version = sample_version,
     ch_capabilities = [(''event.streaming'', Supported), (''thread.steering'', Unsupported)]\<rparr>"

theorem negotiate_highest_common_witness:
  "\<exists>n. negotiate sample_desktop sample_core = Okay n
     \<and> range_contains (dh_supported sample_desktop) (selected_version n)
     \<and> capability_get (negotiated_capabilities n) ''event.streaming'' = Some Supported
     \<and> ''thread.steering'' \<in> set (desktop_only n)"
proof -
  have ok: "bt_ok (dh_capabilities sample_desktop)" "bt_ok (ch_capabilities sample_core)"
    by code_simp+
  have "\<not> isl (negotiate sample_desktop sample_core)" by code_simp
  then obtain n where n: "negotiate sample_desktop sample_core = Okay n" 
    by (metis isl_def sum.exhaust)
  show ?thesis
    using negotiate_highest_common[OF ok] n
    by (simp add: capability_get_def sample_desktop_def sample_core_def)
qed

text \<open>Printing a product version and parsing it back gives the same version, for all versions.\<close>

theorem product_version_roundtrip:
  "product_version_from_str (product_version_display v) = Okay v"
proof -
  have b: "unat (w :: 16 word) \<le> 65535" for w
    using unsigned_less[of w, where ?'a = nat] by simp
  show ?thesis
    using show_nat_digits
    by (simp add: product_version_from_str_def product_version_display_def split_dot_append
        split_dot_digits parse_show_nat b)
qed

end
