(* ===== verification/Domain_Id.thy ===== *)
theory Domain_Id
  imports Protocol_Types
begin

text \<open>
  Kind-prefixed identifiers, \<open>crates/altior-domain/src/id.rs\<close>. Every identifier type of the source is
  the same validator at its own prefix, so an identifier is here the string it wraps.
\<close>

section \<open>Delivery\<close>

text \<open>\<open>DeliveryState\<close> of \<open>lib.rs\<close>, the vocabulary the runtime and the agent client share.\<close>

datatype delivery_state = Absent | Confirmed | Rejected | Indeterminate

section \<open>Model\<close>

datatype id_parse_error =
    IdEmpty
  | MissingSeparator
  | UnexpectedPrefix string string
  | InvalidCharacter string nat
  | BodyTooShort nat
  | BodyTooLong nat

definition min_body_len :: nat where
  "min_body_len = 16"

definition max_body_len :: nat where
  "max_body_len = 64"

text \<open>\<open>str::split_once('_')\<close>.\<close>

fun split_once :: "string \<Rightarrow> (string \<times> string) option" where
  "split_once [] = None"
| "split_once (c # cs) =
     (if c = CHR ''_'' then Some ([], cs)
      else map_option (\<lambda>(h, b). (c # h, b)) (split_once cs))"

definition is_body_char :: "char \<Rightarrow> bool" where
  "is_body_char c \<longleftrightarrow> is_ascii_lowercase c \<or> is_digit c"

fun body_scan :: "nat \<Rightarrow> string \<Rightarrow> (id_parse_error, unit) result" where
  "body_scan pos [] = Okay ()"
| "body_scan pos (c # cs) =
     (if is_body_char c then body_scan (pos + 1) cs
      else Err (InvalidCharacter (c # takeWhile is_continuation cs) pos))"

definition id_validate :: "string \<Rightarrow> string \<Rightarrow> (id_parse_error, unit) result" where
  "id_validate candidate prefix =
     (if candidate = [] then Err IdEmpty
      else case split_once candidate of
        None \<Rightarrow> Err MissingSeparator
      | Some (head, body) \<Rightarrow>
          let found = head @ ''_'' in
          if found \<noteq> prefix then Err (UnexpectedPrefix prefix found)
          else case body_scan (length found) body of
            Inl e \<Rightarrow> Err e
          | Inr _ \<Rightarrow>
              let len = chars_count body in
              if len < min_body_len then Err (BodyTooShort len)
              else if len > max_body_len then Err (BodyTooLong len)
              else Okay ())"

definition id_from_str :: "string \<Rightarrow> string \<Rightarrow> (id_parse_error, string) result" where
  "id_from_str prefix s = (case id_validate s prefix of Inl e \<Rightarrow> Err e | Inr _ \<Rightarrow> Okay s)"

definition agent_profile_prefix :: string where "agent_profile_prefix = ''agp_''"
definition harness_binding_prefix :: string where "harness_binding_prefix = ''hsb_''"
definition thread_prefix :: string where "thread_prefix = ''thr_''"
definition turn_prefix :: string where "turn_prefix = ''trn_''"
definition operation_prefix :: string where "operation_prefix = ''op_''"
definition event_prefix :: string where "event_prefix = ''evt_''"
definition core_instance_prefix :: string where "core_instance_prefix = ''cor_''"
definition project_prefix :: string where "project_prefix = ''prj_''"
definition runtime_checkpoint_prefix :: string where "runtime_checkpoint_prefix = ''chk_''"
definition memory_prefix :: string where "memory_prefix = ''mem_''"
definition identity_document_prefix :: string where "identity_document_prefix = ''idd_''"

definition id_prefixes :: "string list" where
  "id_prefixes = [agent_profile_prefix, harness_binding_prefix, thread_prefix, turn_prefix,
     operation_prefix, event_prefix, core_instance_prefix, project_prefix,
     runtime_checkpoint_prefix, memory_prefix, identity_document_prefix]"

lemmas id_prefix_defs = agent_profile_prefix_def harness_binding_prefix_def thread_prefix_def
  turn_prefix_def operation_prefix_def event_prefix_def core_instance_prefix_def project_prefix_def
  runtime_checkpoint_prefix_def memory_prefix_def identity_document_prefix_def

section \<open>Lemmas\<close>

lemma split_once_Some:
  "split_once s = Some (h, b) \<longleftrightarrow> s = h @ CHR ''_'' # b \<and> CHR ''_'' \<notin> set h"
proof (induction s arbitrary: h)
  case Nil
  then show ?case by simp
next
  case (Cons c s)
  show ?case
  proof (cases "c = CHR ''_''")
    case True
    then show ?thesis by (cases h) auto
  next
    case False
    then show ?thesis using Cons.IH by (cases h) auto
  qed
qed

lemma body_scan_ok: "body_scan n b = Okay () \<longleftrightarrow> list_all is_body_char b"
  by (induction n b rule: body_scan.induct) auto

lemma body_char_single: "is_body_char c \<Longrightarrow> \<not> is_continuation c"
  by (auto simp: is_body_char_def is_ascii_lowercase_def is_digit_def is_continuation_def)

lemma chars_count_body: "list_all is_body_char b \<Longrightarrow> chars_count b = length b"
  unfolding chars_count_def by (induction b) (auto simp: body_char_single)

lemma id_validate_iff:
  assumes "CHR ''_'' \<notin> set p"
  shows "id_validate s (p @ ''_'') = Okay () \<longleftrightarrow>
    (\<exists>body. s = p @ ''_'' @ body \<and> list_all is_body_char body \<and> length body \<in> {16..64})"
proof
  assume ok: "id_validate s (p @ ''_'') = Okay ()"
  then obtain h b where "split_once s = Some (h, b)" "h @ ''_'' = p @ ''_''"
    "list_all is_body_char b" "chars_count b \<in> {16..64}"
    by (auto simp: id_validate_def Let_def body_scan_ok min_body_len_def max_body_len_def
        split: if_splits option.splits sum.splits)
  moreover from this have "chars_count b = length b" by (simp add: chars_count_body)
  ultimately show "\<exists>body. s = p @ ''_'' @ body \<and> list_all is_body_char body \<and> length body \<in> {16..64}"
    by (auto simp: split_once_Some)
next
  assume "\<exists>body. s = p @ ''_'' @ body \<and> list_all is_body_char body \<and> length body \<in> {16..64}"
  then obtain body where b: "s = p @ ''_'' @ body" "list_all is_body_char body" "length body \<in> {16..64}"
    by blast
  have "split_once s = Some (p, body)" using b(1) assms by (simp add: split_once_Some)
  moreover have "body_scan n body = Okay ()" for n using b(2) by (simp add: body_scan_ok)
  ultimately show "id_validate s (p @ ''_'') = Okay ()"
    using b chars_count_body by (simp add: id_validate_def min_body_len_def max_body_len_def)
qed

section \<open>Properties\<close>

text \<open>An identifier type accepts exactly its prefix followed by 16 to 64 lowercase letters or
  digits, and no string is an identifier of two kinds.\<close>

theorem id_accepts_exactly:
  assumes "prefix \<in> set id_prefixes"
  shows "(id_from_str prefix s = Okay s \<longleftrightarrow>
           (\<exists>body. s = prefix @ body \<and> list_all is_body_char body \<and> length body \<in> {16..64}))
       \<and> (\<forall>other. other \<in> set id_prefixes \<and> other \<noteq> prefix \<and> id_from_str prefix s = Okay s
            \<longrightarrow> id_from_str other s \<noteq> Okay s)"
proof -
  have shape: "\<exists>p. q = p @ ''_'' \<and> CHR ''_'' \<notin> set p" if "q \<in> set id_prefixes" for q
  proof (rule exI[of _ "butlast q"])
    show "q = butlast q @ ''_'' \<and> CHR ''_'' \<notin> set (butlast q)"
      using that by (auto simp: id_prefixes_def id_prefix_defs)
  qed
  have iff: "id_from_str q s = Okay s \<longleftrightarrow>
     (\<exists>body. s = q @ body \<and> list_all is_body_char body \<and> length body \<in> {16..64})"
    if q: "q \<in> set id_prefixes" for q
  proof -
    obtain p where p: "q = p @ ''_''" "CHR ''_'' \<notin> set p" using shape[OF q] by blast
    have "id_from_str q s = Okay s \<longleftrightarrow> id_validate s q = Okay ()"
      by (cases "id_validate s q") (simp_all add: id_from_str_def)
    then show ?thesis using id_validate_iff[OF p(2), of s] p(1) by simp
  qed
  have "q = prefix"
    if mem: "q \<in> set id_prefixes" and both: "id_from_str prefix s = Okay s" "id_from_str q s = Okay s"
    for q
  proof -
    obtain p p' where "prefix = p @ ''_''" "CHR ''_'' \<notin> set p" "q = p' @ ''_''" "CHR ''_'' \<notin> set p'"
      using shape[OF assms] shape[OF mem] by blast
    moreover obtain b b' where "s = prefix @ b" "s = q @ b'" 
      using iff[OF assms] iff[OF mem] both by blast
    ultimately have "split_once s = Some (p, b)" "split_once s = Some (p', b')"
      by (simp_all add: split_once_Some)
    then show ?thesis using \<open>prefix = p @ ''_''\<close> \<open>q = p' @ ''_''\<close> by simp
  qed
  then show ?thesis using iff[OF assms] by blast
qed

theorem id_accepts_exactly_witness:
  "id_from_str thread_prefix ''thr_fixture000000001'' = Okay ''thr_fixture000000001''
   \<and> id_from_str turn_prefix ''thr_fixture000000001'' \<noteq> Okay ''thr_fixture000000001''"
proof -
  have ok: "id_from_str thread_prefix ''thr_fixture000000001'' = Okay ''thr_fixture000000001''"
    by code_simp
  moreover have "thread_prefix \<in> set id_prefixes" "turn_prefix \<in> set id_prefixes"
    "turn_prefix \<noteq> thread_prefix"
    by (simp_all add: id_prefixes_def id_prefix_defs)
  ultimately show ?thesis using id_accepts_exactly[of thread_prefix "''thr_fixture000000001''"] by blast
qed

end
