(* ===== verification/Protocol_Event.thy ===== *)
theory Protocol_Event
  imports Domain_Id
begin

text \<open>
  Events from Core to Desktop, \<open>crates/altior-protocol/src/event.rs\<close>, and the bounded texts of
  \<open>bounded.rs\<close>. An event body travels as a JSON value; the derived serializers of the source are
  written out field by field. \<open>serde_json::to_string\<close> is a parameter of the decoder, which uses it
  only to keep an unrecognised object as text.
\<close>

section \<open>JSON values\<close>

datatype json =
    JNull
  | JBool bool
  | JPosInt u64
  | JNegInt int
  | JFloat string
  | JStr string
  | JArr "json list"
  | JObj "(string \<times> json) list"

definition json_get :: "json \<Rightarrow> string \<Rightarrow> json option" where
  "json_get v key = (case v of JObj kvs \<Rightarrow> map_of kvs key | _ \<Rightarrow> None)"

definition json_as_str :: "json \<Rightarrow> string option" where
  "json_as_str v = (case v of JStr s \<Rightarrow> Some s | _ \<Rightarrow> None)"

section \<open>Bounded text\<close>

definition text_try_from :: "nat \<Rightarrow> string \<Rightarrow> (protocol_error, string) result" where
  "text_try_from max_bytes v =
     (if length v > max_bytes then Err (TextTooLarge (length v) max_bytes) else Okay v)"

definition diagnostic_cap :: nat where
  "diagnostic_cap = 4096"

definition message_cap :: nat where
  "message_cap = 64 * 1024"

record envelope_limits =
  payload_bytes :: nat
  diagnostic_bytes :: nat

definition limits_default :: envelope_limits where
  "limits_default = \<lparr>payload_bytes = 64 * 1024, diagnostic_bytes = diagnostic_cap\<rparr>"

section \<open>Event bodies\<close>

definition max_kind_len :: nat where
  "max_kind_len = 64"

datatype known_event =
    TurnStarted
  | MessageDelta string
  | PermissionRequested string string
  | PermissionDecided string
  | ToolCall string "string option"
  | TurnCompleted
  | TurnFailed string string
  | TurnCancelled "string option"
  | RuntimeStatus string u32 "string option"
  | CommandResult string bool "json option"
  | CommandError string string string
  | StreamGap u64
  | StreamReplayed u64 u64

datatype event_body = Known known_event | Unknown string string

fun known_kind :: "known_event \<Rightarrow> string" where
  "known_kind TurnStarted = ''turn.started''"
| "known_kind (MessageDelta _) = ''message.delta''"
| "known_kind (PermissionRequested _ _) = ''permission.requested''"
| "known_kind (PermissionDecided _) = ''permission.decided''"
| "known_kind (ToolCall _ _) = ''tool.call''"
| "known_kind TurnCompleted = ''turn.completed''"
| "known_kind (TurnFailed _ _) = ''turn.failed''"
| "known_kind (TurnCancelled _) = ''turn.cancelled''"
| "known_kind (RuntimeStatus _ _ _) = ''runtime.status''"
| "known_kind (CommandResult _ _ _) = ''command.result''"
| "known_kind (CommandError _ _ _) = ''command.error''"
| "known_kind (StreamGap _) = ''stream.gap''"
| "known_kind (StreamReplayed _ _) = ''stream.replayed''"

fun kind_name :: "event_body \<Rightarrow> string" where
  "kind_name (Known e) = known_kind e"
| "kind_name (Unknown kind _) = kind"

definition validate_kind_name :: "string \<Rightarrow> (protocol_error, unit) result" where
  "validate_kind_name kind =
     (if kind = [] \<or> length kind > max_kind_len then Err (MalformedEventKind kind) else Okay ())"

text \<open>Serialisation: the tag, then the fields in declaration order; an absent option is \<open>null\<close>.\<close>

definition opt_str :: "string option \<Rightarrow> json" where
  "opt_str v = (case v of None \<Rightarrow> JNull | Some s \<Rightarrow> JStr s)"

definition opt_json :: "json option \<Rightarrow> json" where
  "opt_json v = (case v of None \<Rightarrow> JNull | Some j \<Rightarrow> j)"

fun known_fields :: "known_event \<Rightarrow> (string \<times> json) list" where
  "known_fields TurnStarted = []"
| "known_fields (MessageDelta text) = [(''text'', JStr text)]"
| "known_fields (PermissionRequested kind desc) =
     [(''permission_kind'', JStr kind), (''description'', JStr desc)]"
| "known_fields (PermissionDecided d) = [(''decision'', JStr d)]"
| "known_fields (ToolCall i status) = [(''tool_call_id'', JStr i), (''status'', opt_str status)]"
| "known_fields TurnCompleted = []"
| "known_fields (TurnFailed reason state) =
     [(''reason'', JStr reason), (''delivery_state'', JStr state)]"
| "known_fields (TurnCancelled reason) = [(''reason'', opt_str reason)]"
| "known_fields (RuntimeStatus status n diag) =
     [(''status'', JStr status), (''active_threads'', JPosInt (of_nat (unat n))),
      (''diagnostics'', opt_str diag)]"
| "known_fields (CommandResult op ok data) =
     [(''operation_id'', JStr op), (''success'', JBool ok), (''data'', opt_json data)]"
| "known_fields (CommandError op code msg) =
     [(''operation_id'', JStr op), (''code'', JStr code), (''message'', JStr msg)]"
| "known_fields (StreamGap from_seq) = [(''from'', JPosInt from_seq)]"
| "known_fields (StreamReplayed from_seq through) =
     [(''from'', JPosInt from_seq), (''through'', JPosInt through)]"

fun event_body_to_json :: "event_body \<Rightarrow> json" where
  "event_body_to_json (Known e) = JObj ((''kind'', JStr (known_kind e)) # known_fields e)"
| "event_body_to_json (Unknown kind diagnostic) =
     JObj [(''kind'', JStr kind), (''diagnostic'', JStr diagnostic)]"

text \<open>Deserialisation of the fields; a serde error is a malformed envelope naming the field.\<close>

definition field_str :: "json \<Rightarrow> string \<Rightarrow> (protocol_error, string) result" where
  "field_str raw key =
     (case json_get raw key of Some (JStr s) \<Rightarrow> Okay s | _ \<Rightarrow> Err (MalformedEnvelope key))"

definition field_text :: "nat \<Rightarrow> json \<Rightarrow> string \<Rightarrow> (protocol_error, string) result" where
  "field_text cap raw key = (case field_str raw key of Inl e \<Rightarrow> Err e | Inr s \<Rightarrow> text_try_from cap s)"

definition field_opt_str :: "json \<Rightarrow> string \<Rightarrow> (protocol_error, string option) result" where
  "field_opt_str raw key =
     (case json_get raw key of
        None \<Rightarrow> Okay None
      | Some JNull \<Rightarrow> Okay None
      | Some (JStr s) \<Rightarrow> Okay (Some s)
      | _ \<Rightarrow> Err (MalformedEnvelope key))"

definition field_opt_text :: "nat \<Rightarrow> json \<Rightarrow> string \<Rightarrow> (protocol_error, string option) result" where
  "field_opt_text cap raw key =
     (case field_opt_str raw key of
        Inl e \<Rightarrow> Err e
      | Inr None \<Rightarrow> Okay None
      | Inr (Some s) \<Rightarrow> map_sum id Some (text_try_from cap s))"

definition field_u32 :: "json \<Rightarrow> string \<Rightarrow> (protocol_error, u32) result" where
  "field_u32 raw key =
     (case json_get raw key of
        Some (JPosInt n) \<Rightarrow>
          (if unat n \<le> u32_max then Okay (of_nat (unat n)) else Err (MalformedEnvelope key))
      | _ \<Rightarrow> Err (MalformedEnvelope key))"

definition field_sequence :: "json \<Rightarrow> string \<Rightarrow> (protocol_error, u64) result" where
  "field_sequence raw key =
     (case json_get raw key of
        Some (JPosInt n) \<Rightarrow> sequence_try_new n
      | _ \<Rightarrow> Err (MalformedEnvelope key))"

definition field_bool :: "json \<Rightarrow> string \<Rightarrow> (protocol_error, bool) result" where
  "field_bool raw key =
     (case json_get raw key of Some (JBool b) \<Rightarrow> Okay b | _ \<Rightarrow> Err (MalformedEnvelope key))"

definition field_operation :: "json \<Rightarrow> string \<Rightarrow> (protocol_error, string) result" where
  "field_operation raw key =
     (case field_str raw key of
        Inl e \<Rightarrow> Err e
      | Inr s \<Rightarrow> (case id_from_str operation_prefix s of
                   Inl e \<Rightarrow> Err (MalformedEnvelope key) | Inr i \<Rightarrow> Okay i))"

definition field_opt_json :: "json \<Rightarrow> string \<Rightarrow> json option" where
  "field_opt_json raw key = (case json_get raw key of Some JNull \<Rightarrow> None | v \<Rightarrow> v)"

text \<open>\<open>Result::and_then\<close>.\<close>

definition and_then :: "('e, 'a) result \<Rightarrow> ('a \<Rightarrow> ('e, 'b) result) \<Rightarrow> ('e, 'b) result" where
  "and_then r f = (case r of Inl e \<Rightarrow> Err e | Inr v \<Rightarrow> f v)"

definition known_from_json :: "json \<Rightarrow> string \<Rightarrow> (protocol_error, known_event) result" where
  "known_from_json raw kind =
     (if kind = ''message.delta'' then
        and_then (field_text message_cap raw ''text'') (\<lambda>t. Okay (MessageDelta t))
      else if kind = ''permission.requested'' then
        and_then (field_str raw ''permission_kind'') (\<lambda>k.
        and_then (field_text diagnostic_cap raw ''description'') (\<lambda>d. Okay (PermissionRequested k d)))
      else if kind = ''permission.decided'' then
        and_then (field_str raw ''decision'') (\<lambda>d. Okay (PermissionDecided d))
      else if kind = ''tool.call'' then
        and_then (field_str raw ''tool_call_id'') (\<lambda>i.
        and_then (field_opt_str raw ''status'') (\<lambda>s. Okay (ToolCall i s)))
      else if kind = ''turn.failed'' then
        and_then (field_text diagnostic_cap raw ''reason'') (\<lambda>r.
        and_then (field_str raw ''delivery_state'') (\<lambda>d. Okay (TurnFailed r d)))
      else if kind = ''turn.cancelled'' then
        and_then (field_opt_text diagnostic_cap raw ''reason'') (\<lambda>r. Okay (TurnCancelled r))
      else if kind = ''runtime.status'' then
        and_then (field_str raw ''status'') (\<lambda>s.
        and_then (field_u32 raw ''active_threads'') (\<lambda>n.
        and_then (field_opt_text diagnostic_cap raw ''diagnostics'') (\<lambda>d. Okay (RuntimeStatus s n d))))
      else if kind = ''command.result'' then
        and_then (field_operation raw ''operation_id'') (\<lambda>i.
        and_then (field_bool raw ''success'') (\<lambda>b.
        Okay (CommandResult i b (field_opt_json raw ''data''))))
      else if kind = ''command.error'' then
        and_then (field_operation raw ''operation_id'') (\<lambda>i.
        and_then (field_str raw ''code'') (\<lambda>c.
        and_then (field_text diagnostic_cap raw ''message'') (\<lambda>m. Okay (CommandError i c m))))
      else if kind = ''stream.gap'' then
        and_then (field_sequence raw ''from'') (\<lambda>f. Okay (StreamGap f))
      else if kind = ''stream.replayed'' then
        and_then (field_sequence raw ''from'') (\<lambda>f.
        and_then (field_sequence raw ''through'') (\<lambda>t. Okay (StreamReplayed f t)))
      else Err (MalformedEnvelope ''kind''))"

definition tagged_kinds :: "string list" where
  "tagged_kinds = [''message.delta'', ''permission.requested'', ''permission.decided'', ''tool.call'',
     ''turn.failed'', ''turn.cancelled'', ''runtime.status'', ''command.result'', ''command.error'',
     ''stream.gap'', ''stream.replayed'']"

text \<open>An object of exactly a kind and one diagnostic string is an unknown event that was preserved
  before.\<close>

definition preserved_diagnostic :: "json \<Rightarrow> string option" where
  "preserved_diagnostic raw =
     (case raw of
        JObj kvs \<Rightarrow>
          (if length kvs = 2 then
             (case map_of kvs ''diagnostic'' of Some (JStr d) \<Rightarrow> Some d | _ \<Rightarrow> None)
           else None)
      | _ \<Rightarrow> None)"

definition event_body_from_json ::
  "(json \<Rightarrow> string) \<Rightarrow> json \<Rightarrow> (protocol_error, event_body) result" where
  "event_body_from_json to_string raw =
     (case Option.bind (json_get raw ''kind'') json_as_str of
        None \<Rightarrow> Err (MalformedEnvelope ''kind'')
      | Some kind \<Rightarrow>
          if kind = ''turn.started'' then Okay (Known TurnStarted)
          else if kind = ''turn.completed'' then Okay (Known TurnCompleted)
          else if kind \<in> set tagged_kinds then and_then (known_from_json raw kind) (\<lambda>e. Okay (Known e))
          else and_then (validate_kind_name kind) (\<lambda>_.
            (case preserved_diagnostic raw of
               Some d \<Rightarrow> and_then (text_try_from diagnostic_cap d) (\<lambda>d. Okay (Unknown kind d))
             | None \<Rightarrow>
                 and_then (text_try_from diagnostic_cap (to_string raw)) (\<lambda>d. Okay (Unknown kind d)))))"

section \<open>Envelopes\<close>

record event_envelope =
  ev_version :: u32
  ev_id :: string
  ev_operation :: "string option"
  ev_thread :: "string option"
  ev_turn :: "string option"
  ev_sequence :: u64
  ev_occurred_at :: u64
  ev_body :: event_body

definition turn_started ::
  "string \<Rightarrow> string option \<Rightarrow> string option \<Rightarrow> string option \<Rightarrow> u64 \<Rightarrow> u64
   \<Rightarrow> event_envelope" where
  "turn_started event_id operation_id thread_id turn_id sequence occurred_at =
     \<lparr>ev_version = protocol_v1, ev_id = event_id, ev_operation = operation_id,
       ev_thread = thread_id, ev_turn = turn_id, ev_sequence = sequence,
       ev_occurred_at = occurred_at, ev_body = Known TurnStarted\<rparr>"

definition message_delta ::
  "string \<Rightarrow> string \<Rightarrow> string option \<Rightarrow> string option \<Rightarrow> string option \<Rightarrow> u64 \<Rightarrow> u64
   \<Rightarrow> event_envelope" where
  "message_delta text event_id operation_id thread_id turn_id sequence occurred_at =
     \<lparr>ev_version = protocol_v1, ev_id = event_id, ev_operation = operation_id,
       ev_thread = thread_id, ev_turn = turn_id, ev_sequence = sequence,
       ev_occurred_at = occurred_at, ev_body = Known (MessageDelta text)\<rparr>"

definition permission_requested ::
  "string \<Rightarrow> string \<Rightarrow> string \<Rightarrow> string option \<Rightarrow> string option \<Rightarrow> string option \<Rightarrow> u64 \<Rightarrow> u64
   \<Rightarrow> event_envelope" where
  "permission_requested permission_kind description event_id operation_id thread_id turn_id sequence occurred_at =
     \<lparr>ev_version = protocol_v1, ev_id = event_id, ev_operation = operation_id,
       ev_thread = thread_id, ev_turn = turn_id, ev_sequence = sequence,
       ev_occurred_at = occurred_at, ev_body = Known (PermissionRequested permission_kind description)\<rparr>"

definition permission_decided ::
  "string \<Rightarrow> string \<Rightarrow> string option \<Rightarrow> string option \<Rightarrow> string option \<Rightarrow> u64 \<Rightarrow> u64
   \<Rightarrow> event_envelope" where
  "permission_decided decision event_id operation_id thread_id turn_id sequence occurred_at =
     \<lparr>ev_version = protocol_v1, ev_id = event_id, ev_operation = operation_id,
       ev_thread = thread_id, ev_turn = turn_id, ev_sequence = sequence,
       ev_occurred_at = occurred_at, ev_body = Known (PermissionDecided decision)\<rparr>"

definition tool_call ::
  "string \<Rightarrow> string option \<Rightarrow> string \<Rightarrow> string option \<Rightarrow> string option \<Rightarrow> string option \<Rightarrow> u64 \<Rightarrow> u64
   \<Rightarrow> event_envelope" where
  "tool_call tool_call_id status event_id operation_id thread_id turn_id sequence occurred_at =
     \<lparr>ev_version = protocol_v1, ev_id = event_id, ev_operation = operation_id,
       ev_thread = thread_id, ev_turn = turn_id, ev_sequence = sequence,
       ev_occurred_at = occurred_at, ev_body = Known (ToolCall tool_call_id status)\<rparr>"

definition turn_completed ::
  "string \<Rightarrow> string option \<Rightarrow> string option \<Rightarrow> string option \<Rightarrow> u64 \<Rightarrow> u64
   \<Rightarrow> event_envelope" where
  "turn_completed event_id operation_id thread_id turn_id sequence occurred_at =
     \<lparr>ev_version = protocol_v1, ev_id = event_id, ev_operation = operation_id,
       ev_thread = thread_id, ev_turn = turn_id, ev_sequence = sequence,
       ev_occurred_at = occurred_at, ev_body = Known TurnCompleted\<rparr>"

definition turn_failed ::
  "string \<Rightarrow> string \<Rightarrow> string \<Rightarrow> string option \<Rightarrow> string option \<Rightarrow> string option \<Rightarrow> u64 \<Rightarrow> u64
   \<Rightarrow> event_envelope" where
  "turn_failed reason delivery_state event_id operation_id thread_id turn_id sequence occurred_at =
     \<lparr>ev_version = protocol_v1, ev_id = event_id, ev_operation = operation_id,
       ev_thread = thread_id, ev_turn = turn_id, ev_sequence = sequence,
       ev_occurred_at = occurred_at, ev_body = Known (TurnFailed reason delivery_state)\<rparr>"

definition turn_cancelled ::
  "string option \<Rightarrow> string \<Rightarrow> string option \<Rightarrow> string option \<Rightarrow> string option \<Rightarrow> u64 \<Rightarrow> u64
   \<Rightarrow> event_envelope" where
  "turn_cancelled reason event_id operation_id thread_id turn_id sequence occurred_at =
     \<lparr>ev_version = protocol_v1, ev_id = event_id, ev_operation = operation_id,
       ev_thread = thread_id, ev_turn = turn_id, ev_sequence = sequence,
       ev_occurred_at = occurred_at, ev_body = Known (TurnCancelled reason)\<rparr>"

definition runtime_status ::
  "string \<Rightarrow> u32 \<Rightarrow> string option \<Rightarrow> string \<Rightarrow> u64 \<Rightarrow> u64 \<Rightarrow> event_envelope" where
  "runtime_status status active_threads diagnostics event_id sequence occurred_at =
     \<lparr>ev_version = protocol_v1, ev_id = event_id, ev_operation = None,
       ev_thread = None, ev_turn = None, ev_sequence = sequence,
       ev_occurred_at = occurred_at, ev_body = Known (RuntimeStatus status active_threads diagnostics)\<rparr>"

definition command_result ::
  "string \<Rightarrow> bool \<Rightarrow> json option \<Rightarrow> string \<Rightarrow> u64 \<Rightarrow> u64 \<Rightarrow> event_envelope" where
  "command_result operation_id success data event_id sequence occurred_at =
     \<lparr>ev_version = protocol_v1, ev_id = event_id, ev_operation = Some operation_id,
       ev_thread = None, ev_turn = None, ev_sequence = sequence,
       ev_occurred_at = occurred_at, ev_body = Known (CommandResult operation_id success data)\<rparr>"

definition command_error ::
  "string \<Rightarrow> string \<Rightarrow> string \<Rightarrow> string \<Rightarrow> u64 \<Rightarrow> u64 \<Rightarrow> event_envelope" where
  "command_error operation_id code message event_id sequence occurred_at =
     \<lparr>ev_version = protocol_v1, ev_id = event_id, ev_operation = Some operation_id,
       ev_thread = None, ev_turn = None, ev_sequence = sequence,
       ev_occurred_at = occurred_at, ev_body = Known (CommandError operation_id code message)\<rparr>"

definition stream_gap ::
  "u64 \<Rightarrow> string \<Rightarrow> string option \<Rightarrow> u64 \<Rightarrow> u64 \<Rightarrow> event_envelope" where
  "stream_gap from_seq event_id operation_id sequence occurred_at =
     \<lparr>ev_version = protocol_v1, ev_id = event_id, ev_operation = operation_id,
       ev_thread = None, ev_turn = None, ev_sequence = sequence,
       ev_occurred_at = occurred_at, ev_body = Known (StreamGap from_seq)\<rparr>"

definition stream_replayed ::
  "u64 \<Rightarrow> u64 \<Rightarrow> string \<Rightarrow> string option \<Rightarrow> u64 \<Rightarrow> u64 \<Rightarrow> event_envelope" where
  "stream_replayed from_seq through event_id operation_id sequence occurred_at =
     \<lparr>ev_version = protocol_v1, ev_id = event_id, ev_operation = operation_id,
       ev_thread = None, ev_turn = None, ev_sequence = sequence,
       ev_occurred_at = occurred_at, ev_body = Known (StreamReplayed from_seq through)\<rparr>"

definition event_validate :: "event_envelope \<Rightarrow> envelope_limits \<Rightarrow> (protocol_error, unit) result" where
  "event_validate e limits =
     (if \<not> range_contains supported_protocol_versions (ev_version e)
      then Err (UnsupportedProtocolVersion (ev_version e) supported_protocol_versions)
      else case ev_body e of
        Unknown _ d \<Rightarrow>
          (if length d > diagnostic_bytes limits
           then Err (TextTooLarge (length d) (diagnostic_bytes limits)) else Okay ())
      | Known _ \<Rightarrow> Okay ())"

section \<open>Lemmas\<close>

text \<open>The bodies the constructors of the source can build: bounded texts within their caps, valid
  operation ids, positive sequence numbers; a payload of \<open>null\<close> is excluded because it is written
  like an absent one.\<close>

fun known_ok :: "known_event \<Rightarrow> bool" where
  "known_ok (MessageDelta t) \<longleftrightarrow> length t \<le> message_cap"
| "known_ok (PermissionRequested _ d) \<longleftrightarrow> length d \<le> diagnostic_cap"
| "known_ok (TurnFailed r _) \<longleftrightarrow> length r \<le> diagnostic_cap"
| "known_ok (TurnCancelled r) \<longleftrightarrow> pred_option (\<lambda>t. length t \<le> diagnostic_cap) r"
| "known_ok (RuntimeStatus _ _ d) \<longleftrightarrow> pred_option (\<lambda>t. length t \<le> diagnostic_cap) d"
| "known_ok (CommandResult i _ data) \<longleftrightarrow> id_from_str operation_prefix i = Okay i \<and> data \<noteq> Some JNull"
| "known_ok (CommandError i _ m) \<longleftrightarrow> id_from_str operation_prefix i = Okay i \<and> length m \<le> diagnostic_cap"
| "known_ok (StreamGap f) \<longleftrightarrow> f \<noteq> 0"
| "known_ok (StreamReplayed f t) \<longleftrightarrow> f \<noteq> 0 \<and> t \<noteq> 0"
| "known_ok _ \<longleftrightarrow> True"

fun body_ok :: "event_body \<Rightarrow> bool" where
  "body_ok (Known e) \<longleftrightarrow> known_ok e"
| "body_ok (Unknown kind d) \<longleftrightarrow>
     kind \<notin> set (''turn.started'' # ''turn.completed'' # tagged_kinds) \<and> kind \<noteq> []
     \<and> length kind \<le> max_kind_len \<and> length d \<le> diagnostic_cap"

lemmas field_defs = field_str_def field_text_def field_opt_str_def field_opt_text_def field_u32_def
  field_sequence_def field_bool_def field_operation_def field_opt_json_def text_try_from_def
  sequence_try_new_def

lemma u32_through_json: "ucast (ucast (n :: u32) :: u64) = n" "unat (ucast (n :: u32) :: u64) \<le> u32_max"
proof -
  have b: "unat n < 2 ^ 32" using unsigned_less[of n, where ?'a = nat] by simp
  have u: "unat (ucast n :: u64) = unat n"
    using b unat_of_nat[of "unat n", where ?'a = 64] by simp
  then show "unat (ucast n :: u64) \<le> u32_max" using b by (simp add: u32_max_def)
  have "(ucast (ucast n :: u64) :: u32) = of_nat (unat (ucast n :: u64))" by simp
  also have "\<dots> = of_nat (unat n)" by (simp only: u)
  finally show "ucast (ucast n :: u64) = n" by simp
qed

lemma id_from_str_Okay: "id_from_str p s = Okay i \<Longrightarrow> i = s"
  by (auto simp: id_from_str_def split: sum.splits)

lemma event_body_decode_encode:
  assumes "body_ok b"
  shows "event_body_from_json ts (event_body_to_json b) = Okay b"
proof (cases b)
  case (Known e)
  then show ?thesis
    using assms
    by (cases e) (auto simp: event_body_from_json_def json_get_def json_as_str_def tagged_kinds_def
        known_from_json_def and_then_def field_defs opt_str_def opt_json_def u32_through_json
        split: option.split json.split)
next
  case (Unknown kind d)
  then show ?thesis
    using assms
    by (simp add: event_body_from_json_def json_get_def json_as_str_def validate_kind_name_def
        and_then_def preserved_diagnostic_def text_try_from_def)
qed

lemma and_then_Okay: "and_then r f = Okay y \<longleftrightarrow> (\<exists>x. r = Okay x \<and> f x = Okay y)"
  by (auto simp: and_then_def split: sum.splits)

lemma field_ok:
  "field_text cap raw k = Okay t \<Longrightarrow> length t \<le> cap"
  "field_opt_text cap raw k = Okay ot \<Longrightarrow> pred_option (\<lambda>t. length t \<le> cap) ot"
  "field_operation raw k = Okay i \<Longrightarrow> id_from_str operation_prefix i = Okay i"
  "field_sequence raw k = Okay q \<Longrightarrow> q \<noteq> 0"
  "field_opt_json raw k \<noteq> Some JNull"
  by (auto simp: field_defs split: option.splits json.splits sum.splits if_splits
      dest: id_from_str_Okay)

lemma known_from_json_ok:
  assumes "known_from_json raw kind = Okay e"
  shows "known_ok e \<and> known_kind e = kind"
  using assms
  by (auto simp: known_from_json_def and_then_Okay split: if_splits
      dest: field_ok(1-4) simp: field_ok(5))

lemma event_body_from_json_ok:
  assumes "event_body_from_json ts raw = Okay b"
  shows "body_ok b \<and> json_get raw ''kind'' = Some (JStr (kind_name b))"
proof -
  obtain kind where kind: "json_get raw ''kind'' = Some (JStr kind)"
    using assms
    by (auto simp: event_body_from_json_def json_as_str_def bind_eq_Some_conv
        split: option.splits json.splits)
  then show ?thesis
    using assms known_from_json_ok[of raw kind]
    by (auto simp: event_body_from_json_def json_as_str_def and_then_Okay validate_kind_name_def
        text_try_from_def split: if_splits option.splits)
qed

section \<open>Properties\<close>

text \<open>Every event body Core can build is read back as it was written: decoding the JSON value of
  a body gives the body.\<close>

theorem event_body_roundtrip:
  assumes "body_ok b"
  shows "event_body_from_json ts (event_body_to_json b) = Okay b"
  using assms by (rule event_body_decode_encode)

theorem event_body_roundtrip_witness:
  "event_body_from_json (\<lambda>_. []) (event_body_to_json (Known (RuntimeStatus ''ready'' 3 (Some ''ok''))))
     = Okay (Known (RuntimeStatus ''ready'' 3 (Some ''ok'')))
   \<and> event_body_from_json (\<lambda>_. []) (event_body_to_json (Unknown ''provider.magic'' ''{}''))
     = Okay (Unknown ''provider.magic'' ''{}'')"
  by (intro conjI event_body_roundtrip)
    (simp_all add: diagnostic_cap_def tagged_kinds_def max_kind_len_def)

text \<open>Whatever JSON value arrives, a body that decodes carries the kind on the wire, and encoding
  and decoding it again changes nothing: an unrecognised provider event is wrapped into a bounded
  diagnostic once and never re-wrapped.\<close>

theorem event_decode_stable:
  assumes "event_body_from_json ts raw = Okay b"
  shows "json_get raw ''kind'' = Some (JStr (kind_name b))
       \<and> event_body_from_json ts (event_body_to_json b) = Okay b"
  using event_body_from_json_ok[OF assms] event_body_decode_encode by blast

theorem event_decode_stable_witness:
  "event_body_from_json (\<lambda>_. ''raw'') (JObj [(''kind'', JStr ''provider.magic''), (''n'', JPosInt 7)])
     = Okay (Unknown ''provider.magic'' ''raw'')
   \<and> event_body_from_json (\<lambda>_. ''raw'') (event_body_to_json (Unknown ''provider.magic'' ''raw''))
     = Okay (Unknown ''provider.magic'' ''raw'')"
proof -
  have "event_body_from_json (\<lambda>_. ''raw'')
      (JObj [(''kind'', JStr ''provider.magic''), (''n'', JPosInt 7)])
     = Okay (Unknown ''provider.magic'' ''raw'')"
    by (simp add: event_body_from_json_def json_get_def json_as_str_def tagged_kinds_def
        validate_kind_name_def max_kind_len_def and_then_def preserved_diagnostic_def
        text_try_from_def diagnostic_cap_def)
  then show ?thesis using event_decode_stable by blast
qed

section \<open>Where writing and reading differ\<close>

text \<open>A command result whose payload is JSON \<open>null\<close> is read back without a payload.\<close>

theorem null_payload_is_lost:
  "event_body_from_json ts (event_body_to_json
     (Known (CommandResult ''op_fixture000000005'' True (Some JNull))))
   = Okay (Known (CommandResult ''op_fixture000000005'' True None))"
proof -
  have "id_from_str operation_prefix ''op_fixture000000005'' = Okay ''op_fixture000000005''"
    by code_simp
  then show ?thesis
    by (simp add: event_body_from_json_def json_get_def json_as_str_def tagged_kinds_def
        known_from_json_def and_then_def field_defs opt_json_def)
qed

end
