(* ===== verification/Protocol_Command.thy ===== *)
theory Protocol_Command
  imports Protocol_Event
begin

text \<open>
  Commands from Desktop to Core, \<open>crates/altior-protocol/src/command.rs\<close>: the closed set of kinds with
  their wire names, the envelope, the control commands (\<open>ping\<close>, \<open>request_snapshot\<close>, \<open>cancel\<close>,
  \<open>subscribe\<close>) and the payload bound of \<open>bounded.rs\<close>. The size of an encoded payload comes from
  \<open>serde_json\<close>, so it is a parameter.
\<close>

section \<open>Kinds\<close>

datatype command_kind =
    CmdPing
  | CmdRequestSnapshot
  | CmdCancel
  | CmdSubscribe
  | CmdCreateThread
  | CmdListThreads
  | CmdSearchThreads
  | CmdOpenThread
  | CmdGetHistory
  | CmdConfigureAgent
  | CmdTestHarnessBinding
  | CmdStartTurn
  | CmdCancelTurn
  | CmdRespondPermission
  | CmdRuntimeStatus
  | CmdDiagnostics
  | CmdPutIdentityDocument
  | CmdDeleteIdentityDocument
  | CmdListIdentityDocuments
  | CmdGetContextSnapshot
  | CmdListMemories
  | CmdProposeMemory
  | CmdConfirmMemory
  | CmdRejectMemory
  | CmdCorrectMemory
  | CmdForgetMemory

fun wire_name :: "command_kind \<Rightarrow> string" where
  "wire_name CmdPing = ''ping''"
| "wire_name CmdRequestSnapshot = ''request_snapshot''"
| "wire_name CmdCancel = ''cancel''"
| "wire_name CmdSubscribe = ''subscribe''"
| "wire_name CmdCreateThread = ''create_thread''"
| "wire_name CmdListThreads = ''list_threads''"
| "wire_name CmdSearchThreads = ''search_threads''"
| "wire_name CmdOpenThread = ''open_thread''"
| "wire_name CmdGetHistory = ''get_history''"
| "wire_name CmdConfigureAgent = ''configure_agent''"
| "wire_name CmdTestHarnessBinding = ''test_harness_binding''"
| "wire_name CmdStartTurn = ''start_turn''"
| "wire_name CmdCancelTurn = ''cancel_turn''"
| "wire_name CmdRespondPermission = ''respond_permission''"
| "wire_name CmdRuntimeStatus = ''runtime_status''"
| "wire_name CmdDiagnostics = ''diagnostics''"
| "wire_name CmdPutIdentityDocument = ''put_identity_document''"
| "wire_name CmdDeleteIdentityDocument = ''delete_identity_document''"
| "wire_name CmdListIdentityDocuments = ''list_identity_documents''"
| "wire_name CmdGetContextSnapshot = ''get_context_snapshot''"
| "wire_name CmdListMemories = ''list_memories''"
| "wire_name CmdProposeMemory = ''propose_memory''"
| "wire_name CmdConfirmMemory = ''confirm_memory''"
| "wire_name CmdRejectMemory = ''reject_memory''"
| "wire_name CmdCorrectMemory = ''correct_memory''"
| "wire_name CmdForgetMemory = ''forget_memory''"

definition command_kind_from_str :: "string \<Rightarrow> (protocol_error, command_kind) result" where
  "command_kind_from_str s =
     (if s = ''ping'' then Okay CmdPing
      else if s = ''request_snapshot'' then Okay CmdRequestSnapshot
      else if s = ''cancel'' then Okay CmdCancel
      else if s = ''subscribe'' then Okay CmdSubscribe
      else if s = ''create_thread'' then Okay CmdCreateThread
      else if s = ''list_threads'' then Okay CmdListThreads
      else if s = ''search_threads'' then Okay CmdSearchThreads
      else if s = ''open_thread'' then Okay CmdOpenThread
      else if s = ''get_history'' then Okay CmdGetHistory
      else if s = ''configure_agent'' then Okay CmdConfigureAgent
      else if s = ''test_harness_binding'' then Okay CmdTestHarnessBinding
      else if s = ''start_turn'' then Okay CmdStartTurn
      else if s = ''cancel_turn'' then Okay CmdCancelTurn
      else if s = ''respond_permission'' then Okay CmdRespondPermission
      else if s = ''runtime_status'' then Okay CmdRuntimeStatus
      else if s = ''diagnostics'' then Okay CmdDiagnostics
      else if s = ''put_identity_document'' then Okay CmdPutIdentityDocument
      else if s = ''delete_identity_document'' then Okay CmdDeleteIdentityDocument
      else if s = ''list_identity_documents'' then Okay CmdListIdentityDocuments
      else if s = ''get_context_snapshot'' then Okay CmdGetContextSnapshot
      else if s = ''list_memories'' then Okay CmdListMemories
      else if s = ''propose_memory'' then Okay CmdProposeMemory
      else if s = ''confirm_memory'' then Okay CmdConfirmMemory
      else if s = ''reject_memory'' then Okay CmdRejectMemory
      else if s = ''correct_memory'' then Okay CmdCorrectMemory
      else if s = ''forget_memory'' then Okay CmdForgetMemory
      else Err (UnsupportedCommandKind s))"

section \<open>Envelopes\<close>

record command_envelope =
  cmd_version :: u32
  cmd_operation :: string
  cmd_kind :: command_kind
  cmd_payload :: "json option"
  cmd_issued_at :: u64

definition ensure_within :: "(json \<Rightarrow> nat) \<Rightarrow> json \<Rightarrow> nat \<Rightarrow> (protocol_error, unit) result" where
  "ensure_within enc v limit =
     (if enc v > limit then Err (PayloadTooLarge (enc v) limit) else Okay ())"

definition bounded_payload :: "(json \<Rightarrow> nat) \<Rightarrow> json \<Rightarrow> nat \<Rightarrow> (protocol_error, json) result" where
  "bounded_payload enc v limit =
     (case ensure_within enc v limit of Inl e \<Rightarrow> Err e | Inr _ \<Rightarrow> Okay v)"

definition new_typed ::
  "(json \<Rightarrow> nat) \<Rightarrow> command_kind \<Rightarrow> json \<Rightarrow> string \<Rightarrow> u64 \<Rightarrow> envelope_limits
   \<Rightarrow> (protocol_error, command_envelope) result" where
  "new_typed enc kind v operation_id issued_at limits =
     (case bounded_payload enc v (payload_bytes limits) of
        Inl e \<Rightarrow> Err e
      | Inr p \<Rightarrow> Okay \<lparr>cmd_version = protocol_v1, cmd_operation = operation_id, cmd_kind = kind,
                      cmd_payload = Some p, cmd_issued_at = issued_at\<rparr>)"

definition ping :: "string \<Rightarrow> u64 \<Rightarrow> command_envelope" where
  "ping operation_id issued_at =
     \<lparr>cmd_version = protocol_v1, cmd_operation = operation_id, cmd_kind = CmdPing,
       cmd_payload = None, cmd_issued_at = issued_at\<rparr>"

definition request_snapshot ::
  "(json \<Rightarrow> nat) \<Rightarrow> string option \<Rightarrow> u32 option \<Rightarrow> string \<Rightarrow> u64 \<Rightarrow> envelope_limits
   \<Rightarrow> (protocol_error, command_envelope) result" where
  "request_snapshot enc thread_id history_limit operation_id issued_at limits =
     (if thread_id = None \<and> history_limit = None
      then Okay \<lparr>cmd_version = protocol_v1, cmd_operation = operation_id,
             cmd_kind = CmdRequestSnapshot, cmd_payload = None, cmd_issued_at = issued_at\<rparr>
      else new_typed enc CmdRequestSnapshot
             (JObj ((case thread_id of None \<Rightarrow> [] | Some t \<Rightarrow> [(''thread_id'', JStr t)])
               @ (case history_limit of None \<Rightarrow> [] | Some n \<Rightarrow> [(''history_limit'', JPosInt (ucast n))])))
             operation_id issued_at limits)"

definition cancel ::
  "(json \<Rightarrow> nat) \<Rightarrow> string \<Rightarrow> string \<Rightarrow> u64 \<Rightarrow> envelope_limits
   \<Rightarrow> (protocol_error, command_envelope) result" where
  "cancel enc target operation_id issued_at limits =
     (case bounded_payload enc (JObj [(''operation_id'', JStr target)]) (payload_bytes limits) of
        Inl e \<Rightarrow> Err e
      | Inr p \<Rightarrow> Okay \<lparr>cmd_version = protocol_v1, cmd_operation = operation_id, cmd_kind = CmdCancel,
                      cmd_payload = Some p, cmd_issued_at = issued_at\<rparr>)"

definition cancel_target :: "command_envelope \<Rightarrow> (protocol_error, string option) result" where
  "cancel_target c =
     (if cmd_kind c \<noteq> CmdCancel then Okay None
      else case cmd_payload c of
        None \<Rightarrow> Err (MalformedEnvelope ''cancel command without payload'')
      | Some p \<Rightarrow>
          (case Option.bind (json_get p ''operation_id'') json_as_str of
             None \<Rightarrow> Err (MalformedEnvelope ''cancel payload without operation_id'')
           | Some target \<Rightarrow>
               (case id_from_str operation_prefix target of
                  Inl _ \<Rightarrow> Err (MalformedEnvelope ''invalid operation id'')
                | Inr i \<Rightarrow> Okay (Some i))))"

definition subscribe ::
  "(json \<Rightarrow> nat) \<Rightarrow> u64 option \<Rightarrow> string \<Rightarrow> u64 \<Rightarrow> envelope_limits
   \<Rightarrow> (protocol_error, command_envelope) result" where
  "subscribe enc since operation_id issued_at limits =
     (case bounded_payload enc
             (JObj [(''since'', case since of None \<Rightarrow> JNull | Some n \<Rightarrow> JPosInt n)])
             (payload_bytes limits) of
        Inl e \<Rightarrow> Err e
      | Inr p \<Rightarrow> Okay \<lparr>cmd_version = protocol_v1, cmd_operation = operation_id,
                      cmd_kind = CmdSubscribe, cmd_payload = Some p, cmd_issued_at = issued_at\<rparr>)"

definition subscribe_since ::
  "command_envelope \<Rightarrow> (protocol_error, u64 option option) result" where
  "subscribe_since c =
     (if cmd_kind c \<noteq> CmdSubscribe then Okay None
      else case cmd_payload c of
        None \<Rightarrow> Err (MalformedEnvelope ''subscribe command without payload'')
      | Some p \<Rightarrow>
          (case json_get p ''since'' of
             None \<Rightarrow> Err (MalformedEnvelope ''subscribe payload without since'')
           | Some JNull \<Rightarrow> Okay (Some None)
           | Some (JPosInt n) \<Rightarrow>
               (case sequence_try_new n of
                  Inl _ \<Rightarrow> Err (MalformedEnvelope ''subscribe since is not a sequence number'')
                | Inr s \<Rightarrow> Okay (Some (Some s)))
           | _ \<Rightarrow> Err (MalformedEnvelope ''subscribe since is not a sequence number'')))"

definition command_validate ::
  "(json \<Rightarrow> nat) \<Rightarrow> command_envelope \<Rightarrow> envelope_limits \<Rightarrow> (protocol_error, unit) result" where
  "command_validate enc c limits =
     (if \<not> range_contains supported_protocol_versions (cmd_version c)
      then Err (UnsupportedProtocolVersion (cmd_version c) supported_protocol_versions)
      else case cmd_payload c of
        None \<Rightarrow> Okay ()
      | Some p \<Rightarrow> ensure_within enc p (payload_bytes limits))"

section \<open>Properties\<close>

text \<open>The wire names are a faithful encoding of the closed set of commands: a string parses to a
  kind exactly when it is that kind's wire name, and every other string is refused by name.\<close>

theorem command_kinds_parse_exactly:
  "(command_kind_from_str s = Okay k \<longleftrightarrow> s = wire_name k)
   \<and> (s \<notin> range wire_name \<longleftrightarrow> command_kind_from_str s = Err (UnsupportedCommandKind s))"
proof -
  have own: "command_kind_from_str (wire_name k) = Okay k" for k
    by (cases k) (simp_all add: command_kind_from_str_def)
  moreover have fwd: "command_kind_from_str s = Okay j \<Longrightarrow> s = wire_name j" for j
    by (auto simp: command_kind_from_str_def split: if_splits)
  moreover have "command_kind_from_str s = Err (UnsupportedCommandKind s)
      \<or> (\<exists>j. command_kind_from_str s = Okay j)"
    by (auto simp: command_kind_from_str_def)
  ultimately show ?thesis by (metis rangeE rangeI sum.distinct(1))
qed

text \<open>A control command that could be built passes validation under the same limits and gives
  back what it was built from: the catch-up point of a subscribe, the target of a cancel; each is
  transparent to the other's reader.\<close>

theorem control_commands_roundtrip:
  assumes "subscribe enc since op at limits = Okay c" "since \<noteq> Some 0"
    and "cancel enc target op at limits = Okay d" "id_from_str operation_prefix target = Okay target"
  shows "subscribe_since c = Okay (Some since) \<and> cancel_target c = Okay None
       \<and> cancel_target d = Okay (Some target) \<and> subscribe_since d = Okay None
       \<and> command_validate enc c limits = Okay () \<and> command_validate enc d limits = Okay ()"
  using assms
  by (auto simp: subscribe_def cancel_def subscribe_since_def cancel_target_def command_validate_def
      bounded_payload_def ensure_within_def json_get_def json_as_str_def sequence_try_new_def
      range_contains_def supported_protocol_versions_def
      split: sum.splits if_splits option.splits)

theorem control_commands_roundtrip_witness:
  "\<exists>c d. subscribe (\<lambda>_. 12) (Some 7) ''op_fixture000000001'' 5 limits_default = Okay c
     \<and> cancel (\<lambda>_. 12) ''op_fixture000000002'' ''op_fixture000000001'' 5 limits_default = Okay d
     \<and> subscribe_since c = Okay (Some (Some 7)) \<and> cancel_target d = Okay (Some ''op_fixture000000002'')"
proof -
  have i: "id_from_str operation_prefix ''op_fixture000000002'' = Okay ''op_fixture000000002''"
    by code_simp
  obtain c where c: "subscribe (\<lambda>_. 12) (Some 7) ''op_fixture000000001'' 5 limits_default = Okay c"
    by (simp add: subscribe_def bounded_payload_def ensure_within_def limits_default_def)
  obtain d where d: "cancel (\<lambda>_. 12) ''op_fixture000000002'' ''op_fixture000000001'' 5 limits_default
      = Okay d"
    by (simp add: cancel_def bounded_payload_def ensure_within_def limits_default_def)
  show ?thesis using control_commands_roundtrip[OF c _ d i] c d by simp
qed

end
