(* ===== verification/Ipc_Session.thy ===== *)
theory Ipc_Session
  imports Ipc_Frame Protocol_Handshake Protocol_Command
begin

text \<open>
  The session layer of the local IPC: \<open>crates/altior-ipc/src/auth.rs\<close> (launch tokens) and \<open>session.rs\<close>
  (Core's event log and per-connection session, Desktop's client session and command ledger). The
  log is shared by all connections of one Core launch, so it is passed beside the session; an
  \<open>expect\<close> of the source is the error \<open>IpcPanic\<close>.
\<close>

unbundle bit_operations_syntax

section \<open>Launch tokens\<close>

record launch_credentials =
  lc_instance :: string
  lc_token :: string

definition hex_digits :: string where
  "hex_digits = ''0123456789abcdef''"

definition hex_pair :: "byte \<Rightarrow> string" where
  "hex_pair b = [hex_digits ! unat (drop_bit 4 b), hex_digits ! unat (b AND 15)]"

definition mint_launch_token :: "bytes \<Rightarrow> (ipc_error, string) result" where
  "mint_launch_token entropy =
     (if length entropy < 16 then Err (IpcProtocol (LaunchTokenLength (length entropy * 2)))
      else case launch_token_try_new (concat (map hex_pair entropy)) of
        Inl e \<Rightarrow> Err (IpcProtocol e)
      | Inr t \<Rightarrow> Okay t)"

definition constant_time_eq :: "bytes \<Rightarrow> bytes \<Rightarrow> bool" where
  "constant_time_eq a b \<longleftrightarrow>
     (if length a \<noteq> length b then False
      else foldl (\<lambda>diff (x, y). diff OR (x XOR y)) 0 (zip a b) = 0)"

definition authenticate :: "string \<Rightarrow> string \<Rightarrow> (ipc_error, unit) result" where
  "authenticate presented expected =
     (if constant_time_eq (str_bytes presented) (str_bytes expected) then Okay ()
      else Err AuthenticationRejected)"

section \<open>The event log\<close>

definition default_retained_capacity :: nat where
  "default_retained_capacity = 1024"

record event_log =
  el_events :: "event_envelope list"
  el_capacity :: nat
  el_next :: u64

definition log_new :: "nat \<Rightarrow> (ipc_error, event_log) result" where
  "log_new capacity =
     (if capacity = 0 then Err (SessionOrder ''create an event log with zero capacity'')
      else Okay \<lparr>el_events = [], el_capacity = capacity, el_next = sequence_first\<rparr>)"

definition log_append ::
  "event_log \<Rightarrow> event_envelope \<Rightarrow> (ipc_error, event_envelope) result \<times> event_log" where
  "log_append l e =
     (case sequence_next (el_next l) of
        Inl err \<Rightarrow> (Err (IpcProtocol err), l)
      | Inr n \<Rightarrow>
          let e' = e\<lparr>ev_sequence := el_next l\<rparr>;
              kept = (if length (el_events l) = el_capacity l then drop 1 (el_events l)
                      else el_events l) in
          (Okay e', l\<lparr>el_next := n, el_events := kept @ [e']\<rparr>))"

definition log_retained :: "event_log \<Rightarrow> retained_window option" where
  "log_retained l =
     (case el_events l of
        [] \<Rightarrow> None
      | e # es \<Rightarrow> Some \<lparr>rw_from = ev_sequence e, rw_through = ev_sequence (last (e # es))\<rparr>)"

datatype replay_plan = Replay "event_envelope list" | Gap u64 | UpToDate

text \<open>The guard \<open>since < through\<close> makes \<open>since.next()\<close> the plain successor.\<close>

definition replay_after :: "event_log \<Rightarrow> u64 option \<Rightarrow> replay_plan" where
  "replay_after l since =
     (case since of
        None \<Rightarrow> UpToDate
      | Some s \<Rightarrow>
          (case log_retained l of
             None \<Rightarrow> UpToDate
           | Some w \<Rightarrow>
               if s \<ge> rw_through w then UpToDate
               else if s + 1 < rw_from w then Gap (s + 1)
               else Replay (filter (\<lambda>e. ev_sequence e > s) (el_events l))))"

section \<open>Core's side of a connection\<close>

datatype catch_up_delivery =
    DeliverReplay "event_envelope list" event_envelope
  | DeliverGap event_envelope
  | DeliverNothing

record new_event =
  ne_id :: string
  ne_occurred_at :: u64
  ne_body :: event_body
  ne_operation :: "string option"
  ne_thread :: "string option"
  ne_turn :: "string option"

record server_session =
  ss_credentials :: launch_credentials
  ss_supported :: version_range
  ss_core_version :: product_version
  ss_capabilities :: capability_set
  ss_selected :: "u32 option"
  ss_subscribed :: bool

record session_established =
  est_core_hello :: core_hello
  est_negotiated :: negotiated_handshake
  est_greeting :: core_greeting

definition with_log ::
  "launch_credentials \<Rightarrow> version_range \<Rightarrow> product_version \<Rightarrow> capability_set \<Rightarrow> server_session" where
  "with_log credentials supported core_version capabilities =
     \<lparr>ss_credentials = credentials, ss_supported = supported, ss_core_version = core_version,
       ss_capabilities = capabilities, ss_selected = None, ss_subscribed = False\<rparr>"

definition accept_hello ::
  "server_session \<Rightarrow> event_log \<Rightarrow> desktop_hello
   \<Rightarrow> (ipc_error, session_established) result \<times> server_session" where
  "accept_hello s l hello =
     (if ss_selected s \<noteq> None
      then (Err (SessionOrder ''accept a second hello on one connection''), s)
      else case authenticate (dh_token hello) (lc_token (ss_credentials s)) of
        Inl e \<Rightarrow> (Err e, s)
      | Inr _ \<Rightarrow>
          let reply = \<lparr>ch_supported = ss_supported s, ch_version = ss_core_version s,
                       ch_capabilities = ss_capabilities s\<rparr> in
          (case negotiate hello reply of
             Inl e \<Rightarrow> (Err (IpcProtocol e), s)
           | Inr n \<Rightarrow>
               (Okay \<lparr>est_core_hello = reply, est_negotiated = n,
                  est_greeting = \<lparr>cg_version = selected_version n,
                    cg_instance = lc_instance (ss_credentials s),
                    cg_core_version = ss_core_version s, cg_retained = log_retained l\<rparr>\<rparr>,
                s\<lparr>ss_selected := Some (selected_version n)\<rparr>)))"

definition publish ::
  "server_session \<Rightarrow> event_log \<Rightarrow> new_event \<Rightarrow> (ipc_error, event_envelope) result \<times> event_log" where
  "publish s l e =
     (case ss_selected s of
        None \<Rightarrow> (Err (SessionOrder ''publish before the handshake completed''), l)
      | Some v \<Rightarrow>
          log_append l \<lparr>ev_version = v, ev_id = ne_id e, ev_operation = ne_operation e,
            ev_thread = ne_thread e, ev_turn = ne_turn e, ev_sequence = sequence_first,
            ev_occurred_at = ne_occurred_at e, ev_body = ne_body e\<rparr>)"

definition accept_subscribe ::
  "server_session \<Rightarrow> event_log \<Rightarrow> command_envelope \<Rightarrow> string \<Rightarrow> u64
   \<Rightarrow> (ipc_error, catch_up_delivery) result \<times> server_session \<times> event_log" where
  "accept_subscribe s l command boundary_id occurred_at =
     (if ss_selected s = None
      then (Err (SessionOrder ''subscribe before the handshake completed''), s, l)
      else if ss_subscribed s
      then (Err (SessionOrder ''subscribe twice on one connection''), s, l)
      else case subscribe_since command of
        Inl e \<Rightarrow> (Err (IpcProtocol e), s, l)
      | Inr None \<Rightarrow>
          (Err (IpcProtocol (UnsupportedCommandKind (wire_name (cmd_kind command)))), s, l)
      | Inr (Some since) \<Rightarrow>
          let s' = s\<lparr>ss_subscribed := True\<rparr>;
              boundary = (\<lambda>body. publish s' l \<lparr>ne_id = boundary_id, ne_occurred_at = occurred_at,
                 ne_body = body, ne_operation = Some (cmd_operation command),
                 ne_thread = None, ne_turn = None\<rparr>) in
          (case replay_after l since of
             Replay [] \<Rightarrow> (Err (IpcPanic ''replay plan carries at least one event''), s', l)
           | Replay (e # es) \<Rightarrow>
               (case boundary (Known (StreamReplayed (ev_sequence e) (ev_sequence (last (e # es))))) of
                  (Inl err, l') \<Rightarrow> (Err err, s', l')
                | (Inr b, l') \<Rightarrow> (Okay (DeliverReplay (e # es) b), s', l'))
           | Gap first_missing \<Rightarrow>
               (case boundary (Known (StreamGap first_missing)) of
                  (Inl err, l') \<Rightarrow> (Err err, s', l')
                | (Inr b, l') \<Rightarrow> (Okay (DeliverGap b), s', l'))
           | UpToDate \<Rightarrow> (Okay DeliverNothing, s', l)))"

section \<open>Desktop's side\<close>

datatype greeting_outcome = Resumed | Restarted
datatype event_delivery = Applied u64 | DuplicateEvent

record client_session =
  cl_instance :: "string option"
  cl_last :: "u64 option"
  cl_seen :: "string set"

definition client_new :: client_session where
  "client_new = \<lparr>cl_instance = None, cl_last = None, cl_seen = {}\<rparr>"

definition accept_greeting ::
  "client_session \<Rightarrow> core_greeting \<Rightarrow> negotiated_handshake
   \<Rightarrow> (ipc_error, greeting_outcome) result \<times> client_session" where
  "accept_greeting c g n =
     (case greeting_validate g of
        Inl e \<Rightarrow> (Err (IpcProtocol e), c)
      | Inr _ \<Rightarrow>
          if cg_version g \<noteq> selected_version n
          then (Err (IpcProtocol (UnsupportedProtocolVersion (cg_version g)
                  supported_protocol_versions)), c)
          else if cl_instance c = Some (cg_instance g)
          then (Okay Resumed, c\<lparr>cl_instance := Some (cg_instance g)\<rparr>)
          else (Okay Restarted, c\<lparr>cl_last := None, cl_seen := {},
                                  cl_instance := Some (cg_instance g)\<rparr>))"

definition client_subscribe_since :: "client_session \<Rightarrow> u64 option" where
  "client_subscribe_since c = cl_last c"

definition accept_event ::
  "client_session \<Rightarrow> event_envelope \<Rightarrow> (ipc_error, event_delivery) result \<times> client_session" where
  "accept_event c e =
     (if cl_instance c = None
      then (Err (SessionOrder ''accept an event before the greeting arrived''), c)
      else if ev_id e \<in> cl_seen c then (Okay DuplicateEvent, c)
      else
        let c' = c\<lparr>cl_seen := insert (ev_id e) (cl_seen c)\<rparr> in
        (Okay (Applied (ev_sequence e)),
         (if (case cl_last c of None \<Rightarrow> True | Some prev \<Rightarrow> ev_sequence e > prev)
          then c'\<lparr>cl_last := Some (ev_sequence e)\<rparr> else c')))"

section \<open>The command ledger\<close>

datatype record_outcome = Recorded | AlreadyIssued

record command_ledger =
  led_recorded :: "(string \<times> command_kind) list"
  led_capacity :: nat

definition ledger_new :: "nat \<Rightarrow> (ipc_error, command_ledger) result" where
  "ledger_new capacity =
     (if capacity = 0 then Err (SessionOrder ''create a command ledger with zero capacity'')
      else Okay \<lparr>led_recorded = [], led_capacity = capacity\<rparr>)"

definition ledger_record ::
  "command_ledger \<Rightarrow> command_envelope \<Rightarrow> (ipc_error, record_outcome) result \<times> command_ledger" where
  "ledger_record d c =
     (if map_of (led_recorded d) (cmd_operation c) \<noteq> None then (Okay AlreadyIssued, d)
      else if length (led_recorded d) = led_capacity d
      then (Err (SessionOrder ''record a command into a full ledger''), d)
      else (Okay Recorded,
            d\<lparr>led_recorded := bt_insert (cmd_operation c) (cmd_kind c) (led_recorded d)\<rparr>))"

definition ledger_clear :: "command_ledger \<Rightarrow> command_ledger" where
  "ledger_clear d = d\<lparr>led_recorded := []\<rparr>"

end
