(* ===== verification/Ipc_Delivery.thy ===== *)
theory Ipc_Delivery
  imports Ipc_Session
begin

text \<open>
  What the session layer promises: authentication is equality of tokens, the log replays exactly what
  a subscriber missed or reports a gap, a reconnecting client ends with the whole stream, a restart is
  recognised, and the command ledger issues an operation once.
\<close>

unbundle bit_operations_syntax

section \<open>Tokens\<close>

lemma xor_zero_iff: "x XOR y = (0 :: byte) \<longleftrightarrow> x = y"
  by (auto simp: bit_eq_iff bit_xor_iff)

lemma or_fold_zero:
  "foldl (\<lambda>diff (x, y). diff OR (x XOR y)) acc (zip a b) = (0 :: byte)
   \<longleftrightarrow> acc = 0 \<and> list_all (\<lambda>(x, y). x = y) (zip a b)"
proof (induction a arbitrary: b acc)
  case Nil
  then show ?case by simp
next
  case (Cons x a)
  show ?case
    by (cases b) (auto simp: Cons.IH or_eq_0_iff xor_zero_iff)
qed

lemma constant_time_eq_iff: "constant_time_eq a b \<longleftrightarrow> a = b"
  by (auto simp: constant_time_eq_def or_fold_zero list_all_length list_eq_iff_nth_eq)

lemma hex_digit_cases: "n < 16 \<Longrightarrow> hex_digits ! n \<in> set ''0123456789abcdef''"
  unfolding hex_digits_def by (rule nth_mem) simp

lemma nibble_bounds: "unat (drop_bit 4 (b :: byte)) < 16" "unat (b AND 15) < 16"
proof -
  have "unat b < 256" using unsigned_less[of b, where ?'a = nat] by simp
  then show "unat (drop_bit 4 b) < 16" by (simp add: drop_bit_eq_div unat_div_distrib)
  show "unat (b AND 15) < 16"
  proof -
    have "b AND 15 = b mod 16"
      using take_bit_eq_mask[of 4 b] take_bit_eq_mod[of 4 b] by (simp add: mask_eq_exp_minus_1)
    then show ?thesis by (simp add: unat_mod_distrib)
  qed
qed

lemma hex_digits_inj: "m < 16 \<Longrightarrow> n < 16 \<Longrightarrow> hex_digits ! m = hex_digits ! n \<Longrightarrow> m = n"
  using nth_eq_iff_index_eq[of hex_digits m n] by (simp add: hex_digits_def)

lemma nibbles_determine:
  assumes "drop_bit 4 a = drop_bit 4 (b :: byte)" "a AND 15 = b AND 15"
  shows "a = b"
proof -
  have "take_bit 4 a = take_bit 4 b"
    using assms(2) by (simp add: take_bit_eq_mask mask_eq_exp_minus_1)
  then show ?thesis using assms(1) by (metis bits_ident)
qed

lemma hex_pair_inj: "hex_pair a = hex_pair b \<Longrightarrow> a = b"
  using nibble_bounds hex_digits_inj nibbles_determine
  by (simp add: hex_pair_def) (metis unsigned_word_eqI)

lemma length_hex_pair: "length (hex_pair b) = 2"
  by (simp add: hex_pair_def)

lemma hex_string_inj: "concat (map hex_pair as) = concat (map hex_pair bs) \<Longrightarrow> as = bs"
proof (induction as arbitrary: bs)
  case Nil
  then show ?case by (cases bs) (auto simp: hex_pair_def)
next
  case (Cons a as)
  then obtain b bs' where bs: "bs = b # bs'" by (cases bs) (auto simp: hex_pair_def)
  then have "hex_pair a = hex_pair b" "concat (map hex_pair as) = concat (map hex_pair bs')"
    using Cons.prems append_eq_append_conv[of "hex_pair a" "hex_pair b"]
    by (simp_all add: length_hex_pair)
  then show ?case using Cons.IH bs hex_pair_inj by blast
qed

lemma token_scan_hex: "list_all is_token_char s \<Longrightarrow> token_scan n s = Okay ()"
  by (induction s arbitrary: n) auto

lemma hex_string_tokens: "list_all is_token_char (concat (map hex_pair as))"
proof (induction as)
  case Nil
  then show ?case by simp
next
  case (Cons a as)
  have tok: "is_token_char c" if "c \<in> set ''0123456789abcdef''" for c
    using that by (auto simp: is_token_char_def is_digit_def)
  show ?case
    using Cons tok[OF hex_digit_cases[OF nibble_bounds(1)[of a]]]
      tok[OF hex_digit_cases[OF nibble_bounds(2)[of a]]]
    by (simp add: hex_pair_def)
qed

lemma token_char_single: "is_token_char c \<Longrightarrow> \<not> is_continuation c"
  by (auto simp: is_token_char_def is_digit_def is_continuation_def)

lemma chars_count_tokens: "list_all is_token_char s \<Longrightarrow> chars_count s = length s"
  unfolding chars_count_def by (induction s) (auto simp: token_char_single)

lemma length_hex: "length (concat (map hex_pair as)) = 2 * length as"
  by (induction as) (auto simp: hex_pair_def)

lemma mint_launch_token_eq:
  "mint_launch_token as =
     (if length as < 16 \<or> length as > 64 then Err (IpcProtocol (LaunchTokenLength (2 * length as)))
      else Okay (concat (map hex_pair as)))"
  using chars_count_tokens[OF hex_string_tokens, of as] token_scan_hex[OF hex_string_tokens]
  by (auto simp: mint_launch_token_def launch_token_try_new_def length_hex min_token_len_def
      max_token_len_def)

section \<open>The log as a window onto its history\<close>

text \<open>A log represents a history of emitted envelopes: they are numbered from 1 and the log retains the
  last \<open>capacity\<close> of them.\<close>

definition log_hist :: "event_log \<Rightarrow> event_envelope list \<Rightarrow> bool" where
  "log_hist l es \<longleftrightarrow> 0 < el_capacity l \<and> length es + 1 < 2 ^ 64
     \<and> el_next l = of_nat (length es + 1)
     \<and> el_events l = drop (length es - el_capacity l) es
     \<and> (\<forall>i<length es. unat (ev_sequence (es ! i)) = i + 1)"

lemma log_new_hist: "log_new c = Okay l \<Longrightarrow> log_hist l [] \<and> el_capacity l = c"
  by (auto simp: log_new_def log_hist_def sequence_first_def split: if_splits)

lemma unat_small: "n < 2 ^ 64 \<Longrightarrow> unat (of_nat n :: u64) = n"
  by (simp add: unat_of_nat)

lemma sequence_next_small:
  assumes "n + 1 < 2 ^ 64"
  shows "sequence_next (of_nat n) = Okay (of_nat (n + 1))"
proof -
  have "(of_nat n :: u64) \<noteq> - 1"
  proof
    assume "(of_nat n :: u64) = - 1"
    then have "unat (of_nat n :: u64) = unat (- 1 :: u64)" by simp
    then show False
      using assms unat_small[of n] by (simp add: unsigned_minus_1_eq_mask mask_eq_exp_minus_1)
  qed
  then show ?thesis by (simp add: sequence_next_def add.commute)
qed

lemma log_append_hist:
  assumes "log_hist l es" "length es + 2 < 2 ^ 64"
  shows "\<exists>l'. log_append l e = (Okay (e\<lparr>ev_sequence := of_nat (length es + 1)\<rparr>), l')
       \<and> log_hist l' (es @ [e\<lparr>ev_sequence := of_nat (length es + 1)\<rparr>])
       \<and> el_capacity l' = el_capacity l"
proof -
  let ?e = "e\<lparr>ev_sequence := of_nat (length es + 1)\<rparr>"
  let ?c = "el_capacity l"
  have h: "0 < ?c" "el_next l = of_nat (length es + 1)" "el_events l = drop (length es - ?c) es"
    "\<forall>i<length es. unat (ev_sequence (es ! i)) = i + 1"
    using assms(1) by (simp_all add: log_hist_def)
  have n: "sequence_next (of_nat (length es + 1)) = Okay (of_nat (length es + 1 + 1))"
    using assms(2) by (intro sequence_next_small) simp
  have kept: "(if length (el_events l) = ?c then drop 1 (el_events l) else el_events l) @ [?e]
      = drop (length (es @ [?e]) - ?c) (es @ [?e])"
  proof (cases "length es < ?c")
    case True
    then show ?thesis using h(1,3) by auto
  next
    case False
    then have "Suc (length es) - ?c = Suc (length es - ?c)" "length es - ?c < length es"
      using h(1) by simp_all
    then show ?thesis using False h(3) by (auto simp: drop_Suc tl_drop)
  qed
  have seqs: "\<forall>i<length (es @ [?e]). unat (ev_sequence ((es @ [?e]) ! i)) = i + 1"
    using h(4) assms(2) unat_small[of "length es + 1"] by (auto simp: nth_append less_Suc_eq)
  show ?thesis
    using n h(1,2) kept seqs assms(2)
    by (simp add: log_append_def log_hist_def Let_def)
qed

lemma filter_after:
  assumes "\<forall>i<length es. unat (ev_sequence (es ! i)) = i + 1" "k \<le> unat s"
  shows "filter (\<lambda>e. ev_sequence e > s) (drop k es) = drop (unat s) es"
proof -
  have "drop k es = take (unat s - k) (drop k es) @ drop (unat s) es"
    using assms(2) by (metis append_take_drop_id drop_drop le_add_diff_inverse2)
  moreover have "filter (\<lambda>e. ev_sequence e > s) (take (unat s - k) (drop k es)) = []"
    using assms by (auto simp: filter_empty_conv in_set_conv_nth word_less_nat_alt)
  moreover have "filter (\<lambda>e. ev_sequence e > s) (drop (unat s) es) = drop (unat s) es"
    using assms by (auto simp: filter_id_conv in_set_conv_nth word_less_nat_alt)
  ultimately show ?thesis by (metis append_Nil filter_append)
qed

lemma replay_hist:
  assumes "log_hist l es"
  shows "replay_after l (Some s) =
    (if length es \<le> unat s then UpToDate
     else if unat s < length es - el_capacity l then Gap (s + 1)
     else Replay (drop (unat s) es))"
proof (cases "es = []")
  case True
  then show ?thesis using assms by (simp add: replay_after_def log_retained_def log_hist_def)
next
  case False
  let ?k = "length es - el_capacity l"
  have h: "0 < el_capacity l" "length es + 1 < 2 ^ 64" "el_events l = drop ?k es"
    "\<forall>i<length es. unat (ev_sequence (es ! i)) = i + 1"
    using assms by (simp_all add: log_hist_def)
  have k: "?k < length es" using False h(1) by simp
  then have ne: "drop ?k es = es ! ?k # drop (Suc ?k) es" by (simp add: Cons_nth_drop_Suc)
  have "last (drop ?k es) = es ! (length es - 1)" using False k by (simp add: last_conv_nth)
  then have win: "log_retained l = Some \<lparr>rw_from = ev_sequence (es ! ?k),
      rw_through = ev_sequence (es ! (length es - 1))\<rparr>"
    using h(3) ne by (simp add: log_retained_def)
  have ends: "unat (ev_sequence (es ! ?k)) = ?k + 1" "unat (ev_sequence (es ! (length es - 1))) = length es"
    using h(4) k False by auto
  have up: "ev_sequence (es ! (length es - 1)) \<le> s \<longleftrightarrow> length es \<le> unat s"
    using ends by (simp add: word_le_nat_alt)
  have gap: "s + 1 < ev_sequence (es ! ?k) \<longleftrightarrow> unat s < ?k" if "unat s < length es"
  proof -
    have "s \<noteq> - 1"
    proof
      assume "s = - 1"
      then have "unat s = 2 ^ 64 - 1" by (simp add: unsigned_minus_1_eq_mask mask_eq_exp_minus_1)
      then show False using that h(2) by simp
    qed
    then have "unat (s + 1) = unat s + 1"
      by (metis Suc_eq_plus1 add.commute unatSuc add_eq_0_iff2 add.inverse_inverse eq_neg_iff_add_eq_0)
    then show ?thesis using ends(1) by (simp add: word_less_nat_alt)
  qed
  show ?thesis
    using win up gap filter_after[OF h(4), of ?k s] h(3)
    by (auto simp: replay_after_def not_less not_le)
qed

lemma retained_valid:
  assumes "log_hist l es" "log_retained l = Some w"
  shows "window_validate w = Okay ()"
proof -
  let ?k = "length es - el_capacity l"
  have h: "el_events l = drop ?k es" "\<forall>i<length es. unat (ev_sequence (es ! i)) = i + 1"
    using assms(1) by (simp_all add: log_hist_def)
  have ne: "drop ?k es \<noteq> []" using assms(2) h(1) by (auto simp: log_retained_def)
  then have k: "?k < length es" by simp
  obtain e d where d: "drop ?k es = e # d" using ne by (cases "drop ?k es") auto
  then have w: "w = \<lparr>rw_from = ev_sequence e, rw_through = ev_sequence (last (e # d))\<rparr>"
    using assms(2) h(1) by (simp add: log_retained_def)
  have "e = es ! ?k" using d k by (metis hd_drop_conv_nth list.sel(1))
  moreover have "last (e # d) = es ! (length es - 1)"
    using d k by (metis last_conv_nth last_drop length_0_conv not_less_zero)
  ultimately have "unat (rw_from w) = ?k + 1" "unat (rw_through w) = length es"
    using h(2) k w by auto
  then show ?thesis using k by (simp add: window_validate_def word_less_nat_alt)
qed

section \<open>The feed contract\<close>

text \<open>A reader that asks, after every burst of new entries, for what follows the entries it has.\<close>

fun reader_rounds ::
  "('l \<Rightarrow> 'e \<Rightarrow> 'l) \<Rightarrow> ('l \<Rightarrow> nat \<Rightarrow> 'f list option) \<Rightarrow> 'l \<Rightarrow> 'f list \<Rightarrow> 'e list list
   \<Rightarrow> ('l \<times> 'f list) option" where
  "reader_rounds grow plan l got [] = Some (l, got)"
| "reader_rounds grow plan l got (b # bs) =
     (let l' = foldl grow l b in
      case plan l' (length got) of
        None \<Rightarrow> None
      | Some ys \<Rightarrow> reader_rounds grow plan l' (got @ ys) bs)"

text \<open>What such a reader relies on: the feed represents a history that every entry extends, and a plan
  it hands out is the rest of the history.\<close>

locale replayable_feed =
  fixes grow :: "'l \<Rightarrow> 'e \<Rightarrow> 'l"
    and hist :: "'l \<Rightarrow> 'f list \<Rightarrow> bool"
    and plan :: "'l \<Rightarrow> nat \<Rightarrow> 'f list option"
    and view_in :: "'e \<Rightarrow> 'k"
    and view_out :: "'f \<Rightarrow> 'k"
    and limit :: nat
  assumes hist_grow: "hist l es \<Longrightarrow> length es + 1 < limit
      \<Longrightarrow> \<exists>f. hist (grow l e) (es @ [f]) \<and> view_out f = view_in e"
    and plan_exact: "hist l es \<Longrightarrow> 0 < s \<Longrightarrow> s \<le> length es \<Longrightarrow> plan l s = Some ys \<Longrightarrow> ys = drop s es"
begin

lemma hist_grow_all:
  "hist l es \<Longrightarrow> length es + length b < limit \<Longrightarrow>
   \<exists>fs. hist (foldl grow l b) (es @ fs) \<and> map view_out fs = map view_in b"
proof (induction b arbitrary: l es)
  case Nil
  then show ?case by (intro exI[of _ "[]"]) simp
next
  case (Cons e b)
  obtain f where f: "hist (grow l e) (es @ [f])" "view_out f = view_in e"
    using hist_grow[OF Cons.prems(1), of e] Cons.prems(2) by auto
  obtain fs where "hist (foldl grow (grow l e) b) ((es @ [f]) @ fs)" "map view_out fs = map view_in b"
    using Cons.IH[OF f(1)] Cons.prems(2) by auto
  then show ?case using f(2) by (intro exI[of _ "f # fs"]) simp
qed

lemma reader_complete:
  assumes "hist l got" "0 < length got" "length got + length (concat bs) < limit"
    "reader_rounds grow plan l got bs = Some (l', got')"
  shows "hist l' got' \<and> map view_out got' = map view_out got @ map view_in (concat bs)"
  using assms
proof (induction bs arbitrary: l got)
  case Nil
  then show ?case by simp
next
  case (Cons b bs)
  obtain fs where fs: "hist (foldl grow l b) (got @ fs)" "map view_out fs = map view_in b"
    using hist_grow_all[OF Cons.prems(1), of b] Cons.prems(3) by auto
  obtain ys where ys: "plan (foldl grow l b) (length got) = Some ys"
    "reader_rounds grow plan (foldl grow l b) (got @ ys) bs = Some (l', got')"
    using Cons.prems(4) by (auto simp: Let_def split: option.splits)
  have "ys = fs" using plan_exact[OF fs(1) Cons.prems(2) _ ys(1)] by simp
  moreover have "length fs = length b" using fs(2) by (metis length_map)
  ultimately show ?case using Cons.IH[of "foldl grow l b" "got @ ys"] fs ys(2) Cons.prems(2,3) by simp
qed

end

definition log_grow :: "event_log \<Rightarrow> event_envelope \<Rightarrow> event_log" where
  "log_grow l e = snd (log_append l e)"

definition log_plan :: "event_log \<Rightarrow> nat \<Rightarrow> event_envelope list option" where
  "log_plan l s = (case replay_after l (Some (of_nat s)) of
     Replay es \<Rightarrow> Some es | Gap _ \<Rightarrow> None | UpToDate \<Rightarrow> Some [])"

text \<open>An envelope without its sequence number.\<close>

definition unsequenced :: "event_envelope \<Rightarrow> event_envelope" where
  "unsequenced e = e\<lparr>ev_sequence := 0\<rparr>"

interpretation log_feed: replayable_feed log_grow log_hist log_plan unsequenced unsequenced "2 ^ 64 - 1"
proof unfold_locales
  fix l es e
  assume "log_hist l es" "length es + 1 < 2 ^ 64 - 1"
  then obtain l' where "log_append l e = (Okay (e\<lparr>ev_sequence := of_nat (length es + 1)\<rparr>), l')"
    "log_hist l' (es @ [e\<lparr>ev_sequence := of_nat (length es + 1)\<rparr>])"
    using log_append_hist[of l es e] by auto
  then show "\<exists>f. log_hist (log_grow l e) (es @ [f]) \<and> unsequenced f = unsequenced e"
    by (auto simp: log_grow_def unsequenced_def)
next
  fix l es s ys
  assume a: "log_hist l es" "0 < s" "s \<le> length es" "log_plan l s = Some ys"
  have "unat (of_nat s :: u64) = s" using a(1,3) by (intro unat_small) (simp add: log_hist_def)
  then show "ys = drop s es"
    using a replay_hist[OF a(1), of "of_nat s"] by (auto simp: log_plan_def split: if_splits)
qed

section \<open>The client\<close>

lemma client_applies_all:
  assumes "cl_instance c \<noteq> None" "cl_last c = Some p"
    and "sorted_wrt (<) (p # map ev_sequence es)" "distinct (map ev_id es)"
    and "\<forall>e\<in>set es. ev_id e \<notin> cl_seen c"
  shows "try_all accept_event c es = (Okay (map (Applied \<circ> ev_sequence) es),
    c\<lparr>cl_seen := cl_seen c \<union> ev_id ` set es, cl_last := Some (last (p # map ev_sequence es))\<rparr>)"
  using assms
proof (induction es arbitrary: c p)
  case Nil
  then show ?case by simp
next
  case (Cons e es)
  let ?c = "c\<lparr>cl_seen := insert (ev_id e) (cl_seen c), cl_last := Some (ev_sequence e)\<rparr>"
  have one: "accept_event c e = (Okay (Applied (ev_sequence e)), ?c)"
    using Cons.prems by (simp add: accept_event_def)
  have "try_all accept_event ?c es = (Okay (map (Applied \<circ> ev_sequence) es),
    ?c\<lparr>cl_seen := cl_seen ?c \<union> ev_id ` set es, cl_last := Some (last (ev_sequence e # map ev_sequence es))\<rparr>)"
    using Cons.prems by (intro Cons.IH) (auto simp: image_iff)
  then show ?case using one by simp
qed

lemma hist_sequences: "log_hist l es \<Longrightarrow> map (unat \<circ> ev_sequence) es = [1..<length es + 1]"
  by (intro nth_equalityI) (auto simp: log_hist_def simp del: upt_Suc)

lemma hist_sorted:
  assumes "log_hist l es" "0 < unat s" "unat s < length es"
  shows "sorted_wrt (<) (s # map ev_sequence (drop (unat s) es))"
proof -
  have q: "unat (ev_sequence (es ! i)) = i + 1" if "i < length es" for i
    using assms(1) that by (simp add: log_hist_def)
  have "sorted_wrt (<) (map ev_sequence (drop (unat s) es))"
    using q by (auto simp: sorted_wrt_iff_nth_less word_less_nat_alt)
  moreover have "\<forall>e\<in>set (drop (unat s) es). s < ev_sequence e"
    using q by (auto simp: in_set_conv_nth word_less_nat_alt)
  ultimately show ?thesis by simp
qed

lemma take_drop_ids:
  assumes "distinct (map f es)"
  shows "\<forall>e\<in>set (drop n es). f e \<notin> f ` set (take n es)"
proof -
  have "distinct (map f (take n es @ drop n es))" using assms by simp
  then show ?thesis unfolding map_append distinct_append by auto
qed

section \<open>The ledger\<close>

text \<open>The operations a sequence of commands is sent for.\<close>

fun ledger_issued :: "command_ledger \<Rightarrow> command_envelope list \<Rightarrow> string list" where
  "ledger_issued d [] = []"
| "ledger_issued d (c # cs) =
     (case ledger_record d c of
        (Inr Recorded, d') \<Rightarrow> cmd_operation c # ledger_issued d' cs
      | (_, d') \<Rightarrow> ledger_issued d' cs)"

lemma ledger_issued_fresh:
  assumes "bt_ok (led_recorded d)" "length (led_recorded d) \<le> led_capacity d"
  shows "distinct (ledger_issued d cs)
    \<and> (\<forall>i\<in>set (ledger_issued d cs). map_of (led_recorded d) i = None)
    \<and> length (led_recorded d) + length (ledger_issued d cs) \<le> led_capacity d"
  using assms
proof (induction cs arbitrary: d)
  case Nil
  then show ?case by simp
next
  case (Cons c cs)
  let ?d = "d\<lparr>led_recorded := bt_insert (cmd_operation c) (cmd_kind c) (led_recorded d)\<rparr>"
  show ?case
  proof (cases "map_of (led_recorded d) (cmd_operation c) \<noteq> None
      \<or> length (led_recorded d) = led_capacity d")
    case True
    then show ?thesis using Cons.IH[OF Cons.prems] by (auto simp: ledger_record_def)
  next
    case False
    then have "distinct (ledger_issued ?d cs)"
      "\<forall>i\<in>set (ledger_issued ?d cs). map_of (led_recorded ?d) i = None"
      "length (led_recorded ?d) + length (ledger_issued ?d cs) \<le> led_capacity ?d"
      using Cons.IH[of ?d] Cons.prems by (simp_all add: bt_insert_ok bt_insert_length_new)
    then show ?thesis
      using False Cons.prems by (auto simp: ledger_record_def bt_insert_length_new split: if_splits)
  qed
qed

section \<open>Properties\<close>

text \<open>Authentication with minted tokens is sound and complete: minting succeeds exactly for 16 to
  64 bytes of entropy, and of two minted tokens the one authenticates against the other exactly when
  they came from the same entropy.\<close>

theorem authenticate_iff_same_entropy:
  "(isl (mint_launch_token as) \<longleftrightarrow> length as < 16 \<or> length as > 64)
   \<and> (\<forall>t u. mint_launch_token as = Okay t \<and> mint_launch_token bs = Okay u
        \<longrightarrow> (authenticate t u = Okay () \<longleftrightarrow> as = bs))"
proof -
  have "authenticate t u = Okay () \<longleftrightarrow> t = u" for t u
    by (simp add: authenticate_def constant_time_eq_iff)
  then show ?thesis
    using hex_string_inj by (auto simp: mint_launch_token_eq split: if_splits)
qed

theorem authenticate_iff_same_entropy_witness:
  "\<exists>t u. mint_launch_token (replicate 16 15) = Okay t \<and> mint_launch_token (replicate 16 16) = Okay u
     \<and> authenticate t u \<noteq> Okay () \<and> authenticate t t = Okay ()"
proof -
  have t: "mint_launch_token (replicate 16 15) = Okay (concat (map hex_pair (replicate 16 15)))"
    and u: "mint_launch_token (replicate 16 16) = Okay (concat (map hex_pair (replicate 16 16)))"
    by (simp_all add: mint_launch_token_eq)
  have "replicate 16 (15 :: byte) ! 0 \<noteq> replicate 16 16 ! 0" by simp
  then have "replicate 16 (15 :: byte) \<noteq> replicate 16 16" by metis
  then show ?thesis
    using t u authenticate_iff_same_entropy[of "replicate 16 15" "replicate 16 16"]
      authenticate_iff_same_entropy[of "replicate 16 15" "replicate 16 15"] by blast
qed

text \<open>The log answers a subscriber exactly. For a log that has emitted a history and a subscriber
  that has seen the first \<open>s\<close> entries: nothing when it missed nothing, a gap at the first missing
  sequence when an entry it needs was evicted, and otherwise precisely the missing suffix in order.\<close>

theorem replay_exact_or_gap:
  assumes "log_new capacity = Okay l0" "length hist < 2 ^ 64 - 2" "0 < s"
  shows "\<exists>es. map unsequenced es = map unsequenced hist
     \<and> map (unat \<circ> ev_sequence) es = [1..<length hist + 1]
     \<and> replay_after (foldl log_grow l0 hist) (Some s) =
         (if length hist \<le> unat s then UpToDate
          else if unat s < length hist - capacity then Gap (s + 1)
          else Replay (drop (unat s) es))"
proof -
  have l0: "log_hist l0 []" "el_capacity l0 = capacity" using log_new_hist[OF assms(1)] by simp_all
  obtain es where es: "log_hist (foldl log_grow l0 hist) es" "map unsequenced es = map unsequenced hist"
    using log_feed.hist_grow_all[OF l0(1), of hist] assms(2) by auto
  have len: "length es = length hist" using es(2) by (metis length_map)
  have cap: "el_capacity (foldl log_grow l b) = el_capacity l" for l b
    by (induction b arbitrary: l)
      (simp_all add: log_grow_def log_append_def Let_def split: sum.split)
  have "map (unat \<circ> ev_sequence) es = [1..<length hist + 1]"
    using hist_sequences[OF es(1)] len by simp
  then show ?thesis using es replay_hist[OF es(1), of s] len cap l0(2) by auto
qed

definition sample_event :: "string \<Rightarrow> event_envelope" where
  "sample_event i = turn_started i None None None 1 0"

theorem replay_exact_or_gap_witness:
  "\<exists>l0 es. log_new 2 = Okay l0
     \<and> map ev_id es = [''evt_a'', ''evt_b'', ''evt_c'']
     \<and> replay_after (foldl log_grow l0 (map sample_event [''evt_a'', ''evt_b'', ''evt_c''])) (Some 1)
       = Replay (drop 1 es)"
proof -
  obtain l0 where l0: "log_new 2 = Okay l0" by (simp add: log_new_def)
  let ?h = "map sample_event [''evt_a'', ''evt_b'', ''evt_c'']"
  obtain es where es: "map unsequenced es = map unsequenced ?h"
    "replay_after (foldl log_grow l0 ?h) (Some 1) = Replay (drop 1 es)"
    using replay_exact_or_gap[OF l0, of ?h 1] by (simp del: list.map) blast
  have "map ev_id es = map ev_id ?h"
    using arg_cong[OF es(1), of "map ev_id"] by (simp add: unsequenced_def comp_def)
  then have "map ev_id es = [''evt_a'', ''evt_b'', ''evt_c'']"
    by (simp add: sample_event_def turn_started_def)
  then show ?thesis using l0 es(2) by (intro exI[of _ l0] exI[of _ es] conjI)
qed

text \<open>C29: A reader that holds the stream so far and, after each of any number of bursts of new events,
  asks for what it missed, ends with exactly the emitted stream, each event once and in order, unless
  it is told of a gap.\<close>

theorem reader_rounds_complete:
  assumes "log_hist l got" "got \<noteq> []" "length got + length (concat bursts) < 2 ^ 64 - 1"
    and "reader_rounds log_grow log_plan l got bursts = Some (l', got')"
  shows "map unsequenced got' = map unsequenced (got @ concat bursts)
       \<and> map (unat \<circ> ev_sequence) got' = [1..<length got' + 1]"
proof -
  have "log_hist l' got' \<and> map unsequenced got' = map unsequenced got @ map unsequenced (concat bursts)"
    using log_feed.reader_complete[OF assms(1) _ assms(3,4)] assms(2) by simp
  then show ?thesis using hist_sequences[of l' got'] by simp
qed

definition sample_log :: event_log where
  "sample_log = \<lparr>el_events = [sample_event ''evt_a''], el_capacity = 2, el_next = 2\<rparr>"

theorem reader_rounds_complete_witness:
  "\<exists>l' got'. reader_rounds log_grow log_plan sample_log [sample_event ''evt_a'']
       [[sample_event ''evt_b''], [], [sample_event ''evt_c'', sample_event ''evt_d'']] = Some (l', got')
     \<and> map unsequenced got' = map unsequenced (map sample_event [''evt_a'', ''evt_b'', ''evt_c'', ''evt_d''])"
proof -
  let ?b = "[[sample_event ''evt_b''], [], [sample_event ''evt_c'', sample_event ''evt_d'']]"
  have h: "log_hist sample_log [sample_event ''evt_a'']"
    by (simp add: log_hist_def sample_log_def sample_event_def turn_started_def)
  have "reader_rounds log_grow log_plan sample_log [sample_event ''evt_a''] ?b \<noteq> None" by code_simp
  then obtain l' got' where
    r: "reader_rounds log_grow log_plan sample_log [sample_event ''evt_a''] ?b = Some (l', got')"
    by auto
  show ?thesis using reader_rounds_complete[OF h _ _ r] r by simp
qed

text \<open>C30: A reconnecting client that had seen the first \<open>s\<close> events of a Core launch, and still lies
  within the retained window, receives on subscribing exactly the events it missed followed by a
  boundary event numbered right after them, applies every one of them (none is dropped as a
  duplicate) and then stands at the end of the stream.\<close>

theorem reconnect_catches_up:
  assumes "log_hist l es" "distinct (map ev_id es)" "bid \<notin> ev_id ` set es"
    and "cl_instance c = Some inst" "cl_last c = Some s" "cl_seen c = ev_id ` set (take (unat s) es)"
    and "ss_selected srv = Some v" "\<not> ss_subscribed srv"
    and "subscribe_since cmd = Okay (Some (client_subscribe_since c))"
    and "length es - el_capacity l \<le> unat s" "0 < unat s" "unat s < length es" "length es + 2 < 2 ^ 64"
  shows "\<exists>b srv' l' c'. accept_subscribe srv l cmd bid now = (Okay (DeliverReplay (drop (unat s) es) b), srv', l')
     \<and> log_hist l' (es @ [b])
     \<and> try_all accept_event c (drop (unat s) es @ [b])
         = (Okay (map (Applied \<circ> ev_sequence) (drop (unat s) es @ [b])), c')
     \<and> cl_last c' = Some (ev_sequence b) \<and> cl_seen c' = ev_id ` set (es @ [b])"
proof -
  let ?m = "drop (unat s) es"
  have plan: "replay_after l (Some s) = Replay ?m" using replay_hist[OF assms(1), of s] assms(10,12) by simp
  obtain e m where m: "?m = e # m" using assms(12) by (metis Cons_nth_drop_Suc)
  let ?e = "\<lparr>ev_version = v, ev_id = bid, ev_operation = Some (cmd_operation cmd), ev_thread = None,
      ev_turn = None, ev_sequence = sequence_first, ev_occurred_at = now,
      ev_body = Known (StreamReplayed (ev_sequence e) (ev_sequence (last ?m)))\<rparr>"
  let ?b = "?e\<lparr>ev_sequence := of_nat (length es + 1)\<rparr>"
  obtain l' where l': "log_append l ?e = (Okay ?b, l')" "log_hist l' (es @ [?b])"
    using log_append_hist[OF assms(1,13), of ?e] by blast
  have sub: "accept_subscribe srv l cmd bid now
      = (Okay (DeliverReplay ?m ?b), srv\<lparr>ss_subscribed := True\<rparr>, l')"
    using assms(5,7-9) plan m l'(1)
    by (simp add: accept_subscribe_def client_subscribe_since_def publish_def Let_def)
  have "drop (unat s) (es @ [?b]) = ?m @ [?b]" using assms(12) by simp
  then have "sorted_wrt (<) (s # map ev_sequence (?m @ [?b]))"
    using hist_sorted[OF l'(2) assms(11)] assms(12) by simp
  moreover have "distinct (map ev_id (?m @ [?b]))" "\<forall>e\<in>set (?m @ [?b]). ev_id e \<notin> cl_seen c"
    using assms(2,3,6) take_drop_ids[OF assms(2), of "unat s"]
    by (auto simp: distinct_map dest: in_set_takeD in_set_dropD inj_on_subset[OF _ set_drop_subset])
  ultimately have cl: "try_all accept_event c (?m @ [?b]) = (Okay (map (Applied \<circ> ev_sequence) (?m @ [?b])),
      c\<lparr>cl_seen := cl_seen c \<union> ev_id ` set (?m @ [?b]), cl_last := Some (last (s # map ev_sequence (?m @ [?b])))\<rparr>)"
    using assms(4,5) by (intro client_applies_all) auto
  have "cl_seen c \<union> ev_id ` set (?m @ [?b]) = ev_id ` set (es @ [?b])"
  proof -
    have "set es = set (take (unat s) es) \<union> set ?m" by (metis append_take_drop_id set_append)
    then show ?thesis using assms(6) by auto
  qed
  then show ?thesis using sub l'(2) cl by (intro exI) (auto simp del: try_all.simps)
qed

definition sample_history :: "event_envelope list" where
  "sample_history = [sample_event ''evt_a'', (sample_event ''evt_b'')\<lparr>ev_sequence := 2\<rparr>,
     (sample_event ''evt_c'')\<lparr>ev_sequence := 3\<rparr>]"

definition sample_full_log :: event_log where
  "sample_full_log = \<lparr>el_events = drop 1 sample_history, el_capacity = 2, el_next = 4\<rparr>"

definition sample_client :: client_session where
  "sample_client = \<lparr>cl_instance = Some ''cor_x'', cl_last = Some 1, cl_seen = {''evt_a''}\<rparr>"

definition sample_credentials :: launch_credentials where
  "sample_credentials = \<lparr>lc_instance = ''cor_x'', lc_token = ''0f1e2d3c4b5a69788796a5b4c3d2e1f0''\<rparr>"

definition sample_server :: server_session where
  "sample_server = with_log sample_credentials supported_protocol_versions sample_version []"

definition sample_subscribe :: command_envelope where
  "sample_subscribe = \<lparr>cmd_version = 1, cmd_operation = ''op_a'', cmd_kind = CmdSubscribe,
     cmd_payload = Some (JObj [(''since'', JPosInt 1)]), cmd_issued_at = 0\<rparr>"

lemma sample_full_hist: "log_hist sample_full_log sample_history"
proof -
  have "unat (ev_sequence (sample_history ! i)) = i + 1" if "i < 3" for i
  proof -
    have "i = 0 \<or> i = 1 \<or> i = 2" using that by linarith
    then show ?thesis by (auto simp: sample_history_def sample_event_def turn_started_def)
  qed
  then show ?thesis by (simp add: log_hist_def sample_full_log_def sample_history_def)
qed

theorem reconnect_catches_up_witness:
  "\<exists>b srv' l' c'. accept_subscribe (sample_server\<lparr>ss_selected := Some 1\<rparr>) sample_full_log sample_subscribe
       ''evt_boundary'' 9 = (Okay (DeliverReplay (drop 1 sample_history) b), srv', l')
     \<and> try_all accept_event sample_client (drop 1 sample_history @ [b])
       = (Okay (map (Applied \<circ> ev_sequence) (drop 1 sample_history @ [b])), c')
     \<and> cl_last c' = Some (ev_sequence b)"
proof -
  have "distinct (map ev_id sample_history)" "''evt_boundary'' \<notin> ev_id ` set sample_history"
    "cl_instance sample_client = Some ''cor_x''" "cl_last sample_client = Some 1"
    "cl_seen sample_client = ev_id ` set (take (unat (1 :: u64)) sample_history)"
    "ss_selected (sample_server\<lparr>ss_selected := Some 1\<rparr>) = Some 1"
    "\<not> ss_subscribed (sample_server\<lparr>ss_selected := Some 1\<rparr>)"
    "subscribe_since sample_subscribe = Okay (Some (client_subscribe_since sample_client))"
    "length sample_history - el_capacity sample_full_log \<le> unat (1 :: u64)" "0 < unat (1 :: u64)"
    "unat (1 :: u64) < length sample_history" "length sample_history + 2 < 2 ^ 64"
    by (simp_all add: sample_history_def sample_event_def turn_started_def sample_client_def
        sample_server_def with_log_def sample_subscribe_def subscribe_since_def json_get_def
        sequence_try_new_def client_subscribe_since_def sample_full_log_def)
  from reconnect_catches_up[OF sample_full_hist this, of 9] show ?thesis by (simp only: unat_1) blast
qed

text \<open>The ledger sends an operation at most once: over any sequence of commands between two
  clears, the operations that are sent are pairwise different and no more than the capacity.\<close>

theorem ledger_issues_once:
  assumes "ledger_new capacity = Okay d"
  shows "distinct (ledger_issued d cs) \<and> length (ledger_issued d cs) \<le> capacity"
  using assms ledger_issued_fresh[of d cs] by (auto simp: ledger_new_def split: if_splits)

theorem ledger_issues_once_witness:
  "\<exists>d. ledger_new 2 = Okay d
     \<and> ledger_issued d [ping ''op_a'' 1, ping ''op_b'' 2, ping ''op_a'' 3, ping ''op_c'' 4] = [''op_a'', ''op_b'']
     \<and> distinct (ledger_issued d [ping ''op_a'' 1, ping ''op_b'' 2, ping ''op_a'' 3, ping ''op_c'' 4])"
proof -
  obtain d where d: "ledger_new 2 = Okay d" "d = \<lparr>led_recorded = [], led_capacity = 2\<rparr>"
    by (simp add: ledger_new_def)
  then show ?thesis
    using ledger_issues_once[OF d(1), of "[ping ''op_a'' 1, ping ''op_b'' 2, ping ''op_a'' 3, ping ''op_c'' 4]"]
    by (simp add: ledger_record_def ping_def)
qed

text \<open>The handshake establishes the epoch. When Core accepts a hello, the presented token was the
  launch token, and the greeting it sends is accepted by the client, which resumes exactly when it
  was last connected to the same Core launch and otherwise forgets its catch-up point and its
  duplicate filter; a wrong token is refused before any version is looked at.\<close>

theorem handshake_establishes_epoch:
  assumes "ss_selected s = None" "ss_supported s = supported_protocol_versions" "log_hist l es"
  shows "(dh_token hello \<noteq> lc_token (ss_credentials s) \<longrightarrow>
            accept_hello s l hello = (Err AuthenticationRejected, s))
       \<and> (\<forall>est s'. accept_hello s l hello = (Okay est, s') \<longrightarrow>
            ss_selected s' = Some (selected_version (est_negotiated est))
            \<and> accept_greeting c (est_greeting est) (est_negotiated est) =
               (if cl_instance c = Some (lc_instance (ss_credentials s)) then (Okay Resumed, c)
                else (Okay Restarted, \<lparr>cl_instance = Some (lc_instance (ss_credentials s)),
                        cl_last = None, cl_seen = {}\<rparr>)))"
proof (intro conjI impI allI)
  assume "dh_token hello \<noteq> lc_token (ss_credentials s)"
  then show "accept_hello s l hello = (Err AuthenticationRejected, s)"
    using assms(1) by (simp add: accept_hello_def authenticate_def constant_time_eq_iff)
next
  fix est s'
  assume ok: "accept_hello s l hello = (Okay est, s')"
  let ?r = "\<lparr>ch_supported = ss_supported s, ch_version = ss_core_version s,
             ch_capabilities = ss_capabilities s\<rparr>"
  obtain n where n: "negotiate hello ?r = Okay n" "s' = s\<lparr>ss_selected := Some (selected_version n)\<rparr>"
    "est = \<lparr>est_core_hello = ?r, est_negotiated = n, est_greeting = \<lparr>cg_version = selected_version n,
       cg_instance = lc_instance (ss_credentials s), cg_core_version = ss_core_version s,
       cg_retained = log_retained l\<rparr>\<rparr>"
    using ok assms(1) by (auto simp: accept_hello_def Let_def split: if_splits sum.splits)
  have v: "range_contains supported_protocol_versions (selected_version n)"
    using n(1) assms(2)
    by (auto simp: negotiate_def range_intersect_def range_contains_def Let_def
        split: option.splits if_splits)
  have w: "case log_retained l of None \<Rightarrow> True | Some w \<Rightarrow> window_validate w = Okay ()"
    using retained_valid[OF assms(3)] by (simp split: option.split)
  have cl: "c\<lparr>cl_last := None, cl_seen := {}, cl_instance := Some i\<rparr>
      = \<lparr>cl_instance = Some i, cl_last = None, cl_seen = {}\<rparr>" for i
    by (cases c) simp
  have "greeting_validate (est_greeting est) = Okay ()"
    using v w n(3) by (simp add: greeting_validate_def split: option.splits)
  then show "ss_selected s' = Some (selected_version (est_negotiated est))"
    "accept_greeting c (est_greeting est) (est_negotiated est) =
       (if cl_instance c = Some (lc_instance (ss_credentials s)) then (Okay Resumed, c)
        else (Okay Restarted, \<lparr>cl_instance = Some (lc_instance (ss_credentials s)),
                cl_last = None, cl_seen = {}\<rparr>))"
    using n(2,3) cl by (auto simp: accept_greeting_def)
qed

theorem handshake_establishes_epoch_witness:
  "\<exists>est s'. accept_hello sample_server sample_full_log
        (sample_desktop\<lparr>dh_supported := supported_protocol_versions\<rparr>) = (Okay est, s')
     \<and> accept_greeting sample_client (est_greeting est) (est_negotiated est) = (Okay Resumed, sample_client)
     \<and> fst (accept_greeting (sample_client\<lparr>cl_instance := Some ''cor_old''\<rparr>)
         (est_greeting est) (est_negotiated est)) = Okay Restarted"
proof -
  let ?h = "sample_desktop\<lparr>dh_supported := supported_protocol_versions\<rparr>"
  have s: "ss_selected sample_server = None" "ss_supported sample_server = supported_protocol_versions"
    "lc_instance (ss_credentials sample_server) = ''cor_x''"
    by (simp_all add: sample_server_def with_log_def sample_credentials_def)
  have "\<not> isl (fst (accept_hello sample_server sample_full_log ?h))" by code_simp
  then obtain est s' where ok: "accept_hello sample_server sample_full_log ?h = (Okay est, s')"
    by (metis isl_def prod.collapse sum.exhaust)
  show ?thesis
    using ok handshake_establishes_epoch[OF s(1,2) sample_full_hist, of ?h sample_client]
      handshake_establishes_epoch[OF s(1,2) sample_full_hist, of ?h
        "sample_client\<lparr>cl_instance := Some ''cor_old''\<rparr>"] s(3)
    by (auto simp: sample_client_def)
qed

end
