(* ===== verification/Core_Supervision.thy ===== *)
theory Core_Supervision
  imports Ipc_Frame
begin

text \<open>
  Desktop's supervision of Core, \<open>crates/altior-core/src/supervision.rs\<close>: spawn or attach, probe first,
  bounded reconnect escalation. Attempt numbers are 32-bit words.
\<close>

section \<open>Model\<close>

datatype endpoint = WindowsPipe string | UnixSocket string

datatype decision =
    Probe endpoint
  | Spawn endpoint
  | Attach endpoint
  | BackoffThenProbe endpoint u32
  | IdleDecision

datatype probe_outcome = Live | Unavailable | Stale

record reconnect_policy =
  first_attempt :: u32
  max_attempts :: u32

definition policy_next_attempt :: "reconnect_policy \<Rightarrow> u32 \<Rightarrow> u32" where
  "policy_next_attempt p previous =
     (if previous \<ge> max_attempts p then max_attempts p else previous + 1)"

datatype supervision_state =
    Initial
  | Probing
  | Starting u32
  | Attached
  | Reconnecting u32
  | Stopped

record supervisor =
  sv_endpoint :: endpoint
  sv_policy :: reconnect_policy
  sv_state :: supervision_state
  sv_reconnect :: u32

definition supervisor_new :: "endpoint \<Rightarrow> reconnect_policy \<Rightarrow> supervisor" where
  "supervisor_new e p = \<lparr>sv_endpoint = e, sv_policy = p, sv_state = Initial, sv_reconnect = 0\<rparr>"

definition supervisor_start :: "supervisor \<Rightarrow> decision \<times> supervisor" where
  "supervisor_start s = (Probe (sv_endpoint s), s\<lparr>sv_state := Probing\<rparr>)"

definition current_attempt :: "supervisor \<Rightarrow> u32" where
  "current_attempt s = max (sv_reconnect s) (first_attempt (sv_policy s))"

definition next_attempt :: "supervisor \<Rightarrow> u32" where
  "next_attempt s =
     max (policy_next_attempt (sv_policy s) (sv_reconnect s)) (first_attempt (sv_policy s))"

definition on_probe :: "supervisor \<Rightarrow> probe_outcome \<Rightarrow> (ipc_error, decision) result \<times> supervisor" where
  "on_probe s outcome =
     (if sv_state s \<noteq> Probing
      then (Err (SessionOrder ''report a probe outcome without an outstanding probe''), s)
      else case outcome of
        Live \<Rightarrow> (Okay (Attach (sv_endpoint s)), s\<lparr>sv_state := Attached\<rparr>)
      | Unavailable \<Rightarrow>
          (Okay (Spawn (sv_endpoint s)), s\<lparr>sv_state := Starting (current_attempt s)\<rparr>)
      | Stale \<Rightarrow>
          (Okay (Spawn (sv_endpoint s)), s\<lparr>sv_state := Starting (current_attempt s)\<rparr>))"

definition on_spawned :: "supervisor \<Rightarrow> (ipc_error, decision) result \<times> supervisor" where
  "on_spawned s =
     (case sv_state s of
        Starting _ \<Rightarrow> (Okay (Attach (sv_endpoint s)), s\<lparr>sv_state := Attached\<rparr>)
      | _ \<Rightarrow> (Err (SessionOrder ''report a spawned Core without an outstanding spawn''), s))"

definition on_disconnected :: "supervisor \<Rightarrow> decision \<times> supervisor" where
  "on_disconnected s =
     (let attempt = next_attempt s in
      (BackoffThenProbe (sv_endpoint s) attempt,
       s\<lparr>sv_reconnect := attempt, sv_state := Reconnecting attempt\<rparr>))"

definition retry_probe :: "supervisor \<Rightarrow> (ipc_error, decision) result \<times> supervisor" where
  "retry_probe s =
     (case sv_state s of
        Reconnecting _ \<Rightarrow> (Okay (Probe (sv_endpoint s)), s\<lparr>sv_state := Probing\<rparr>)
      | _ \<Rightarrow> (Err (SessionOrder ''retry a probe outside a reconnecting state''), s))"

definition supervisor_stop :: "supervisor \<Rightarrow> supervisor" where
  "supervisor_stop s = s\<lparr>sv_state := Stopped\<rparr>"

section \<open>Runs\<close>

datatype sup_event = EvStart | EvProbe probe_outcome | EvSpawned | EvDisconnected | EvRetry | EvStop

text \<open>One event: the decision it produced, if any, and the new state.\<close>

fun sup_feed :: "supervisor \<Rightarrow> sup_event \<Rightarrow> decision option \<times> supervisor" where
  "sup_feed s EvStart = (case supervisor_start s of (d, s') \<Rightarrow> (Some d, s'))"
| "sup_feed s (EvProbe o1) =
     (case on_probe s o1 of (Inr d, s') \<Rightarrow> (Some d, s') | (Inl _, s') \<Rightarrow> (None, s'))"
| "sup_feed s EvSpawned =
     (case on_spawned s of (Inr d, s') \<Rightarrow> (Some d, s') | (Inl _, s') \<Rightarrow> (None, s'))"
| "sup_feed s EvDisconnected = (case on_disconnected s of (d, s') \<Rightarrow> (Some d, s'))"
| "sup_feed s EvRetry =
     (case retry_probe s of (Inr d, s') \<Rightarrow> (Some d, s') | (Inl _, s') \<Rightarrow> (None, s'))"
| "sup_feed s EvStop = (None, supervisor_stop s)"

text \<open>The decisions of a run.\<close>

fun sup_run :: "supervisor \<Rightarrow> sup_event list \<Rightarrow> decision list" where
  "sup_run s [] = []"
| "sup_run s (e # es) =
     (case sup_feed s e of (d, s') \<Rightarrow> (case d of None \<Rightarrow> [] | Some x \<Rightarrow> [x]) @ sup_run s' es)"

definition sup_step :: "supervisor \<Rightarrow> supervisor \<Rightarrow> bool" where
  "sup_step s s' \<longleftrightarrow> (\<exists>e. s' = snd (sup_feed s e))"

text \<open>A policy is sensible when the first attempt does not exceed the maximum.\<close>

definition sup_ok :: "endpoint \<Rightarrow> reconnect_policy \<Rightarrow> supervisor \<Rightarrow> bool" where
  "sup_ok e p s \<longleftrightarrow> sv_endpoint s = e \<and> sv_policy s = p \<and> sv_reconnect s \<le> max_attempts p
     \<and> (\<forall>a. sv_state s = Reconnecting a \<or> sv_state s = Starting a
          \<longrightarrow> first_attempt p \<le> a \<and> a \<le> max_attempts p)"

lemma next_attempt_bounds:
  assumes "first_attempt (sv_policy s) \<le> max_attempts (sv_policy s)"
    "sv_reconnect s \<le> max_attempts (sv_policy s)"
  shows "first_attempt (sv_policy s) \<le> next_attempt s \<and> next_attempt s \<le> max_attempts (sv_policy s)
       \<and> sv_reconnect s \<le> next_attempt s"
proof (cases "sv_reconnect s < max_attempts (sv_policy s)")
  case True
  then have "sv_reconnect s \<le> sv_reconnect s + 1" "sv_reconnect s + 1 \<le> max_attempts (sv_policy s)"
    using plus_one_bounds by blast+
  then show ?thesis
    using assms(1) True by (auto simp: next_attempt_def policy_next_attempt_def le_max_iff_disj)
next
  case False
  then show ?thesis
    using assms by (simp add: next_attempt_def policy_next_attempt_def le_max_iff_disj)
qed

lemma sup_feed_frame:
  "sv_endpoint (snd (sup_feed s ev)) = sv_endpoint s \<and> sv_policy (snd (sup_feed s ev)) = sv_policy s"
  by (cases ev)
    (auto simp: supervisor_start_def on_probe_def on_spawned_def on_disconnected_def retry_probe_def
      supervisor_stop_def Let_def split: probe_outcome.splits supervision_state.splits)

lemma sup_feed_ok:
  assumes "first_attempt p \<le> max_attempts p" "sup_ok e p s"
  shows "sup_ok e p (snd (sup_feed s ev))"
proof (cases ev)
  case EvDisconnected
  then show ?thesis
    using assms next_attempt_bounds[of s]
    by (auto simp: sup_ok_def on_disconnected_def Let_def)
qed (use assms in \<open>auto simp: sup_ok_def supervisor_start_def on_probe_def on_spawned_def
      retry_probe_def supervisor_stop_def current_attempt_def max_def
      split: probe_outcome.splits supervision_state.splits\<close>)

interpretation supervision_machine: guarded_machine
  "\<lambda>s. s = supervisor_new e p \<and> first_attempt p \<le> max_attempts p" sup_step
  "\<lambda>s. first_attempt p \<le> max_attempts p \<and> sup_ok e p s" for e p
proof unfold_locales
  show "first_attempt p \<le> max_attempts p \<and> sup_ok e p s"
    if "s = supervisor_new e p \<and> first_attempt p \<le> max_attempts p" for s
    using that by (auto simp: sup_ok_def supervisor_new_def)
  show "first_attempt p \<le> max_attempts p \<and> sup_ok e p t"
    if "first_attempt p \<le> max_attempts p \<and> sup_ok e p s" "sup_step s t" for s t
    using that sup_feed_ok by (auto simp: sup_step_def)
qed

text \<open>The escalation of a run: the attempt numbers of its backoff decisions.\<close>

definition attempts_of :: "decision list \<Rightarrow> u32 list" where
  "attempts_of ds = List.map_filter (\<lambda>d. case d of BackoffThenProbe _ a \<Rightarrow> Some a | _ \<Rightarrow> None) ds"

lemma attempts_of_simps [simp]:
  "attempts_of [] = []"
  "attempts_of (Probe e # ds) = attempts_of ds" "attempts_of (Spawn e # ds) = attempts_of ds"
  "attempts_of (Attach e # ds) = attempts_of ds" "attempts_of (IdleDecision # ds) = attempts_of ds"
  "attempts_of (BackoffThenProbe e a # ds) = a # attempts_of ds"
  by (simp_all add: attempts_of_def map_filter_simps)

lemma sup_run_attempts:
  assumes "first_attempt p \<le> max_attempts p" "sup_ok e p s"
  shows "sorted (sv_reconnect s # attempts_of (sup_run s es))
       \<and> (\<forall>a\<in>set (attempts_of (sup_run s es)). first_attempt p \<le> a \<and> a \<le> max_attempts p)"
  using assms(2)
proof (induction es arbitrary: s)
  case Nil
  then show ?case by simp
next
  case (Cons ev es)
  have IH: "sorted (sv_reconnect (snd (sup_feed s ev)) # attempts_of (sup_run (snd (sup_feed s ev)) es))"
    "\<forall>a\<in>set (attempts_of (sup_run (snd (sup_feed s ev)) es)). first_attempt p \<le> a \<and> a \<le> max_attempts p"
    using Cons.IH[OF sup_feed_ok[OF assms(1) Cons.prems]] by simp_all
  show ?case
  proof (cases ev)
    case EvDisconnected
    then show ?thesis
      using IH next_attempt_bounds[of s] assms(1) Cons.prems
      by (fastforce simp: on_disconnected_def Let_def sup_ok_def)
  qed (use IH in \<open>auto simp: supervisor_start_def on_probe_def on_spawned_def retry_probe_def
        supervisor_stop_def split: probe_outcome.splits supervision_state.splits if_splits\<close>)
qed

text \<open>Every spawn and every attach rests on a probe made since the last attach or disconnect.\<close>

fun probe_guarded :: "bool \<Rightarrow> decision list \<Rightarrow> bool" where
  "probe_guarded b [] = True"
| "probe_guarded b (Probe _ # ds) = probe_guarded True ds"
| "probe_guarded b (Spawn _ # ds) = (b \<and> probe_guarded b ds)"
| "probe_guarded b (Attach _ # ds) = (b \<and> probe_guarded False ds)"
| "probe_guarded b (BackoffThenProbe _ _ # ds) = probe_guarded False ds"
| "probe_guarded b (IdleDecision # ds) = probe_guarded b ds"

lemma sup_run_guarded:
  assumes "sv_state s = Probing \<or> (\<exists>a. sv_state s = Starting a) \<longrightarrow> b"
  shows "probe_guarded b (sup_run s es)"
  using assms
proof (induction es arbitrary: s b)
  case Nil
  then show ?case by simp
next
  case (Cons ev es)
  show ?case
    by (cases ev)
      (use Cons in \<open>auto simp: supervisor_start_def on_probe_def on_spawned_def on_disconnected_def
        retry_probe_def supervisor_stop_def Let_def
        split: probe_outcome.splits supervision_state.splits if_splits\<close>)
qed

section \<open>Properties\<close>

text \<open>Desktop never trusts an endpoint blindly: in every run of the supervisor, over any sequence
  of events in any order, each spawn and each attach follows a probe issued after the last attach and
  the last disconnect.\<close>

theorem probe_before_attach: "probe_guarded False (sup_run (supervisor_new e p) es)"
  by (rule sup_run_guarded) (simp add: supervisor_new_def)

text \<open>Reconnection escalates and stays bounded: over any run, the attempt numbers handed to the
  host never decrease and lie between the policy's first attempt and its maximum, however often the
  connection flaps.\<close>

theorem reconnect_attempts_bounded:
  assumes "first_attempt p \<le> max_attempts p"
  shows "sorted (attempts_of (sup_run (supervisor_new e p) es))
       \<and> (\<forall>a\<in>set (attempts_of (sup_run (supervisor_new e p) es)). first_attempt p \<le> a \<and> a \<le> max_attempts p)"
proof -
  have "sup_ok e p (supervisor_new e p)"
    using supervision_machine.good_start[of "supervisor_new e p" e p] assms by simp
  then show ?thesis using sup_run_attempts[OF assms] by auto
qed

theorem reconnect_attempts_bounded_witness:
  "attempts_of (sup_run (supervisor_new (UnixSocket ''s'') \<lparr>first_attempt = 1, max_attempts = 2\<rparr>)
     [EvStart, EvDisconnected, EvRetry, EvDisconnected, EvDisconnected]) = [1, 2, 2]
   \<and> sorted (attempts_of (sup_run (supervisor_new (UnixSocket ''s'') \<lparr>first_attempt = 1, max_attempts = 2\<rparr>)
     [EvStart, EvDisconnected, EvRetry, EvDisconnected, EvDisconnected]))"
proof
  show "attempts_of (sup_run (supervisor_new (UnixSocket ''s'') \<lparr>first_attempt = 1, max_attempts = 2\<rparr>)
     [EvStart, EvDisconnected, EvRetry, EvDisconnected, EvDisconnected]) = [1, 2, 2]"
    by code_simp
  show "sorted (attempts_of (sup_run (supervisor_new (UnixSocket ''s'') \<lparr>first_attempt = 1, max_attempts = 2\<rparr>)
     [EvStart, EvDisconnected, EvRetry, EvDisconnected, EvDisconnected]))"
    by (rule reconnect_attempts_bounded[THEN conjunct1]) simp
qed

end
