(* ===== verification/Core_Registry.thy ===== *)
theory Core_Registry
  imports Protocol_Command
begin

text \<open>
  Core's admission bookkeeping: the operation registry of \<open>crates/altior-core/src/operations.rs\<close>, turn
  ownership of \<open>ownership.rs\<close> and the sync latch of \<open>sync_gate.rs\<close>. Both registries are ordered maps.
\<close>

section \<open>Operations\<close>

datatype admission = Execute | DuplicateOp
datatype admission_error = RegistryFull

record operation_registry =
  reg_admitted :: "(string \<times> command_kind) list"
  reg_finished :: "string list"
  reg_capacity :: nat

definition registry_new :: "nat \<Rightarrow> (admission_error, operation_registry) result" where
  "registry_new capacity =
     (if capacity = 0 then Err RegistryFull
      else Okay \<lparr>reg_admitted = [], reg_finished = [], reg_capacity = capacity\<rparr>)"

definition registry_knows :: "operation_registry \<Rightarrow> string \<Rightarrow> bool" where
  "registry_knows r op \<longleftrightarrow> map_of (reg_admitted r) op \<noteq> None \<or> op \<in> set (reg_finished r)"

definition admit_operation ::
  "operation_registry \<Rightarrow> string \<Rightarrow> (admission_error, admission) result \<times> operation_registry" where
  "admit_operation r op =
     (if registry_knows r op then (Okay DuplicateOp, r)
      else if length (reg_admitted r) = reg_capacity r then (Err RegistryFull, r)
      else (Okay Execute, r\<lparr>reg_admitted := bt_insert op CmdPing (reg_admitted r)\<rparr>))"

definition admit ::
  "operation_registry \<Rightarrow> command_envelope
   \<Rightarrow> (admission_error, admission) result \<times> operation_registry" where
  "admit r c =
     (if registry_knows r (cmd_operation c) then (Okay DuplicateOp, r)
      else if length (reg_admitted r) = reg_capacity r then (Err RegistryFull, r)
      else (Okay Execute,
            r\<lparr>reg_admitted := bt_insert (cmd_operation c) (cmd_kind c) (reg_admitted r)\<rparr>))"

definition retire :: "operation_registry \<Rightarrow> string \<Rightarrow> operation_registry" where
  "retire r op =
     r\<lparr>reg_admitted := bt_remove op (reg_admitted r),
       reg_finished := (if length (reg_finished r) = reg_capacity r then drop 1 (reg_finished r)
                        else reg_finished r) @ [op]\<rparr>"

definition registry_len :: "operation_registry \<Rightarrow> nat" where
  "registry_len r = length (reg_admitted r)"

section \<open>Turn ownership\<close>

datatype stop_cause = CauseCancelled | CoreShutdown
datatype turn_transition = StillRunning | StoppedBy stop_cause | UnknownTurn
datatype desktop_lifecycle = Reload | WindowClosed | DesktopExited

type_synonym turn_ownership = "(string \<times> string) list"

definition ownership_start :: "turn_ownership \<Rightarrow> string \<Rightarrow> string \<Rightarrow> turn_ownership" where
  "ownership_start o1 turn operation = bt_insert turn operation o1"

definition is_running :: "turn_ownership \<Rightarrow> string \<Rightarrow> bool" where
  "is_running o1 turn \<longleftrightarrow> map_of o1 turn \<noteq> None"

definition running_count :: "turn_ownership \<Rightarrow> nat" where
  "running_count o1 = length o1"

definition cancel_by_operation ::
  "turn_ownership \<Rightarrow> string \<Rightarrow> turn_transition \<times> turn_ownership" where
  "cancel_by_operation o1 operation =
     (case List.find (\<lambda>(turn, op). op = operation) o1 of
        None \<Rightarrow> (UnknownTurn, o1)
      | Some (turn, _) \<Rightarrow> (StoppedBy CauseCancelled, bt_remove turn o1))"

definition drain_for_shutdown :: "turn_ownership \<Rightarrow> turn_ownership" where
  "drain_for_shutdown o1 = []"

definition ownership_on_desktop ::
  "turn_ownership \<Rightarrow> desktop_lifecycle \<Rightarrow> string \<Rightarrow> turn_transition \<times> turn_ownership" where
  "ownership_on_desktop o1 event turn =
     (case event of
        Reload \<Rightarrow> (StillRunning, o1)
      | WindowClosed \<Rightarrow> (StillRunning, o1)
      | DesktopExited \<Rightarrow> (StillRunning, o1))"

section \<open>The sync latch\<close>

datatype sync_disabled = SyncDisabled

definition sync_enabled :: bool where
  "sync_enabled = False"

definition ensure_sync_allowed :: "(sync_disabled, unit) result" where
  "ensure_sync_allowed = (if sync_enabled then Okay () else Err SyncDisabled)"

section \<open>The registry's invariant\<close>

definition registry_ok :: "operation_registry \<Rightarrow> bool" where
  "registry_ok r \<longleftrightarrow> bt_ok (reg_admitted r) \<and> 0 < reg_capacity r
     \<and> length (reg_admitted r) \<le> reg_capacity r \<and> length (reg_finished r) \<le> reg_capacity r"

lemma bt_remove_length: "length (bt_remove k m) \<le> length m"
  by (simp add: bt_remove_def)

lemma registry_new_ok: "registry_new n = Okay r \<Longrightarrow> registry_ok r"
  by (auto simp: registry_new_def registry_ok_def split: if_splits)

lemma admit_operation_ok: "registry_ok r \<Longrightarrow> registry_ok (snd (admit_operation r op))"
  by (auto simp: admit_operation_def registry_ok_def registry_knows_def bt_insert_ok
      bt_insert_length_new)

lemma admit_ok: "registry_ok r \<Longrightarrow> registry_ok (snd (admit r c))"
  by (auto simp: admit_def registry_ok_def registry_knows_def bt_insert_ok bt_insert_length_new)

lemma retire_ok: "registry_ok r \<Longrightarrow> registry_ok (retire r op)"
  using bt_remove_length[of op "reg_admitted r"]
  by (auto simp: retire_def registry_ok_def bt_remove_ok)

section \<open>The deduplication contract\<close>

text \<open>What a client of an admission registry relies on: an operation that was admitted is known, a
  known operation is never admitted again, and finishing an operation keeps it known for the next
  \<open>memory\<close> - 1 finishes at least.\<close>

datatype reg_op = RegAdmit string | RegFinish string

locale admission_registry =
  fixes knows :: "'r \<Rightarrow> string \<Rightarrow> bool"
    and accept :: "'r \<Rightarrow> string \<Rightarrow> bool \<times> 'r"
    and finish :: "'r \<Rightarrow> string \<Rightarrow> 'r"
    and age :: "'r \<Rightarrow> string \<Rightarrow> nat"
    and memory :: "'r \<Rightarrow> nat"
    and good :: "'r \<Rightarrow> bool"
  assumes good_accept: "good r \<Longrightarrow> good (snd (accept r x))"
    and good_finish: "good r \<Longrightarrow> good (finish r x)"
    and accept_once: "knows r x \<Longrightarrow> \<not> fst (accept r x)"
    and known_after_accept: "good r \<Longrightarrow> fst (accept r x) \<Longrightarrow> knows (snd (accept r x)) x \<and> age (snd (accept r x)) x = 0"
    and accept_keeps: "good r \<Longrightarrow> knows r x \<Longrightarrow> knows (snd (accept r y)) x \<and> age (snd (accept r y)) x = age r x"
    and finish_keeps: "good r \<Longrightarrow> knows r x \<Longrightarrow> age r x < memory r
        \<Longrightarrow> knows (finish r y) x \<and> age (finish r y) x \<le> Suc (age r x)"
    and memory_const: "memory (snd (accept r x)) = memory r" "memory (finish r x) = memory r"
begin

text \<open>The operations a run executes.\<close>

lemma remembered:
  assumes "good r" "knows r x" "age r x + length (filter (\<lambda>s. \<exists>y. s = RegFinish y) ops) < memory r"
  shows "let r' = foldl (\<lambda>q s. case s of RegAdmit y \<Rightarrow> snd (accept q y) | RegFinish y \<Rightarrow> finish q y) r ops
         in knows r' x \<and> \<not> fst (accept r' x)"
  using assms
proof (induction ops arbitrary: r)
  case Nil
  then show ?case by (simp add: accept_once)
next
  case (Cons s ops)
  show ?case
  proof (cases s)
    case (RegAdmit y)
    then show ?thesis
      using Cons.IH[of "snd (accept r y)"] Cons.prems accept_keeps[of r x y] good_accept[of r y]
        memory_const(1)[of r y] by simp
  next
    case (RegFinish y)
    then show ?thesis
      using Cons.IH[of "finish r y"] Cons.prems finish_keeps[of r x y] good_finish[of r y]
        memory_const(2)[of r y] by simp
  qed
qed

end

text \<open>How many finishes ago an operation was last seen; 0 while it is admitted.\<close>

definition op_age :: "operation_registry \<Rightarrow> string \<Rightarrow> nat" where
  "op_age r x = (if map_of (reg_admitted r) x \<noteq> None then 0
     else Suc (length (takeWhile (\<lambda>y. y \<noteq> x) (rev (reg_finished r)))))"

definition executes :: "operation_registry \<Rightarrow> string \<Rightarrow> bool \<times> operation_registry" where
  "executes r x = (fst (admit_operation r x) = Okay Execute, snd (admit_operation r x))"

lemma takeWhile_butlast_in:
  "Suc (length (takeWhile (\<lambda>y. y \<noteq> x) l)) < length l \<Longrightarrow>
   x \<in> set (butlast l) \<and> takeWhile (\<lambda>y. y \<noteq> x) (butlast l) = takeWhile (\<lambda>y. y \<noteq> x) l"
  by (induction l) (auto split: if_splits)

lemma retire_keeps_known:
  assumes "registry_ok r" "registry_knows r x" "op_age r x < reg_capacity r"
  shows "registry_knows (retire r y) x \<and> op_age (retire r y) x \<le> Suc (op_age r x)"
proof (cases "y = x \<or> map_of (reg_admitted r) x \<noteq> None")
  case True
  then show ?thesis by (auto simp: retire_def registry_knows_def op_age_def)
next
  case False
  then have fin: "x \<in> set (reg_finished r)" and ne: "y \<noteq> x" and na: "map_of (reg_admitted r) x = None"
    using assms(2) by (auto simp: registry_knows_def)
  let ?f = "reg_finished r"
  let ?k = "if length ?f = reg_capacity r then drop 1 ?f else ?f"
  have kept: "x \<in> set ?k \<and> takeWhile (\<lambda>y. y \<noteq> x) (rev ?k) = takeWhile (\<lambda>y. y \<noteq> x) (rev ?f)"
  proof (cases "length ?f = reg_capacity r")
    case True
    then have "Suc (length (takeWhile (\<lambda>y. y \<noteq> x) (rev ?f))) < length (rev ?f)"
      using assms(3) na by (simp add: op_age_def)
    note tb = takeWhile_butlast_in[OF this]
    have rv: "rev (drop 1 ?f) = butlast (rev ?f)" by (cases ?f) simp_all
    have "x \<in> set (rev (drop 1 ?f))" unfolding rv using tb by blast
    then have "x \<in> set (drop 1 ?f)" by simp
    moreover have "takeWhile (\<lambda>y. y \<noteq> x) (rev (drop 1 ?f)) = takeWhile (\<lambda>y. y \<noteq> x) (rev ?f)"
      unfolding rv using tb by blast
    ultimately show ?thesis using True by presburger
  next
    case False
    then show ?thesis using fin by simp
  qed
  then show ?thesis
    using na ne by (simp add: retire_def registry_knows_def op_age_def)
qed

interpretation op_registry: admission_registry registry_knows executes retire op_age reg_capacity registry_ok
proof unfold_locales
  fix r x y
  show "registry_ok r \<Longrightarrow> registry_ok (snd (executes r x))"
    by (simp add: executes_def admit_operation_ok)
  show "registry_ok r \<Longrightarrow> registry_ok (retire r x)" by (rule retire_ok)
  show "registry_knows r x \<Longrightarrow> \<not> fst (executes r x)"
    by (simp add: executes_def admit_operation_def)
  show "registry_ok r \<Longrightarrow> fst (executes r x) \<Longrightarrow>
      registry_knows (snd (executes r x)) x \<and> op_age (snd (executes r x)) x = 0"
    by (auto simp: executes_def admit_operation_def registry_ok_def registry_knows_def op_age_def
        split: if_splits)
  show "registry_ok r \<Longrightarrow> registry_knows r x \<Longrightarrow>
      registry_knows (snd (executes r y)) x \<and> op_age (snd (executes r y)) x = op_age r x"
    by (auto simp: executes_def admit_operation_def registry_ok_def registry_knows_def op_age_def)
  show "registry_ok r \<Longrightarrow> registry_knows r x \<Longrightarrow> op_age r x < reg_capacity r \<Longrightarrow>
      registry_knows (retire r y) x \<and> op_age (retire r y) x \<le> Suc (op_age r x)"
    by (rule retire_keeps_known)
  show "reg_capacity (snd (executes r x)) = reg_capacity r" "reg_capacity (retire r x) = reg_capacity r"
    by (simp_all add: executes_def admit_operation_def retire_def)
qed

section \<open>Properties\<close>

definition registry_apply :: "operation_registry \<Rightarrow> reg_op \<Rightarrow> operation_registry" where
  "registry_apply r s =
     (case s of RegAdmit y \<Rightarrow> snd (admit_operation r y) | RegFinish y \<Rightarrow> retire r y)"

text \<open>An operation is executed once. After an operation was admitted for execution, whatever
  operations are admitted and finished afterwards (itself included), as long as fewer than the
  capacity finish, a redelivery of it is a duplicate.\<close>

theorem operation_executed_once:
  assumes "registry_ok r" "admit_operation r x = (Okay Execute, r1)"
    and "length (filter (\<lambda>s. \<exists>y. s = RegFinish y) ops) < reg_capacity r"
  shows "fst (admit_operation (foldl registry_apply r1 ops) x) = Okay DuplicateOp"
proof -
  have ex: "executes r x = (True, r1)" using assms(2) by (simp add: executes_def)
  have r1: "registry_ok r1" "registry_knows r1 x" "op_age r1 x = 0" "reg_capacity r1 = reg_capacity r"
    using op_registry.good_accept[OF assms(1), of x] op_registry.known_after_accept[OF assms(1), of x]
      op_registry.memory_const(1)[of r x] ex by simp_all
  have "(\<lambda>q s. case s of RegAdmit y \<Rightarrow> snd (executes q y) | RegFinish y \<Rightarrow> retire q y) = registry_apply"
    by (auto simp: fun_eq_iff registry_apply_def executes_def split: reg_op.split)
  then have "registry_knows (foldl registry_apply r1 ops) x"
    using op_registry.remembered[OF r1(1,2), of ops] r1(3,4) assms(3) by (simp add: Let_def)
  then show ?thesis by (simp add: admit_operation_def)
qed

theorem operation_executed_once_witness:
  "\<exists>r r1. registry_new 2 = Okay r \<and> admit_operation r ''op_a'' = (Okay Execute, r1)
     \<and> fst (admit_operation (foldl registry_apply r1 [RegAdmit ''op_b'', RegFinish ''op_a'']) ''op_a'')
       = Okay DuplicateOp"
proof -
  obtain r where r: "registry_new 2 = Okay r" "registry_ok r" "reg_capacity r = 2"
    using registry_new_ok[of 2] by (simp add: registry_new_def)
  obtain r1 where r1: "admit_operation r ''op_a'' = (Okay Execute, r1)"
    using r(1) by (auto simp: registry_new_def admit_operation_def registry_knows_def)
  show ?thesis
    using r(1) r1 operation_executed_once[OF r(2) r1, of "[RegAdmit ''op_b'', RegFinish ''op_a'']"] r(3)
    by auto
qed

end
