(* ===== verification/Rust_Text.thy ===== *)
theory Rust_Text
  imports Protocol_Types
begin

text \<open>
  Rust's text operations that the domain, the context assembler and the agent client use. A text is its UTF-8
  bytes; where the source works on \<open>char\<close>s, the text is cut into characters, each a byte string of its own
  (\<open>text_chars\<close>). Whitespace is Unicode's, as \<open>char::is_whitespace\<close> and \<open>str::trim\<close> have it.
\<close>

section \<open>Characters\<close>

definition is_ascii_uppercase :: "char \<Rightarrow> bool" where
  "is_ascii_uppercase c \<longleftrightarrow> 65 \<le> (of_char c :: nat) \<and> (of_char c :: nat) \<le> 90"

definition is_ascii_alphabetic :: "char \<Rightarrow> bool" where
  "is_ascii_alphabetic c \<longleftrightarrow> is_ascii_uppercase c \<or> is_ascii_lowercase c"

definition is_ascii_alphanumeric :: "char \<Rightarrow> bool" where
  "is_ascii_alphanumeric c \<longleftrightarrow> is_ascii_alphabetic c \<or> is_digit c"

definition is_ascii_hexdigit :: "char \<Rightarrow> bool" where
  "is_ascii_hexdigit c \<longleftrightarrow> is_digit c \<or> byte_in 97 102 c \<or> byte_in 65 70 c"

definition to_ascii_lower :: "char \<Rightarrow> char" where
  "to_ascii_lower c = (if is_ascii_uppercase c then char_of ((of_char c :: nat) + 32) else c)"

definition to_ascii_upper :: "char \<Rightarrow> char" where
  "to_ascii_upper c = (if is_ascii_lowercase c then char_of ((of_char c :: nat) - 32) else c)"

text \<open>\<open>str::chars\<close>: a character is a byte with the continuation bytes after it.\<close>

function text_chars :: "string \<Rightarrow> string list" where
  "text_chars [] = []"
| "text_chars (c # s) = (c # takeWhile is_continuation s) # text_chars (dropWhile is_continuation s)"
  by pat_completeness auto
termination
  by (relation "measure length") (auto simp: le_imp_less_Suc length_dropWhile_le)

text \<open>\<open>char::is_whitespace\<close>: the property White_Space of Unicode, U+0009 to U+000D, U+0020, U+0085, U+00A0,
  U+1680, U+2000 to U+200A, U+2028, U+2029, U+202F, U+205F and U+3000.\<close>

definition is_whitespace :: "string \<Rightarrow> bool" where
  "is_whitespace ch =
     (case map (of_char :: char \<Rightarrow> nat) ch of
        [a] \<Rightarrow> 9 \<le> a \<and> a \<le> 13 \<or> a = 32
      | [a, b] \<Rightarrow> a = 194 \<and> (b = 133 \<or> b = 160)
      | [a, b, c] \<Rightarrow>
          a = 225 \<and> b = 154 \<and> c = 128
          \<or> a = 226 \<and> b = 128 \<and> (128 \<le> c \<and> c \<le> 138 \<or> c = 168 \<or> c = 169 \<or> c = 175)
          \<or> a = 226 \<and> b = 129 \<and> c = 159
          \<or> a = 227 \<and> b = 128 \<and> c = 128
      | _ \<Rightarrow> False)"

text \<open>\<open>char::is_control\<close>: U+0000 to U+001F and U+007F to U+009F.\<close>

definition is_ascii_control :: "string \<Rightarrow> bool" where
  "is_ascii_control ch =
     (case map (of_char :: char \<Rightarrow> nat) ch of [a] \<Rightarrow> a < 32 \<or> a = 127 | _ \<Rightarrow> False)"

definition is_control :: "string \<Rightarrow> bool" where
  "is_control ch \<longleftrightarrow> is_ascii_control ch
     \<or> (case map (of_char :: char \<Rightarrow> nat) ch of [a, b] \<Rightarrow> a = 194 \<and> 128 \<le> b \<and> b \<le> 159 | _ \<Rightarrow> False)"

text \<open>A predicate on \<open>char\<close> that holds of ASCII characters only.\<close>

definition on_ascii :: "(char \<Rightarrow> bool) \<Rightarrow> string \<Rightarrow> bool" where
  "on_ascii P ch = (case ch of [c] \<Rightarrow> P c | _ \<Rightarrow> False)"

section \<open>Texts\<close>

definition starts_with :: "'a list \<Rightarrow> 'a list \<Rightarrow> bool" where
  "starts_with p s \<longleftrightarrow> take (length p) s = p"

definition ends_with :: "'a list \<Rightarrow> 'a list \<Rightarrow> bool" where
  "ends_with p s \<longleftrightarrow> starts_with (rev p) (rev s)"

text \<open>\<open>str::find\<close>: the byte index of the first occurrence.\<close>

fun str_find :: "'a list \<Rightarrow> 'a list \<Rightarrow> nat option" where
  "str_find p [] = (if p = [] then Some 0 else None)"
| "str_find p (c # s) = (if starts_with p (c # s) then Some 0 else map_option Suc (str_find p s))"

text \<open>\<open>str::split\<close> at the characters a predicate accepts.\<close>

fun split_on :: "('a \<Rightarrow> bool) \<Rightarrow> 'a list \<Rightarrow> 'a list list" where
  "split_on P [] = [[]]"
| "split_on P (c # s) =
     (if P c then [] # split_on P s
      else case split_on P s of w # ws \<Rightarrow> (c # w) # ws | [] \<Rightarrow> [[c]])"

text \<open>\<open>trim_start_matches\<close> and \<open>trim_matches\<close> on the characters of a text.\<close>

definition strip :: "('a \<Rightarrow> bool) \<Rightarrow> 'a list \<Rightarrow> 'a list" where
  "strip P cs = rev (dropWhile P (rev (dropWhile P cs)))"

definition trim_start :: "string \<Rightarrow> string" where
  "trim_start s = concat (dropWhile is_whitespace (text_chars s))"

definition trim :: "string \<Rightarrow> string" where
  "trim s = concat (strip is_whitespace (text_chars s))"

text \<open>\<open>str::lines\<close>: a line ends with a newline, or a carriage return and a newline; what follows the last
  newline is a line unless it is empty.\<close>

definition newline_char :: char where
  "newline_char = CHR 10"

definition strip_cr :: "string \<Rightarrow> string" where
  "strip_cr l = (if l \<noteq> [] \<and> last l = CHR 13 then butlast l else l)"

definition str_lines :: "string \<Rightarrow> string list" where
  "str_lines s =
     (let ps = split_on (\<lambda>c. c = newline_char) s in
      map strip_cr (butlast ps) @ (if last ps = [] then [] else [last ps]))"

section \<open>Character boundaries\<close>

definition starts_char :: "char \<Rightarrow> bool" where
  "starts_char c \<longleftrightarrow> \<not> byte_in 128 191 c"

text \<open>The last character of a text that starts at or before an index, 0 when there is none.\<close>

primrec char_boundary :: "string \<Rightarrow> nat \<Rightarrow> nat" where
  "char_boundary s 0 = 0"
| "char_boundary s (Suc n) =
     (if Suc n < length s \<and> starts_char (s ! Suc n) then Suc n else char_boundary s n)"

section \<open>Lemmas on UTF-8\<close>

lemma byte_in_split: "byte_in lo hi c \<Longrightarrow> 128 \<le> lo \<Longrightarrow> hi \<le> 191 \<Longrightarrow> \<not> starts_char c"
  by (auto simp: byte_in_def starts_char_def)

text \<open>The first character of a valid text: its further bytes start no character, and any valid text may
  follow it.\<close>

lemma utf8_step:
  assumes "utf8_valid (a # s)"
  shows "\<exists>u t. s = u @ t \<and> utf8_valid t \<and> (\<forall>c\<in>set u. \<not> starts_char c)
     \<and> (\<forall>t'. utf8_valid t' \<longrightarrow> utf8_valid (a # u @ t'))"
proof -
  have inner: "\<not> starts_char b" if "byte_in (if P then 160 else 128) (if Q then 159 else 191) b \<or> byte_in 128 191 b
      \<or> byte_in (if P then 144 else 128) (if Q then 143 else 191) b" for P Q b
    using that by (auto dest: byte_in_split split: if_splits)
  show ?thesis
  proof (cases "byte_in 0 127 a")
    case True
    show ?thesis by (rule exI[of _ "[]"], rule exI[of _ s]) (use assms True in simp)
  next
    case n1: False
    then obtain b s1 where s: "s = b # s1" using assms by (cases s) simp_all
    show ?thesis
    proof (cases "byte_in 194 223 a")
      case True
      show ?thesis by (rule exI[of _ "[b]"], rule exI[of _ s1]) (use assms True n1 s inner[of _ _ b] in simp)
    next
      case n2: False
      then obtain c s2 where s1: "s1 = c # s2" using assms n1 s by (cases s1) simp_all
      show ?thesis
      proof (cases "byte_in 224 239 a")
        case True
        show ?thesis by (rule exI[of _ "[b, c]"], rule exI[of _ s2]) (use assms True n1 n2 s s1 inner[of "byte_in 224 224 a" "byte_in 237 237 a" b] inner[of _ _ c] in simp)
      next
        case n3: False
        then obtain d s3 where s2: "s2 = d # s3" using assms n1 n2 s s1 by (cases s2) simp_all
        show ?thesis by (rule exI[of _ "[b, c, d]"], rule exI[of _ s3]) (use assms n1 n2 n3 s s1 s2 inner[of "byte_in 240 240 a" "byte_in 244 244 a" b] inner[of _ _ c] inner[of _ _ d] in simp)
      qed
    qed
  qed
qed

lemma utf8_take:
  "utf8_valid s \<Longrightarrow> i < length s \<Longrightarrow> starts_char (s ! i) \<Longrightarrow> utf8_valid (take i s)"
proof (induction "length s" arbitrary: s i rule: less_induct)
  case less
  show ?case
  proof (cases i)
    case (Suc j)
    then obtain a w where s: "s = a # w" using less.prems(2) by (cases s) auto
    obtain u t where u: "w = u @ t" "utf8_valid t" "\<forall>c\<in>set u. \<not> starts_char c"
      "\<forall>t'. utf8_valid t' \<longrightarrow> utf8_valid (a # u @ t')"
      using utf8_step less.prems(1) s by blast
    have "length u \<le> j"
    proof (rule ccontr)
      assume "\<not> length u \<le> j"
      then have "s ! i \<in> set u" using Suc s u(1) by (simp add: nth_append)
      then show False using u(3) less.prems(3) by blast
    qed
    then have "utf8_valid (take (j - length u) t)"
      using less.hyps[of t "j - length u"] less.prems(2,3) Suc s u(1,2) by (simp add: nth_append)
    then show ?thesis using u(1,4) s Suc \<open>length u \<le> j\<close> by simp
  qed simp
qed

lemma utf8_append: "utf8_valid s \<Longrightarrow> utf8_valid t \<Longrightarrow> utf8_valid (s @ t)"
proof (induction "length s" arbitrary: s rule: less_induct)
  case less
  show ?case
  proof (cases s)
    case (Cons a w)
    then obtain u v where u: "w = u @ v" "utf8_valid v" "\<forall>t'. utf8_valid t' \<longrightarrow> utf8_valid (a # u @ t')"
      using utf8_step less.prems(1) by blast
    then have "utf8_valid (v @ t)" using less.hyps[of v] less.prems(2) Cons by simp
    then show ?thesis using u(1,3) Cons by simp
  qed (use less.prems in simp)
qed

lemma char_boundary_le: "char_boundary s n \<le> n"
  by (induction n) auto

lemma char_boundary_valid: "utf8_valid s \<Longrightarrow> utf8_valid (take (char_boundary s n) s)"
  by (induction n) (auto intro: utf8_take)

section \<open>Lemmas on characters\<close>

lemma concat_text_chars [simp]: "concat (text_chars s) = s"
  by (induction s rule: text_chars.induct) simp_all

text \<open>Lists of characters that come from a text: each has the shape of a character, and all but the first
  start with a byte that is not a continuation byte.\<close>

definition char_shape :: "string \<Rightarrow> bool" where
  "char_shape ch \<longleftrightarrow> ch \<noteq> [] \<and> list_all is_continuation (tl ch)"

definition char_list :: "string list \<Rightarrow> bool" where
  "char_list cs \<longleftrightarrow> list_all char_shape cs \<and> list_all (\<lambda>ch. \<not> is_continuation (hd ch)) (tl cs)"

lemma dropWhile_hd: "dropWhile P xs = y # ys \<Longrightarrow> \<not> P y"
  by (induction xs) (auto split: if_splits)

lemma text_chars_heads: "s = [] \<or> \<not> is_continuation (hd s) \<Longrightarrow> list_all (\<lambda>ch. \<not> is_continuation (hd ch)) (text_chars s)"
proof (induction s rule: text_chars.induct)
  case (2 c s)
  have "dropWhile is_continuation s = [] \<or> \<not> is_continuation (hd (dropWhile is_continuation s))"
    by (cases "dropWhile is_continuation s") (auto dest: dropWhile_hd)
  then show ?case using 2 by simp
qed simp

lemma text_chars_shape: "list_all char_shape (text_chars s)"
  by (induction s rule: text_chars.induct) (auto simp: char_shape_def list_all_iff dest: set_takeWhileD)

lemma char_list_text_chars: "char_list (text_chars s)"
proof (cases s)
  case (Cons c t)
  have "dropWhile is_continuation t = [] \<or> \<not> is_continuation (hd (dropWhile is_continuation t))"
    by (cases "dropWhile is_continuation t") (auto dest: dropWhile_hd)
  then show ?thesis using Cons text_chars_shape[of s] text_chars_heads by (simp add: char_list_def)
qed (simp add: char_list_def)

lemma text_chars_concat: "char_list cs \<Longrightarrow> text_chars (concat cs) = cs"
proof (induction cs)
  case (Cons ch cs)
  then obtain c u where ch: "ch = c # u" "list_all is_continuation u"
    by (auto simp: char_list_def char_shape_def neq_Nil_conv)
  have "concat cs = [] \<or> \<not> is_continuation (hd (concat cs))"
    using Cons.prems by (cases cs) (auto simp: char_list_def char_shape_def)
  then have "takeWhile is_continuation (concat cs) = [] \<and> dropWhile is_continuation (concat cs) = concat cs"
    by (metis dropWhile.simps(1) dropWhile_eq_self_iff takeWhile.simps(1) takeWhile_eq_Nil_iff)
  then have "takeWhile is_continuation (u @ concat cs) = u \<and> dropWhile is_continuation (u @ concat cs) = concat cs"
    using ch(2) by (simp add: list_all_iff takeWhile_append dropWhile_append)
  moreover have "char_list cs" using Cons.prems by (cases cs) (auto simp: char_list_def)
  ultimately show ?case using Cons.IH ch(1) by simp
qed simp

lemma char_list_sub: "char_list (a @ b @ c) \<Longrightarrow> char_list b"
  by (cases a; cases b) (auto simp: char_list_def)

lemma text_chars_append:
  assumes "t = [] \<or> \<not> is_continuation (hd t)"
  shows "text_chars (s @ t) = text_chars s @ text_chars t"
proof -
  have "char_list (text_chars s @ text_chars t)"
    using char_list_text_chars[of s] char_list_text_chars[of t] text_chars_heads[OF assms]
    by (cases "text_chars s") (auto simp: char_list_def)
  then show ?thesis using text_chars_concat[of "text_chars s @ text_chars t"] by simp
qed

lemma text_chars_ascii: "list_all (\<lambda>c. \<not> is_continuation c) s \<Longrightarrow> text_chars s = map (\<lambda>c. [c]) s"
proof (induction s)
  case (Cons c s)
  then have "takeWhile is_continuation s = []" "dropWhile is_continuation s = s" by (cases s; simp)+
  then show ?case using Cons by simp
qed simp

lemma starts_with_iff: "starts_with p s \<longleftrightarrow> (\<exists>t. s = p @ t)"
  unfolding starts_with_def by (metis append_eq_conv_conj)

section \<open>Lemmas on trimming\<close>

lemma dropWhile_parts: "\<exists>a. xs = a @ dropWhile P xs \<and> list_all P a"
  by (rule exI[of _ "takeWhile P xs"]) (auto simp: list_all_iff dest: set_takeWhileD)

lemma strip_parts: "\<exists>a b. cs = a @ strip P cs @ b \<and> list_all P a \<and> list_all P b"
proof -
  obtain a where a: "cs = a @ dropWhile P cs" "list_all P a" using dropWhile_parts by blast
  obtain b where b: "rev (dropWhile P cs) = b @ dropWhile P (rev (dropWhile P cs))" "list_all P b"
    using dropWhile_parts by blast
  have "dropWhile P cs = strip P cs @ rev b" using arg_cong[OF b(1), of rev] by (simp add: strip_def)
  then show ?thesis using a b(2) by (intro exI[of _ a] exI[of _ "rev b"]) (metis list_all_rev)
qed

lemma strip_ends: "strip P cs \<noteq> [] \<Longrightarrow> \<not> P (hd (strip P cs)) \<and> \<not> P (last (strip P cs))"
proof -
  assume ne: "strip P cs \<noteq> []"
  then have "\<not> P (hd (dropWhile P (rev (dropWhile P cs))))"
    unfolding strip_def by (intro hd_dropWhile) (auto simp: dropWhile_eq_Nil_conv)
  then have l: "\<not> P (last (strip P cs))" using ne by (simp add: strip_def last_rev)
  obtain y ys where y: "dropWhile P cs = y # ys" using ne by (cases "dropWhile P cs") (auto simp: strip_def)
  then have "hd (strip P cs) = y"
    using dropWhile_hd[OF y] by (simp add: strip_def dropWhile_append)
  then show ?thesis using l dropWhile_hd[OF y] by simp
qed

lemma strip_fix: "cs = [] \<or> (\<not> P (hd cs) \<and> \<not> P (last cs)) \<Longrightarrow> strip P cs = cs"
proof -
  assume a: "cs = [] \<or> (\<not> P (hd cs) \<and> \<not> P (last cs))"
  then have "dropWhile P cs = cs" by (cases cs) auto
  moreover from a have "dropWhile P (rev cs) = rev cs" by (cases cs rule: rev_cases) auto
  ultimately show ?thesis by (simp add: strip_def)
qed

lemma strip_idem [simp]: "strip P (strip P cs) = strip P cs"
  using strip_ends strip_fix by metis

lemma strip_Nil_iff: "strip P cs = [] \<longleftrightarrow> list_all P cs"
proof
  assume "strip P cs = []"
  then show "list_all P cs" using strip_parts[of cs P] by auto
qed (auto simp: strip_def list_all_iff dropWhile_eq_Nil_conv dest: set_dropWhileD)

lemma char_list_strip: "char_list cs \<Longrightarrow> char_list (strip P cs)"
  by (metis strip_parts char_list_sub)

lemma text_chars_trim: "text_chars (trim s) = strip is_whitespace (text_chars s)"
  unfolding trim_def by (rule text_chars_concat[OF char_list_strip[OF char_list_text_chars]])

lemma trim_idem [simp]: "trim (trim s) = trim s"
  by (simp add: trim_def[of "trim s"] text_chars_trim) (simp add: trim_def)

lemma trim_parts: "\<exists>a b. s = a @ trim s @ b \<and> list_all is_whitespace (text_chars a) \<and> list_all is_whitespace (text_chars b)"
proof -
  obtain a b where ab: "text_chars s = a @ strip is_whitespace (text_chars s) @ b"
    "list_all is_whitespace a" "list_all is_whitespace b" using strip_parts by blast
  then have "char_list a" "char_list b"
    using char_list_text_chars[of s] char_list_sub[of "[]" a] char_list_sub[of _ b "[]"] by (metis append_Nil append.assoc append_Nil2)+
  then have "text_chars (concat a) = a" "text_chars (concat b) = b" by (simp_all add: text_chars_concat)
  moreover have "s = concat a @ trim s @ concat b"
    using arg_cong[OF ab(1), of concat] by (simp add: trim_def)
  ultimately show ?thesis using ab(2,3) by metis
qed

lemma length_trim_le: "length (trim s) \<le> length s"
  using trim_parts[of s] by (metis le_add1 le_add2 length_append order_trans)

lemma trim_Nil_iff: "trim s = [] \<longleftrightarrow> list_all is_whitespace (text_chars s)"
proof -
  have "trim s = [] \<longleftrightarrow> text_chars (trim s) = []" by (metis concat_text_chars concat.simps(1) text_chars.simps(1))
  then show ?thesis by (simp add: text_chars_trim strip_Nil_iff)
qed

end
