(* ===== verification/Domain_Entity.thy ===== *)
theory Domain_Entity
  imports Protocol_Event Rust_Text
begin

text \<open>
  The validated values of the domain, \<open>crates/altior-domain/src/entity.rs\<close> and \<open>lib.rs\<close>: bounded texts, closed
  vocabularies, page limits, event payloads and harness bindings.

  A bounded text is the string it wraps. The error of the source has one variant per type and failure; here a
  failure carries the type it is about. The contracts of the bounded texts and of the vocabularies are two locales,
  interpreted for every type.
\<close>

section \<open>Errors\<close>

datatype text_type =
    DisplayName | ThreadTitle | SearchQuery | Path | HarnessArg | HarnessEnvKey | HarnessSecretRef
  | PermissionDescription | Label | OpaqueSessionId | RemoteRequestId | DiagnosticSummary | MemoryContent
  | MemoryExcerpt | IdentityContent

datatype name_type =
    HarnessKindName | MemoryModeName | PermissionKindName | PermissionDecisionName | BoundaryKindName
  | CheckpointStateName | MemoryScopeName | MemoryKindName | MemoryStateName | MemorySensitivityName
  | MemorySourceName | IdentityDocumentKindName | ContextDropReasonName

datatype list_type =
    ThreadList | History | AgentProfileList | HarnessBindingList | ProjectRefList | PermissionList | TurnList
  | CheckpointList | MemorySearch | MemoryList | IdentityDocumentList | ContextSnapshotList

datatype count_type = HarnessArgs | HarnessEnvKeys | HarnessSecretRefs | IdentityDocuments

datatype entity_error =
    EmptyText text_type
  | TextTooLong text_type nat nat
  | InvalidText text_type
  | InvalidName name_type
  | LimitOutOfRange list_type u32 u32
  | CountExceeded count_type nat nat
  | EventPayloadNotUtf8
  | EventPayloadNotJsonObject
  | EventPayloadTooLarge nat nat
  | InvalidDomainEventKind
  | InvalidMemoryConfidence "8 word"
  | InvalidMemoryTransition string string
  | InvalidIdentityDocument string

section \<open>Bounded texts\<close>

definition max_display_name_bytes :: nat where
  "max_display_name_bytes = 256"

definition max_thread_title_bytes :: nat where
  "max_thread_title_bytes = 512"

definition max_search_query_bytes :: nat where
  "max_search_query_bytes = 256"

definition max_label_bytes :: nat where
  "max_label_bytes = 256"

definition max_path_bytes :: nat where
  "max_path_bytes = 4096"

definition max_harness_args_count :: nat where
  "max_harness_args_count = 256"

definition max_harness_arg_bytes :: nat where
  "max_harness_arg_bytes = 65536"

definition max_harness_env_keys_count :: nat where
  "max_harness_env_keys_count = 256"

definition max_harness_env_key_bytes :: nat where
  "max_harness_env_key_bytes = 256"

definition max_harness_secret_refs_count :: nat where
  "max_harness_secret_refs_count = 256"

definition max_harness_secret_ref_bytes :: nat where
  "max_harness_secret_ref_bytes = 256"

definition max_permission_description_bytes :: nat where
  "max_permission_description_bytes = 4096"

definition max_opaque_session_id_bytes :: nat where
  "max_opaque_session_id_bytes = 256"

definition max_remote_request_id_bytes :: nat where
  "max_remote_request_id_bytes = 256"

definition max_diagnostic_summary_bytes :: nat where
  "max_diagnostic_summary_bytes = 4096"

definition max_event_payload_bytes :: nat where
  "max_event_payload_bytes = 1048576"

definition memory_content_max_bytes :: nat where
  "memory_content_max_bytes = 8192"

definition memory_excerpt_max_bytes :: nat where
  "memory_excerpt_max_bytes = 1024"

definition identity_content_max_bytes :: nat where
  "identity_content_max_bytes = 4096"

definition display_name_try_from :: "string \<Rightarrow> (entity_error, string) result" where
  "display_name_try_from value =
     (let trimmed = trim value in
      if trimmed = [] then Err (EmptyText DisplayName)
      else if length trimmed > max_display_name_bytes then Err (TextTooLong DisplayName (length trimmed) max_display_name_bytes)
      else Okay trimmed)"

definition thread_title_try_from :: "string \<Rightarrow> (entity_error, string) result" where
  "thread_title_try_from value =
     (if length value > max_thread_title_bytes then Err (TextTooLong ThreadTitle (length value) max_thread_title_bytes)
      else Okay value)"

definition search_query_try_from :: "string \<Rightarrow> (entity_error, string) result" where
  "search_query_try_from value =
     (let trimmed = trim value in
      if trimmed = [] then Err (EmptyText SearchQuery)
      else if length trimmed > max_search_query_bytes then Err (TextTooLong SearchQuery (length trimmed) max_search_query_bytes)
      else Okay trimmed)"

definition bounded_path_try_from :: "string \<Rightarrow> (entity_error, string) result" where
  "bounded_path_try_from value =
     (let trimmed = trim value in
      if trimmed = [] then Err (EmptyText Path)
      else if length trimmed > max_path_bytes then Err (TextTooLong Path (length trimmed) max_path_bytes)
      else Okay trimmed)"

definition harness_arg_try_from :: "string \<Rightarrow> (entity_error, string) result" where
  "harness_arg_try_from value =
     (if length value > max_harness_arg_bytes then Err (TextTooLong HarnessArg (length value) max_harness_arg_bytes)
      else Okay value)"

definition is_valid_key :: "string \<Rightarrow> bool" where
  "is_valid_key s =
     (case text_chars s of
        [] \<Rightarrow> False
      | c # cs \<Rightarrow> on_ascii (\<lambda>c. is_ascii_alphabetic c \<or> c = CHR ''_'') c
          \<and> list_all (on_ascii (\<lambda>c. is_ascii_alphanumeric c \<or> c = CHR ''_'')) cs)"

definition harness_env_key_try_from :: "string \<Rightarrow> (entity_error, string) result" where
  "harness_env_key_try_from value =
     (let trimmed = trim value in
      if trimmed = [] then Err (EmptyText HarnessEnvKey)
      else if length trimmed > max_harness_env_key_bytes then Err (TextTooLong HarnessEnvKey (length trimmed) max_harness_env_key_bytes)
      else if \<not> is_valid_key trimmed then Err (InvalidText HarnessEnvKey)
      else Okay trimmed)"

definition harness_secret_ref_try_from :: "string \<Rightarrow> (entity_error, string) result" where
  "harness_secret_ref_try_from value =
     (let trimmed = trim value in
      if trimmed = [] then Err (EmptyText HarnessSecretRef)
      else if length trimmed > max_harness_secret_ref_bytes then Err (TextTooLong HarnessSecretRef (length trimmed) max_harness_secret_ref_bytes)
      else if list_ex is_control (text_chars trimmed) then Err (InvalidText HarnessSecretRef)
      else Okay trimmed)"

definition permission_description_try_from :: "string \<Rightarrow> (entity_error, string) result" where
  "permission_description_try_from value =
     (if length value > max_permission_description_bytes then Err (TextTooLong PermissionDescription (length value) max_permission_description_bytes)
      else Okay value)"

definition bounded_label_try_from :: "string \<Rightarrow> (entity_error, string) result" where
  "bounded_label_try_from value =
     (let trimmed = trim value in
      if trimmed = [] then Err (EmptyText Label)
      else if length trimmed > max_label_bytes then Err (TextTooLong Label (length trimmed) max_label_bytes)
      else Okay trimmed)"

definition opaque_session_id_try_from :: "string \<Rightarrow> (entity_error, string) result" where
  "opaque_session_id_try_from value =
     (let trimmed = trim value in
      if trimmed = [] then Err (EmptyText OpaqueSessionId)
      else if length trimmed > max_opaque_session_id_bytes then Err (TextTooLong OpaqueSessionId (length trimmed) max_opaque_session_id_bytes)
      else if list_ex is_ascii_control (text_chars trimmed) then Err (InvalidText OpaqueSessionId)
      else Okay trimmed)"

definition remote_request_id_try_from :: "string \<Rightarrow> (entity_error, string) result" where
  "remote_request_id_try_from value =
     (let trimmed = trim value in
      if trimmed = [] then Err (EmptyText RemoteRequestId)
      else if length trimmed > max_remote_request_id_bytes then Err (TextTooLong RemoteRequestId (length trimmed) max_remote_request_id_bytes)
      else if list_ex is_ascii_control (text_chars trimmed) then Err (InvalidText RemoteRequestId)
      else Okay trimmed)"

definition diagnostic_summary_try_from :: "string \<Rightarrow> (entity_error, string) result" where
  "diagnostic_summary_try_from value =
     (let trimmed = trim value in
      if trimmed = [] then Err (EmptyText DiagnosticSummary)
      else if length trimmed > max_diagnostic_summary_bytes then Err (TextTooLong DiagnosticSummary (length trimmed) max_diagnostic_summary_bytes)
      else if list_ex (\<lambda>c. is_ascii_control c \<and> c \<notin> set [[CHR 10], [CHR 13], [CHR 9]]) (text_chars trimmed) then Err (InvalidText DiagnosticSummary)
      else Okay trimmed)"

definition memory_content_try_from :: "string \<Rightarrow> (entity_error, string) result" where
  "memory_content_try_from value =
     (let trimmed = trim value in
      if trimmed = [] then Err (EmptyText MemoryContent)
      else if length trimmed > memory_content_max_bytes then Err (TextTooLong MemoryContent (length trimmed) memory_content_max_bytes)
      else Okay trimmed)"

definition memory_excerpt_try_from :: "string \<Rightarrow> (entity_error, string) result" where
  "memory_excerpt_try_from value =
     (let trimmed = trim value in
      if length trimmed > memory_excerpt_max_bytes
      then Err (TextTooLong MemoryExcerpt (length trimmed) memory_excerpt_max_bytes)
      else Okay trimmed)"

definition identity_content_try_from :: "string \<Rightarrow> (entity_error, string) result" where
  "identity_content_try_from value =
     (let trimmed = trim value in
      if trimmed = [] then Err (EmptyText IdentityContent)
      else if length trimmed > identity_content_max_bytes then Err (TextTooLong IdentityContent (length trimmed) identity_content_max_bytes)
      else Okay trimmed)"

section \<open>Vocabularies\<close>

datatype harness_kind = Acp | Terminal | Native

fun harness_kind_as_str :: "harness_kind \<Rightarrow> string" where
  "harness_kind_as_str Acp = ''acp''"
| "harness_kind_as_str Terminal = ''terminal''"
| "harness_kind_as_str Native = ''native''"

definition harness_kind_try_from_str :: "string \<Rightarrow> (entity_error, harness_kind) result" where
  "harness_kind_try_from_str s =
     (if s = ''acp'' then Okay Acp
      else if s = ''terminal'' then Okay Terminal
      else if s = ''native'' then Okay Native
      else Err (InvalidName HarnessKindName))"

datatype memory_mode = Off | Session | LongTerm

fun memory_mode_as_str :: "memory_mode \<Rightarrow> string" where
  "memory_mode_as_str Off = ''off''"
| "memory_mode_as_str Session = ''session''"
| "memory_mode_as_str LongTerm = ''long_term''"

definition memory_mode_try_from_str :: "string \<Rightarrow> (entity_error, memory_mode) result" where
  "memory_mode_try_from_str s =
     (if s = ''off'' then Okay Off
      else if s = ''session'' then Okay Session
      else if s = ''long_term'' then Okay LongTerm
      else Err (InvalidName MemoryModeName))"

datatype permission_kind = PermExecute | PermRead | PermWrite | PermNetwork

fun permission_kind_as_str :: "permission_kind \<Rightarrow> string" where
  "permission_kind_as_str PermExecute = ''execute''"
| "permission_kind_as_str PermRead = ''read''"
| "permission_kind_as_str PermWrite = ''write''"
| "permission_kind_as_str PermNetwork = ''network''"

definition permission_kind_try_from_str :: "string \<Rightarrow> (entity_error, permission_kind) result" where
  "permission_kind_try_from_str s =
     (if s = ''execute'' then Okay PermExecute
      else if s = ''read'' then Okay PermRead
      else if s = ''write'' then Okay PermWrite
      else if s = ''network'' then Okay PermNetwork
      else Err (InvalidName PermissionKindName))"

datatype permission_decision = Pending | Approved | Denied

fun permission_decision_as_str :: "permission_decision \<Rightarrow> string" where
  "permission_decision_as_str Pending = ''pending''"
| "permission_decision_as_str Approved = ''approved''"
| "permission_decision_as_str Denied = ''denied''"

definition permission_decision_try_from_str :: "string \<Rightarrow> (entity_error, permission_decision) result" where
  "permission_decision_try_from_str s =
     (if s = ''pending'' then Okay Pending
      else if s = ''approved'' then Okay Approved
      else if s = ''denied'' then Okay Denied
      else Err (InvalidName PermissionDecisionName))"

datatype boundary_kind = BkCreateSession | BkResumeSession | BkPrompt | BkSteer | BkPermissionDecision | BkCancel | BkClose

fun boundary_kind_as_str :: "boundary_kind \<Rightarrow> string" where
  "boundary_kind_as_str BkCreateSession = ''create_session''"
| "boundary_kind_as_str BkResumeSession = ''resume_session''"
| "boundary_kind_as_str BkPrompt = ''prompt''"
| "boundary_kind_as_str BkSteer = ''steer''"
| "boundary_kind_as_str BkPermissionDecision = ''permission_decision''"
| "boundary_kind_as_str BkCancel = ''cancel''"
| "boundary_kind_as_str BkClose = ''close''"

definition boundary_kind_try_from_str :: "string \<Rightarrow> (entity_error, boundary_kind) result" where
  "boundary_kind_try_from_str s =
     (if s = ''create_session'' then Okay BkCreateSession
      else if s = ''resume_session'' then Okay BkResumeSession
      else if s = ''prompt'' then Okay BkPrompt
      else if s = ''steer'' then Okay BkSteer
      else if s = ''permission_decision'' then Okay BkPermissionDecision
      else if s = ''cancel'' then Okay BkCancel
      else if s = ''close'' then Okay BkClose
      else Err (InvalidName BoundaryKindName))"

datatype checkpoint_state = CkIntent | CkConfirmed | CkRejected | CkIndeterminate

fun checkpoint_state_as_str :: "checkpoint_state \<Rightarrow> string" where
  "checkpoint_state_as_str CkIntent = ''intent''"
| "checkpoint_state_as_str CkConfirmed = ''confirmed''"
| "checkpoint_state_as_str CkRejected = ''rejected''"
| "checkpoint_state_as_str CkIndeterminate = ''indeterminate''"

definition checkpoint_state_try_from_str :: "string \<Rightarrow> (entity_error, checkpoint_state) result" where
  "checkpoint_state_try_from_str s =
     (if s = ''intent'' then Okay CkIntent
      else if s = ''confirmed'' then Okay CkConfirmed
      else if s = ''rejected'' then Okay CkRejected
      else if s = ''indeterminate'' then Okay CkIndeterminate
      else Err (InvalidName CheckpointStateName))"

definition checkpoint_is_terminal :: "checkpoint_state \<Rightarrow> bool" where
  "checkpoint_is_terminal s \<longleftrightarrow> s = CkConfirmed \<or> s = CkRejected \<or> s = CkIndeterminate"

datatype turn_state = TsActive | TsCompleted | TsCancelled | TsFailed

section \<open>Domain events\<close>

datatype domain_event_kind =
    DeThreadCreated | DeThreadTitleChanged | DeThreadStateChanged | DeTurnStarted
  | DeMessageDelta | DeTurnCompleted | DeTurnCancelled | DeTurnFailed
  | DePermissionRequested | DePermissionDecided | DeMemoryProposed | DeMemoryConfirmed
  | DeMemoryRejected | DeMemorySuperseded | DeMemoryForgotten | DeMemoryExpired
  | DeOther string

fun event_kind_as_str :: "domain_event_kind \<Rightarrow> string" where
  "event_kind_as_str DeThreadCreated = ''thread.created''"
| "event_kind_as_str DeThreadTitleChanged = ''thread.title_changed''"
| "event_kind_as_str DeThreadStateChanged = ''thread.state_changed''"
| "event_kind_as_str DeTurnStarted = ''turn.started''"
| "event_kind_as_str DeMessageDelta = ''message.delta''"
| "event_kind_as_str DeTurnCompleted = ''turn.completed''"
| "event_kind_as_str DeTurnCancelled = ''turn.cancelled''"
| "event_kind_as_str DeTurnFailed = ''turn.failed''"
| "event_kind_as_str DePermissionRequested = ''permission.requested''"
| "event_kind_as_str DePermissionDecided = ''permission.decided''"
| "event_kind_as_str DeMemoryProposed = ''memory.proposed''"
| "event_kind_as_str DeMemoryConfirmed = ''memory.confirmed''"
| "event_kind_as_str DeMemoryRejected = ''memory.rejected''"
| "event_kind_as_str DeMemorySuperseded = ''memory.superseded''"
| "event_kind_as_str DeMemoryForgotten = ''memory.forgotten''"
| "event_kind_as_str DeMemoryExpired = ''memory.expired''"
| "event_kind_as_str (DeOther s) = s"

definition known_event_kinds :: "domain_event_kind list" where
  "known_event_kinds = [DeThreadCreated, DeThreadTitleChanged, DeThreadStateChanged, DeTurnStarted, DeMessageDelta, DeTurnCompleted, DeTurnCancelled, DeTurnFailed, DePermissionRequested, DePermissionDecided, DeMemoryProposed, DeMemoryConfirmed, DeMemoryRejected, DeMemorySuperseded, DeMemoryForgotten, DeMemoryExpired]"

definition max_other_kind_bytes :: nat where
  "max_other_kind_bytes = 128"

definition event_kind_try_from_str :: "string \<Rightarrow> (entity_error, domain_event_kind) result" where
  "event_kind_try_from_str s =
     (if s = [] \<or> length s > max_other_kind_bytes
         \<or> \<not> list_all (\<lambda>b. is_ascii_lowercase b \<or> is_digit b \<or> b \<in> set ''._-'') s
      then Err InvalidDomainEventKind
      else (case List.find (\<lambda>k. event_kind_as_str k = s) known_event_kinds of
              Some k \<Rightarrow> Okay k
            | None \<Rightarrow> Okay (DeOther s)))"

text \<open>The payload of an event: the text of a JSON object, parsed by serde_json (\<open>parse\<close>).\<close>

definition event_payload_try_from :: "(string \<Rightarrow> json option) \<Rightarrow> string \<Rightarrow> (entity_error, string) result" where
  "event_payload_try_from parse value =
     (if length value > max_event_payload_bytes
      then Err (EventPayloadTooLarge (length value) max_event_payload_bytes)
      else if \<not> utf8_valid value then Err EventPayloadNotUtf8
      else (case parse value of Some (JObj _) \<Rightarrow> Okay value | _ \<Rightarrow> Err EventPayloadNotJsonObject))"

section \<open>Harness bindings\<close>

record acp_harness_binding =
  hb_id :: string
  hb_agent_profile_id :: string
  hb_label :: string
  hb_command :: string
  hb_args :: "string list"
  hb_env_keys :: "string list"
  hb_secret_refs :: "string list"
  hb_created_at :: u64

definition binding_validate :: "acp_harness_binding \<Rightarrow> (entity_error, unit) result" where
  "binding_validate b =
     (if length (hb_args b) > max_harness_args_count
      then Err (CountExceeded HarnessArgs (length (hb_args b)) max_harness_args_count)
      else if length (hb_env_keys b) > max_harness_env_keys_count
      then Err (CountExceeded HarnessEnvKeys (length (hb_env_keys b)) max_harness_env_keys_count)
      else if length (hb_secret_refs b) > max_harness_secret_refs_count
      then Err (CountExceeded HarnessSecretRefs (length (hb_secret_refs b)) max_harness_secret_refs_count)
      else Okay ())"

definition binding_new :: "acp_harness_binding \<Rightarrow> (entity_error, acp_harness_binding) result" where
  "binding_new b = (case binding_validate b of Inl e \<Rightarrow> Err e | Inr _ \<Rightarrow> Okay b)"

section \<open>Page limits\<close>

fun list_limit_max :: "list_type \<Rightarrow> u32" where
  "list_limit_max ThreadList = 200"
| "list_limit_max History = 500"
| "list_limit_max AgentProfileList = 200"
| "list_limit_max HarnessBindingList = 200"
| "list_limit_max ProjectRefList = 200"
| "list_limit_max PermissionList = 500"
| "list_limit_max TurnList = 500"
| "list_limit_max CheckpointList = 500"
| "list_limit_max MemorySearch = 64"
| "list_limit_max MemoryList = 200"
| "list_limit_max IdentityDocumentList = 32"
| "list_limit_max ContextSnapshotList = 50"

text \<open>Every page limit is checked the same way, against its own cap.\<close>

definition limit_try_new :: "list_type \<Rightarrow> u32 \<Rightarrow> (entity_error, u32) result" where
  "limit_try_new l value =
     (if value = 0 \<or> value > list_limit_max l then Err (LimitOutOfRange l value (list_limit_max l))
      else Okay value)"

definition thread_list_limit_try_new :: "u32 \<Rightarrow> (entity_error, u32) result" where
  "thread_list_limit_try_new = limit_try_new ThreadList"

definition history_limit_try_new :: "u32 \<Rightarrow> (entity_error, u32) result" where
  "history_limit_try_new = limit_try_new History"

definition agent_profile_list_limit_try_new :: "u32 \<Rightarrow> (entity_error, u32) result" where
  "agent_profile_list_limit_try_new = limit_try_new AgentProfileList"

definition harness_binding_list_limit_try_new :: "u32 \<Rightarrow> (entity_error, u32) result" where
  "harness_binding_list_limit_try_new = limit_try_new HarnessBindingList"

definition project_ref_list_limit_try_new :: "u32 \<Rightarrow> (entity_error, u32) result" where
  "project_ref_list_limit_try_new = limit_try_new ProjectRefList"

definition permission_list_limit_try_new :: "u32 \<Rightarrow> (entity_error, u32) result" where
  "permission_list_limit_try_new = limit_try_new PermissionList"

definition turn_list_limit_try_new :: "u32 \<Rightarrow> (entity_error, u32) result" where
  "turn_list_limit_try_new = limit_try_new TurnList"

definition checkpoint_list_limit_try_new :: "u32 \<Rightarrow> (entity_error, u32) result" where
  "checkpoint_list_limit_try_new = limit_try_new CheckpointList"

definition memory_search_limit_try_new :: "u32 \<Rightarrow> (entity_error, u32) result" where
  "memory_search_limit_try_new = limit_try_new MemorySearch"

definition memory_list_limit_try_new :: "u32 \<Rightarrow> (entity_error, u32) result" where
  "memory_list_limit_try_new = limit_try_new MemoryList"

definition identity_document_list_limit_try_new :: "u32 \<Rightarrow> (entity_error, u32) result" where
  "identity_document_list_limit_try_new = limit_try_new IdentityDocumentList"

definition context_snapshot_list_limit_try_new :: "u32 \<Rightarrow> (entity_error, u32) result" where
  "context_snapshot_list_limit_try_new = limit_try_new ContextSnapshotList"

section \<open>The contract of a bounded text\<close>

text \<open>A value is normalised, then accepted or refused; normalising twice changes nothing.\<close>

locale bounded_text =
  fixes try_from :: "string \<Rightarrow> ('e, string) result"
    and norm :: "string \<Rightarrow> string"
    and cap :: nat
    and accepted :: "string \<Rightarrow> bool"
  assumes norm_idem: "norm (norm v) = norm v"
    and try_from_iff: "try_from v = Okay t \<longleftrightarrow> t = norm v \<and> length t \<le> cap \<and> accepted t"
begin

lemma bounded: "try_from v = Okay t \<Longrightarrow> length t \<le> cap \<and> accepted t"
  by (auto simp: try_from_iff)

lemma stable: "\<forall>v t. try_from v = Okay t \<longrightarrow> length t \<le> cap \<and> try_from t = Okay t"
  using norm_idem by (auto simp: try_from_iff)

text \<open>What is stored is read back unchanged.\<close>

lemma reread: "try_from v = Okay t \<Longrightarrow> try_from t = Okay t"
  using norm_idem by (auto simp: try_from_iff)

lemma same_normal_form: "norm v = norm w \<Longrightarrow> try_from v = Okay t \<longleftrightarrow> try_from w = Okay t"
  by (auto simp: try_from_iff)

end

interpretation display_name: bounded_text display_name_try_from trim max_display_name_bytes "\<lambda>t. t \<noteq> []"
  by unfold_locales (auto simp: display_name_try_from_def Let_def)

interpretation thread_title: bounded_text thread_title_try_from id max_thread_title_bytes "\<lambda>t. True"
  by unfold_locales (auto simp: thread_title_try_from_def Let_def)

interpretation search_query: bounded_text search_query_try_from trim max_search_query_bytes "\<lambda>t. t \<noteq> []"
  by unfold_locales (auto simp: search_query_try_from_def Let_def)

interpretation bounded_path: bounded_text bounded_path_try_from trim max_path_bytes "\<lambda>t. t \<noteq> []"
  by unfold_locales (auto simp: bounded_path_try_from_def Let_def)

interpretation harness_arg: bounded_text harness_arg_try_from id max_harness_arg_bytes "\<lambda>t. True"
  by unfold_locales (auto simp: harness_arg_try_from_def Let_def)

interpretation harness_env_key: bounded_text harness_env_key_try_from trim max_harness_env_key_bytes "\<lambda>t. t \<noteq> [] \<and> is_valid_key t"
  by unfold_locales (auto simp: harness_env_key_try_from_def Let_def)

interpretation harness_secret_ref: bounded_text harness_secret_ref_try_from trim max_harness_secret_ref_bytes "\<lambda>t. t \<noteq> [] \<and> \<not> list_ex is_control (text_chars t)"
  by unfold_locales (auto simp: harness_secret_ref_try_from_def Let_def)

interpretation permission_description: bounded_text permission_description_try_from id max_permission_description_bytes "\<lambda>t. True"
  by unfold_locales (auto simp: permission_description_try_from_def Let_def)

interpretation bounded_label: bounded_text bounded_label_try_from trim max_label_bytes "\<lambda>t. t \<noteq> []"
  by unfold_locales (auto simp: bounded_label_try_from_def Let_def)

interpretation opaque_session_id: bounded_text opaque_session_id_try_from trim max_opaque_session_id_bytes "\<lambda>t. t \<noteq> [] \<and> \<not> list_ex is_ascii_control (text_chars t)"
  by unfold_locales (auto simp: opaque_session_id_try_from_def Let_def)

interpretation remote_request_id: bounded_text remote_request_id_try_from trim max_remote_request_id_bytes "\<lambda>t. t \<noteq> [] \<and> \<not> list_ex is_ascii_control (text_chars t)"
  by unfold_locales (auto simp: remote_request_id_try_from_def Let_def)

interpretation diagnostic_summary: bounded_text diagnostic_summary_try_from trim max_diagnostic_summary_bytes "\<lambda>t. t \<noteq> [] \<and> \<not> list_ex (\<lambda>c. is_ascii_control c \<and> c \<notin> set [[CHR 10], [CHR 13], [CHR 9]]) (text_chars t)"
  by unfold_locales (auto simp: diagnostic_summary_try_from_def Let_def)

interpretation memory_content: bounded_text memory_content_try_from trim memory_content_max_bytes "\<lambda>t. t \<noteq> []"
  by unfold_locales (auto simp: memory_content_try_from_def Let_def)

interpretation memory_excerpt: bounded_text memory_excerpt_try_from trim memory_excerpt_max_bytes "\<lambda>t. True"
  by unfold_locales (auto simp: memory_excerpt_try_from_def Let_def)

interpretation identity_content: bounded_text identity_content_try_from trim identity_content_max_bytes "\<lambda>t. t \<noteq> []"
  by unfold_locales (auto simp: identity_content_try_from_def Let_def)

section \<open>The contract of a vocabulary\<close>

locale named_vocabulary =
  fixes as_str :: "'k \<Rightarrow> string"
    and parse :: "string \<Rightarrow> ('e, 'k) result"
  assumes parse_iff: "parse s = Okay k \<longleftrightarrow> s = as_str k"
begin

lemma roundtrip: "parse (as_str k) = Okay k"
  by (simp add: parse_iff)

lemma names_distinct: "as_str k = as_str l \<longleftrightarrow> k = l"
  using parse_iff[of "as_str k" k] parse_iff[of "as_str k" l] by auto

lemma rejects: "(\<forall>k. s \<noteq> as_str k) \<longleftrightarrow> isl (parse s)"
  using parse_iff[of s] by (cases "parse s") auto

end

interpretation harness_kind: named_vocabulary harness_kind_as_str harness_kind_try_from_str
proof
  fix s k
  show "harness_kind_try_from_str s = Okay k \<longleftrightarrow> s = harness_kind_as_str k"
    by (cases k) (auto simp: harness_kind_try_from_str_def)
qed

interpretation memory_mode: named_vocabulary memory_mode_as_str memory_mode_try_from_str
proof
  fix s k
  show "memory_mode_try_from_str s = Okay k \<longleftrightarrow> s = memory_mode_as_str k"
    by (cases k) (auto simp: memory_mode_try_from_str_def)
qed

interpretation permission_kind: named_vocabulary permission_kind_as_str permission_kind_try_from_str
proof
  fix s k
  show "permission_kind_try_from_str s = Okay k \<longleftrightarrow> s = permission_kind_as_str k"
    by (cases k) (auto simp: permission_kind_try_from_str_def)
qed

interpretation permission_decision: named_vocabulary permission_decision_as_str permission_decision_try_from_str
proof
  fix s k
  show "permission_decision_try_from_str s = Okay k \<longleftrightarrow> s = permission_decision_as_str k"
    by (cases k) (auto simp: permission_decision_try_from_str_def)
qed

interpretation boundary_kind: named_vocabulary boundary_kind_as_str boundary_kind_try_from_str
proof
  fix s k
  show "boundary_kind_try_from_str s = Okay k \<longleftrightarrow> s = boundary_kind_as_str k"
    by (cases k) (auto simp: boundary_kind_try_from_str_def)
qed

interpretation checkpoint_state: named_vocabulary checkpoint_state_as_str checkpoint_state_try_from_str
proof
  fix s k
  show "checkpoint_state_try_from_str s = Okay k \<longleftrightarrow> s = checkpoint_state_as_str k"
    by (cases k) (auto simp: checkpoint_state_try_from_str_def)
qed

section \<open>Event kinds\<close>

lemma event_kind_parse:
  "event_kind_try_from_str s = Okay k \<Longrightarrow> event_kind_as_str k = s \<and> (k \<in> set known_event_kinds \<or> k = DeOther s)"
  by (auto simp: event_kind_try_from_str_def find_Some_iff split: if_splits option.splits)

lemma known_kinds_parse: "k \<in> set known_event_kinds \<Longrightarrow> event_kind_try_from_str (event_kind_as_str k) = Okay k"
proof -
  have "list_all (\<lambda>k. event_kind_try_from_str (event_kind_as_str k) = Okay k) known_event_kinds" by code_simp
  then show "k \<in> set known_event_kinds \<Longrightarrow> event_kind_try_from_str (event_kind_as_str k) = Okay k"
    by (simp add: list_all_iff)
qed

text \<open>Kinds of events survive storage: what the parser accepts is written back as it was read and read again to the
  same kind, a known name never as an unknown kind.\<close>

theorem event_kinds_stable:
  "(event_kind_try_from_str s = Okay k \<longrightarrow>
      event_kind_as_str k = s \<and> event_kind_try_from_str (event_kind_as_str k) = Okay k
      \<and> (\<forall>n. k = DeOther n \<longrightarrow> n \<notin> event_kind_as_str ` set known_event_kinds))"
proof
  assume a: "event_kind_try_from_str s = Okay k"
  note p = event_kind_parse[OF a]
  have "n \<notin> event_kind_as_str ` set known_event_kinds" if "k = DeOther n" for n
  proof
    assume "n \<in> event_kind_as_str ` set known_event_kinds"
    then obtain j where j: "j \<in> set known_event_kinds" "n = event_kind_as_str j" by blast
    then have "event_kind_try_from_str s = Okay j" using known_kinds_parse[OF j(1)] p that by simp
    then show False using a j that by (auto simp: known_event_kinds_def)
  qed
  then show "event_kind_as_str k = s \<and> event_kind_try_from_str (event_kind_as_str k) = Okay k
      \<and> (\<forall>n. k = DeOther n \<longrightarrow> n \<notin> event_kind_as_str ` set known_event_kinds)"
    using a p by simp
qed

section \<open>Properties\<close>

text \<open>All bounded texts of the domain with their caps.\<close>

definition bounded_texts :: "((string \<Rightarrow> (entity_error, string) result) \<times> nat) list" where
  "bounded_texts =
     [(display_name_try_from, max_display_name_bytes), (thread_title_try_from, max_thread_title_bytes),
      (search_query_try_from, max_search_query_bytes), (bounded_path_try_from, max_path_bytes),
      (harness_arg_try_from, max_harness_arg_bytes), (harness_env_key_try_from, max_harness_env_key_bytes),
      (harness_secret_ref_try_from, max_harness_secret_ref_bytes),
      (permission_description_try_from, max_permission_description_bytes), (bounded_label_try_from, max_label_bytes),
      (opaque_session_id_try_from, max_opaque_session_id_bytes), (remote_request_id_try_from, max_remote_request_id_bytes),
      (diagnostic_summary_try_from, max_diagnostic_summary_bytes), (memory_content_try_from, memory_content_max_bytes),
      (memory_excerpt_try_from, memory_excerpt_max_bytes), (identity_content_try_from, identity_content_max_bytes)]"

lemmas bounded_text_stable =
  display_name.stable thread_title.stable search_query.stable bounded_path.stable harness_arg.stable
  harness_env_key.stable harness_secret_ref.stable permission_description.stable bounded_label.stable
  opaque_session_id.stable remote_request_id.stable diagnostic_summary.stable memory_content.stable
  memory_excerpt.stable identity_content.stable

text \<open>C39: Every bounded text of the domain is a stable type: a value its constructor accepts is within the cap of the
  type, and constructing it again from its own text, as serde does when a stored value is read, accepts it unchanged.
  An environment key that is accepted is a name of letters, digits and underscores that starts with no digit.\<close>

theorem bounded_texts_stable:
  assumes "(try_from, cap) \<in> set bounded_texts" "try_from v = Okay t"
  shows "length t \<le> cap \<and> try_from t = Okay t
    \<and> (try_from = harness_env_key_try_from \<longrightarrow> is_valid_key t)"
proof -
  have "list_all (\<lambda>(p, c). \<forall>v t. p v = Okay t \<longrightarrow> length t \<le> c \<and> p t = Okay t) bounded_texts"
    unfolding bounded_texts_def list.pred_inject prod.case by (intro conjI bounded_text_stable) simp
  then have "length t \<le> cap \<and> try_from t = Okay t" using assms by (auto simp: list_all_iff)
  then show ?thesis using assms(2) harness_env_key.bounded by blast
qed

theorem bounded_texts_stable_witness:
  "harness_env_key_try_from '' PATH_2 '' = Okay ''PATH_2'' \<and> is_valid_key ''PATH_2''"
proof -
  have ok: "harness_env_key_try_from '' PATH_2 '' = Okay ''PATH_2''" by code_simp
  have "(harness_env_key_try_from, max_harness_env_key_bytes) \<in> set bounded_texts" by (simp add: bounded_texts_def)
  from bounded_texts_stable[OF this ok] show ?thesis using ok by simp
qed

end
