(* ===== verification/Diagnostics.thy ===== *)
theory Diagnostics
  imports Rust_Text
begin

text \<open>
  Redaction of diagnostic text, \<open>crates/altior-core/src/runtime/diagnostics.rs\<close>. The scan runs over the characters
  of the text; its position is the rest of the text here.
\<close>

section \<open>Model\<close>

definition max_diagnostics_bytes :: nat where
  "max_diagnostics_bytes = 4096"

text \<open>\<open>char::eq_ignore_ascii_case\<close>.\<close>

definition eq_ignore_ascii_case :: "string \<Rightarrow> string \<Rightarrow> bool" where
  "eq_ignore_ascii_case a b \<longleftrightarrow> map to_ascii_lower a = map to_ascii_lower b"

definition starts_with_ignore_ascii_case :: "string list \<Rightarrow> string \<Rightarrow> bool" where
  "starts_with_ignore_ascii_case cs pat \<longleftrightarrow>
     length cs \<ge> length pat \<and> list_all2 eq_ignore_ascii_case (take (length pat) cs) (map (\<lambda>c. [c]) pat)"

definition is_bearer_char :: "string \<Rightarrow> bool" where
  "is_bearer_char ch = on_ascii (\<lambda>c. is_ascii_alphanumeric c \<or> c \<in> set ''.-_~+/='') ch"

definition is_secret_delimiter :: "string \<Rightarrow> bool" where
  "is_secret_delimiter ch \<longleftrightarrow> is_whitespace ch
     \<or> ch \<in> set [''&'', '';'', '','', [CHR 34], [CHR 39], ''}'', '']'', [CHR 10], [CHR 13]]"

definition not_line_end :: "string \<Rightarrow> bool" where
  "not_line_end ch \<longleftrightarrow> ch \<noteq> [CHR 10] \<and> ch \<noteq> [CHR 13]"

definition is_key_char :: "string \<Rightarrow> bool" where
  "is_key_char ch = on_ascii (\<lambda>c. is_ascii_alphanumeric c \<or> c = CHR ''-'' \<or> c = CHR ''_'') ch"

definition kv_patterns :: "string list" where
  "kv_patterns = [''password='', ''token='', ''secret='', ''api_key='', ''apikey='']"

text \<open>What is written at the start of the rest of the text, and how much of the text it replaces: the pattern and
  the secret after it, or one character that is copied.\<close>

definition redact_step :: "string list \<Rightarrow> string \<times> string list" where
  "redact_step cs =
     (if starts_with_ignore_ascii_case cs ''bearer ''
      then (''Bearer [REDACTED]'', dropWhile is_bearer_char (drop 7 cs))
      else if starts_with_ignore_ascii_case cs ''authorization:''
      then (''Authorization: [REDACTED]'', dropWhile not_line_end (drop 14 cs))
      else if (starts_with_ignore_ascii_case cs ''sk-'' \<or> starts_with_ignore_ascii_case cs ''sk_'') \<and> 3 < length cs
      then (''sk-[REDACTED]'', dropWhile is_key_char (drop 3 cs))
      else case List.find (starts_with_ignore_ascii_case cs) kv_patterns of
             Some pat \<Rightarrow> (pat @ ''[REDACTED]'', dropWhile (\<lambda>ch. \<not> is_secret_delimiter ch) (drop (length pat) cs))
           | None \<Rightarrow> (hd cs, tl cs))"

lemma redact_step_shrinks: "cs \<noteq> [] \<Longrightarrow> length (snd (redact_step cs)) < length cs"
proof -
  assume ne: "cs \<noteq> []"
  have dw: "length (dropWhile P (drop n cs)) < length cs" if "0 < n" for P n
    using length_dropWhile_le[of P "drop n cs"] ne that by (metis diff_less le_trans length_drop length_greater_0_conv not_le)
  show ?thesis
    using dw ne by (auto simp: redact_step_def find_Some_iff kv_patterns_def split: option.splits)
qed

function redact_chars :: "string list \<Rightarrow> string" where
  "redact_chars cs =
     (if cs = [] then [] else let (piece, rest) = redact_step cs in piece @ redact_chars rest)"
  by pat_completeness auto
termination
  by (relation "measure length") (auto simp: redact_step_shrinks dest: arg_cong[of _ _ snd])

declare redact_chars.simps [simp del]

definition redact_secrets :: "string \<Rightarrow> string" where
  "redact_secrets input = redact_chars (text_chars input)"

definition from_raw :: "string \<Rightarrow> string" where
  "from_raw raw =
     (let redacted = redact_secrets raw in
      if length redacted > max_diagnostics_bytes
      then take (char_boundary redacted max_diagnostics_bytes) redacted @ ''... [truncated]''
      else redacted)"

section \<open>Lemmas\<close>

definition lower_chars :: "string list \<Rightarrow> string list" where
  "lower_chars cs = map (map to_ascii_lower) cs"

text \<open>A pattern matches when the lower-case text starts with it; all patterns are lower case.\<close>

lemma starts_ci_iff:
  "map to_ascii_lower pat = pat \<Longrightarrow>
   starts_with_ignore_ascii_case cs pat \<longleftrightarrow> starts_with (map (\<lambda>c. [c]) pat) (lower_chars cs)"
proof -
  assume low: "map to_ascii_lower pat = pat"
  have "list_all2 eq_ignore_ascii_case xs (map (\<lambda>c. [c]) ys) \<longleftrightarrow> lower_chars xs = map (\<lambda>c. [c]) ys"
    if "map to_ascii_lower ys = ys" for xs ys
    using that
  proof (induction xs arbitrary: ys)
    case (Cons x xs)
    then show ?case by (cases ys) (auto simp: lower_chars_def eq_ignore_ascii_case_def)
  qed (auto simp: lower_chars_def)
  from this[OF low, of "take (length pat) cs"] show ?thesis
    by (auto simp: starts_with_ignore_ascii_case_def starts_with_def lower_chars_def take_map)
      (metis length_map length_take min.absorb_iff2 min.commute)+
qed

definition all_patterns :: "string list" where
  "all_patterns = [''bearer '', ''authorization:'', ''sk-'', ''sk_''] @ kv_patterns"

lemma patterns_lower: "pat \<in> set all_patterns \<Longrightarrow> map to_ascii_lower pat = pat \<and> CHR 10 \<notin> set pat \<and> pat \<noteq> []"
proof -
  have "list_all (\<lambda>pat. map to_ascii_lower pat = pat \<and> CHR 10 \<notin> set pat \<and> pat \<noteq> []) all_patterns" by code_simp
  then show "pat \<in> set all_patterns \<Longrightarrow> ?thesis" by (simp add: list_all_iff)
qed

abbreviation newline_text :: string where
  "newline_text \<equiv> [CHR 10]"

text \<open>A newline ends every match.\<close>

lemma starts_ci_newline:
  assumes "pat \<in> set all_patterns"
  shows "starts_with_ignore_ascii_case (us @ newline_text # vs) pat \<longleftrightarrow> starts_with_ignore_ascii_case us pat"
proof (cases "length pat \<le> length us")
  case True
  then show ?thesis by (simp add: starts_with_ignore_ascii_case_def)
next
  case False
  have "to_ascii_lower (CHR 10) = CHR 10" by code_simp
  then have lowered: "lower_chars (us @ newline_text # vs) ! length us = newline_text" by (simp add: lower_chars_def nth_append)
  have "\<not> starts_with (map (\<lambda>c. [c]) pat) (lower_chars (us @ newline_text # vs))"
  proof
    assume "starts_with (map (\<lambda>c. [c]) pat) (lower_chars (us @ newline_text # vs))"
    then obtain t where "lower_chars (us @ newline_text # vs) = map (\<lambda>c. [c]) pat @ t" by (auto simp: starts_with_iff)
    then have "[pat ! length us] = newline_text" using lowered False by (simp add: nth_append)
    then have "CHR 10 \<in> set pat" using False by (metis list.inject not_le_imp_less nth_mem)
    then show False using patterns_lower[OF assms] by blast
  qed
  then show ?thesis using False patterns_lower[OF assms] by (simp add: starts_ci_iff) (simp add: starts_with_ignore_ascii_case_def starts_ci_iff[symmetric])
qed

lemma dropWhile_newline: "\<not> P newline_text \<Longrightarrow> dropWhile P (us @ newline_text # vs) = dropWhile P us @ newline_text # vs"
  by (induction us) auto

lemma newline_stops:
  "\<not> is_bearer_char newline_text" "\<not> not_line_end newline_text" "\<not> is_key_char newline_text" "is_secret_delimiter newline_text"
  by code_simp+

lemma pattern_members:
  "''bearer '' \<in> set all_patterns" "''authorization:'' \<in> set all_patterns" "''sk-'' \<in> set all_patterns"
  "''sk_'' \<in> set all_patterns" "pat \<in> set kv_patterns \<Longrightarrow> pat \<in> set all_patterns"
  by (simp_all add: all_patterns_def)

lemmas starts_newline = pattern_members[THEN starts_ci_newline]

lemma find_newline:
  "List.find (starts_with_ignore_ascii_case (us @ newline_text # vs)) kv_patterns
   = List.find (starts_with_ignore_ascii_case us) kv_patterns"
  by (rule find_cong) (simp_all add: starts_newline)

lemma starts_ci_length: "starts_with_ignore_ascii_case cs pat \<Longrightarrow> length pat \<le> length cs"
  by (simp add: starts_with_ignore_ascii_case_def)

lemma starts_ci_Nil: "pat \<noteq> [] \<Longrightarrow> \<not> starts_with_ignore_ascii_case [] pat"
  by (simp add: starts_with_ignore_ascii_case_def)

lemma cut_newline:
  "\<not> P newline_text \<Longrightarrow> n \<le> length us \<Longrightarrow>
   dropWhile P (drop n (us @ newline_text # vs)) = dropWhile P (drop n us) @ newline_text # vs"
  by (simp add: dropWhile_newline)

lemma cut_secret:
  "n \<le> length us \<Longrightarrow> dropWhile (\<lambda>ch. \<not> is_secret_delimiter ch) (drop n (us @ newline_text # vs))
     = dropWhile (\<lambda>ch. \<not> is_secret_delimiter ch) (drop n us) @ newline_text # vs"
  by (rule cut_newline) (simp add: newline_stops(4))

lemma redact_step_newline:
  "us \<noteq> [] \<Longrightarrow> \<exists>piece rest. \<forall>vs. redact_step (us @ newline_text # vs) = (piece, rest @ newline_text # vs)"
proof -
  assume ne: "us \<noteq> []"
  let ?m = "starts_with_ignore_ascii_case us"
  note step = redact_step_def find_newline starts_newline
  note cut_rule = cut_newline[of is_bearer_char, OF newline_stops(1)] cut_newline[of not_line_end, OF newline_stops(2)]
    cut_newline[of is_key_char, OF newline_stops(3)] cut_secret
  consider "?m ''bearer ''" | "\<not> ?m ''bearer ''" "?m ''authorization:''"
    | "\<not> ?m ''bearer ''" "\<not> ?m ''authorization:''" "?m ''sk-'' \<or> ?m ''sk_''"
    | pat where "\<not> ?m ''bearer ''" "\<not> ?m ''authorization:''" "\<not> (?m ''sk-'' \<or> ?m ''sk_'')" "List.find ?m kv_patterns = Some pat"
    | "\<not> ?m ''bearer ''" "\<not> ?m ''authorization:''" "\<not> (?m ''sk-'' \<or> ?m ''sk_'')" "List.find ?m kv_patterns = None"
    by (cases "List.find ?m kv_patterns") auto
  then show ?thesis
  proof cases
    case 1
    then have "7 \<le> length us" using starts_ci_length by fastforce
    then have "redact_step (us @ newline_text # vs) = (''Bearer [REDACTED]'', dropWhile is_bearer_char (drop 7 us) @ newline_text # vs)" for vs
      using 1 unfolding step by (simp only: if_True cut_rule)
    then show ?thesis by blast
  next
    case 2
    then have "14 \<le> length us" using starts_ci_length by fastforce
    then have "redact_step (us @ newline_text # vs) = (''Authorization: [REDACTED]'', dropWhile not_line_end (drop 14 us) @ newline_text # vs)" for vs
      using 2 unfolding step by (simp only: if_True if_False cut_rule)
    then show ?thesis by blast
  next
    case 3
    then have "3 \<le> length us" using starts_ci_length by fastforce
    then have "redact_step (us @ newline_text # vs) = (''sk-[REDACTED]'', dropWhile is_key_char (drop 3 us) @ newline_text # vs)" for vs
      using 3 unfolding step by (simp del: drop_append add: cut_rule)
    then show ?thesis by blast
  next
    case (4 pat)
    then have "length pat \<le> length us" by (auto simp: find_Some_iff dest: starts_ci_length)
    then have "redact_step (us @ newline_text # vs) =
        (pat @ ''[REDACTED]'', dropWhile (\<lambda>ch. \<not> is_secret_delimiter ch) (drop (length pat) us) @ newline_text # vs)" for vs
      using 4 unfolding step by (simp del: drop_append add: cut_rule)
    then show ?thesis by blast
  next
    case 5
    then have "redact_step (us @ newline_text # vs) = (hd us, tl us @ newline_text # vs)" for vs
      using ne unfolding step by simp
    then show ?thesis by blast
  qed
qed

text \<open>Redaction works line by line.\<close>

lemma redact_newline: "redact_chars (us @ newline_text # vs) = redact_chars (us @ [newline_text]) @ redact_chars vs"
proof (induction "length us" arbitrary: us rule: less_induct)
  case less
  show ?case
  proof (cases "us = []")
    case True
    have "List.find (starts_with_ignore_ascii_case []) kv_patterns = None"
      by (auto simp: find_None_iff kv_patterns_def starts_ci_Nil)
    then have "redact_step (newline_text # ws) = (newline_text, ws)" for ws
      using starts_newline(1-4)[of "[]"] find_newline[of "[]"] by (simp add: redact_step_def starts_ci_Nil)
    then show ?thesis using True by (simp add: redact_chars.simps)
  next
    case False
    obtain piece rest where st: "\<forall>vs. redact_step (us @ newline_text # vs) = (piece, rest @ newline_text # vs)"
      using redact_step_newline[OF False] by blast
    have "length rest < length us"
      using redact_step_shrinks[of "us @ [newline_text]"] st by simp
    from less.hyps[OF this] show ?thesis
      using st by (simp add: redact_chars.simps[of "us @ newline_text # vs"] redact_chars.simps[of "us @ [newline_text]"])
  qed
qed

text \<open>The secrets that are recognised: the pattern, what is written in their place, and the characters of the secret
  that follow the pattern.\<close>

definition redactions :: "(string \<times> string \<times> (string \<Rightarrow> bool)) list" where
  "redactions =
     [(''bearer '', ''Bearer [REDACTED]'', is_bearer_char),
      (''authorization:'', ''Authorization: [REDACTED]'', not_line_end),
      (''sk-'', ''sk-[REDACTED]'', is_key_char), (''sk_'', ''sk-[REDACTED]'', is_key_char)]
     @ map (\<lambda>pat. (pat, pat @ ''[REDACTED]'', \<lambda>ch. \<not> is_secret_delimiter ch)) kv_patterns"

lemma find_unique: "x \<in> set xs \<Longrightarrow> P x \<Longrightarrow> \<forall>y\<in>set xs. P y \<longrightarrow> y = x \<Longrightarrow> List.find P xs = Some x"
proof (induction xs)
  case (Cons z zs)
  show ?case
  proof (cases "P z")
    case True
    then have "z = x" using Cons.prems(3) by (meson list.set_intros(1))
    then show ?thesis using True by simp
  next
    case False
    then have "x \<in> set zs" using Cons.prems(1,2) by (metis set_ConsD)
    then have "List.find P zs = Some x" using Cons.IH Cons.prems(2,3) by (meson list.set_intros(2))
    then show ?thesis using False by simp
  qed
qed simp

lemma kv_apart:
  assumes "p \<in> set kv_patterns" "r \<in> set kv_patterns" "map (\<lambda>c. [c]) r @ x = map (\<lambda>c. [c]) p @ y"
  shows "p = r"
proof -
  have "list_all (\<lambda>p. 4 \<le> length p \<and> list_all (\<lambda>r. take 4 p = take 4 r \<longrightarrow> p = r) kv_patterns) kv_patterns" by code_simp
  then have "\<forall>p\<in>set kv_patterns. 4 \<le> length p \<and> (\<forall>r\<in>set kv_patterns. take 4 p = take 4 r \<longrightarrow> p = r)"
    unfolding list_all_iff .
  then have kv: "4 \<le> length p" "4 \<le> length r" "take 4 p = take 4 r \<longrightarrow> p = r" using assms(1,2) by blast+
  have front: "take 4 (map (\<lambda>c. [c]) w @ z) = map (\<lambda>c. [c]) (take 4 w)" if "4 \<le> length w" for w and z
    using that by (simp add: take_map)
  have "map (\<lambda>c. [c]) (take 4 p) = map (\<lambda>c. [c]) (take 4 r)"
    using front[OF kv(1), of y] front[OF kv(2), of x] assms(3) by metis
  then have "map hd (map (\<lambda>c. [c]) (take 4 p)) = map hd (map (\<lambda>c. [c]) (take 4 r))" by (rule arg_cong)
  then show ?thesis using kv(3) by (simp only: map_map comp_def list.sel map_ident)
qed

lemma step_matches:
  assumes "(pat, marker, secret) \<in> set redactions" "length q = length pat" "starts_with_ignore_ascii_case q pat" "t \<noteq> []"
  shows "redact_step (q @ t) = (marker, dropWhile secret t)"
proof -
  have pat: "pat \<in> set all_patterns" using assms(1) by (auto simp: redactions_def all_patterns_def)
  then have "starts_with (map (\<lambda>c. [c]) pat) (lower_chars q)" using assms(3) by (simp add: starts_ci_iff patterns_lower)
  then have low: "lower_chars q = map (\<lambda>c. [c]) pat"
    using assms(2) by (simp add: starts_with_def lower_chars_def)
  have m: "starts_with_ignore_ascii_case (q @ t) p \<longleftrightarrow> starts_with (map (\<lambda>c. [c]) p) (map (\<lambda>c. [c]) pat @ lower_chars t)"
    if "p \<in> set all_patterns" for p
    using low patterns_lower[OF that] by (simp add: starts_ci_iff) (simp add: lower_chars_def)
  have len: "drop (length pat) (q @ t) = t" "length q + length t > length pat" using assms(2,4) by simp_all
  have "List.find (starts_with_ignore_ascii_case (q @ t)) kv_patterns
       = List.find (\<lambda>p. starts_with (map (\<lambda>c. [c]) p) (map (\<lambda>c. [c]) pat @ lower_chars t)) kv_patterns"
    by (rule find_cong) (simp_all add: m pattern_members(5))
  note ms = this pattern_members(1-4)[THEN m]
  have long: "length (q @ t) > length pat" using assms(2,4) by simp
  consider "pat = ''bearer ''" | "pat = ''authorization:''" | "pat = ''sk-'' \<or> pat = ''sk_''" | "pat \<in> set kv_patterns"
    using pat by (auto simp: all_patterns_def)
  then show ?thesis
  proof cases
    case 1
    then have "marker = ''Bearer [REDACTED]'' \<and> secret = is_bearer_char"
      using assms(1) by (simp add: redactions_def kv_patterns_def)
    moreover have "drop 7 (q @ t) = t" using 1 assms(2) by simp
    ultimately show ?thesis using 1 unfolding redact_step_def ms by (simp del: drop_append add: starts_with_def)
  next
    case 2
    then have "marker = ''Authorization: [REDACTED]'' \<and> secret = not_line_end"
      using assms(1) by (simp add: redactions_def kv_patterns_def)
    moreover have "drop 14 (q @ t) = t" using 2 assms(2) by simp
    ultimately show ?thesis using 2 unfolding redact_step_def ms by (simp del: drop_append add: starts_with_def)
  next
    case 3
    then have "marker = ''sk-[REDACTED]'' \<and> secret = is_key_char"
      using assms(1) by (auto simp: redactions_def kv_patterns_def)
    moreover have "drop 3 (q @ t) = t \<and> length (q @ t) > 3" using 3 assms(2,4) by auto
    ultimately show ?thesis using 3 unfolding redact_step_def ms by (auto simp del: drop_append length_append simp: starts_with_def)
  next
    case 4
    then have mk: "marker = pat @ ''[REDACTED]'' \<and> secret = (\<lambda>ch. \<not> is_secret_delimiter ch)"
      using assms(1) by (auto simp: redactions_def kv_patterns_def)
    have no: "\<not> starts_with (map (\<lambda>c. [c]) p) (map (\<lambda>c. [c]) pat @ x)" if "p \<in> {''bearer '', ''authorization:'', ''sk-'', ''sk_''}" for p x
      using 4 that by (auto simp: kv_patterns_def starts_with_def)
    have "List.find (\<lambda>p. starts_with (map (\<lambda>c. [c]) p) (map (\<lambda>c. [c]) pat @ x)) kv_patterns = Some pat" for x
      using 4 kv_apart by (intro find_unique) (auto simp: starts_with_iff)
    then show ?thesis
      using mk len(1) no[of "''bearer ''" "lower_chars t"] no[of "''authorization:''" "lower_chars t"]
        no[of "''sk-''" "lower_chars t"] no[of "''sk_''" "lower_chars t"]
      unfolding redact_step_def ms by simp
  qed
qed

lemma redact_head:
  assumes "(pat, marker, secret) \<in> set redactions" "length q = length pat" "starts_with_ignore_ascii_case q pat"
    and "sec \<noteq> []" "list_all secret sec" "rest = [] \<or> \<not> secret (hd rest)"
  shows "redact_chars (q @ sec @ rest) = marker @ redact_chars rest"
proof -
  have "dropWhile secret (sec @ rest) = rest"
    using assms(5,6) by (cases rest) (auto simp: list_all_iff dropWhile_append)
  then have "redact_step (q @ sec @ rest) = (marker, rest)" using step_matches[OF assms(1-3), of "sec @ rest"] assms(4) by simp
  then show ?thesis using assms(4) by (simp add: redact_chars.simps[of "q @ sec @ rest"])
qed

text \<open>A stretch of a text in which no pattern starts is copied.\<close>

definition no_pattern_in :: "string list \<Rightarrow> string list \<Rightarrow> bool" where
  "no_pattern_in mid tail \<longleftrightarrow>
     list_all (\<lambda>i. list_all (\<lambda>p. \<not> starts_with_ignore_ascii_case (drop i mid @ tail) p) all_patterns) [0..<length mid]"

lemma no_pattern_step:
  assumes "\<And>p. p \<in> set all_patterns \<Longrightarrow> \<not> starts_with_ignore_ascii_case (c # cs) p"
  shows "redact_step (c # cs) = (c, cs)"
proof -
  have "List.find (starts_with_ignore_ascii_case (c # cs)) kv_patterns = None"
    using assms by (auto simp: find_None_iff pattern_members)
  then show ?thesis using assms by (simp add: redact_step_def pattern_members)
qed

lemma no_pattern_copied: "no_pattern_in mid tail \<Longrightarrow> redact_chars (mid @ tail) = concat mid @ redact_chars tail"
proof (induction mid)
  case (Cons c mid)
  have at: "\<not> starts_with_ignore_ascii_case (drop i (c # mid) @ tail) p"
    if "i < length (c # mid)" "p \<in> set all_patterns" for i p
    using Cons.prems that by (simp add: no_pattern_in_def list_all_iff del: upt.simps)
  have "no_pattern_in mid tail"
    using at[of "Suc i" for i] by (auto simp: no_pattern_in_def list_all_iff)
  moreover have "redact_step (c # mid @ tail) = (c, mid @ tail)" using no_pattern_step at[of 0] by simp
  ultimately show ?case using Cons.IH by (simp add: redact_chars.simps[of "c # mid @ tail"])
qed simp

section \<open>Properties\<close>

text \<open>C37: A recognised secret leaves no trace in a diagnostic. A text has, after whole lines and after a stretch in
  which no pattern starts, a recognised pattern (a bearer token, an authorization header, an \<open>sk-\<close> key, a password,
  token, secret or API key assignment, in any case) followed by at least one character of its secret. Then the
  redacted text has the marker in place of pattern and secret, with the stretch before copied and the rest redacted in
  its turn, and two texts that differ only in that secret have the same summary, cut at the same place; the summary is
  valid UTF-8 if the redacted text is. The first pattern of a line is always in this place; a later one is redacted
  with the rest.\<close>

theorem redaction_hides_secret:
  assumes "(pat, marker, secret) \<in> set redactions" "length q = length pat" "starts_with_ignore_ascii_case q pat"
    and "pre = [] \<or> last pre = newline_text" "rest = [] \<or> \<not> secret (hd rest)"
    and "text_chars input = pre @ mid @ q @ sec @ rest" "sec \<noteq> []" "list_all secret sec"
    and "no_pattern_in mid (q @ sec @ rest)"
    and "text_chars input' = pre @ mid @ q @ sec' @ rest" "sec' \<noteq> []" "list_all secret sec'"
    and "no_pattern_in mid (q @ sec' @ rest)"
  shows "redact_secrets input = redact_chars pre @ concat mid @ marker @ redact_chars rest
    \<and> from_raw input = from_raw input'
    \<and> (utf8_valid (redact_secrets input) \<longrightarrow> utf8_valid (from_raw input))"
proof -
  have line: "redact_chars (pre @ x) = redact_chars pre @ redact_chars x" for x
  proof (cases "pre = []")
    case False
    then obtain us where "pre = us @ [newline_text]" using assms(4) by (metis append_butlast_last_id)
    then show ?thesis using redact_newline[of us x] by simp
  qed (simp add: redact_chars.simps)
  have one: "redact_secrets input = redact_chars pre @ concat mid @ marker @ redact_chars rest"
    using redact_head[OF assms(1-3,7,8,5)] no_pattern_copied[OF assms(9)] by (simp add: redact_secrets_def assms(6) line)
  moreover have "redact_secrets input' = redact_chars pre @ concat mid @ marker @ redact_chars rest"
    using redact_head[OF assms(1-3,11,12,5)] no_pattern_copied[OF assms(13)] by (simp add: redact_secrets_def assms(10) line)
  ultimately have same: "from_raw input = from_raw input'" by (simp add: from_raw_def)
  have mark: "utf8_valid ''... [truncated]''" by (simp add: byte_in_def)
  have "utf8_valid (redact_secrets input) \<longrightarrow> utf8_valid (from_raw input)"
    using utf8_append[OF char_boundary_valid mark] by (auto simp: from_raw_def Let_def)
  then show ?thesis using one same by blast
qed

theorem redaction_hides_secret_witness:
  "redact_secrets (''x'' @ [CHR 10] @ ''at Token=abc&y'') = ''x'' @ [CHR 10] @ ''at token=[REDACTED]&y''
   \<and> from_raw (''x'' @ [CHR 10] @ ''at Token=abc&y'') = from_raw (''x'' @ [CHR 10] @ ''at Token=zz&y'')"
proof -
  let ?t = "map (\<lambda>c. [c])"
  let ?q = "?t ''Token=''" and ?pre = "[''x'', newline_text]" and ?mid = "?t ''at ''" and ?rest = "?t ''&y''"
  let ?P = "\<lambda>ch. \<not> is_secret_delimiter ch"
  have mem: "(''token='', ''token='' @ ''[REDACTED]'', ?P) \<in> set redactions" by (simp add: redactions_def kv_patterns_def)
  have m: "starts_with_ignore_ascii_case ?q ''token=''" by code_simp
  have r: "?rest = [] \<or> \<not> ?P (hd ?rest)" by code_simp
  have t: "text_chars (''x'' @ [CHR 10] @ ''at Token=abc&y'') = ?pre @ ?mid @ ?q @ ?t ''abc'' @ ?rest"
    "text_chars (''x'' @ [CHR 10] @ ''at Token=zz&y'') = ?pre @ ?mid @ ?q @ ?t ''zz'' @ ?rest" by code_simp+
  have s: "list_all ?P (?t ''abc'')" "list_all ?P (?t ''zz'')" by code_simp+
  have n: "no_pattern_in ?mid (?q @ ?t ''abc'' @ ?rest)" "no_pattern_in ?mid (?q @ ?t ''zz'' @ ?rest)" by code_simp+
  have "redact_chars ?pre = ''x'' @ [CHR 10]" "redact_chars ?rest = ''&y''" by code_simp+
  then show ?thesis using redaction_hides_secret[OF mem _ m _ r t(1) _ s(1) n(1) t(2) _ s(2) n(2)] by simp
qed

text \<open>A second blank after \<open>bearer\<close> ends the secret before it starts, and an \<open>sk-\<close> that is the end of a word takes the
  name of a following key with it and leaves its value.\<close>

theorem secrets_left_in_diagnostics:
  "redact_secrets ''Bearer  abc123'' = ''Bearer [REDACTED] abc123''
   \<and> redact_secrets ''disk-password=hunter2'' = ''disk-[REDACTED]=hunter2''"
  by code_simp

text \<open>A truncated summary is longer than the maximum.\<close>

lemma copies_plain: "redact_chars (replicate n ''z'') = replicate n (CHR ''z'')"
proof (induction n)
  case (Suc n)
  have "\<not> starts_with_ignore_ascii_case (''z'' # replicate n ''z'') p" if "p \<in> set all_patterns" for p
  proof -
    have "to_ascii_lower (CHR ''z'') = CHR ''z''" by code_simp
    then have "lower_chars (''z'' # replicate n ''z'') = ''z'' # lower_chars (replicate n ''z'')" by (simp add: lower_chars_def)
    then show ?thesis
      using that patterns_lower[OF that] by (auto simp: starts_ci_iff all_patterns_def kv_patterns_def starts_with_def)
  qed
  moreover from this have "List.find (starts_with_ignore_ascii_case (''z'' # replicate n ''z'')) kv_patterns = None"
    by (auto simp: find_None_iff pattern_members)
  ultimately have "redact_step (''z'' # replicate n ''z'') = (''z'', replicate n ''z'')"
    by (simp add: redact_step_def pattern_members)
  then show ?case using Suc by (simp add: redact_chars.simps[of "''z'' # _"])
qed (simp add: redact_chars.simps)

lemma boundary_ascii: "n < length s \<Longrightarrow> starts_char (s ! n) \<Longrightarrow> char_boundary s n = n"
  by (cases n) auto

theorem summary_exceeds_maximum: "length (from_raw (replicate 5000 (CHR ''z''))) = max_diagnostics_bytes + 15"
proof -
  let ?s = "replicate 5000 (CHR ''z'')"
  have "list_all (\<lambda>c. \<not> is_continuation c) ?s" by (simp add: list_all_iff is_continuation_def)
  then have "text_chars ?s = replicate 5000 ''z''" by (simp only: text_chars_ascii map_replicate)
  then have r: "redact_secrets ?s = ?s" by (simp only: redact_secrets_def copies_plain)
  have "?s ! max_diagnostics_bytes = CHR ''z''" by (rule nth_replicate) (simp add: max_diagnostics_bytes_def)
  then have b: "char_boundary ?s max_diagnostics_bytes = max_diagnostics_bytes"
    by (intro boundary_ascii) (simp_all only: length_replicate starts_char_def, simp_all add: max_diagnostics_bytes_def byte_in_def)
  have "max_diagnostics_bytes < length ?s" by (simp only: length_replicate) (simp add: max_diagnostics_bytes_def)
  then show ?thesis unfolding from_raw_def r Let_def b by (simp only: if_True length_append length_take) simp
qed

end
