(* ===== verification/Runtime_Model.thy ===== *)
theory Runtime_Model
  imports Core_Registry Domain_Entity Diagnostics
begin

text \<open>
  The agent runtime of Core, \<open>crates/altior-core/src/runtime\<close>: the types of \<open>state.rs\<close>, the thread
  supervisor of \<open>supervisor.rs\<close> and the coordinator of \<open>coordinator.rs\<close>.

  The harness and checkpoint ports (\<open>ports.rs\<close>) are implemented elsewhere. Every call of a port is an
  entry of a trace, and the answer of a port is a function of the trace up to and including the call,
  so a port may keep any state of its own. Identifiers are strings; a diagnostics summary is
  the redacted and bounded text of \<open>Diagnostics\<close>.
\<close>

section \<open>Types\<close>

type_synonym diagnostics_summary = string

record harness_session_info =
  hs_session :: string
  hs_capabilities :: capability_set

datatype harness_event =
    HvStarted string
  | HvMessageDelta string
  | HvPermissionRequest string string string
  | HvCompleted "string option"
  | HvFailed string delivery_state
  | HvCancelled
  | HvProcessExited "int option"
  | HvToolCall string "string option"
  | HvRawUnknown string string

datatype checkpoint_intent =
    IntentPrompt string string string u64
  | IntentPermission string string string permission_decision u64
  | IntentCancel string "string option" "string option" u64
  | IntentClose string u64

datatype checkpoint_settled =
    PromptDelivered string string delivery_state u64
  | PermissionSettled string string string permission_decision u64
  | TurnTerminal string string turn_state delivery_state u64
  | SessionClosed string u64

datatype harness_error =
    SpawnFailed string
  | ProcessDied "int option" "diagnostics_summary option"
  | HarnessTransport string
  | SessionNotFound string
  | HarnessProtocol string
  | HarnessOther string

text \<open>Why a session crashed: the value the source formats into its reason text.\<close>

datatype crash_reason = FromHarness harness_error | FromExit "int option" | FromText string

datatype supervisor_state =
    StIdle
  | StStarting
  | StReady
  | StPrompting string string delivery_state
  | StAwaitingPermission string string string
  | StCancelling "string option" "string option"
  | StClosed
  | StCrashed crash_reason delivery_state

datatype turn_admission = Admitted | AdmissionDuplicate
datatype cancel_outcome = CancelledActive | AlreadyCancelling | NoActiveTurnToCancel

datatype runtime_event =
    RtTurnStarted string string
  | RtMessageDelta string string string
  | RtPermissionRequested string string string string string
  | RtTurnCompleted string string "string option"
  | RtTurnFailed string string string delivery_state
  | RtTurnCancelled string string
  | RtProcessExited string "int option"
  | RtToolCall string string string "string option"
  | RtUnknown string string diagnostics_summary

datatype checkpoint_error = Persistence string | Conflict string | CheckpointOther string

text \<open>The state a refused request was made in; the source keeps its \<open>Debug\<close> text.\<close>

datatype not_ready = InState supervisor_state | NoBoundSession

datatype runtime_error =
    OperationAdmitFailed admission_error
  | DuplicateOperation string
  | SessionNotReady not_ready
  | ActiveOperationInProgress string string
  | NoActiveTurn string
  | AutomaticResendForbidden string string delivery_state
  | UnsupportedCapability string
  | PermissionNotFound string string
  | HarnessFailed harness_error
  | CheckpointFailed checkpoint_error
  | UnknownThread string
  | SessionAlreadyActive string
  | InvalidSessionId string

section \<open>Ports\<close>

datatype port_call =
    CallIntent checkpoint_intent
  | CallSettle checkpoint_settled
  | CallBind string string string
  | CallCreate string string
  | CallResume string string string
  | CallSend string string string string
  | CallCancel string
  | CallDecide string string permission_decision
  | CallPoll string
  | CallClose string

type_synonym trace = "port_call list"

record ports =
  ask_intent :: "trace \<Rightarrow> (checkpoint_error, unit) result"
  ask_settle :: "trace \<Rightarrow> (checkpoint_error, unit) result"
  ask_create :: "trace \<Rightarrow> (harness_error, harness_session_info) result"
  ask_resume :: "trace \<Rightarrow> (harness_error, harness_session_info) result"
  ask_send :: "trace \<Rightarrow> (harness_error, unit) result"
  ask_cancel :: "trace \<Rightarrow> (harness_error, unit) result"
  ask_decide :: "trace \<Rightarrow> (harness_error, unit) result"
  ask_poll :: "trace \<Rightarrow> (harness_error, harness_event option) result"

section \<open>The thread supervisor\<close>

definition operation_registry_capacity :: nat where
  "operation_registry_capacity = 32"

record turn_record =
  tr_turn :: string
  tr_operation :: string
  tr_delivery :: delivery_state
  tr_state :: turn_state

record thread_supervisor =
  ts_thread :: string
  ts_session :: "string option"
  ts_capabilities :: capability_set
  ts_state :: supervisor_state
  ts_ownership :: turn_ownership
  ts_operations :: operation_registry
  ts_history :: "(string \<times> turn_record) list"

definition ts_new :: "string \<Rightarrow> thread_supervisor" where
  "ts_new thread = \<lparr>ts_thread = thread, ts_session = None, ts_capabilities = [], ts_state = StIdle,
     ts_ownership = [],
     ts_operations = \<lparr>reg_admitted = [], reg_finished = [], reg_capacity = operation_registry_capacity\<rparr>,
     ts_history = []\<rparr>"

definition mark_starting :: "thread_supervisor \<Rightarrow> thread_supervisor" where
  "mark_starting s = s\<lparr>ts_state := StStarting\<rparr>"

definition reset_idle :: "thread_supervisor \<Rightarrow> thread_supervisor" where
  "reset_idle s = s\<lparr>ts_state := StIdle, ts_session := None\<rparr>"

definition on_session_established ::
  "thread_supervisor \<Rightarrow> string \<Rightarrow> capability_set \<Rightarrow> thread_supervisor" where
  "on_session_established s session caps =
     s\<lparr>ts_session := Some session, ts_capabilities := caps, ts_state := StReady\<rparr>"

definition check_capability :: "thread_supervisor \<Rightarrow> string \<Rightarrow> (runtime_error, unit) result" where
  "check_capability s name =
     (case capability_id_from_str name of
        Inr cap \<Rightarrow>
          (if capability_get (ts_capabilities s) cap = Some Unsupported
           then Err (UnsupportedCapability cap) else Okay ())
      | Inl _ \<Rightarrow> Okay ())"

definition resend_forbidden :: "thread_supervisor \<Rightarrow> string \<Rightarrow> delivery_state option" where
  "resend_forbidden s turn =
     (case map_of (ts_history s) turn of
        None \<Rightarrow> None
      | Some r \<Rightarrow> (if tr_delivery r = Indeterminate \<or> tr_delivery r = Confirmed
                  then Some (tr_delivery r) else None))"

fun active_turn :: "supervisor_state \<Rightarrow> string option" where
  "active_turn (StPrompting t _ _) = Some t"
| "active_turn (StAwaitingPermission t _ _) = Some t"
| "active_turn (StCancelling (Some t) _) = Some t"
| "active_turn _ = None"

fun active_pair :: "supervisor_state \<Rightarrow> (string \<times> string) option" where
  "active_pair (StPrompting t op _) = Some (t, op)"
| "active_pair (StAwaitingPermission t op _) = Some (t, op)"
| "active_pair (StCancelling (Some t) (Some op)) = Some (t, op)"
| "active_pair _ = None"

text \<open>The state guard shared by \<open>preflight_prompt\<close> and \<open>prompt\<close>: resend, state, session.\<close>

definition prompt_guard :: "thread_supervisor \<Rightarrow> string \<Rightarrow> (runtime_error, string) result" where
  "prompt_guard s turn =
     (case resend_forbidden s turn of
        Some d \<Rightarrow> Err (AutomaticResendForbidden (ts_thread s) turn d)
      | None \<Rightarrow>
          if ts_state s \<noteq> StReady
          then (case active_turn (ts_state s) of
                  Some active \<Rightarrow> Err (ActiveOperationInProgress (ts_thread s) active)
                | None \<Rightarrow> Err (SessionNotReady (InState (ts_state s))))
          else case ts_session s of
            None \<Rightarrow> Err (SessionNotReady NoBoundSession)
          | Some session \<Rightarrow> Okay session)"

definition preflight_prompt ::
  "thread_supervisor \<Rightarrow> string \<Rightarrow> string \<Rightarrow> (runtime_error, turn_admission) result" where
  "preflight_prompt s op turn =
     (case prompt_guard s turn of
        Inl e \<Rightarrow> Err e
      | Inr _ \<Rightarrow> Okay (if registry_knows (ts_operations s) op then AdmissionDuplicate else Admitted))"

definition active_permission_turn :: "thread_supervisor \<Rightarrow> string \<Rightarrow> string option" where
  "active_permission_turn s perm =
     (case ts_state s of
        StAwaitingPermission t _ pending \<Rightarrow> (if pending = perm then Some t else None)
      | _ \<Rightarrow> None)"

definition prompt ::
  "ports \<Rightarrow> thread_supervisor \<Rightarrow> trace \<Rightarrow> string \<Rightarrow> string \<Rightarrow> string \<Rightarrow> u64
   \<Rightarrow> (runtime_error, turn_admission) result \<times> thread_supervisor \<times> trace" where
  "prompt P s tr op turn content now =
     (case prompt_guard s turn of
        Inl e \<Rightarrow> (Err e, s, tr)
      | Inr session \<Rightarrow>
          (case admit_operation (ts_operations s) op of
             (Inr DuplicateOp, _) \<Rightarrow> (Okay AdmissionDuplicate, s, tr)
           | (Inl e, _) \<Rightarrow> (Err (OperationAdmitFailed e), s, tr)
           | (Inr Execute, reg) \<Rightarrow>
               let s1 = s\<lparr>ts_operations := reg\<rparr>;
                   tr1 = tr @ [CallIntent (IntentPrompt (ts_thread s) turn op now)] in
               (case ask_intent P tr1 of
                  Inl e \<Rightarrow> (Err (CheckpointFailed e), s1, tr1)
                | Inr _ \<Rightarrow>
                    let tr2 = tr1 @ [CallSend session turn op content] in
                    (case ask_send P tr2 of
                       Inl err \<Rightarrow>
                         let tr3 = tr2 @ [CallSettle (PromptDelivered (ts_thread s) turn Indeterminate now),
                               CallSettle (TurnTerminal (ts_thread s) turn TsFailed Indeterminate now)] in
                         (Err (HarnessFailed err),
                          s1\<lparr>ts_history := bt_insert turn \<lparr>tr_turn = turn, tr_operation = op,
                                 tr_delivery = Indeterminate, tr_state = TsFailed\<rparr> (ts_history s1),
                             ts_state := StCrashed (FromHarness err) Indeterminate\<rparr>, tr3)
                     | Inr _ \<Rightarrow>
                         let tr3 = tr2 @ [CallSettle (PromptDelivered (ts_thread s) turn Indeterminate now)] in
                         (case ask_settle P tr3 of
                            Inl e \<Rightarrow> (Err (CheckpointFailed e), s1, tr3)
                          | Inr _ \<Rightarrow>
                              (Okay Admitted,
                               s1\<lparr>ts_ownership := ownership_start (ts_ownership s1) turn op,
                                  ts_state := StPrompting turn op Indeterminate\<rparr>, tr3))))))"

text \<open>A turn reaches a terminal state: settle, retire the operation, remember the delivery.\<close>

definition record_turn ::
  "thread_supervisor \<Rightarrow> string \<Rightarrow> string \<Rightarrow> turn_state \<Rightarrow> delivery_state \<Rightarrow> supervisor_state
   \<Rightarrow> thread_supervisor" where
  "record_turn s turn op st delivery next_state =
     s\<lparr>ts_operations := retire (ts_operations s) op,
       ts_history := bt_insert turn \<lparr>tr_turn = turn, tr_operation = op, tr_delivery = delivery,
         tr_state = st\<rparr> (ts_history s),
       ts_state := next_state\<rparr>"

definition finish_turn ::
  "ports \<Rightarrow> thread_supervisor \<Rightarrow> trace \<Rightarrow> string \<Rightarrow> string \<Rightarrow> turn_state \<Rightarrow> delivery_state
   \<Rightarrow> supervisor_state \<Rightarrow> u64 \<Rightarrow> runtime_event
   \<Rightarrow> (runtime_error, runtime_event option) result \<times> thread_supervisor \<times> trace" where
  "finish_turn P s tr turn op st delivery next_state now ev =
     (let tr1 = tr @ [CallSettle (TurnTerminal (ts_thread s) turn st delivery now)] in
      case ask_settle P tr1 of
        Inl e \<Rightarrow> (Err (CheckpointFailed e), s, tr1)
      | Inr _ \<Rightarrow> (Okay (Some ev), record_turn s turn op st delivery next_state, tr1))"

definition untracked :: "thread_supervisor \<Rightarrow> string \<Rightarrow> string \<Rightarrow> runtime_event" where
  "untracked s name raw = RtUnknown (ts_thread s) name (from_raw raw)"

definition payload_text :: "string option \<Rightarrow> string" where
  "payload_text payload =
     (case payload of
        Some p \<Rightarrow> (if utf8_valid p then p else ''completed without active turn'')
      | None \<Rightarrow> ''completed without active turn'')"

fun apply_event ::
  "ports \<Rightarrow> thread_supervisor \<Rightarrow> trace \<Rightarrow> u64 \<Rightarrow> harness_event
   \<Rightarrow> (runtime_error, runtime_event option) result \<times> thread_supervisor \<times> trace" where
  "apply_event P s tr now (HvStarted turn) = (Okay (Some (RtTurnStarted (ts_thread s) turn)), s, tr)"
| "apply_event P s tr now (HvMessageDelta text) =
     (Okay (Some (case active_turn (ts_state s) of
        Some t \<Rightarrow> RtMessageDelta (ts_thread s) t text
      | None \<Rightarrow> untracked s ''untracked.message_delta'' text)), s, tr)"
| "apply_event P s tr now (HvPermissionRequest event kind desc) =
     (case ts_state s of
        StPrompting t op _ \<Rightarrow>
          (Okay (Some (RtPermissionRequested (ts_thread s) t event kind desc)),
           s\<lparr>ts_state := StAwaitingPermission t op event\<rparr>, tr)
      | _ \<Rightarrow> (Okay None, s, tr))"
| "apply_event P s tr now (HvCompleted payload) =
     (case active_pair (ts_state s) of
        Some (t, op) \<Rightarrow>
          finish_turn P s tr t op TsCompleted Confirmed StReady now (RtTurnCompleted (ts_thread s) t payload)
      | None \<Rightarrow>
          (Okay (Some (untracked s ''untracked.completed''
             (payload_text payload))), s, tr))"
| "apply_event P s tr now HvCancelled =
     (case active_pair (ts_state s) of
        Some (t, op) \<Rightarrow>
          finish_turn P s tr t op TsCancelled Confirmed StReady now (RtTurnCancelled (ts_thread s) t)
      | None \<Rightarrow>
          (Okay (Some (untracked s ''untracked.cancelled'' ''cancelled without active turn'')), s, tr))"
| "apply_event P s tr now (HvFailed error delivery) =
     (case active_pair (ts_state s) of
        Some (t, op) \<Rightarrow>
          finish_turn P s tr t op TsFailed delivery
            (if delivery = Indeterminate then StCrashed (FromText error) delivery else StReady)
            now (RtTurnFailed (ts_thread s) t error delivery)
      | None \<Rightarrow> (Okay (Some (untracked s ''untracked.failed'' error)), s, tr))"
| "apply_event P s tr now (HvProcessExited code) =
     (let ev = Okay (Some (RtProcessExited (ts_thread s) code));
          crash = (\<lambda>t op. (ev, record_turn s t op TsFailed Indeterminate
             (StCrashed (FromExit code) Indeterminate),
             tr @ [CallSettle (TurnTerminal (ts_thread s) t TsFailed Indeterminate now)])) in
      case ts_state s of
        StPrompting t op _ \<Rightarrow> crash t op
      | StAwaitingPermission t op _ \<Rightarrow> crash t op
      | StCancelling _ _ \<Rightarrow> (ev, s\<lparr>ts_state := StClosed\<rparr>, tr)
      | StReady \<Rightarrow> (ev, s\<lparr>ts_state := StClosed\<rparr>, tr)
      | StIdle \<Rightarrow> (ev, s\<lparr>ts_state := StClosed\<rparr>, tr)
      | _ \<Rightarrow> (ev, s, tr))"
| "apply_event P s tr now (HvToolCall call status) =
     (Okay (Some (case active_turn (ts_state s) of
        Some t \<Rightarrow> RtToolCall (ts_thread s) t call status
      | None \<Rightarrow> untracked s ''untracked.tool_call'' call)), s, tr)"
| "apply_event P s tr now (HvRawUnknown name data) =
     (Okay (Some (RtUnknown (ts_thread s) name (from_raw data))), s, tr)"

definition poll_stream ::
  "ports \<Rightarrow> thread_supervisor \<Rightarrow> trace \<Rightarrow> u64
   \<Rightarrow> (runtime_error, runtime_event option) result \<times> thread_supervisor \<times> trace" where
  "poll_stream P s tr now =
     (case ts_session s of
        None \<Rightarrow> (Okay None, s, tr)
      | Some session \<Rightarrow>
          let tr1 = tr @ [CallPoll session] in
          (case ask_poll P tr1 of
             Inl e \<Rightarrow> (Err (HarnessFailed e), s, tr1)
           | Inr None \<Rightarrow> (Okay None, s, tr1)
           | Inr (Some ev) \<Rightarrow> apply_event P s tr1 now ev))"

definition decide_permission ::
  "ports \<Rightarrow> thread_supervisor \<Rightarrow> trace \<Rightarrow> string \<Rightarrow> permission_decision \<Rightarrow> u64
   \<Rightarrow> (runtime_error, unit) result \<times> thread_supervisor \<times> trace" where
  "decide_permission P s tr perm decision now =
     (case ts_state s of
        StAwaitingPermission turn op pending \<Rightarrow>
          if pending \<noteq> perm then (Err (PermissionNotFound (ts_thread s) perm), s, tr)
          else (case ts_session s of
            None \<Rightarrow> (Err (SessionNotReady NoBoundSession), s, tr)
          | Some session \<Rightarrow>
              let tr1 = tr @ [CallIntent (IntentPermission (ts_thread s) turn perm decision now)] in
              (case ask_intent P tr1 of
                 Inl e \<Rightarrow> (Err (CheckpointFailed e), s, tr1)
               | Inr _ \<Rightarrow>
                   let tr2 = tr1 @ [CallDecide session perm decision] in
                   (case ask_decide P tr2 of
                      Inl e \<Rightarrow> (Err (HarnessFailed e), s, tr2)
                    | Inr _ \<Rightarrow>
                        let tr3 = tr2 @ [CallSettle (PermissionSettled (ts_thread s) turn perm decision now)] in
                        (case ask_settle P tr3 of
                           Inl e \<Rightarrow> (Err (CheckpointFailed e), s, tr3)
                         | Inr _ \<Rightarrow> (Okay (), s\<lparr>ts_state := StPrompting turn op Indeterminate\<rparr>, tr3)))))
      | _ \<Rightarrow> (Err (PermissionNotFound (ts_thread s) perm), s, tr))"

definition steer_cancel ::
  "ports \<Rightarrow> thread_supervisor \<Rightarrow> trace \<Rightarrow> u64
   \<Rightarrow> (runtime_error, cancel_outcome) result \<times> thread_supervisor \<times> trace" where
  "steer_cancel P s tr now =
     (case check_capability s ''session.cancel'' of
        Inl e \<Rightarrow> (Err e, s, tr)
      | Inr _ \<Rightarrow>
          let stop = (\<lambda>turn op.
            (case ts_session s of
               None \<Rightarrow> (Err (SessionNotReady NoBoundSession), s, tr)
             | Some session \<Rightarrow>
                 let tr1 = tr @ [CallIntent (IntentCancel (ts_thread s) (Some turn) (Some op) now)] in
                 (case ask_intent P tr1 of
                    Inl e \<Rightarrow> (Err (CheckpointFailed e), s, tr1)
                  | Inr _ \<Rightarrow>
                      let tr2 = tr1 @ [CallCancel session] in
                      (case ask_cancel P tr2 of
                         Inl e \<Rightarrow> (Err (HarnessFailed e), s, tr2)
                       | Inr _ \<Rightarrow>
                           (Okay CancelledActive,
                            s\<lparr>ts_state := StCancelling (Some turn) (Some op)\<rparr>, tr2))))) in
          (case ts_state s of
             StCancelling _ _ \<Rightarrow> (Okay AlreadyCancelling, s, tr)
           | StPrompting turn op _ \<Rightarrow> stop turn op
           | StAwaitingPermission turn op _ \<Rightarrow> stop turn op
           | _ \<Rightarrow> (Okay NoActiveTurnToCancel, s, tr)))"

text \<open>Closing ignores the answers of its three calls.\<close>

definition close_session ::
  "thread_supervisor \<Rightarrow> trace \<Rightarrow> u64 \<Rightarrow> (runtime_error, unit) result \<times> thread_supervisor \<times> trace" where
  "close_session s tr now =
     (case ts_session s of
        None \<Rightarrow> (Okay (), s\<lparr>ts_state := StClosed\<rparr>, tr)
      | Some session \<Rightarrow>
          (Okay (), s\<lparr>ts_session := None, ts_state := StClosed\<rparr>,
           tr @ [CallIntent (IntentClose (ts_thread s) now), CallClose session,
                 CallSettle (SessionClosed (ts_thread s) now)]))"

definition on_desktop_lifecycle ::
  "thread_supervisor \<Rightarrow> desktop_lifecycle \<Rightarrow> turn_transition \<times> thread_supervisor" where
  "on_desktop_lifecycle s event =
     (case active_turn (ts_state s) of
        Some t \<Rightarrow>
          (case ownership_on_desktop (ts_ownership s) event t of
             (transition, own) \<Rightarrow> (transition, s\<lparr>ts_ownership := own\<rparr>))
      | None \<Rightarrow> (StillRunning, s))"

section \<open>The coordinator\<close>

record coordinator =
  co_threads :: "(string \<times> thread_supervisor) list"
  co_trace :: trace

definition co_new :: coordinator where
  "co_new = \<lparr>co_threads = [], co_trace = []\<rparr>"

definition put_thread :: "coordinator \<Rightarrow> string \<Rightarrow> thread_supervisor \<Rightarrow> trace \<Rightarrow> coordinator" where
  "put_thread c thread s tr = \<lparr>co_threads = bt_insert thread s (co_threads c), co_trace = tr\<rparr>"

definition entry_or_new :: "coordinator \<Rightarrow> string \<Rightarrow> thread_supervisor" where
  "entry_or_new c thread =
     (case map_of (co_threads c) thread of Some s \<Rightarrow> s | None \<Rightarrow> ts_new thread)"

definition co_create_session ::
  "ports \<Rightarrow> coordinator \<Rightarrow> string \<Rightarrow> string \<Rightarrow> (runtime_error, string) result \<times> coordinator" where
  "co_create_session P c binding thread =
     (let s = entry_or_new c thread in
      if ts_session s \<noteq> None
      then (Err (SessionAlreadyActive thread), put_thread c thread s (co_trace c))
      else
        let tr1 = co_trace c @ [CallCreate binding thread] in
        (case ask_create P tr1 of
           Inl e \<Rightarrow> (Err (HarnessFailed e), put_thread c thread (reset_idle (mark_starting s)) tr1)
         | Inr info \<Rightarrow>
             (Okay (hs_session info),
              put_thread c thread
                (on_session_established (mark_starting s) (hs_session info) (hs_capabilities info))
                (tr1 @ [CallBind thread binding (hs_session info)]))))"

definition co_resume_session ::
  "ports \<Rightarrow> coordinator \<Rightarrow> string \<Rightarrow> string \<Rightarrow> string \<Rightarrow> (runtime_error, unit) result \<times> coordinator" where
  "co_resume_session P c binding thread session =
     (let s = entry_or_new c thread in
      if ts_session s \<noteq> None
      then (Err (SessionAlreadyActive thread), put_thread c thread s (co_trace c))
      else
        let tr1 = co_trace c @ [CallResume binding session thread] in
        (case ask_resume P tr1 of
           Inl e \<Rightarrow> (Err (HarnessFailed e), put_thread c thread (reset_idle (mark_starting s)) tr1)
         | Inr info \<Rightarrow>
             if capability_get (hs_capabilities info) ''session.resume'' = Some Unsupported
             then (Err (UnsupportedCapability ''session.resume''),
                   put_thread c thread (reset_idle (mark_starting s)) tr1)
             else
               (Okay (),
                put_thread c thread
                  (on_session_established (mark_starting s) (hs_session info) (hs_capabilities info))
                  (tr1 @ [CallBind thread binding session]))))"

text \<open>The operations that look a thread up and run on its supervisor; \<open>now\<close> is 0 in the source.\<close>

definition on_thread ::
  "coordinator \<Rightarrow> string
   \<Rightarrow> (thread_supervisor \<Rightarrow> trace \<Rightarrow> (runtime_error, 'a) result \<times> thread_supervisor \<times> trace)
   \<Rightarrow> (runtime_error, 'a) result \<times> coordinator" where
  "on_thread c thread f =
     (case map_of (co_threads c) thread of
        None \<Rightarrow> (Err (UnknownThread thread), c)
      | Some s \<Rightarrow> (case f s (co_trace c) of (r, s', tr') \<Rightarrow> (r, put_thread c thread s' tr')))"

definition co_prompt ::
  "ports \<Rightarrow> coordinator \<Rightarrow> string \<Rightarrow> string \<Rightarrow> string \<Rightarrow> string
   \<Rightarrow> (runtime_error, turn_admission) result \<times> coordinator" where
  "co_prompt P c thread op turn content =
     on_thread c thread (\<lambda>s tr. prompt P s tr op turn content 0)"

definition co_poll_stream ::
  "ports \<Rightarrow> coordinator \<Rightarrow> string \<Rightarrow> (runtime_error, runtime_event option) result \<times> coordinator" where
  "co_poll_stream P c thread = on_thread c thread (\<lambda>s tr. poll_stream P s tr 0)"

definition co_decide_permission ::
  "ports \<Rightarrow> coordinator \<Rightarrow> string \<Rightarrow> string \<Rightarrow> permission_decision
   \<Rightarrow> (runtime_error, unit) result \<times> coordinator" where
  "co_decide_permission P c thread perm decision =
     on_thread c thread (\<lambda>s tr. decide_permission P s tr perm decision 0)"

definition co_steer_cancel ::
  "ports \<Rightarrow> coordinator \<Rightarrow> string \<Rightarrow> (runtime_error, cancel_outcome) result \<times> coordinator" where
  "co_steer_cancel P c thread = on_thread c thread (\<lambda>s tr. steer_cancel P s tr 0)"

definition co_close_session ::
  "coordinator \<Rightarrow> string \<Rightarrow> (runtime_error, unit) result \<times> coordinator" where
  "co_close_session c thread = on_thread c thread (\<lambda>s tr. close_session s tr 0)"

fun drain_threads ::
  "(string \<times> thread_supervisor) list \<Rightarrow> trace \<Rightarrow> u64 \<Rightarrow> (string \<times> thread_supervisor) list \<times> trace" where
  "drain_threads [] tr now = ([], tr)"
| "drain_threads ((t, s) # ss) tr now =
     (case close_session s tr now of
        (_, s', tr') \<Rightarrow> (case drain_threads ss tr' now of (ss', tr'') \<Rightarrow> ((t, s') # ss', tr'')))"

definition co_drain_for_shutdown :: "coordinator \<Rightarrow> u64 \<Rightarrow> coordinator" where
  "co_drain_for_shutdown c now =
     (case drain_threads (co_threads c) (co_trace c) now of
        (ts, tr) \<Rightarrow> \<lparr>co_threads = ts, co_trace = tr\<rparr>)"

definition co_preflight_prompt ::
  "coordinator \<Rightarrow> string \<Rightarrow> string \<Rightarrow> string \<Rightarrow> (runtime_error, turn_admission) result" where
  "co_preflight_prompt c thread op turn =
     (case map_of (co_threads c) thread of
        None \<Rightarrow> Err (UnknownThread thread)
      | Some s \<Rightarrow> preflight_prompt s op turn)"

end
