(* ===== verification/Runtime_Supervisor.thy ===== *)
theory Runtime_Supervisor
  imports Runtime_Model
begin

text \<open>
  What the agent runtime promises over whole runs of the coordinator, whatever its ports answer:
  intents are durable before effects, a turn whose delivery is indeterminate or confirmed is never
  sent again, an operation is prompted once, threads do not interfere, terminal turns are settled.
\<close>

section \<open>Steps\<close>

text \<open>Everything a coordinator does to one supervisor, with the calls it makes.\<close>

inductive sup_move ::
  "ports \<Rightarrow> thread_supervisor \<Rightarrow> trace \<Rightarrow> thread_supervisor \<Rightarrow> trace \<Rightarrow> bool" for P where
  mv_none: "sup_move P s tr s tr"
| mv_prompt: "prompt P s tr op turn content now = (r, s', tr') \<Longrightarrow> sup_move P s tr s' tr'"
| mv_poll: "poll_stream P s tr now = (r, s', tr') \<Longrightarrow> sup_move P s tr s' tr'"
| mv_decide: "decide_permission P s tr perm d now = (r, s', tr') \<Longrightarrow> sup_move P s tr s' tr'"
| mv_cancel: "steer_cancel P s tr now = (r, s', tr') \<Longrightarrow> sup_move P s tr s' tr'"
| mv_close: "close_session s tr now = (r, s', tr') \<Longrightarrow> sup_move P s tr s' tr'"
| mv_desktop: "on_desktop_lifecycle s ev = (r, s') \<Longrightarrow> sup_move P s tr s' tr"
| mv_create: "ts_session s = None \<Longrightarrow>
    sup_move P s tr (on_session_established (mark_starting s) sid caps)
      (tr @ [CallCreate b th, CallBind th b sid])"
| mv_create_failed: "ts_session s = None \<Longrightarrow>
    sup_move P s tr (reset_idle (mark_starting s)) (tr @ [CallCreate b th])"
| mv_resume: "ts_session s = None \<Longrightarrow>
    sup_move P s tr (on_session_established (mark_starting s) sid caps)
      (tr @ [CallResume b sid' th, CallBind th b sid'])"
| mv_resume_failed: "ts_session s = None \<Longrightarrow>
    sup_move P s tr (reset_idle (mark_starting s)) (tr @ [CallResume b sid th])"

datatype co_op =
    CoCreate string string
  | CoResume string string string
  | CoPrompt string string string string
  | CoPoll string
  | CoDecide string string permission_decision
  | CoCancel string
  | CoClose string
  | CoDesktop string desktop_lifecycle
  | CoDrain u64

fun co_step :: "ports \<Rightarrow> coordinator \<Rightarrow> co_op \<Rightarrow> coordinator" where
  "co_step P c (CoCreate b th) = snd (co_create_session P c b th)"
| "co_step P c (CoResume b th sid) = snd (co_resume_session P c b th sid)"
| "co_step P c (CoPrompt th op turn content) = snd (co_prompt P c th op turn content)"
| "co_step P c (CoPoll th) = snd (co_poll_stream P c th)"
| "co_step P c (CoDecide th perm d) = snd (co_decide_permission P c th perm d)"
| "co_step P c (CoCancel th) = snd (co_steer_cancel P c th)"
| "co_step P c (CoClose th) = snd (co_close_session c th)"
| "co_step P c (CoDesktop th ev) =
     snd (on_thread c th (\<lambda>s tr. (Okay (), snd (on_desktop_lifecycle s ev), tr)))"
| "co_step P c (CoDrain now) = co_drain_for_shutdown c now"

fun co_thread :: "co_op \<Rightarrow> string option" where
  "co_thread (CoCreate b th) = Some th"
| "co_thread (CoResume b th sid) = Some th"
| "co_thread (CoPrompt th _ _ _) = Some th"
| "co_thread (CoPoll th) = Some th"
| "co_thread (CoDecide th _ _) = Some th"
| "co_thread (CoCancel th) = Some th"
| "co_thread (CoClose th) = Some th"
| "co_thread (CoDesktop th _) = Some th"
| "co_thread (CoDrain _) = None"

lemma co_step_move:
  assumes "co_thread x = Some th"
  shows "co_step P c x = c \<or>
    (\<exists>s' tr'. sup_move P (entry_or_new c th) (co_trace c) s' tr' \<and> co_step P c x = put_thread c th s' tr')"
proof -
  have look: "snd (on_thread c th f) = c \<or> (\<exists>r s' tr'. f (entry_or_new c th) (co_trace c) = (r, s', tr')
      \<and> snd (on_thread c th f) = put_thread c th s' tr')"
    for f :: "thread_supervisor \<Rightarrow> trace \<Rightarrow> (runtime_error, 'x) result \<times> thread_supervisor \<times> trace"
    by (auto simp: on_thread_def entry_or_new_def split: option.splits prod.splits)
  show ?thesis
  proof (cases x)
    case (CoCreate b th')
    then show ?thesis
      using assms
      by (auto simp: co_create_session_def Let_def split: sum.splits intro: sup_move.intros)
  next
    case (CoResume b th' sid)
    then show ?thesis
      using assms
      by (auto simp: co_resume_session_def Let_def split: sum.splits intro: sup_move.intros)
  next
    case (CoPrompt th' op turn content)
    then show ?thesis
      using assms look[of "\<lambda>s tr. prompt P s tr op turn content 0"]
      by (auto simp: co_prompt_def intro: mv_prompt)
  next
    case (CoPoll th')
    then show ?thesis
      using assms look[of "\<lambda>s tr. poll_stream P s tr 0"]
      by (auto simp: co_poll_stream_def intro: mv_poll)
  next
    case (CoDecide th' perm d)
    then show ?thesis
      using assms look[of "\<lambda>s tr. decide_permission P s tr perm d 0"]
      by (auto simp: co_decide_permission_def intro: mv_decide)
  next
    case (CoCancel th')
    then show ?thesis
      using assms look[of "\<lambda>s tr. steer_cancel P s tr 0"]
      by (auto simp: co_steer_cancel_def intro: mv_cancel)
  next
    case (CoClose th')
    then show ?thesis
      using assms look[of "\<lambda>s tr. close_session s tr 0"]
      by (auto simp: co_close_session_def intro: mv_close)
  next
    case (CoDesktop th' ev)
    have "sup_move P s tr (snd (on_desktop_lifecycle s ev)) tr" for s tr
      by (rule mv_desktop[OF prod.collapse[symmetric]])
    then show ?thesis
      using assms CoDesktop look[of "\<lambda>s tr. (Okay (), snd (on_desktop_lifecycle s ev), tr)"] by auto
  next
    case (CoDrain now)
    then show ?thesis using assms by simp
  qed
qed

section \<open>Intents before effects\<close>

text \<open>The prompts a trace announces for a thread, in order.\<close>

definition announced :: "string \<Rightarrow> trace \<Rightarrow> (string \<times> string) list" where
  "announced th tr = List.map_filter
     (\<lambda>c. case c of CallIntent (IntentPrompt th' t op _) \<Rightarrow> if th' = th then Some (t, op) else None
       | _ \<Rightarrow> None) tr"

lemma announced_simps [simp]:
  "announced th [] = []"
  "announced th (tr @ tr') = announced th tr @ announced th tr'"
  "announced th (CallIntent (IntentPrompt th' t op now) # tr) =
     (if th' = th then [(t, op)] else []) @ announced th tr"
  "announced th (CallIntent (IntentPermission a b d e f) # tr) = announced th tr"
  "announced th (CallIntent (IntentCancel a b' d' f) # tr) = announced th tr"
  "announced th (CallIntent (IntentClose a f) # tr) = announced th tr"
  "announced th (CallSettle y # tr) = announced th tr"
  "announced th (CallBind a b d # tr) = announced th tr"
  "announced th (CallCreate a b # tr) = announced th tr"
  "announced th (CallResume a b d # tr) = announced th tr"
  "announced th (CallSend a b d g # tr) = announced th tr"
  "announced th (CallCancel a # tr) = announced th tr"
  "announced th (CallDecide a b e # tr) = announced th tr"
  "announced th (CallPoll a # tr) = announced th tr"
  "announced th (CallClose a # tr) = announced th tr"
  by (simp_all add: announced_def map_filter_def)

text \<open>The latest prompt of a thread: its intent, the send that followed it, and no later prompt of the thread.\<close>

definition in_flight :: "string \<Rightarrow> string \<Rightarrow> string \<Rightarrow> string \<Rightarrow> trace \<Rightarrow> bool" where
  "in_flight th turn op sid tr \<longleftrightarrow> (\<exists>tr1 now content tr2.
     tr = tr1 @ CallIntent (IntentPrompt th turn op now) # CallSend sid turn op content # tr2
     \<and> announced th tr2 = [])"

text \<open>When a call to the harness is covered by a checkpoint: the call before it was the intent of exactly this
  effect and its checkpoint succeeded. A decision and a cancellation belong to the turn in flight on the thread
  the intent names, and go to the session that turn was sent to.\<close>

definition guarded_call :: "ports \<Rightarrow> trace \<Rightarrow> port_call \<Rightarrow> bool" where
  "guarded_call P tr call =
     (case call of
        CallSend sid turn op content \<Rightarrow>
          tr \<noteq> [] \<and> (\<exists>th now. last tr = CallIntent (IntentPrompt th turn op now)) \<and> ask_intent P tr = Okay ()
      | CallDecide sid perm d \<Rightarrow>
          tr \<noteq> [] \<and> (\<exists>th turn op now. last tr = CallIntent (IntentPermission th turn perm d now)
            \<and> in_flight th turn op sid tr)
          \<and> ask_intent P tr = Okay ()
      | CallCancel sid \<Rightarrow>
          tr \<noteq> [] \<and> (\<exists>th turn op now. last tr = CallIntent (IntentCancel th (Some turn) (Some op) now)
            \<and> in_flight th turn op sid tr)
          \<and> ask_intent P tr = Okay ()
      | _ \<Rightarrow> True)"

lemma in_flight_start:
  "announced th tr2 = [] \<Longrightarrow>
   in_flight th turn op sid (tr @ CallIntent (IntentPrompt th turn op now) # CallSend sid turn op content # tr2)"
  unfolding in_flight_def by blast

lemma in_flight_quiet:
  assumes "in_flight th turn op sid tr" "announced th ext = []"
  shows "in_flight th turn op sid (tr @ ext)"
proof -
  obtain tr1 now content tr2 where
    t: "tr = tr1 @ CallIntent (IntentPrompt th turn op now) # CallSend sid turn op content # tr2" "announced th tr2 = []"
    using assms(1) unfolding in_flight_def by blast
  then show ?thesis using assms(2) in_flight_start[of th "tr2 @ ext"] by simp
qed

text \<open>A supervisor with an active turn holds the session that turn was sent to.\<close>

definition attached :: "thread_supervisor \<Rightarrow> trace \<Rightarrow> bool" where
  "attached s tr \<longleftrightarrow> (\<forall>t op. active_pair (ts_state s) = Some (t, op) \<longrightarrow>
     (\<exists>sid. ts_session s = Some sid \<and> in_flight (ts_thread s) t op sid tr))"

definition effects_guarded :: "ports \<Rightarrow> trace \<Rightarrow> bool" where
  "effects_guarded P tr \<longleftrightarrow> (\<forall>i<length tr. guarded_call P (take i tr) (tr ! i))"

lemma effects_guarded_Nil: "effects_guarded P []"
  by (simp add: effects_guarded_def)

lemma effects_guarded_snoc:
  "effects_guarded P (tr @ [call]) \<longleftrightarrow> effects_guarded P tr \<and> guarded_call P tr call"
  by (auto simp: effects_guarded_def nth_append less_Suc_eq)

lemma effects_guarded_snoc2:
  "effects_guarded P (tr @ [a, b]) \<longleftrightarrow> effects_guarded P tr \<and> guarded_call P tr a \<and> guarded_call P (tr @ [a]) b"
  using effects_guarded_snoc[of P "tr @ [a]" b] effects_guarded_snoc[of P tr a] by simp

lemma effects_guarded_snoc3:
  "effects_guarded P (tr @ [a, b, d]) \<longleftrightarrow> effects_guarded P tr \<and> guarded_call P tr a
     \<and> guarded_call P (tr @ [a]) b \<and> guarded_call P (tr @ [a, b]) d"
  using effects_guarded_snoc[of P "tr @ [a, b]" d] effects_guarded_snoc2[of P tr a b] by simp

lemma effects_guarded_snoc4:
  "effects_guarded P (tr @ [a, b, d, e]) \<longleftrightarrow> effects_guarded P tr \<and> guarded_call P tr a
     \<and> guarded_call P (tr @ [a]) b \<and> guarded_call P (tr @ [a, b]) d \<and> guarded_call P (tr @ [a, b, d]) e"
  using effects_guarded_snoc[of P "tr @ [a, b, d]" e] effects_guarded_snoc3[of P tr a b d] by simp

lemmas effects_guarded_simps = effects_guarded_snoc effects_guarded_snoc2 effects_guarded_snoc3
  effects_guarded_snoc4 guarded_call_def

lemma prompt_guarded:
  assumes "prompt P s tr op turn content now = (r, s', tr')" "effects_guarded P tr"
  shows "effects_guarded P tr'"
  using assms
  by (auto simp: prompt_def Let_def effects_guarded_simps
      split: sum.splits prod.splits admission.splits)

lemma finish_turn_guarded:
  assumes "finish_turn P s tr t op st d ns now ev = (r, s', tr')" "effects_guarded P tr"
  shows "effects_guarded P tr'"
  using assms by (auto simp: finish_turn_def Let_def effects_guarded_simps split: sum.splits)

lemma apply_event_guarded:
  assumes "apply_event P s tr now ev = (r, s', tr')" "effects_guarded P tr"
  shows "effects_guarded P tr'"
  using assms
  by (cases ev)
    (auto simp: Let_def effects_guarded_simps dest: finish_turn_guarded
      split: option.splits supervisor_state.splits)

lemma poll_guarded:
  assumes "poll_stream P s tr now = (r, s', tr')" "effects_guarded P tr"
  shows "effects_guarded P tr'"
  using assms
  by (auto simp: poll_stream_def Let_def effects_guarded_snoc guarded_call_def
      dest: apply_event_guarded split: option.splits sum.splits)

lemma attached_in_flight:
  "attached s tr \<Longrightarrow> active_pair (ts_state s) = Some (turn, op) \<Longrightarrow> ts_session s = Some sid \<Longrightarrow>
   announced (ts_thread s) ext = [] \<Longrightarrow> in_flight (ts_thread s) turn op sid (tr @ ext)"
  by (auto simp: attached_def intro: in_flight_quiet)

lemma attached_permission:
  "attached s tr \<Longrightarrow> ts_state s = StAwaitingPermission turn op p \<Longrightarrow> ts_session s = Some sid \<Longrightarrow>
   announced (ts_thread s) ext = [] \<Longrightarrow> \<exists>op. in_flight (ts_thread s) turn op sid (tr @ ext)"
  by (intro exI[of _ op] attached_in_flight) simp_all

lemma decide_guarded:
  assumes "decide_permission P s tr perm d now = (r, s', tr')" "effects_guarded P tr" "attached s tr"
  shows "effects_guarded P tr'"
  using assms
  by (auto simp: decide_permission_def Let_def effects_guarded_simps
      split: supervisor_state.splits if_splits option.splits sum.splits)
    (rule attached_permission, assumption+, simp)+

lemma cancel_guarded:
  assumes "steer_cancel P s tr now = (r, s', tr')" "effects_guarded P tr" "attached s tr"
  shows "effects_guarded P tr'"
  using assms
  by (auto simp: steer_cancel_def Let_def effects_guarded_simps
      split: supervisor_state.splits if_splits option.splits sum.splits)
    (rule attached_in_flight, assumption, simp, assumption, simp)+

lemma close_guarded:
  assumes "close_session s tr now = (r, s', tr')" "effects_guarded P tr"
  shows "effects_guarded P tr'"
  using assms by (auto simp: close_session_def effects_guarded_simps split: option.splits)

lemma sup_move_guarded:
  "sup_move P s tr s' tr' \<Longrightarrow> effects_guarded P tr \<Longrightarrow> attached s tr \<Longrightarrow> effects_guarded P tr'"
  by (induction rule: sup_move.induct)
    (auto simp: effects_guarded_simps dest: prompt_guarded poll_guarded decide_guarded cancel_guarded
      close_guarded)

lemma drain_guarded:
  "drain_threads ss tr now = (ss', tr') \<Longrightarrow> effects_guarded P tr \<Longrightarrow> effects_guarded P tr'"
proof (induction ss tr now arbitrary: ss' rule: drain_threads.induct)
  case (1 tr now)
  then show ?case by simp
next
  case (2 t s ss tr now)
  then show ?case by (auto split: prod.splits dest: close_guarded)
qed

section \<open>The thread invariant\<close>

definition ts_ok :: "thread_supervisor \<Rightarrow> bool" where
  "ts_ok s \<longleftrightarrow> bt_ok (ts_history s) \<and> registry_ok (ts_operations s)
     \<and> reg_capacity (ts_operations s) = operation_registry_capacity
     \<and> (\<forall>t op. active_pair (ts_state s) = Some (t, op) \<longrightarrow> resend_forbidden s t = None)"

lemma ts_new_ok: "ts_ok (ts_new th)"
  by (simp add: ts_ok_def ts_new_def registry_ok_def operation_registry_capacity_def)

lemma resend_forbidden_update [simp]:
  "resend_forbidden (s\<lparr>ts_state := st\<rparr>) t = resend_forbidden s t"
  "resend_forbidden (s\<lparr>ts_operations := r\<rparr>) t = resend_forbidden s t"
  "resend_forbidden (s\<lparr>ts_ownership := own\<rparr>) t = resend_forbidden s t"
  "resend_forbidden (s\<lparr>ts_session := sid\<rparr>) t = resend_forbidden s t"
  "resend_forbidden (s\<lparr>ts_capabilities := caps\<rparr>) t = resend_forbidden s t"
  by (simp_all add: resend_forbidden_def)

lemma registry_capacity_update [simp]:
  "reg_capacity (snd (admit_operation r op)) = reg_capacity r" "reg_capacity (retire r op) = reg_capacity r"
  by (simp_all add: admit_operation_def retire_def)

text \<open>What one step does to a supervisor: the invariant is kept, a forbidden turn stays forbidden, and
  the prompts it announces are for turns that were not forbidden.\<close>

definition move_ok :: "thread_supervisor \<Rightarrow> trace \<Rightarrow> thread_supervisor \<Rightarrow> trace \<Rightarrow> bool" where
  "move_ok s tr s' tr' \<longleftrightarrow> ts_ok s' \<and> ts_thread s' = ts_thread s
     \<and> (\<forall>t. resend_forbidden s t \<noteq> None \<longrightarrow> resend_forbidden s' t = resend_forbidden s t)
     \<and> (\<exists>ext. tr' = tr @ ext \<and> (\<forall>th. th \<noteq> ts_thread s \<longrightarrow> announced th ext = [])
          \<and> (\<forall>(t, op)\<in>set (announced (ts_thread s) ext). resend_forbidden s t = None))"

lemma move_okI:
  assumes "ts_ok s'" "ts_thread s' = ts_thread s"
    "\<And>t. resend_forbidden s t \<noteq> None \<Longrightarrow> resend_forbidden s' t = resend_forbidden s t"
    "tr' = tr @ ext" "\<And>th. th \<noteq> ts_thread s \<Longrightarrow> announced th ext = []"
    "\<And>t op. (t, op) \<in> set (announced (ts_thread s) ext) \<Longrightarrow> resend_forbidden s t = None"
  shows "move_ok s tr s' tr'"
  using assms by (auto simp: move_ok_def)

lemma prompt_guard_free: "prompt_guard s t = Okay sid \<Longrightarrow> resend_forbidden s t = None \<and> ts_state s = StReady"
  by (auto simp: prompt_guard_def split: option.splits if_splits)

lemma resend_forbidden_insert:
  assumes "bt_ok (ts_history s)" "ts_history s' = bt_insert t r (ts_history s)"
    "resend_forbidden s t = None" "resend_forbidden s u \<noteq> None"
  shows "resend_forbidden s' u = resend_forbidden s u"
  using assms by (auto simp: resend_forbidden_def)

lemma prompt_cases:
  assumes "prompt P s tr op turn content now = (r, s', tr')"
  obtains (refused) "s' = s" "tr' = tr"
  | (issued) sid reg ext where "prompt_guard s turn = Okay sid"
      "admit_operation (ts_operations s) op = (Okay Execute, reg)"
      "tr' = tr @ CallIntent (IntentPrompt (ts_thread s) turn op now) # ext"
      "\<And>th. announced th ext = []"
      "s' = s\<lparr>ts_operations := reg\<rparr>
       \<or> (\<exists>own. s' = s\<lparr>ts_operations := reg, ts_ownership := own, ts_state := StPrompting turn op Indeterminate\<rparr>)
       \<or> (\<exists>why rec. s' = s\<lparr>ts_operations := reg, ts_history := bt_insert turn rec (ts_history s),
             ts_state := StCrashed why Indeterminate\<rparr>)"
proof (cases "prompt_guard s turn")
  case (Inl e)
  then show thesis using assms refused by (simp add: prompt_def)
next
  case g: (Inr sid)
  obtain a reg where adm: "admit_operation (ts_operations s) op = (a, reg)" by fastforce
  show thesis
  proof (cases "a = Okay Execute")
    case False
    then show thesis
      using assms g adm refused by (cases a) (auto simp: prompt_def split: admission.splits)
  next
    case True
    note run = assms[unfolded prompt_def, simplified g adm True, simplified Let_def, simplified]
    let ?i = "CallIntent (IntentPrompt (ts_thread s) turn op now)"
    let ?d = "CallSettle (PromptDelivered (ts_thread s) turn Indeterminate now)"
    show thesis
    proof (cases "ask_intent P (tr @ [?i])")
      case (Inl e)
      then show thesis using run by (intro issued[OF g adm[unfolded True], of "[]"]) auto
    next
      case i: (Inr u)
      show thesis
      proof (cases "ask_send P (tr @ [?i, CallSend sid turn op content])")
        case (Inl e)
        let ?t = "CallSettle (TurnTerminal (ts_thread s) turn TsFailed Indeterminate now)"
        show thesis
          using run i Inl
          by (intro issued[OF g adm[unfolded True], of "[CallSend sid turn op content, ?d, ?t]"]) auto
      next
        case (Inr u)
        then show thesis
          using run i
          by (intro issued[OF g adm[unfolded True], of "[CallSend sid turn op content, ?d]"])
            (auto split: sum.splits)
      qed
    qed
  qed
qed

lemma prompt_move_ok:
  assumes "ts_ok s" "prompt P s tr op turn content now = (r, s', tr')"
  shows "move_ok s tr s' tr'"
  using assms(2)
proof (cases rule: prompt_cases)
  case refused
  then show ?thesis using assms(1) by (auto simp: move_ok_def)
next
  case (issued sid reg ext)
  note free = prompt_guard_free[OF issued(1)]
  have reg: "registry_ok reg" "reg_capacity reg = operation_registry_capacity"
    using issued(2) admit_operation_ok[of "ts_operations s" op]
      registry_capacity_update(1)[of "ts_operations s" op] assms(1) by (simp_all add: ts_ok_def)
  have hist: "bt_ok (ts_history s)" using assms(1) by (simp add: ts_ok_def)
  have "ts_ok s'" using issued(5) assms(1) reg hist free by (auto simp: ts_ok_def bt_insert_ok)
  moreover have "resend_forbidden s' t = resend_forbidden s t" if "resend_forbidden s t \<noteq> None" for t
    using issued(5) that free hist by (auto simp: resend_forbidden_def)
  ultimately show ?thesis
    using issued(3-5) free by (intro move_okI[where ext = "CallIntent (IntentPrompt (ts_thread s) turn op now) # ext"]) auto
qed

lemma record_turn_move_ok:
  assumes "ts_ok s" "active_pair (ts_state s) = Some (t, op)" "active_pair st' = None"
    "\<And>th. announced th ext = []"
  shows "move_ok s tr (record_turn s t op st d st') (tr @ ext)"
proof -
  have free: "resend_forbidden s t = None" and hist: "bt_ok (ts_history s)"
    using assms(1,2) by (auto simp: ts_ok_def)
  show ?thesis
    using assms free hist
    by (intro move_okI[where ext = ext])
      (auto simp: ts_ok_def record_turn_def bt_insert_ok retire_ok resend_forbidden_def)
qed

lemma finish_turn_move_ok:
  assumes "ts_ok s" "active_pair (ts_state s) = Some (t, op)" "active_pair st' = None"
    "finish_turn P s tr t op st d st' now ev = (r, s', tr')"
  shows "move_ok s tr s' tr'"
proof -
  let ?ext = "[CallSettle (TurnTerminal (ts_thread s) t st d now)]"
  have "tr' = tr @ ?ext \<and> (s' = s \<or> s' = record_turn s t op st d st')"
    using assms(4) by (auto simp: finish_turn_def Let_def split: sum.splits)
  then show ?thesis
    using record_turn_move_ok[OF assms(1-3), of ?ext] assms(1)
    by (auto intro: move_okI[where ext = ?ext])
qed

lemma move_ok_state:
  assumes "ts_ok s" "active_pair st' = None \<or> active_pair st' = active_pair (ts_state s)"
    "\<And>th. announced th ext = []"
  shows "move_ok s tr (s\<lparr>ts_state := st'\<rparr>) (tr @ ext)"
  using assms by (intro move_okI[where ext = ext]) (auto simp: ts_ok_def)

lemma move_ok_refl: "ts_ok s \<Longrightarrow> (\<And>th. announced th ext = []) \<Longrightarrow> move_ok s tr s (tr @ ext)"
  by (intro move_okI[where ext = ext]) auto

lemma apply_event_move_ok:
  assumes "ts_ok s" "apply_event P s tr now ev = (r, s', tr')"
  shows "move_ok s tr s' tr'"
proof -
  have refl: "move_ok s tr s tr" using move_ok_refl[OF assms(1), of "[]" tr] by simp
  have st: "move_ok s tr (s\<lparr>ts_state := st'\<rparr>) tr"
    if "active_pair st' = None \<or> active_pair st' = active_pair (ts_state s)" for st'
    using move_ok_state[OF assms(1) that, of "[]" tr] by simp
  show ?thesis
  proof (cases ev)
    case (HvPermissionRequest e k d)
    then show ?thesis
      using assms(2) refl st by (auto split: supervisor_state.splits)
  next
    case (HvCompleted payload)
    then show ?thesis
      using assms refl by (auto split: option.splits dest: finish_turn_move_ok[rotated 3])
  next
    case HvCancelled
    then show ?thesis
      using assms refl by (auto split: option.splits dest: finish_turn_move_ok[rotated 3])
  next
    case (HvFailed e d)
    then show ?thesis
      using assms refl by (auto split: option.splits if_splits dest: finish_turn_move_ok[rotated 3])
  next
    case (HvProcessExited code)
    then show ?thesis
      using assms refl st record_turn_move_ok[OF assms(1)]
      by (auto simp: Let_def split: supervisor_state.splits)
  qed (use assms refl in auto)
qed

lemma move_ok_prefix:
  assumes "move_ok s (tr @ ext) s' tr'" "\<And>th. announced th ext = []"
  shows "move_ok s tr s' tr'"
  using assms unfolding move_ok_def by fastforce

lemma poll_move_ok:
  assumes "ts_ok s" "poll_stream P s tr now = (r, s', tr')"
  shows "move_ok s tr s' tr'"
proof (cases "ts_session s")
  case None
  then show ?thesis using assms move_ok_refl[OF assms(1), of "[]" tr] by (simp add: poll_stream_def)
next
  case (Some sid)
  have "s' = s \<and> tr' = tr @ [CallPoll sid] \<or> (\<exists>ev. apply_event P s (tr @ [CallPoll sid]) now ev = (r, s', tr'))"
    using assms(2) Some by (auto simp: poll_stream_def Let_def split: sum.splits option.splits)
  then show ?thesis
    using move_ok_refl[OF assms(1), of "[CallPoll sid]" tr] apply_event_move_ok[OF assms(1)]
      move_ok_prefix[of s tr "[CallPoll sid]" s' tr'] by auto
qed

lemma decide_move_ok:
  assumes "ts_ok s" "decide_permission P s tr perm d now = (r, s', tr')"
  shows "move_ok s tr s' tr'"
proof -
  have "\<exists>ext st'. tr' = tr @ ext \<and> (\<forall>th. announced th ext = []) \<and> s' = s\<lparr>ts_state := st'\<rparr>
      \<and> active_pair st' = active_pair (ts_state s)"
  proof (cases "\<exists>turn op sid. ts_state s = StAwaitingPermission turn op perm \<and> ts_session s = Some sid")
    case False
    then have "s' = s\<lparr>ts_state := ts_state s\<rparr> \<and> tr' = tr @ []"
      using assms(2)
      by (auto simp: decide_permission_def split: supervisor_state.splits if_splits option.splits)
    then show ?thesis by (intro exI[of _ "[]"] exI[of _ "ts_state s"]) simp
  next
    case True
    then obtain turn op sid where st: "ts_state s = StAwaitingPermission turn op perm" "ts_session s = Some sid"
      by blast
    have self: "s\<lparr>ts_state := StAwaitingPermission turn op perm\<rparr> = s" using st(1) by simp
    have pair: "active_pair (StPrompting turn op Indeterminate) = active_pair (ts_state s)"
      "active_pair (StAwaitingPermission turn op perm) = active_pair (ts_state s)" using st(1) by simp_all
    let ?i = "CallIntent (IntentPermission (ts_thread s) turn perm d now)"
    let ?d = "CallDecide sid perm d"
    let ?s = "CallSettle (PermissionSettled (ts_thread s) turn perm d now)"
    have "(s' = s \<or> s' = s\<lparr>ts_state := StPrompting turn op Indeterminate\<rparr>)
       \<and> (tr' = tr @ [?i] \<or> tr' = tr @ [?i, ?d] \<or> tr' = tr @ [?i, ?d, ?s])"
      using assms(2) st by (auto simp: decide_permission_def Let_def split: sum.splits)
    moreover have "\<exists>ext. tr' = tr @ ext \<and> (\<forall>th. announced th ext = [])"
      if "tr' = tr @ [?i] \<or> tr' = tr @ [?i, ?d] \<or> tr' = tr @ [?i, ?d, ?s]"
      using that by auto
    ultimately show ?thesis using self pair by metis
  qed
  then obtain ext st' where e: "tr' = tr @ ext" "\<forall>th. announced th ext = []" "s' = s\<lparr>ts_state := st'\<rparr>"
    "active_pair st' = active_pair (ts_state s)" by blast
  then show ?thesis using move_ok_state[OF assms(1), of st' ext tr] by simp
qed

lemma cancel_move_ok:
  assumes "ts_ok s" "steer_cancel P s tr now = (r, s', tr')"
  shows "move_ok s tr s' tr'"
proof (cases "s' = s \<and> tr' = tr")
  case True
  then show ?thesis using move_ok_refl[OF assms(1), of "[]" tr] by simp
next
  case False
  then obtain turn op sid where st: "active_pair (ts_state s) = Some (turn, op)" "ts_session s = Some sid"
    "(\<exists>d. ts_state s = StPrompting turn op d) \<or> (\<exists>p. ts_state s = StAwaitingPermission turn op p)"
    "check_capability s ''session.cancel'' = Okay ()"
    using assms(2)
    by (auto simp: steer_cancel_def Let_def split: sum.splits supervisor_state.splits option.splits)
  let ?i = "CallIntent (IntentCancel (ts_thread s) (Some turn) (Some op) now)"
  have "(s' = s \<and> tr' = tr @ [?i]) \<or> (s' = s \<and> tr' = tr @ [?i, CallCancel sid])
     \<or> (s' = s\<lparr>ts_state := StCancelling (Some turn) (Some op)\<rparr> \<and> tr' = tr @ [?i, CallCancel sid])"
    using assms(2) st by (auto simp: steer_cancel_def Let_def split: sum.splits)
  then show ?thesis
    using move_ok_refl[OF assms(1), of "[?i]" tr] move_ok_refl[OF assms(1), of "[?i, CallCancel sid]" tr]
      move_ok_state[OF assms(1), of "StCancelling (Some turn) (Some op)" "[?i, CallCancel sid]" tr] st(1)
    by auto
qed

lemma close_move_ok:
  assumes "ts_ok s" "close_session s tr now = (r, s', tr')"
  shows "move_ok s tr s' tr'"
proof -
  have "\<exists>ext. tr' = tr @ ext \<and> (\<forall>th. announced th ext = []) \<and> ts_history s' = ts_history s
     \<and> ts_operations s' = ts_operations s \<and> ts_state s' = StClosed \<and> ts_thread s' = ts_thread s"
    using assms(2) by (auto simp: close_session_def split: option.splits)
  then show ?thesis
    using assms(1) by (auto simp: move_ok_def ts_ok_def resend_forbidden_def)
qed

lemma desktop_inert: "on_desktop_lifecycle s ev = (StillRunning, s)"
  by (auto simp: on_desktop_lifecycle_def ownership_on_desktop_def
      split: option.split desktop_lifecycle.split)

lemma establish_move_ok:
  assumes "ts_ok s" "\<And>th. announced th ext = []"
  shows "move_ok s tr (on_session_established (mark_starting s) sid caps) (tr @ ext)"
  using assms
  by (intro move_okI[where ext = ext])
    (auto simp: ts_ok_def on_session_established_def mark_starting_def)

lemma reset_move_ok:
  assumes "ts_ok s" "\<And>th. announced th ext = []"
  shows "move_ok s tr (reset_idle (mark_starting s)) (tr @ ext)"
  using assms
  by (intro move_okI[where ext = ext]) (auto simp: ts_ok_def reset_idle_def mark_starting_def)

lemma sup_move_ok: "sup_move P s tr s' tr' \<Longrightarrow> ts_ok s \<Longrightarrow> move_ok s tr s' tr'"
proof (induction rule: sup_move.induct)
  case (mv_none s tr)
  then show ?case using move_ok_refl[of s "[]" tr] by simp
next
  case (mv_desktop s ev r s' tr)
  then show ?case using move_ok_refl[of s "[]" tr] by (simp add: desktop_inert)
qed (auto intro: prompt_move_ok poll_move_ok decide_move_ok cancel_move_ok close_move_ok
      establish_move_ok reset_move_ok)

section \<open>The session of the active turn\<close>

text \<open>Every step but a prompt announces nothing and keeps the active turn and its session or ends the turn.\<close>

definition calm :: "thread_supervisor \<Rightarrow> trace \<Rightarrow> thread_supervisor \<Rightarrow> trace \<Rightarrow> bool" where
  "calm s tr s' tr' \<longleftrightarrow> (\<exists>ext. tr' = tr @ ext \<and> announced (ts_thread s) ext = []) \<and> ts_thread s' = ts_thread s
     \<and> (active_pair (ts_state s') = None
        \<or> active_pair (ts_state s') = active_pair (ts_state s) \<and> ts_session s' = ts_session s)"

lemma calm_attached: "calm s tr s' tr' \<Longrightarrow> attached s tr \<Longrightarrow> attached s' tr'"
  by (fastforce simp: calm_def attached_def intro: in_flight_quiet)

lemma apply_event_calm: "apply_event P s tr now ev = (r, s', tr') \<Longrightarrow> calm s tr s' tr'"
  by (cases ev)
    (auto simp: calm_def Let_def finish_turn_def record_turn_def split: option.splits supervisor_state.splits sum.splits if_splits)

lemma poll_calm:
  assumes "poll_stream P s tr now = (r, s', tr')"
  shows "calm s tr s' tr'"
proof (cases "ts_session s")
  case None
  then show ?thesis using assms by (simp add: poll_stream_def calm_def)
next
  case (Some sid)
  then have "s' = s \<and> tr' = tr @ [CallPoll sid] \<or> (\<exists>ev. apply_event P s (tr @ [CallPoll sid]) now ev = (r, s', tr'))"
    using assms by (auto simp: poll_stream_def Let_def split: sum.splits option.splits)
  then show ?thesis by (auto simp: calm_def dest!: apply_event_calm)
qed

lemma decide_calm: "decide_permission P s tr perm d now = (r, s', tr') \<Longrightarrow> calm s tr s' tr'"
  by (auto simp: calm_def decide_permission_def Let_def
      split: supervisor_state.splits if_splits option.splits sum.splits)

lemma cancel_calm: "steer_cancel P s tr now = (r, s', tr') \<Longrightarrow> calm s tr s' tr'"
  by (auto simp: calm_def steer_cancel_def Let_def
      split: supervisor_state.splits if_splits option.splits sum.splits)

lemma close_calm: "close_session s tr now = (r, s', tr') \<Longrightarrow> calm s tr s' tr'"
  by (auto simp: calm_def close_session_def split: option.splits)

lemma prompt_guard_session: "prompt_guard s t = Okay sid \<Longrightarrow> ts_session s = Some sid \<and> ts_state s = StReady"
  by (auto simp: prompt_guard_def split: option.splits if_splits)

lemma prompt_attached:
  assumes "prompt P s tr op turn content now = (r, s', tr')" "attached s tr"
  shows "attached s' tr'"
  using assms
  by (auto simp: prompt_def Let_def attached_def in_flight_start dest!: prompt_guard_session
      split: sum.splits prod.splits admission.splits)

lemma attached_idle [simp]:
  "attached (on_session_established s sid caps) tr" "attached (reset_idle s) tr"
  by (simp_all add: attached_def on_session_established_def reset_idle_def)

lemma sup_move_attached:
  assumes "sup_move P s tr s' tr'" "attached s tr"
  shows "attached s' tr'"
  using assms
proof (induction rule: sup_move.induct)
  case (mv_desktop s ev r s' tr)
  then show ?case by (simp add: desktop_inert)
qed (auto intro: prompt_attached calm_attached poll_calm decide_calm cancel_calm close_calm)

section \<open>The coordinator\<close>

definition co_ok :: "ports \<Rightarrow> coordinator \<Rightarrow> bool" where
  "co_ok P c \<longleftrightarrow> bt_ok (co_threads c) \<and> effects_guarded P (co_trace c)
     \<and> (\<forall>th s. map_of (co_threads c) th = Some s \<longrightarrow> ts_ok s \<and> ts_thread s = th \<and> attached s (co_trace c))"

definition co_start :: "coordinator \<Rightarrow> bool" where
  "co_start c \<longleftrightarrow> c = co_new"

definition co_move :: "ports \<Rightarrow> coordinator \<Rightarrow> coordinator \<Rightarrow> bool" where
  "co_move P c c' \<longleftrightarrow> (\<exists>x. c' = co_step P c x)"

lemma entry_ok:
  "co_ok P c \<Longrightarrow> ts_ok (entry_or_new c th) \<and> ts_thread (entry_or_new c th) = th
     \<and> attached (entry_or_new c th) (co_trace c)"
  by (auto simp: co_ok_def entry_or_new_def ts_new_ok split: option.split) (simp_all add: ts_new_def attached_def)

lemma drain_ok:
  assumes "drain_threads ss tr now = (ss', tr')" "\<forall>(th, s)\<in>set ss. ts_ok s \<and> ts_thread s = th"
  shows "map fst ss' = map fst ss \<and> (\<forall>(th, s)\<in>set ss'. ts_ok s \<and> ts_thread s = th)
     \<and> (\<forall>th s t. map_of ss th = Some s \<longrightarrow> (\<exists>s'. map_of ss' th = Some s' \<and> resend_forbidden s' t = resend_forbidden s t))
     \<and> (\<exists>ext. tr' = tr @ ext \<and> (\<forall>th. announced th ext = []))"
  using assms
proof (induction ss tr now arbitrary: ss' tr' rule: drain_threads.induct)
  case (1 tr now)
  then show ?case by simp
next
  case (2 t s ss tr now)
  obtain r s1 tr1 where c: "close_session s tr now = (r, s1, tr1)" by (metis prod_cases3)
  obtain ss1 tr2 where d: "drain_threads ss tr1 now = (ss1, tr2)" by fastforce
  have res: "ss' = (t, s1) # ss1" "tr' = tr2" using "2.prems"(1) c d by simp_all
  have IH: "map fst ss1 = map fst ss" "\<forall>(th, s)\<in>set ss1. ts_ok s \<and> ts_thread s = th"
    "\<forall>th s t. map_of ss th = Some s \<longrightarrow> (\<exists>s'. map_of ss1 th = Some s' \<and> resend_forbidden s' t = resend_forbidden s t)"
    "\<exists>ext. tr2 = tr1 @ ext \<and> (\<forall>th. announced th ext = [])"
    using "2.IH"[OF c[symmetric] refl d] "2.prems"(2) by auto
  have mv: "ts_ok s1" "ts_thread s1 = ts_thread s" using close_move_ok[OF _ c] "2.prems"(2)
    by (auto simp: move_ok_def)
  have "resend_forbidden s1 u = resend_forbidden s u" for u
    using c by (auto simp: close_session_def resend_forbidden_def split: option.splits)
  moreover have "\<exists>ext. tr1 = tr @ ext \<and> (\<forall>th. announced th ext = [])"
    using c by (auto simp: close_session_def split: option.splits)
  ultimately show ?case using res IH mv "2.prems"(2) by auto
qed

definition forbidden :: "coordinator \<Rightarrow> string \<Rightarrow> string \<Rightarrow> delivery_state option" where
  "forbidden c th t = Option.bind (map_of (co_threads c) th) (\<lambda>s. resend_forbidden s t)"

definition step_effect :: "ports \<Rightarrow> coordinator \<Rightarrow> coordinator \<Rightarrow> bool" where
  "step_effect P c c' \<longleftrightarrow> co_ok P c'
     \<and> (\<forall>th t. forbidden c th t \<noteq> None \<longrightarrow> forbidden c' th t = forbidden c th t)
     \<and> (\<exists>ext. co_trace c' = co_trace c @ ext
          \<and> (\<forall>th t op. (t, op) \<in> set (announced th ext) \<longrightarrow> forbidden c th t = None))"

lemma put_thread_effect:
  assumes ok: "co_ok P c" and mv: "sup_move P (entry_or_new c th) (co_trace c) s' tr'"
  shows "step_effect P c (put_thread c th s' tr')"
proof -
  let ?s = "entry_or_new c th"
  have e: "ts_ok ?s" "ts_thread ?s = th" "attached ?s (co_trace c)" using entry_ok[OF ok] by simp_all
  have m: "move_ok ?s (co_trace c) s' tr'" using sup_move_ok[OF mv e(1)] .
  then obtain ext where ext: "tr' = co_trace c @ ext" "\<forall>th'. th' \<noteq> th \<longrightarrow> announced th' ext = []"
    "\<forall>(t, op)\<in>set (announced th ext). resend_forbidden ?s t = None"
    using e(2) by (auto simp: move_ok_def)
  have threads: "bt_ok (co_threads c)" using ok by (simp add: co_ok_def)
  have s': "ts_ok s'" "ts_thread s' = th" using m e(2) by (simp_all add: move_ok_def)
  have "effects_guarded P tr'" using sup_move_guarded[OF mv _ e(3)] ok by (simp add: co_ok_def)
  moreover have "attached s' tr'" using sup_move_attached[OF mv e(3)] .
  moreover have "attached u tr'" if "map_of (co_threads c) th' = Some u" "th' \<noteq> th" for th' u
  proof -
    have "attached u (co_trace c)" "ts_thread u = th'" using that(1) ok by (auto simp: co_ok_def)
    then show ?thesis using ext(1,2) that(2) calm_attached[of u "co_trace c" u tr'] by (auto simp: calm_def)
  qed
  ultimately have "co_ok P (put_thread c th s' tr')"
    using ok s' threads by (auto simp: co_ok_def put_thread_def bt_insert_ok)
  moreover have here: "forbidden c th t = resend_forbidden ?s t" for t
    by (auto simp: forbidden_def entry_or_new_def ts_new_def resend_forbidden_def split: option.split)
  moreover have "forbidden (put_thread c th s' tr') th' t = forbidden c th' t"
    if "forbidden c th' t \<noteq> None" for th' t
  proof (cases "th' = th")
    case True
    then have "resend_forbidden s' t = resend_forbidden ?s t"
      using m that here by (simp add: move_ok_def)
    moreover have "forbidden (put_thread c th s' tr') th t = resend_forbidden s' t"
      using threads by (simp add: forbidden_def put_thread_def)
    ultimately show ?thesis using True here by simp
  next
    case False
    then show ?thesis using threads by (simp add: forbidden_def put_thread_def)
  qed
  moreover have "forbidden c th' t = None" if "(t, op) \<in> set (announced th' ext)" for th' t op
    using that ext(2,3) here by (cases "th' = th") auto
  ultimately show ?thesis using ext(1) by (auto simp: step_effect_def put_thread_def)
qed

lemma drain_closed: "drain_threads ss tr now = (ss', tr') \<Longrightarrow> (th, s) \<in> set ss' \<Longrightarrow> ts_state s = StClosed"
proof (induction ss tr now arbitrary: ss' tr' rule: drain_threads.induct)
  case (1 tr now)
  then show ?case by simp
next
  case (2 t u ss tr now)
  then show ?case by (auto split: prod.splits option.splits simp: close_session_def)
qed

lemma drain_effect:
  assumes "co_ok P c"
  shows "step_effect P c (co_drain_for_shutdown c now)"
proof -
  obtain ss' tr' where d: "drain_threads (co_threads c) (co_trace c) now = (ss', tr')" by fastforce
  have threads: "bt_ok (co_threads c)" "\<forall>(th, s)\<in>set (co_threads c). ts_ok s \<and> ts_thread s = th"
    using assms bt_ok_distinct[of "co_threads c"] by (auto simp: co_ok_def)
  have r: "map fst ss' = map fst (co_threads c)" "\<forall>(th, s)\<in>set ss'. ts_ok s \<and> ts_thread s = th"
    "\<And>th s t. map_of (co_threads c) th = Some s \<Longrightarrow>
       \<exists>s'. map_of ss' th = Some s' \<and> resend_forbidden s' t = resend_forbidden s t"
    "\<exists>ext. tr' = co_trace c @ ext \<and> (\<forall>th. announced th ext = [])"
    using drain_ok[OF d threads(2)] by auto
  have new: "co_drain_for_shutdown c now = \<lparr>co_threads = ss', co_trace = tr'\<rparr>"
    using d by (simp add: co_drain_for_shutdown_def)
  have "bt_ok ss'" using threads(1) r(1) by (simp add: bt_ok_def)
  moreover have "effects_guarded P tr'" using drain_guarded[OF d] assms by (simp add: co_ok_def)
  moreover have "attached s tr'" if "(th, s) \<in> set ss'" for th s
    using drain_closed[OF d that] by (simp add: attached_def)
  ultimately have "co_ok P \<lparr>co_threads = ss', co_trace = tr'\<rparr>"
    using r(2) by (auto simp: co_ok_def dest!: map_of_SomeD)
  moreover have "forbidden \<lparr>co_threads = ss', co_trace = tr'\<rparr> th t = forbidden c th t"
    if "forbidden c th t \<noteq> None" for th t
  proof -
    obtain s where "map_of (co_threads c) th = Some s"
      using \<open>forbidden c th t \<noteq> None\<close> by (auto simp: forbidden_def bind_eq_Some_conv)
    then show ?thesis using r(3)[of th s t] by (auto simp: forbidden_def)
  qed
  ultimately show ?thesis using r(4) new by (auto simp: step_effect_def)
qed

lemma co_step_effect:
  assumes "co_ok P c"
  shows "step_effect P c (co_step P c x)"
proof (cases "co_thread x")
  case None
  then obtain now where "x = CoDrain now" by (cases x) auto
  then show ?thesis using drain_effect[OF assms] by simp
next
  case (Some th)
  have "step_effect P c c" using assms by (simp add: step_effect_def)
  then show ?thesis using co_step_move[OF Some, of P c] put_thread_effect[OF assms] by metis
qed

interpretation runtime_machine: guarded_machine co_start "co_move P" "co_ok P" for P
proof unfold_locales
  show "co_ok P c" if "co_start c" for c
    using that by (simp add: co_start_def co_new_def co_ok_def effects_guarded_Nil)
  show "co_ok P c'" if "co_ok P c" "co_move P c c'" for c c'
    using that co_step_effect[OF that(1)] by (auto simp: co_move_def step_effect_def)
qed

section \<open>One prompt per operation\<close>

definition settled :: "string \<Rightarrow> trace \<Rightarrow> nat" where
  "settled th tr = length (filter
     (\<lambda>c. case c of CallSettle (TurnTerminal th' _ _ _ _) \<Rightarrow> th' = th | _ \<Rightarrow> False) tr)"

lemma settled_simps [simp]:
  "settled th [] = 0" "settled th (a @ b) = settled th a + settled th b"
  "settled th (CallSettle (TurnTerminal th t st d now) # tr) = Suc (settled th tr)"
  by (simp_all add: settled_def)

text \<open>How one step uses the registry: not at all, to admit the operation it announces, or to retire one
  after a terminal settlement.\<close>

definition registry_use :: "thread_supervisor \<Rightarrow> thread_supervisor \<Rightarrow> trace \<Rightarrow> bool" where
  "registry_use s s' ext \<longleftrightarrow>
     ts_operations s' = ts_operations s \<and> announced (ts_thread s) ext = []
   \<or> (\<exists>t op. announced (ts_thread s) ext = [(t, op)]
        \<and> admit_operation (ts_operations s) op = (Okay Execute, ts_operations s'))
   \<or> (\<exists>op. ts_operations s' = retire (ts_operations s) op \<and> announced (ts_thread s) ext = []
        \<and> settled (ts_thread s) ext > 0)"

lemma finish_turn_registry:
  assumes "finish_turn P s tr t op st d st' now ev = (r, s', tr')"
  shows "\<exists>ext. tr' = tr @ ext \<and> registry_use s s' ext"
  using assms
  by (auto simp: finish_turn_def Let_def registry_use_def record_turn_def split: sum.splits)

lemma apply_event_registry:
  assumes "apply_event P s tr now ev = (r, s', tr')"
  shows "\<exists>ext. tr' = tr @ ext \<and> registry_use s s' ext"
proof (cases ev)
  case (HvCompleted payload)
  then show ?thesis
    using assms by (auto split: option.splits dest: finish_turn_registry) (auto simp: registry_use_def)
next
  case HvCancelled
  then show ?thesis
    using assms by (auto split: option.splits dest: finish_turn_registry) (auto simp: registry_use_def)
next
  case (HvFailed e d)
  then show ?thesis
    using assms by (auto split: option.splits dest: finish_turn_registry) (auto simp: registry_use_def)
next
  case (HvProcessExited code)
  then show ?thesis
    using assms
    by (auto simp: Let_def registry_use_def record_turn_def split: supervisor_state.splits)
qed (use assms in \<open>auto simp: registry_use_def split: supervisor_state.splits\<close>)

lemma registry_use_prefix:
  assumes "registry_use s s' ext" "announced (ts_thread s) ext0 = []"
  shows "registry_use s s' (ext0 @ ext)"
  using assms by (auto simp: registry_use_def)

lemma prompt_registry:
  assumes "prompt P s tr op turn content now = (r, s', tr')"
  shows "\<exists>ext. tr' = tr @ ext \<and> registry_use s s' ext"
  using assms
proof (cases rule: prompt_cases)
  case refused
  then show ?thesis by (auto simp: registry_use_def)
next
  case (issued sid reg ext)
  then have "registry_use s s' (CallIntent (IntentPrompt (ts_thread s) turn op now) # ext)"
    by (auto simp: registry_use_def)
  then show ?thesis using issued(3) by blast
qed

lemma poll_registry:
  assumes "poll_stream P s tr now = (r, s', tr')"
  shows "\<exists>ext. tr' = tr @ ext \<and> registry_use s s' ext"
proof (cases "ts_session s")
  case None
  then show ?thesis using assms by (auto simp: poll_stream_def registry_use_def)
next
  case (Some sid)
  then consider "s' = s" "tr' = tr @ [CallPoll sid]"
    | ev where "apply_event P s (tr @ [CallPoll sid]) now ev = (r, s', tr')"
    using assms by (auto simp: poll_stream_def Let_def split: sum.splits option.splits)
  then show ?thesis
  proof cases
    case 1
    then show ?thesis by (auto simp: registry_use_def)
  next
    case 2
    then obtain ext where "tr' = (tr @ [CallPoll sid]) @ ext" "registry_use s s' ext"
      using apply_event_registry by blast
    then show ?thesis
      using registry_use_prefix[of s s' ext "[CallPoll sid]"]
      by (intro exI[of _ "[CallPoll sid] @ ext"]) simp
  qed
qed

lemma quiet_registry:
  "decide_permission P s tr perm d now = (r, s', tr') \<Longrightarrow> ts_operations s' = ts_operations s"
  "steer_cancel P s tr now = (r2, s', tr') \<Longrightarrow> ts_operations s' = ts_operations s"
  "close_session s tr now = (r3, s', tr') \<Longrightarrow> ts_operations s' = ts_operations s"
  by (auto simp: decide_permission_def steer_cancel_def close_session_def Let_def
      split: supervisor_state.splits if_splits option.splits sum.splits)

lemma quiet_announced:
  "decide_permission P s tr perm d now = (r, s', tr') \<Longrightarrow> \<exists>ext. tr' = tr @ ext \<and> announced th ext = []"
  "steer_cancel P s tr now = (r2, s', tr') \<Longrightarrow> \<exists>ext. tr' = tr @ ext \<and> announced th ext = []"
  "close_session s tr now = (r3, s', tr') \<Longrightarrow> \<exists>ext. tr' = tr @ ext \<and> announced th ext = []"
  by (auto simp: decide_permission_def steer_cancel_def close_session_def Let_def
      split: supervisor_state.splits if_splits option.splits sum.splits)

lemma sup_move_registry: "sup_move P s tr s' tr' \<Longrightarrow> \<exists>ext. tr' = tr @ ext \<and> registry_use s s' ext"
proof (induction rule: sup_move.induct)
  case (mv_decide s tr perm d now r s' tr')
  then show ?case using quiet_registry(1) quiet_announced(1) unfolding registry_use_def by metis
next
  case (mv_cancel s tr now r s' tr')
  then show ?case using quiet_registry(2) quiet_announced(2) unfolding registry_use_def by metis
next
  case (mv_close s tr now r s' tr')
  then show ?case using quiet_registry(3) quiet_announced(3) unfolding registry_use_def by metis
next
  case (mv_desktop s ev r s' tr)
  then show ?case by (auto simp: desktop_inert registry_use_def)
qed (auto simp: registry_use_def on_session_established_def reset_idle_def mark_starting_def
      intro: prompt_registry poll_registry simp del: not_None_eq
      dest: prompt_registry poll_registry)

definition remembers :: "thread_supervisor \<Rightarrow> trace \<Rightarrow> bool" where
  "remembers s tr \<longleftrightarrow> distinct (map snd (announced (ts_thread s) tr))
     \<and> (\<forall>op\<in>set (map snd (announced (ts_thread s) tr)).
          registry_knows (ts_operations s) op \<and> op_age (ts_operations s) op \<le> settled (ts_thread s) tr)"

lemma remembers_move:
  assumes "sup_move P s tr s' tr'" "ts_ok s" "remembers s tr"
    "settled (ts_thread s) tr' < operation_registry_capacity"
  shows "remembers s' tr'"
proof -
  obtain ext where ext: "tr' = tr @ ext" "registry_use s s' ext" using sup_move_registry[OF assms(1)] by blast
  have th: "ts_thread s' = ts_thread s" using sup_move_ok[OF assms(1,2)] by (simp add: move_ok_def)
  have reg: "registry_ok (ts_operations s)" "reg_capacity (ts_operations s) = operation_registry_capacity"
    using assms(2) by (simp_all add: ts_ok_def)
  from ext(2) consider
    "ts_operations s' = ts_operations s" "announced (ts_thread s) ext = []"
  | t op where "announced (ts_thread s) ext = [(t, op)]"
      "admit_operation (ts_operations s) op = (Okay Execute, ts_operations s')"
  | op where "ts_operations s' = retire (ts_operations s) op" "announced (ts_thread s) ext = []"
      "settled (ts_thread s) ext > 0"
    by (auto simp: registry_use_def)
  then show ?thesis
  proof cases
    case 1
    then show ?thesis using assms(3) ext(1) th by (auto simp: remembers_def)
  next
    case 2
    have ex: "executes (ts_operations s) op = (True, ts_operations s')" using 2(2) by (simp add: executes_def)
    have "\<not> registry_knows (ts_operations s) op"
      using op_registry.accept_once[of "ts_operations s" op] ex by auto
    moreover have "registry_knows (ts_operations s') op \<and> op_age (ts_operations s') op = 0"
      using op_registry.known_after_accept[OF reg(1), of op] ex by simp
    moreover have "registry_knows (ts_operations s') x \<and> op_age (ts_operations s') x = op_age (ts_operations s) x"
      if "registry_knows (ts_operations s) x" for x
      using op_registry.accept_keeps[OF reg(1) that, of op] ex by simp
    ultimately show ?thesis using assms(3) ext(1) th 2(1) by (auto simp: remembers_def)
  next
    case 3
    have "registry_knows (ts_operations s') x \<and> op_age (ts_operations s') x \<le> settled (ts_thread s) tr'"
      if "registry_knows (ts_operations s) x" "op_age (ts_operations s) x \<le> settled (ts_thread s) tr" for x
      using op_registry.finish_keeps[OF reg(1) that(1), of op] that(2) 3 ext(1) assms(4) reg(2) by auto
    then show ?thesis using assms(3) ext(1) th 3(2) by (auto simp: remembers_def)
  qed
qed

lemma remembers_quiet:
  assumes "remembers s tr" "ts_operations s' = ts_operations s" "ts_thread s' = ts_thread s"
    "announced (ts_thread s) ext = []"
  shows "remembers s' (tr @ ext)"
  using assms by (auto simp: remembers_def)

definition co_remembers :: "string \<Rightarrow> coordinator \<Rightarrow> bool" where
  "co_remembers th c \<longleftrightarrow> (case map_of (co_threads c) th of
     None \<Rightarrow> announced th (co_trace c) = []
   | Some s \<Rightarrow> remembers s (co_trace c))"

lemma drain_registry:
  assumes "drain_threads ss tr now = (ss', tr')"
  shows "map_option (\<lambda>s. (ts_thread s, ts_operations s)) (map_of ss' th)
       = map_option (\<lambda>s. (ts_thread s, ts_operations s)) (map_of ss th)"
  using assms
proof (induction ss tr now arbitrary: ss' tr' rule: drain_threads.induct)
  case (1 tr now)
  then show ?case by simp
next
  case (2 t s ss tr now)
  obtain r s1 tr1 where c: "close_session s tr now = (r, s1, tr1)" by (metis prod_cases3)
  obtain ss1 tr2 where d: "drain_threads ss tr1 now = (ss1, tr2)" by fastforce
  have "ss' = (t, s1) # ss1" using "2.prems" c d by simp
  moreover have "ts_thread s1 = ts_thread s" "ts_operations s1 = ts_operations s"
    using c by (auto simp: close_session_def split: option.splits)
  ultimately show ?case using "2.IH"[OF c[symmetric] refl d] by simp
qed

lemma co_step_remembers:
  assumes ok: "co_ok P c" and rem: "co_remembers th c"
    and few: "settled th (co_trace (co_step P c x)) < operation_registry_capacity"
  shows "co_remembers th (co_step P c x)"
proof (cases "co_thread x")
  case None
  then obtain now where x: "x = CoDrain now" by (cases x) auto
  obtain ss' tr' where d: "drain_threads (co_threads c) (co_trace c) now = (ss', tr')" by fastforce
  have threads: "\<forall>(th, s)\<in>set (co_threads c). ts_ok s \<and> ts_thread s = th"
    using ok bt_ok_distinct[of "co_threads c"] by (auto simp: co_ok_def)
  obtain ext where ext: "tr' = co_trace c @ ext" "announced th ext = []"
    using drain_ok[OF d threads] by auto
  have "co_step P c x = \<lparr>co_threads = ss', co_trace = tr'\<rparr>"
    using x d by (simp add: co_drain_for_shutdown_def)
  then show ?thesis
    using rem drain_registry[OF d, of th] ext ok
    by (auto simp: co_remembers_def co_ok_def split: option.splits
        intro: remembers_quiet)
next
  case (Some th')
  show ?thesis
  proof (cases "co_step P c x = c")
    case True
    then show ?thesis using rem by simp
  next
    case False
    then obtain s' tr' where mv: "sup_move P (entry_or_new c th') (co_trace c) s' tr'"
      and new: "co_step P c x = put_thread c th' s' tr'" using co_step_move[OF Some, of P c] by blast
    have e: "ts_ok (entry_or_new c th')" "ts_thread (entry_or_new c th') = th'"
      using entry_ok[OF ok] by simp_all
    have threads: "bt_ok (co_threads c)" using ok by (simp add: co_ok_def)
    show ?thesis
    proof (cases "th' = th")
      case True
      have "remembers (entry_or_new c th) (co_trace c)"
        using rem by (auto simp: co_remembers_def entry_or_new_def remembers_def ts_new_def split: option.splits)
      then have "remembers s' tr'"
        using remembers_move[OF mv e(1)] True few new e(2) by (simp add: put_thread_def)
      then show ?thesis using True new threads by (simp add: co_remembers_def put_thread_def)
    next
      case False
      obtain ext where "tr' = co_trace c @ ext" "announced th ext = []"
        using sup_move_ok[OF mv e(1)] e(2) False by (auto simp: move_ok_def)
      then show ?thesis
        using rem new threads False ok
        by (auto simp: co_remembers_def put_thread_def co_ok_def split: option.splits intro: remembers_quiet)
    qed
  qed
qed

text \<open>Runs from the empty coordinator.\<close>

definition co_run :: "ports \<Rightarrow> co_op list \<Rightarrow> coordinator" where
  "co_run P xs = foldl (co_step P) co_new xs"

lemma co_run_snoc: "co_run P (xs @ [x]) = co_step P (co_run P xs) x"
  by (simp add: co_run_def)

lemma co_run_ok: "co_ok P (co_run P xs)"
proof (induction xs rule: rev_induct)
  case Nil
  then show ?case using runtime_machine.good_start[of co_new P] by (simp add: co_run_def co_start_def)
next
  case (snoc x xs)
  then show ?case using co_step_effect[OF snoc] by (simp add: co_run_snoc step_effect_def)
qed

lemma co_run_extends:
  "\<exists>ext. co_trace (co_run P (xs @ ys)) = co_trace (co_run P xs) @ ext
     \<and> (\<forall>th t. forbidden (co_run P xs) th t \<noteq> None \<longrightarrow>
          forbidden (co_run P (xs @ ys)) th t = forbidden (co_run P xs) th t \<and> t \<notin> fst ` set (announced th ext))"
proof (induction ys rule: rev_induct)
  case Nil
  then show ?case by simp
next
  case (snoc y ys)
  let ?c = "co_run P (xs @ ys)"
  have new: "co_run P (xs @ ys @ [y]) = co_step P ?c y" using co_run_snoc[of P "xs @ ys" y] by simp
  obtain ext where ext: "co_trace ?c = co_trace (co_run P xs) @ ext"
    "\<And>th t. forbidden (co_run P xs) th t \<noteq> None \<Longrightarrow>
       forbidden ?c th t = forbidden (co_run P xs) th t \<and> t \<notin> fst ` set (announced th ext)"
    using snoc by blast
  obtain ext2 where ext2: "co_trace (co_step P ?c y) = co_trace ?c @ ext2"
    "\<And>th t op. (t, op) \<in> set (announced th ext2) \<Longrightarrow> forbidden ?c th t = None"
    "\<And>th t. forbidden ?c th t \<noteq> None \<Longrightarrow> forbidden (co_step P ?c y) th t = forbidden ?c th t"
    using co_step_effect[OF co_run_ok, of P "xs @ ys" y] unfolding step_effect_def by blast
  show ?case
    unfolding new
    using ext ext2 by (intro exI[of _ "ext @ ext2"]) (fastforce simp: image_iff)
qed

lemma co_run_remembers:
  "settled th (co_trace (co_run P xs)) < operation_registry_capacity \<Longrightarrow> co_remembers th (co_run P xs)"
proof (induction xs rule: rev_induct)
  case Nil
  then show ?case by (simp add: co_run_def co_new_def co_remembers_def)
next
  case (snoc x xs)
  obtain ext where "co_trace (co_run P (xs @ [x])) = co_trace (co_run P xs) @ ext"
    using co_run_extends[of P xs "[x]"] by blast
  then have "settled th (co_trace (co_run P xs)) < operation_registry_capacity"
    using snoc.prems by simp
  then show ?case
    using co_step_remembers[OF co_run_ok snoc.IH, of x] snoc.prems by (simp add: co_run_snoc)
qed

end
