(* ===== verification/Runtime_Safety.thy ===== *)
theory Runtime_Safety
  imports Runtime_Supervisor
begin

text \<open>
  The properties of the agent runtime, over runs of the coordinator from its empty state with any
  ports, and the places where the code falls short of its own documentation.
\<close>

section \<open>A concrete pair of ports\<close>

text \<open>Ports that accept every call and deliver a script of events.\<close>

definition scripted_ports :: "harness_event list \<Rightarrow> ports" where
  "scripted_ports evs = \<lparr>ask_intent = (\<lambda>tr. Okay ()), ask_settle = (\<lambda>tr. Okay ()),
     ask_create = (\<lambda>tr. Okay \<lparr>hs_session = ''ses'', hs_capabilities = []\<rparr>),
     ask_resume = (\<lambda>tr. Okay \<lparr>hs_session = ''ses'', hs_capabilities = []\<rparr>),
     ask_send = (\<lambda>tr. Okay ()), ask_cancel = (\<lambda>tr. Okay ()), ask_decide = (\<lambda>tr. Okay ()),
     ask_poll = (\<lambda>tr. let n = length (filter (\<lambda>c. case c of CallPoll _ \<Rightarrow> True | _ \<Rightarrow> False) tr) in
        Okay (if n \<le> length evs then Some (evs ! (n - 1)) else None))\<rparr>"

definition sample_run :: "co_op list" where
  "sample_run = [CoCreate ''hsb'' ''thr'', CoPrompt ''thr'' ''op_a'' ''trn_a'' ''hi'', CoPoll ''thr'',
     CoPrompt ''thr'' ''op_a'' ''trn_b'' ''hi'', CoPrompt ''thr'' ''op_b'' ''trn_a'' ''hi'',
     CoPrompt ''thr'' ''op_c'' ''trn_c'' ''hi'']"

text \<open>The events that end a turn.\<close>

fun ended :: "runtime_event \<Rightarrow> (string \<times> turn_state \<times> delivery_state) option" where
  "ended (RtTurnCompleted _ t _) = Some (t, TsCompleted, Confirmed)"
| "ended (RtTurnCancelled _ t) = Some (t, TsCancelled, Confirmed)"
| "ended (RtTurnFailed _ t _ d) = Some (t, TsFailed, d)"
| "ended _ = None"

section \<open>Properties\<close>

text \<open>C22: Intents are durable before effects. In every run, with any ports: a prompt handed to the harness
  directly follows the checkpoint of the prompt intent of that turn and operation; a permission decision
  directly follows the checkpoint of the intent of that permission and that decision, and a cancellation that of
  a cancel intent, where the intent names a thread and the turn (for a cancellation also the operation) of the
  latest prompt of that thread, which was sent to the session that now receives the effect. In each case that
  checkpoint succeeded.\<close>

theorem intents_precede_effects: "effects_guarded P (co_trace (co_run P xs))"
  using co_run_ok[of P xs] by (simp add: co_ok_def)

text \<open>The delivery on record for a turn of a thread.\<close>

definition recorded :: "coordinator \<Rightarrow> string \<Rightarrow> string \<Rightarrow> delivery_state option" where
  "recorded c th t = Option.bind (map_of (co_threads c) th)
     (\<lambda>s. map_option tr_delivery (map_of (ts_history s) t))"

lemma forbidden_recorded:
  "forbidden c th t = Some d \<longleftrightarrow> recorded c th t = Some d \<and> (d = Indeterminate \<or> d = Confirmed)"
  by (auto simp: forbidden_def recorded_def resend_forbidden_def bind_eq_Some_conv split: option.splits if_splits)

text \<open>C23: A turn whose delivery is recorded as indeterminate or confirmed is never prompted again:
  whatever is requested afterwards, on any thread and with any answers of the ports, the record stays
  and no further prompt of that turn is announced on its thread.\<close>

theorem settled_turn_never_resent:
  assumes "recorded (co_run P xs) th t = Some d" "d = Indeterminate \<or> d = Confirmed"
  shows "\<exists>ext. co_trace (co_run P (xs @ ys)) = co_trace (co_run P xs) @ ext
     \<and> t \<notin> fst ` set (announced th ext) \<and> recorded (co_run P (xs @ ys)) th t = Some d"
proof -
  have f: "forbidden (co_run P xs) th t = Some d" using assms by (simp add: forbidden_recorded)
  then obtain ext where "co_trace (co_run P (xs @ ys)) = co_trace (co_run P xs) @ ext"
    "t \<notin> fst ` set (announced th ext)" "forbidden (co_run P (xs @ ys)) th t = Some d"
    using co_run_extends[of P xs ys] by auto
  then show ?thesis by (auto simp: forbidden_recorded)
qed

theorem settled_turn_never_resent_witness:
  "\<exists>ext. co_trace (co_run (scripted_ports [HvCompleted None]) sample_run)
      = co_trace (co_run (scripted_ports [HvCompleted None]) (take 3 sample_run)) @ ext
     \<and> ''trn_a'' \<notin> fst ` set (announced ''thr'' ext)"
proof -
  have f: "recorded (co_run (scripted_ports [HvCompleted None]) (take 3 sample_run)) ''thr'' ''trn_a''
      = Some Confirmed"
    by code_simp
  have "sample_run = take 3 sample_run @ drop 3 sample_run" by simp
  then show ?thesis using settled_turn_never_resent[OF f, of "drop 3 sample_run"] by auto
qed

text \<open>C24: An operation is prompted at most once per thread, as long as fewer than 32 turns of the
  thread have been settled, over all runs, redeliveries and failures of the ports.\<close>

theorem operation_prompted_once:
  assumes "settled th (co_trace (co_run P xs)) < operation_registry_capacity"
  shows "distinct (map snd (announced th (co_trace (co_run P xs))))"
proof -
  have r: "co_remembers th (co_run P xs)" using assms by (rule co_run_remembers)
  show ?thesis
  proof (cases "map_of (co_threads (co_run P xs)) th")
    case None
    then show ?thesis using r by (simp add: co_remembers_def)
  next
    case (Some s)
    then have "ts_thread s = th" using co_run_ok[of P xs] by (simp add: co_ok_def)
    then show ?thesis using Some r by (simp add: co_remembers_def remembers_def)
  qed
qed

theorem operation_prompted_once_witness:
  "map snd (announced ''thr'' (co_trace (co_run (scripted_ports [HvCompleted None]) sample_run)))
     = [''op_a'', ''op_c'']
   \<and> distinct (map snd (announced ''thr'' (co_trace (co_run (scripted_ports [HvCompleted None]) sample_run))))"
proof
  show "map snd (announced ''thr'' (co_trace (co_run (scripted_ports [HvCompleted None]) sample_run)))
     = [''op_a'', ''op_c'']"
    by code_simp
  have "settled ''thr'' (co_trace (co_run (scripted_ports [HvCompleted None]) sample_run))
      < operation_registry_capacity"
    by code_simp
  then show "distinct (map snd (announced ''thr''
      (co_trace (co_run (scripted_ports [HvCompleted None]) sample_run))))"
    by (rule operation_prompted_once)
qed

text \<open>Threads do not interfere: an operation on one thread leaves the supervisor of every other
  thread exactly as it was.\<close>

theorem threads_isolated:
  assumes "co_thread x = Some th'" "th \<noteq> th'"
  shows "map_of (co_threads (co_run P (xs @ [x]))) th = map_of (co_threads (co_run P xs)) th"
proof -
  have "bt_ok (co_threads (co_run P xs))" using co_run_ok[of P xs] by (simp add: co_ok_def)
  then show ?thesis
    using co_step_move[OF assms(1), of P "co_run P xs"] assms(2)
    by (auto simp: co_run_snoc put_thread_def)
qed

theorem threads_isolated_witness:
  "map_of (co_threads (co_run (scripted_ports []) (sample_run @ [CoClose ''thr2'']))) ''thr''
     = map_of (co_threads (co_run (scripted_ports []) sample_run)) ''thr''"
  by (rule threads_isolated[of _ "''thr2''"]) simp_all

lemma finish_turn_okay:
  "finish_turn P s tr t op st d ns now e = (Okay (Some ev), s', tr') \<longleftrightarrow>
     ask_settle P tr' = Okay () \<and> e = ev \<and> s' = record_turn s t op st d ns
     \<and> tr' = tr @ [CallSettle (TurnTerminal (ts_thread s) t st d now)]"
  by (auto simp: finish_turn_def Let_def split: sum.splits)

text \<open>A poll that reports the end of a turn went through the settlement of the active turn.\<close>

lemma apply_event_ended:
  assumes "apply_event P s tr now hv = (Okay (Some ev), s', tr')" "ended ev = Some (t, st, d)"
  obtains op ns where "active_pair (ts_state s) = Some (t, op)" "active_turn ns = None"
    "finish_turn P s tr t op st d ns now ev = (Okay (Some ev), s', tr')"
proof (cases "active_pair (ts_state s)")
  case None
  then show ?thesis
    using assms by (cases hv) (auto simp: Let_def untracked_def split: option.splits supervisor_state.splits)
next
  case (Some a)
  then obtain u op where a: "active_pair (ts_state s) = Some (u, op)" by (cases a) simp
  show ?thesis
  proof (cases hv)
    case (HvCompleted p)
    then show ?thesis using assms a by (intro that[of op StReady]) (auto simp: finish_turn_okay)
  next
    case HvCancelled
    then show ?thesis using assms a by (intro that[of op StReady]) (auto simp: finish_turn_okay)
  next
    case (HvFailed e d')
    then show ?thesis using assms a
      by (intro that[of op "if d = Indeterminate then StCrashed (FromText e) d else StReady"])
        (auto simp: finish_turn_okay)
  qed (insert assms(1,2), auto simp: Let_def untracked_def split: option.splits supervisor_state.splits)
qed

text \<open>C25: A reported end of a turn is final. When a poll reports that a turn completed, was cancelled
  or failed, that turn was the active one, its terminal settlement was accepted by the checkpoint, no
  turn is active afterwards, its delivery is on record, and a prompt of it is refused for good when the
  delivery is indeterminate or confirmed.\<close>

theorem ended_turn_is_final:
  assumes "ts_ok s" "poll_stream P s tr now = (Okay (Some ev), s', tr')" "ended ev = Some (t, st, d)"
  shows "active_turn (ts_state s) = Some t \<and> active_turn (ts_state s') = None
     \<and> last tr' = CallSettle (TurnTerminal (ts_thread s) t st d now) \<and> ask_settle P tr' = Okay ()
     \<and> map_option tr_delivery (map_of (ts_history s') t) = Some d
     \<and> (d = Indeterminate \<or> d = Confirmed \<longrightarrow>
          fst (prompt P' s' tr'' op t content now') = Err (AutomaticResendForbidden (ts_thread s) t d))"
proof -
  have hist: "bt_ok (ts_history s)" using assms(1) by (simp add: ts_ok_def)
  obtain sid hv where hv: "ts_session s = Some sid"
    "apply_event P s (tr @ [CallPoll sid]) now hv = (Okay (Some ev), s', tr')"
    using assms(2) by (auto simp: poll_stream_def Let_def split: option.splits sum.splits)
  obtain op ns where f: "active_pair (ts_state s) = Some (t, op)" "active_turn ns = None"
    "finish_turn P s (tr @ [CallPoll sid]) t op st d ns now ev = (Okay (Some ev), s', tr')"
    using apply_event_ended[OF hv(2) assms(3)] by blast
  have act: "active_turn (ts_state s) = Some t"
    using f(1) by (cases "ts_state s" rule: active_pair.cases) auto
  have s': "s' = record_turn s t op st d ns"
    "tr' = tr @ [CallPoll sid] @ [CallSettle (TurnTerminal (ts_thread s) t st d now)]"
    "ask_settle P tr' = Okay ()"
    using f(3) by (auto simp: finish_turn_okay)
  have "resend_forbidden s' t = (if d = Indeterminate \<or> d = Confirmed then Some d else None)"
    using s'(1) hist by (simp add: resend_forbidden_def record_turn_def)
  then show ?thesis
    using act f(2) s' hist by (auto simp: record_turn_def prompt_def prompt_guard_def)
qed

theorem ended_turn_is_final_witness:
  "\<exists>s s' tr'. map_of (co_threads (co_run (scripted_ports [HvCompleted None]) (take 2 sample_run))) ''thr'' = Some s
     \<and> poll_stream (scripted_ports [HvCompleted None]) s [] 7
         = (Okay (Some (RtTurnCompleted ''thr'' ''trn_a'' None)), s', tr')
     \<and> active_turn (ts_state s) = Some ''trn_a''
     \<and> fst (prompt (scripted_ports []) s' [] ''op_z'' ''trn_a'' ''hi'' 8)
         = Err (AutomaticResendForbidden ''thr'' ''trn_a'' Confirmed)"
proof -
  let ?P = "scripted_ports [HvCompleted None]"
  let ?c = "co_run ?P (take 2 sample_run)"
  have "map_of (co_threads ?c) ''thr'' \<noteq> None" by code_simp
  then obtain s where s: "map_of (co_threads ?c) ''thr'' = Some s" by blast
  have ok: "ts_ok s" "ts_thread s = ''thr''" using co_run_ok[of ?P "take 2 sample_run"] s by (auto simp: co_ok_def)
  have "fst (poll_stream ?P (the (map_of (co_threads ?c) ''thr'')) [] 7)
      = Okay (Some (RtTurnCompleted ''thr'' ''trn_a'' None))"
    by code_simp
  then obtain s' tr' where
    p: "poll_stream ?P s [] 7 = (Okay (Some (RtTurnCompleted ''thr'' ''trn_a'' None)), s', tr')"
    using s by (metis fst_conv option.sel prod_cases3)
  show ?thesis
    using s p ended_turn_is_final[OF ok(1) p, of "''trn_a''" TsCompleted Confirmed "scripted_ports []" "[]"
        "''op_z''" "''hi''" 8] ok(2)
    by (intro exI[of _ s] exI[of _ s'] exI[of _ tr']) simp
qed

section \<open>Where the code falls short of its documentation\<close>

text \<open>A process exit during a cancellation closes the session without recording the turn, so the same
  turn is prompted a second time after the session is created again.\<close>

theorem exit_while_cancelling_allows_resend:
  "announced ''thr'' (co_trace (co_run (scripted_ports [HvProcessExited None])
     [CoCreate ''hsb'' ''thr'', CoPrompt ''thr'' ''op_a'' ''trn_a'' ''hi'', CoCancel ''thr'', CoPoll ''thr'',
      CoClose ''thr'', CoCreate ''hsb'' ''thr'', CoPrompt ''thr'' ''op_b'' ''trn_a'' ''hi'']))
   = [(''trn_a'', ''op_a''), (''trn_a'', ''op_b'')]"
  by code_simp

text \<open>When the settlement after a successful send fails, the supervisor stays ready and the turn, already
  delivered, can be sent again at once.\<close>

theorem failed_settlement_allows_resend:
  "let P = (scripted_ports [])\<lparr>ask_settle := (\<lambda>tr. Err (Persistence ''disk''))\<rparr> in
   filter (\<lambda>c. case c of CallSend _ _ _ _ \<Rightarrow> True | _ \<Rightarrow> False) (co_trace (co_run P
     [CoCreate ''hsb'' ''thr'', CoPrompt ''thr'' ''op_a'' ''trn_a'' ''hi'',
      CoPrompt ''thr'' ''op_b'' ''trn_a'' ''hi'']))
   = [CallSend ''ses'' ''trn_a'' ''op_a'' ''hi'', CallSend ''ses'' ''trn_a'' ''op_b'' ''hi'']"
  by code_simp

text \<open>A prompt whose intent checkpoint fails keeps its operation admitted for good: the registry fills up
  although nothing runs.\<close>

theorem failed_intent_leaks_admission:
  assumes "prompt_guard s turn = Okay sid" "admit_operation (ts_operations s) op = (Okay Execute, reg)"
    "\<And>tr. ask_intent P tr = Err e"
  shows "\<exists>s' tr'. prompt P s tr op turn content now = (Err (CheckpointFailed e), s', tr')
    \<and> ts_state s' = ts_state s \<and> registry_len (ts_operations s') = registry_len (ts_operations s) + 1"
  using assms
  by (auto simp: prompt_def admit_operation_def registry_knows_def registry_len_def Let_def
      bt_insert_length_new split: if_splits)

end
