(* ===== verification/Crypto_Blob.thy ===== *)
theory Crypto_Blob
  imports Crypto_Device
begin

text \<open>
  Convergent chunk encryption of blobs, \<open>crates/altior-crypto/src/blob.rs\<close>. SHA-256 is a further
  parameter, \<open>sha\<close>. Lengths and indices are cast to \<open>u64\<close> where the source casts them.
\<close>

section \<open>Model\<close>

definition blob_chunk_plaintext_max :: nat where
  "blob_chunk_plaintext_max = 64 * 1024"

definition blob_format_version :: byte where
  "blob_format_version = 1"

definition blob_kdf_domain :: bytes where
  "blob_kdf_domain = str_bytes ''altior/blob/chunk-key''"

definition blob_nonce_domain :: bytes where
  "blob_nonce_domain = str_bytes ''altior/blob/nonce''"

record chunk_ciphertext =
  cc_blob_id :: bytes
  cc_content_hash :: bytes
  cc_ciphertext :: bytes

record chunk_manifest_entry =
  me_content_hash :: bytes
  me_blob_id :: bytes
  me_ciphertext_len :: nat

record blob_manifest =
  bm_total_size :: u64
  bm_entries :: "chunk_manifest_entry list"

definition blob_id_of :: "(bytes \<Rightarrow> bytes) \<Rightarrow> blob_manifest \<Rightarrow> bytes" where
  "blob_id_of sha m = sha (concat (map me_blob_id (bm_entries m)))"

definition chunk_key :: "crypto_prims \<Rightarrow> bytes \<Rightarrow> bytes \<Rightarrow> bytes" where
  "chunk_key P vault_key content_hash =
     hkdf P (Some content_hash) vault_key (blob_kdf_domain @ [blob_format_version]) 32"

definition chunk_nonce :: "crypto_prims \<Rightarrow> bytes \<Rightarrow> nat \<Rightarrow> bytes" where
  "chunk_nonce P key index =
     hkdf P None key (blob_nonce_domain @ [blob_format_version] @ be64 (of_nat index)) 12"

definition blob_aad :: "bytes \<Rightarrow> nat \<Rightarrow> nat \<Rightarrow> u64 \<Rightarrow> bytes" where
  "blob_aad content_hash index total_chunks total_size =
     [blob_format_version] @ content_hash @ be64 (of_nat index) @ be64 (of_nat total_chunks)
       @ be64 total_size"

text \<open>\<open>slice::chunks\<close>, for a positive chunk size.\<close>

function chunks_of :: "nat \<Rightarrow> 'a list \<Rightarrow> 'a list list" where
  "chunks_of n xs = (if xs = [] \<or> n = 0 then [] else take n xs # chunks_of n (drop n xs))"
  by pat_completeness auto
termination
  by (relation "measure (\<lambda>(n, xs). length xs)") auto

declare chunks_of.simps [simp del]

text \<open>The slices of a plaintext: an empty one is a single empty slice.\<close>

definition blob_slices :: "bytes \<Rightarrow> bytes list" where
  "blob_slices plaintext =
     (if plaintext = [] then [[]] else chunks_of blob_chunk_plaintext_max plaintext)"

text \<open>One step of the sealing loop; \<open>None\<close> is the panic of \<open>expect\<close> when the cipher refuses.\<close>

definition seal_chunk ::
  "crypto_prims \<Rightarrow> (bytes \<Rightarrow> bytes) \<Rightarrow> bytes \<Rightarrow> nat \<Rightarrow> u64 \<Rightarrow> nat \<Rightarrow> bytes \<Rightarrow> chunk_ciphertext option" where
  "seal_chunk P sha vault_key total_chunks total_size index chunk =
     (let h = sha chunk; key = chunk_key P vault_key h in
      map_option (\<lambda>ct. \<lparr>cc_blob_id = sha ct, cc_content_hash = h, cc_ciphertext = ct\<rparr>)
        (aead_encrypt P key (chunk_nonce P key index) chunk
           (blob_aad h index total_chunks total_size)))"

fun seal_chunks ::
  "crypto_prims \<Rightarrow> (bytes \<Rightarrow> bytes) \<Rightarrow> bytes \<Rightarrow> nat \<Rightarrow> u64 \<Rightarrow> nat \<Rightarrow> bytes list
   \<Rightarrow> chunk_ciphertext list option" where
  "seal_chunks P sha vault_key total_chunks total_size index [] = Some []"
| "seal_chunks P sha vault_key total_chunks total_size index (x # xs) =
     (case seal_chunk P sha vault_key total_chunks total_size index x of
        None \<Rightarrow> None
      | Some c \<Rightarrow>
          map_option ((#) c) (seal_chunks P sha vault_key total_chunks total_size (index + 1) xs))"

definition manifest_entry_of :: "chunk_ciphertext \<Rightarrow> chunk_manifest_entry" where
  "manifest_entry_of c = \<lparr>me_content_hash = cc_content_hash c, me_blob_id = cc_blob_id c,
     me_ciphertext_len = length (cc_ciphertext c)\<rparr>"

definition split_and_encrypt ::
  "crypto_prims \<Rightarrow> (bytes \<Rightarrow> bytes) \<Rightarrow> bytes \<Rightarrow> bytes \<Rightarrow> (chunk_ciphertext list \<times> blob_manifest) option" where
  "split_and_encrypt P sha vault_key plaintext =
     (let slices = blob_slices plaintext; total_size = of_nat (length plaintext) in
      map_option (\<lambda>cs. (cs, \<lparr>bm_total_size = total_size, bm_entries = map manifest_entry_of cs\<rparr>))
        (seal_chunks P sha vault_key (length slices) total_size 0 slices))"

text \<open>The loop of \<open>decrypt_and_reassemble\<close> over the manifest's entries, from one index on.\<close>

fun open_chunks ::
  "crypto_prims \<Rightarrow> (bytes \<Rightarrow> bytes) \<Rightarrow> bytes \<Rightarrow> nat \<Rightarrow> u64 \<Rightarrow> (bytes \<rightharpoonup> bytes) \<Rightarrow> nat
   \<Rightarrow> chunk_manifest_entry list \<Rightarrow> bytes \<Rightarrow> (crypto_error, bytes) result" where
  "open_chunks P sha vault_key total_chunks total_size chunks index [] plaintext = Okay plaintext"
| "open_chunks P sha vault_key total_chunks total_size chunks index (e # es) plaintext =
     (case chunks (me_blob_id e) of
        None \<Rightarrow> Err (BlobChunkMissing index (me_blob_id e))
      | Some ct \<Rightarrow>
          if length ct \<noteq> me_ciphertext_len e then Err (BlobChunkMismatch index)
          else
            let key = chunk_key P vault_key (me_content_hash e) in
            case aead_decrypt P key (chunk_nonce P key index) ct
                   (blob_aad (me_content_hash e) index total_chunks total_size) of
              None \<Rightarrow> Err EnvelopeOpen
            | Some chunk \<Rightarrow>
                if sha chunk \<noteq> me_content_hash e then Err (BlobChunkMismatch index)
                else open_chunks P sha vault_key total_chunks total_size chunks (index + 1) es
                       (plaintext @ chunk))"

definition decrypt_and_reassemble ::
  "crypto_prims \<Rightarrow> (bytes \<Rightarrow> bytes) \<Rightarrow> bytes \<Rightarrow> blob_manifest \<Rightarrow> (bytes \<rightharpoonup> bytes)
   \<Rightarrow> (crypto_error, bytes) result" where
  "decrypt_and_reassemble P sha vault_key m chunks =
     (case open_chunks P sha vault_key (length (bm_entries m)) (bm_total_size m) chunks 0
             (bm_entries m) [] of
        Inl e \<Rightarrow> Err e
      | Inr plaintext \<Rightarrow>
          if of_nat (length plaintext) \<noteq> bm_total_size m
          then Err (BlobChunkMismatch (length (bm_entries m))) else Okay plaintext)"

section \<open>Lemmas\<close>

lemma concat_chunks_of: "0 < n \<Longrightarrow> concat (chunks_of n xs) = xs"
proof (induction n xs rule: chunks_of.induct)
  case (1 n xs)
  then show ?case by (subst chunks_of.simps) (simp add: append_take_drop_id)
qed

lemma concat_blob_slices: "concat (blob_slices p) = p"
  by (simp add: blob_slices_def concat_chunks_of blob_chunk_plaintext_max_def)

lemma blob_slices_small: "length p \<le> blob_chunk_plaintext_max \<Longrightarrow> blob_slices p = [p]"
  by (simp add: blob_slices_def chunks_of.simps blob_chunk_plaintext_max_def)

lemma chunks_of_bounded: "x \<in> set (chunks_of n xs) \<Longrightarrow> length x \<le> n"
proof (induction n xs rule: chunks_of.induct)
  case (1 n xs)
  show ?case
  proof (cases "xs = [] \<or> n = 0")
    case True
    then show ?thesis using "1.prems" by (simp add: chunks_of.simps[of n xs])
  next
    case False
    then have "x = take n xs \<or> x \<in> set (chunks_of n (drop n xs))"
      using "1.prems" by (subst (asm) chunks_of.simps) auto
    then show ?thesis using "1.IH"[OF False] by auto
  qed
qed

lemma seal_chunks_length:
  "seal_chunks P sha k n ts i xs = Some cs \<Longrightarrow> length cs = length xs"
  by (induction xs arbitrary: i cs) (auto split: option.splits)

lemma seal_chunks_hashes:
  "seal_chunks P sha k n ts i xs = Some cs \<Longrightarrow> map cc_content_hash cs = map sha xs"
  by (induction xs arbitrary: i cs) (auto simp: seal_chunk_def Let_def split: option.splits)

lemma seal_chunks_open:
  assumes "aead_correct P" "seal_chunks P sha k n ts i xs = Some cs"
    "\<forall>c\<in>set cs. store (cc_blob_id c) = Some (cc_ciphertext c)"
  shows "open_chunks P sha k n ts store i (map manifest_entry_of cs) acc = Okay (acc @ concat xs)"
  using assms(2,3)
proof (induction xs arbitrary: i cs acc)
  case Nil
  then show ?case by simp
next
  case (Cons x xs)
  obtain c cs' where c: "seal_chunk P sha k n ts i x = Some c"
    "seal_chunks P sha k n ts (i + 1) xs = Some cs'" "cs = c # cs'"
    using Cons.prems(1) by (auto split: option.splits)
  then have "aead_encrypt P (chunk_key P k (sha x)) (chunk_nonce P (chunk_key P k (sha x)) i) x
      (blob_aad (sha x) i n ts) = Some (cc_ciphertext c)" "cc_content_hash c = sha x"
    by (auto simp: seal_chunk_def Let_def)
  then have "aead_decrypt P (chunk_key P k (sha x)) (chunk_nonce P (chunk_key P k (sha x)) i)
      (cc_ciphertext c) (blob_aad (sha x) i n ts) = Some x" "cc_content_hash c = sha x"
    using assms(1) by (auto simp: aead_correct_def)
  then show ?case using Cons.IH[OF c(2)] Cons.prems(2) c(3) by (simp add: manifest_entry_of_def Let_def)
qed

text \<open>What an accepted reassembly produced, whatever the store handed out: one plaintext per entry, each with the
  hash the manifest claims and opened under its own key, nonce and position from a ciphertext of the claimed length.\<close>

definition chunk_authentic ::
  "crypto_prims \<Rightarrow> (bytes \<Rightarrow> bytes) \<Rightarrow> bytes \<Rightarrow> nat \<Rightarrow> u64 \<Rightarrow> (bytes \<rightharpoonup> bytes) \<Rightarrow> nat \<Rightarrow> chunk_manifest_entry \<Rightarrow> bytes \<Rightarrow> bool" where
  "chunk_authentic P sha k n ts store i e x \<longleftrightarrow> sha x = me_content_hash e
     \<and> (\<exists>ct. store (me_blob_id e) = Some ct \<and> length ct = me_ciphertext_len e
          \<and> aead_decrypt P (chunk_key P k (me_content_hash e)) (chunk_nonce P (chunk_key P k (me_content_hash e)) i) ct
              (blob_aad (me_content_hash e) i n ts) = Some x)"

lemma open_chunks_authentic:
  "open_chunks P sha k n ts store i es acc = Okay p \<Longrightarrow>
   \<exists>xs. p = acc @ concat xs \<and> length xs = length es
     \<and> (\<forall>j<length es. chunk_authentic P sha k n ts store (i + j) (es ! j) (xs ! j))"
proof (induction es arbitrary: i acc)
  case Nil
  then show ?case by simp
next
  case (Cons e es)
  obtain x where x: "chunk_authentic P sha k n ts store i e x"
    "open_chunks P sha k n ts store (i + 1) es (acc @ x) = Okay p"
    using Cons.prems by (auto simp: Let_def chunk_authentic_def split: option.splits if_splits)
  then obtain xs where xs: "p = (acc @ x) @ concat xs" "length xs = length es"
    "\<forall>j<length es. chunk_authentic P sha k n ts store (i + 1 + j) (es ! j) (xs ! j)"
    using Cons.IH by blast
  have "chunk_authentic P sha k n ts store (i + j) ((e # es) ! j) ((x # xs) ! j)" if "j < length (e # es)" for j
    using that x(1) xs(3) by (cases j) auto
  then show ?case using xs(1,2) by (intro exI[of _ "x # xs"]) auto
qed

section \<open>Properties\<close>

text \<open>C21: A blob round trips and cannot be substituted. Once every chunk is in the store under its id, reassembly gives back the
  bytes that were split. Whatever the manifest and whatever a store hands out, a reassembly that succeeds has the size the
  manifest claims and consists of one chunk per entry, each with the digest of its entry and authenticated at its own position
  from a ciphertext of the claimed length. For the manifest of a split the chunks therefore have the digests of the slices
  that were split.\<close>

theorem blob_roundtrip_and_integrity:
  assumes "aead_correct P" "split_and_encrypt P sha k plaintext = Some (cs, m)"
  shows "((\<forall>c\<in>set cs. store (cc_blob_id c) = Some (cc_ciphertext c)) \<longrightarrow>
           decrypt_and_reassemble P sha k m store = Okay plaintext)
       \<and> (decrypt_and_reassemble P sha k' m' store' = Okay q \<longrightarrow>
           of_nat (length q) = bm_total_size m'
           \<and> (\<exists>xs. q = concat xs \<and> length xs = length (bm_entries m')
               \<and> (\<forall>i<length xs. chunk_authentic P sha k' (length xs) (bm_total_size m') store' i (bm_entries m' ! i) (xs ! i))
               \<and> (m' = m \<longrightarrow> map sha xs = map sha (blob_slices plaintext))))"
proof -
  let ?xs = "blob_slices plaintext"
  have s: "seal_chunks P sha k (length ?xs) (of_nat (length plaintext)) 0 ?xs = Some cs"
    and m: "m = \<lparr>bm_total_size = of_nat (length plaintext), bm_entries = map manifest_entry_of cs\<rparr>"
    using assms(2) by (auto simp: split_and_encrypt_def Let_def)
  have len: "length (bm_entries m) = length ?xs" using seal_chunks_length[OF s] m by simp
  have h: "map me_content_hash (bm_entries m) = map sha ?xs"
    using seal_chunks_hashes[OF s] m by (simp add: manifest_entry_of_def comp_def)
  have "decrypt_and_reassemble P sha k m store = Okay plaintext"
    if "\<forall>c\<in>set cs. store (cc_blob_id c) = Some (cc_ciphertext c)"
    using seal_chunks_open[OF assms(1) s that, of "[]"] len m
    by (simp add: decrypt_and_reassemble_def concat_blob_slices)
  moreover have "of_nat (length q) = bm_total_size m'
      \<and> (\<exists>xs. q = concat xs \<and> length xs = length (bm_entries m')
          \<and> (\<forall>i<length xs. chunk_authentic P sha k' (length xs) (bm_total_size m') store' i (bm_entries m' ! i) (xs ! i))
          \<and> (m' = m \<longrightarrow> map sha xs = map sha ?xs))"
    if q: "decrypt_and_reassemble P sha k' m' store' = Okay q"
  proof -
    have o: "open_chunks P sha k' (length (bm_entries m')) (bm_total_size m') store' 0 (bm_entries m') [] = Okay q"
      and ts: "of_nat (length q) = bm_total_size m'"
      using q by (auto simp: decrypt_and_reassemble_def split: sum.splits if_splits)
    obtain xs where xs: "q = concat xs" "length xs = length (bm_entries m')"
      "\<forall>i<length xs. chunk_authentic P sha k' (length xs) (bm_total_size m') store' i (bm_entries m' ! i) (xs ! i)"
      using open_chunks_authentic[OF o] by auto
    then have "map sha xs = map me_content_hash (bm_entries m')"
      by (intro nth_equalityI) (auto simp: chunk_authentic_def)
    then show ?thesis using xs ts h by auto
  qed
  ultimately show ?thesis by blast
qed

theorem blob_roundtrip_and_integrity_witness:
  "\<exists>cs m. split_and_encrypt sample_prims id [7] [1, 2, 3] = Some (cs, m)
     \<and> decrypt_and_reassemble sample_prims id [7] m
         (map_of (map (\<lambda>c. (cc_blob_id c, cc_ciphertext c)) cs)) = Okay [1, 2, 3]"
proof -
  have small: "blob_slices [1, 2, 3] = [[1, 2, 3]]"
    by (rule blob_slices_small) (simp add: blob_chunk_plaintext_max_def)
  obtain cs m where s: "split_and_encrypt sample_prims id [7] [1, 2, 3] = Some (cs, m)"
    and one: "length cs = 1"
    by (auto simp: split_and_encrypt_def small seal_chunk_def Let_def)
  then have "\<forall>c\<in>set cs. map_of (map (\<lambda>c. (cc_blob_id c, cc_ciphertext c)) cs) (cc_blob_id c)
      = Some (cc_ciphertext c)"
    by (cases cs) auto
  then show ?thesis
    using s blob_roundtrip_and_integrity[OF sample_prims_sound(1) s] by blast
qed

end
