(* ===== verification/Sync_Model.thy ===== *)
theory Sync_Model
  imports Relay_Queue Crypto_Session_V2 Crypto_Blob Protocol_Types
begin

text \<open>
  The vault sync engine, \<open>crates/altior-core/src/sync/mod.rs\<close> and the state port of \<open>persist.rs\<close>: a
  signed journal replicated between paired devices over the relay, sealed by v2 sessions.

  What comes from outside the repository or from serialisation is one record of parameters: the
  cryptographic primitives, SHA-256, the JSON encoding of payloads and of the signed bytes, and the
  operations of the durable state port. Relay positions are \<open>nat\<close> as in the relay. A panic of the
  source (\<open>expect\<close>, an index into a missing key) is the error \<open>SyncPanic\<close>. The page loop of \<open>poll\<close>
  takes fuel, \<open>None\<close> meaning that it ran out.
\<close>

section \<open>Data\<close>

record blob_entry =
  ble_content_hash :: string
  ble_blob_id :: string
  ble_ciphertext_len :: u64

datatype event_body =
    DocumentAppend string string
  | MemoryProposed string string
  | MemoryForgotten string u64 bytes
  | AckEvent "(string \<times> u64) list"
  | BlobAdded string u64 "blob_entry list"

record journal_event =
  je_id :: string
  je_origin :: string
  je_seq :: u64
  je_signature :: bytes
  je_body :: event_body

record wire_event =
  we_id :: string
  we_origin :: string
  we_seq :: u64
  we_signature :: bytes
  we_body :: event_body

record blob_chunk_wire =
  bw_blob_id :: string
  bw_content_hash :: string
  bw_chunk_id :: string
  bw_ciphertext :: bytes

datatype sync_payload = PayloadEvent wire_event | PayloadChunk blob_chunk_wire

text \<open>\<open>InvariantShown e\<close> is \<open>Invariant(e.to_string())\<close>.\<close>

datatype sync_error =
    UnknownOrigin string
  | SessionError crypto_error
  | RelayError relay_error
  | Serialization
  | Invariant string
  | InvariantShown sync_error
  | StateError
  | SyncPanic string

record stored_blob =
  sb_total_size :: u64
  sb_entries :: "blob_entry list"
  sb_chunks :: "(string \<times> bytes) list"

definition stored_blob_default :: stored_blob where
  "stored_blob_default = \<lparr>sb_total_size = 0, sb_entries = [], sb_chunks = []\<rparr>"

record tombstone_mark =
  tm_digest :: bytes
  tm_origin :: string
  tm_seq :: u64

record peer_channels =
  pc_identity :: device_identity
  pc_outbound :: session_v2
  pc_inbound :: session_v2
  pc_cursor :: nat

text \<open>The trait \<open>SyncStatePort\<close>: operations on a port of type \<open>'p\<close>.\<close>

record 'p sync_state_port =
  record_applied :: "'p \<Rightarrow> journal_event \<Rightarrow> (sync_error, bool) result \<times> 'p"
  load_applied :: "'p \<Rightarrow> (sync_error, journal_event list) result \<times> 'p"
  record_fetch_cursor :: "'p \<Rightarrow> string \<Rightarrow> nat \<Rightarrow> (sync_error, unit) result \<times> 'p"
  load_fetch_cursors :: "'p \<Rightarrow> (sync_error, (string \<times> nat) list) result \<times> 'p"
  record_tombstone :: "'p \<Rightarrow> string \<Rightarrow> tombstone_mark \<Rightarrow> u64 \<Rightarrow> (sync_error, unit) result \<times> 'p"
  load_tombstones :: "'p \<Rightarrow> (sync_error, (string \<times> tombstone_mark) list) result \<times> 'p"

record 'p sync_env =
  se_prims :: crypto_prims
  se_sha :: "bytes \<Rightarrow> bytes"
  se_encode :: "sync_payload \<Rightarrow> bytes option"
  se_decode :: "bytes \<Rightarrow> sync_payload option"
  se_canonical :: "string \<Rightarrow> string \<Rightarrow> u64 \<Rightarrow> event_body \<Rightarrow> bytes"
  se_port :: "'p sync_state_port"

text \<open>\<open>SyncNode\<close>. The state is \<open>None\<close> for a volatile node; \<open>sn_sent_to\<close> is the hash map whose
  missing entries default to the empty set.\<close>

record 'p sync_node =
  sn_label :: string
  sn_keys :: device_keys
  sn_peers :: "(string \<times> peer_channels) list"
  sn_applied :: "(string \<times> journal_event) list"
  sn_memories :: "(string \<times> string) list"
  sn_tombstones :: "(string \<times> tombstone_mark) list"
  sn_documents :: "(string \<times> string list) list"
  sn_outbox :: "journal_event list"
  sn_peer_acks :: "(string \<times> (string \<times> u64) list) list"
  sn_sent_to :: "string \<Rightarrow> string list"
  sn_state :: "'p option"
  sn_loaded_cursors :: "(string \<times> nat) list"
  sn_blobs :: "(string \<times> stored_blob) list"
  sn_next_seq :: u64
  sn_suppressed :: u64

text \<open>\<open>map.get(k)\<close> with a default.\<close>

definition bt_get :: "'v \<Rightarrow> ('k \<times> 'v) list \<Rightarrow> 'k \<Rightarrow> 'v" where
  "bt_get d m k = (case map_of m k of None \<Rightarrow> d | Some v \<Rightarrow> v)"

section \<open>Hexadecimal ids\<close>

definition sync_hex_encode :: "bytes \<Rightarrow> string" where
  "sync_hex_encode bs =
     concat (map (\<lambda>b. [''0123456789abcdef'' ! (unat b div 16), ''0123456789abcdef'' ! (unat b mod 16)]) bs)"

definition hex_value :: "char \<Rightarrow> nat option" where
  "hex_value c =
     (let n = of_char c :: nat in
      if 48 \<le> n \<and> n \<le> 57 then Some (n - 48)
      else if 97 \<le> n \<and> n \<le> 102 then Some (n - 87)
      else if 65 \<le> n \<and> n \<le> 70 then Some (n - 55) else None)"

text \<open>\<open>u8::from_str_radix(pair, 16)\<close> on two characters: a leading plus sign is accepted.\<close>

definition hex_byte :: "char \<Rightarrow> char \<Rightarrow> byte option" where
  "hex_byte a b =
     (case hex_value b of
        None \<Rightarrow> None
      | Some lo \<Rightarrow>
          if a = CHR ''+'' then Some (of_nat lo)
          else map_option (\<lambda>hi. of_nat (16 * hi + lo)) (hex_value a))"

fun hex_bytes :: "string \<Rightarrow> bytes option" where
  "hex_bytes [] = Some []"
| "hex_bytes [c] = None"
| "hex_bytes (a # b # cs) =
     (case hex_byte a b of None \<Rightarrow> None | Some x \<Rightarrow> map_option ((#) x) (hex_bytes cs))"

definition sync_hex_decode :: "string \<Rightarrow> bytes option" where
  "sync_hex_decode s = (if length s \<noteq> 64 then None else hex_bytes s)"

section \<open>Journal\<close>

definition sync_new :: "device_keys \<Rightarrow> string \<Rightarrow> 'p sync_node" where
  "sync_new keys label = \<lparr>sn_label = label, sn_keys = keys, sn_peers = [], sn_applied = [],
     sn_memories = [], sn_tombstones = [], sn_documents = [], sn_outbox = [], sn_peer_acks = [],
     sn_sent_to = (\<lambda>_. []), sn_state = None, sn_loaded_cursors = [], sn_blobs = [],
     sn_next_seq = 1, sn_suppressed = 0\<rparr>"

definition mark_applied :: "journal_event \<Rightarrow> 'p sync_node \<Rightarrow> 'p sync_node" where
  "mark_applied ev n = n\<lparr>sn_applied := bt_insert (je_id ev) ev (sn_applied n)\<rparr>"

text \<open>The ledger of an acknowledging peer: the larger sequence per origin.\<close>

fun merge_acks :: "(string \<times> u64) list \<Rightarrow> (string \<times> u64) list \<Rightarrow> (string \<times> u64) list" where
  "merge_acks ledger [] = ledger"
| "merge_acks ledger ((origin, seq) # fs) =
     (let old = bt_get 0 ledger origin in
      merge_acks (bt_insert origin (if seq > old then seq else old) ledger) fs)"

definition sync_apply ::
  "'p sync_env \<Rightarrow> 'p sync_node \<Rightarrow> journal_event \<Rightarrow> (sync_error, unit) result \<times> 'p sync_node" where
  "sync_apply E n ev =
     (case je_body ev of
        DocumentAppend doc entry \<Rightarrow>
          (Okay (), mark_applied ev
             (n\<lparr>sn_documents := bt_insert doc (insort_insert entry (bt_get [] (sn_documents n) doc))
                  (sn_documents n)\<rparr>))
      | MemoryProposed mem content \<Rightarrow>
          (if map_of (sn_tombstones n) mem \<noteq> None
           then (Okay (), mark_applied ev (n\<lparr>sn_suppressed := sn_suppressed n + 1\<rparr>))
           else (Okay (), mark_applied ev (n\<lparr>sn_memories := bt_insert mem content (sn_memories n)\<rparr>)))
      | MemoryForgotten mem forgotten_at digest \<Rightarrow>
          let mark = \<lparr>tm_digest = digest, tm_origin = je_origin ev, tm_seq = je_seq ev\<rparr>;
              forget = (\<lambda>n. mark_applied ev (n\<lparr>sn_tombstones := bt_insert mem mark (sn_tombstones n),
                 sn_memories := bt_remove mem (sn_memories n)\<rparr>)) in
          (case sn_state n of
             None \<Rightarrow> (Okay (), forget n)
           | Some port \<Rightarrow>
               (case record_tombstone (se_port E) port mem mark forgotten_at of
                  (Inl e, port') \<Rightarrow>
                    (Err (case e of StateError \<Rightarrow> StateError | other \<Rightarrow> InvariantShown other),
                     n\<lparr>sn_state := Some port'\<rparr>)
                | (Inr _, port') \<Rightarrow> (Okay (), forget (n\<lparr>sn_state := Some port'\<rparr>))))
      | BlobAdded blob total_size es \<Rightarrow>
          (Okay (), mark_applied ev
             (n\<lparr>sn_blobs := bt_insert blob
                  ((bt_get stored_blob_default (sn_blobs n) blob)
                     \<lparr>sb_total_size := total_size, sb_entries := es\<rparr>) (sn_blobs n)\<rparr>))
      | AckEvent frontiers \<Rightarrow>
          (Okay (), mark_applied ev
             (n\<lparr>sn_peer_acks := bt_insert (je_origin ev)
                  (merge_acks (bt_get [] (sn_peer_acks n) (je_origin ev)) frontiers)
                  (sn_peer_acks n)\<rparr>)))"

text \<open>\<open>admit\<close>: record durably, then apply.\<close>

definition sync_admit ::
  "'p sync_env \<Rightarrow> 'p sync_node \<Rightarrow> journal_event \<Rightarrow> (sync_error, unit) result \<times> 'p sync_node" where
  "sync_admit E n ev =
     (if map_of (sn_applied n) (je_id ev) \<noteq> None then (Okay (), n)
      else
        let apply_if = (\<lambda>fresh n'. if fresh \<or> map_of (sn_applied n') (je_id ev) = None
                                  then sync_apply E n' ev else (Okay (), n')) in
        (case sn_state n of
           None \<Rightarrow> apply_if True n
         | Some port \<Rightarrow>
             (case record_applied (se_port E) port ev of
                (Inl e, port') \<Rightarrow> (Err e, n\<lparr>sn_state := Some port'\<rparr>)
              | (Inr fresh, port') \<Rightarrow> apply_if fresh (n\<lparr>sn_state := Some port'\<rparr>))))"

definition event_id_of :: "string \<Rightarrow> u64 \<Rightarrow> string" where
  "event_id_of label seq = label @ '':'' @ show_nat (unat seq)"

definition sync_create ::
  "'p sync_env \<Rightarrow> 'p sync_node \<Rightarrow> event_body \<Rightarrow> journal_event \<times> 'p sync_node" where
  "sync_create E n body =
     (let seq = sn_next_seq n;
          i = event_id_of (sn_label n) seq;
          ev = \<lparr>je_id = i, je_origin = sn_label n, je_seq = seq,
                je_signature = keys_sign (se_prims E) (sn_keys n) (se_canonical E i (sn_label n) seq body),
                je_body = body\<rparr>
      in (ev, n\<lparr>sn_next_seq := seq + 1, sn_outbox := sn_outbox n @ [ev]\<rparr>))"

text \<open>A local edit: create, then admit. The three public edits return the event's id.\<close>

definition local_event ::
  "'p sync_env \<Rightarrow> 'p sync_node \<Rightarrow> event_body \<Rightarrow> (sync_error, string) result \<times> 'p sync_node" where
  "local_event E n body =
     (case sync_create E n body of
        (ev, n1) \<Rightarrow>
          (case sync_admit E n1 ev of
             (Inl e, n2) \<Rightarrow> (Err e, n2)
           | (Inr _, n2) \<Rightarrow> (Okay (je_id ev), n2)))"

definition append_document ::
  "'p sync_env \<Rightarrow> 'p sync_node \<Rightarrow> string \<Rightarrow> string \<Rightarrow> (sync_error, string) result \<times> 'p sync_node" where
  "append_document E n doc entry = local_event E n (DocumentAppend doc entry)"

definition propose_memory ::
  "'p sync_env \<Rightarrow> 'p sync_node \<Rightarrow> string \<Rightarrow> string
   \<Rightarrow> (sync_error, string option) result \<times> 'p sync_node" where
  "propose_memory E n mem content =
     (if map_of (sn_tombstones n) mem \<noteq> None
      then (Okay None, n\<lparr>sn_suppressed := sn_suppressed n + 1\<rparr>)
      else case local_event E n (MemoryProposed mem content) of
        (Inl e, n') \<Rightarrow> (Err e, n')
      | (Inr i, n') \<Rightarrow> (Okay (Some i), n'))"

definition forget_memory ::
  "'p sync_env \<Rightarrow> 'p sync_node \<Rightarrow> string \<Rightarrow> u64 \<Rightarrow> bytes
   \<Rightarrow> (sync_error, string) result \<times> 'p sync_node" where
  "forget_memory E n mem forgotten_at digest =
     local_event E n (MemoryForgotten mem forgotten_at digest)"

text \<open>\<open>durable\<close>: replay the port's journal, then continue past the own highest sequence.\<close>

fun apply_all ::
  "'p sync_env \<Rightarrow> 'p sync_node \<Rightarrow> journal_event list \<Rightarrow> (sync_error, unit) result \<times> 'p sync_node" where
  "apply_all E n [] = (Okay (), n)"
| "apply_all E n (ev # evs) =
     (case sync_apply E n ev of (Inl e, n') \<Rightarrow> (Err e, n') | (Inr _, n') \<Rightarrow> apply_all E n' evs)"

definition next_own_seq :: "'p sync_node \<Rightarrow> u64" where
  "next_own_seq n =
     foldl max 0 (map je_seq (filter (\<lambda>ev. je_origin ev = sn_label n) (map snd (sn_applied n)))) + 1"

definition sync_durable ::
  "'p sync_env \<Rightarrow> device_keys \<Rightarrow> string \<Rightarrow> 'p \<Rightarrow> (sync_error, 'p sync_node) result" where
  "sync_durable E keys label port =
     (case load_applied (se_port E) port of
        (Inl e, _) \<Rightarrow> Err e
      | (Inr evs, port1) \<Rightarrow>
          (case apply_all E (sync_new keys label) evs of
             (Inl e, _) \<Rightarrow> Err e
           | (Inr _, n) \<Rightarrow>
               (case load_tombstones (se_port E) port1 of
                  (Inl e, _) \<Rightarrow> Err e
                | (Inr ts, port2) \<Rightarrow>
                    (case load_fetch_cursors (se_port E) port2 of
                       (Inl e, _) \<Rightarrow> Err e
                     | (Inr cs, port3) \<Rightarrow>
                         Okay (n\<lparr>sn_next_seq := next_own_seq n, sn_tombstones := ts,
                                sn_loaded_cursors := cs, sn_state := Some port3\<rparr>)))))"

section \<open>Pairing\<close>

definition sync_pair ::
  "'p sync_env \<Rightarrow> 'p sync_node \<Rightarrow> 'p sync_node \<Rightarrow> bytes \<Rightarrow> u32
   \<Rightarrow> counter_block option \<Rightarrow> counter_block option
   \<Rightarrow> (sync_error, unit) result \<times> 'p sync_node \<times> 'p sync_node" where
  "sync_pair E a b epoch epoch_seq a_to_b b_to_a =
     (let P = se_prims E;
          ida = public_identity P (sn_keys a); idb = public_identity P (sn_keys b) in
      case v2_outbound P (sn_keys a) idb epoch epoch_seq a_to_b of
        Inl e \<Rightarrow> (Err (SessionError e), a, b)
      | Inr outa \<Rightarrow>
      case v2_inbound P (sn_keys b) ida epoch epoch_seq of
        Inl e \<Rightarrow> (Err (SessionError e), a, b)
      | Inr inb \<Rightarrow>
      case v2_outbound P (sn_keys b) ida epoch epoch_seq b_to_a of
        Inl e \<Rightarrow> (Err (SessionError e), a, b)
      | Inr outb \<Rightarrow>
      case v2_inbound P (sn_keys a) idb epoch epoch_seq of
        Inl e \<Rightarrow> (Err (SessionError e), a, b)
      | Inr ina \<Rightarrow>
          (Okay (),
           a\<lparr>sn_peers := bt_insert (sn_label b) \<lparr>pc_identity = idb, pc_outbound = outa, pc_inbound = ina,
               pc_cursor = bt_get 0 (sn_loaded_cursors a) (sn_label b)\<rparr> (sn_peers a)\<rparr>,
           b\<lparr>sn_peers := bt_insert (sn_label a) \<lparr>pc_identity = ida, pc_outbound = outb, pc_inbound = inb,
               pc_cursor = bt_get 0 (sn_loaded_cursors b) (sn_label a)\<rparr> (sn_peers b)\<rparr>))"

section \<open>Receiving\<close>

definition inbox :: "string \<Rightarrow> string \<Rightarrow> bucket_id" where
  "inbox receiver sender = BucketId (''vault/'' @ receiver @ ''-from-'' @ sender)"

definition set_peer :: "string \<Rightarrow> peer_channels \<Rightarrow> 'p sync_node \<Rightarrow> 'p sync_node" where
  "set_peer peer ch n = n\<lparr>sn_peers := bt_insert peer ch (sn_peers n)\<rparr>"

definition ingest_chunk ::
  "'p sync_env \<Rightarrow> 'p sync_node \<Rightarrow> string \<Rightarrow> blob_chunk_wire
   \<Rightarrow> (sync_error, unit) result \<times> 'p sync_node" where
  "ingest_chunk E n peer c =
     (if sync_hex_encode (se_sha E (bw_ciphertext c)) \<noteq> bw_chunk_id c
      then (Err (Invariant (''chunk digest mismatch from '' @ peer)), n)
      else case map_of (sn_blobs n) (bw_blob_id c) of
        None \<Rightarrow> (Okay (), n)
      | Some stored \<Rightarrow>
          if bw_chunk_id c \<notin> set (map ble_blob_id (sb_entries stored))
          then (Err (Invariant (''unsolicited chunk from '' @ peer)), n)
          else (Okay (), n\<lparr>sn_blobs := bt_insert (bw_blob_id c)
                 (stored\<lparr>sb_chunks := bt_insert (bw_chunk_id c) (bw_ciphertext c) (sb_chunks stored)\<rparr>)
                 (sn_blobs n)\<rparr>))"

text \<open>A journal event off the wire: origin, signature width, signature, duplicate, admit. The result
  is the number of events applied.\<close>

definition receive_event ::
  "'p sync_env \<Rightarrow> 'p sync_node \<Rightarrow> device_identity \<Rightarrow> wire_event
   \<Rightarrow> (sync_error, nat) result \<times> 'p sync_node" where
  "receive_event E n ident w =
     (if di_id ident \<noteq> we_origin w then (Err (UnknownOrigin (we_origin w)), n)
      else if length (we_signature w) \<noteq> 64 then (Err (SessionError SignatureInvalid), n)
      else case verify_signature (se_prims E) ident
                  (se_canonical E (we_id w) (we_origin w) (we_seq w) (we_body w)) (we_signature w) of
        Inl e \<Rightarrow> (Err (SessionError e), n)
      | Inr _ \<Rightarrow>
          if map_of (sn_applied n) (we_id w) \<noteq> None then (Okay 0, n)
          else case sync_admit E n \<lparr>je_id = we_id w, je_origin = we_origin w, je_seq = we_seq w,
                      je_signature = we_signature w, je_body = we_body w\<rparr> of
            (Inl e, n') \<Rightarrow> (Err e, n')
          | (Inr _, n') \<Rightarrow> (Okay 1, n'))"

text \<open>The body of the loop over a page's items.\<close>

definition receive_item ::
  "'p sync_env \<Rightarrow> string \<Rightarrow> 'p sync_node \<Rightarrow> fetched_item \<Rightarrow> (sync_error, nat) result \<times> 'p sync_node" where
  "receive_item E peer n item =
     (case map_of (sn_peers n) peer of
        None \<Rightarrow> (Err (SyncPanic ''peer just read''), n)
      | Some ch \<Rightarrow>
          (case v2_open (se_prims E) (pc_inbound ch) (item_payload item) of
             (res, s') \<Rightarrow>
               let n1 = set_peer peer (ch\<lparr>pc_inbound := s'\<rparr>) n in
               (case res of
                  Inl (EpochMismatch expected found) \<Rightarrow>
                    (if found < expected then (Okay 0, n1)
                     else (Err (SessionError (EpochMismatch expected found)), n1))
                | Inl e \<Rightarrow> (Err (SessionError e), n1)
                | Inr plaintext \<Rightarrow>
                    (case se_decode E plaintext of
                       None \<Rightarrow> (Err Serialization, n1)
                     | Some (PayloadChunk c) \<Rightarrow>
                         (case ingest_chunk E n1 peer c of
                            (Inl e, n2) \<Rightarrow> (Err e, n2) | (Inr _, n2) \<Rightarrow> (Okay 0, n2))
                     | Some (PayloadEvent w) \<Rightarrow> receive_event E n1 (pc_identity ch) w))))"

fun receive_items ::
  "'p sync_env \<Rightarrow> string \<Rightarrow> 'p sync_node \<Rightarrow> fetched_item list \<Rightarrow> nat
   \<Rightarrow> (sync_error, nat) result \<times> 'p sync_node" where
  "receive_items E peer n [] count = (Okay count, n)"
| "receive_items E peer n (x # xs) count =
     (case receive_item E peer n x of
        (Inl e, n') \<Rightarrow> (Err e, n')
      | (Inr k, n') \<Rightarrow> receive_items E peer n' xs (count + k))"

text \<open>The position is recorded before the items of the page are processed.\<close>

definition move_cursor ::
  "'p sync_env \<Rightarrow> string \<Rightarrow> peer_channels \<Rightarrow> nat \<Rightarrow> 'p sync_node
   \<Rightarrow> (sync_error, unit) result \<times> 'p sync_node" where
  "move_cursor E peer ch pos n =
     (let n1 = set_peer peer (ch\<lparr>pc_cursor := pos\<rparr>) n in
      case sn_state n of
        None \<Rightarrow> (Okay (), n1)
      | Some port \<Rightarrow>
          (case record_fetch_cursor (se_port E) port peer pos of
             (res, port') \<Rightarrow> (res, n1\<lparr>sn_state := Some port'\<rparr>)))"

definition poll_page_limit :: nat where
  "poll_page_limit = 256"

fun poll_peer ::
  "'p sync_env \<Rightarrow> nat \<Rightarrow> string \<Rightarrow> 'p sync_node \<Rightarrow> relay \<Rightarrow> nat
   \<Rightarrow> ((sync_error, nat) result \<times> 'p sync_node \<times> relay) option" where
  "poll_peer E 0 peer n r count = None"
| "poll_peer E (Suc fuel) peer n r count =
     (case map_of (sn_peers n) peer of
        None \<Rightarrow> Some (Err (SyncPanic ''no entry found for key''), n, r)
      | Some ch \<Rightarrow>
          (case fetch r (inbox (sn_label n) peer) (pc_cursor ch) poll_page_limit of
             (Entries items next_cursor has_more, r') \<Rightarrow>
               (case move_cursor E peer ch next_cursor n of
                  (Inl e, n1) \<Rightarrow> Some (Err e, n1, r')
                | (Inr _, n1) \<Rightarrow>
                    if items = [] \<and> \<not> has_more then Some (Okay count, n1, r')
                    else
                      (case receive_items E peer n1 items count of
                         (Inl e, n2) \<Rightarrow> Some (Err e, n2, r')
                       | (Inr k, n2) \<Rightarrow> poll_peer E fuel peer n2 r' k))
           | (_, r') \<Rightarrow> Some (Err (Invariant (''unexpected relay page from '' @ peer)), n, r')))"

fun poll_peers ::
  "'p sync_env \<Rightarrow> nat \<Rightarrow> string list \<Rightarrow> 'p sync_node \<Rightarrow> relay \<Rightarrow> nat
   \<Rightarrow> ((sync_error, nat) result \<times> 'p sync_node \<times> relay) option" where
  "poll_peers E fuel [] n r count = Some (Okay count, n, r)"
| "poll_peers E fuel (peer # peers) n r count =
     (case poll_peer E fuel peer n r count of
        None \<Rightarrow> None
      | Some (Inl e, n', r') \<Rightarrow> Some (Err e, n', r')
      | Some (Inr k, n', r') \<Rightarrow> poll_peers E fuel peers n' r' k)"

definition sync_poll ::
  "'p sync_env \<Rightarrow> nat \<Rightarrow> 'p sync_node \<Rightarrow> relay
   \<Rightarrow> ((sync_error, nat) result \<times> 'p sync_node \<times> relay) option" where
  "sync_poll E fuel n r = poll_peers E fuel (map fst (sn_peers n)) n r 0"

section \<open>Sending\<close>

definition serialize_event :: "'p sync_env \<Rightarrow> journal_event \<Rightarrow> bytes option" where
  "serialize_event E ev = se_encode E (PayloadEvent \<lparr>we_id = je_id ev, we_origin = je_origin ev,
     we_seq = je_seq ev, we_signature = je_signature ev, we_body = je_body ev\<rparr>)"

definition applied_frontier :: "'p sync_node \<Rightarrow> (string \<times> u64) list" where
  "applied_frontier n =
     foldl (\<lambda>f ev. let old = bt_get 0 f (je_origin ev) in
        bt_insert (je_origin ev) (if je_seq ev > old then je_seq ev else old) f)
       [] (map snd (sn_applied n))"

text \<open>Sealing one payload for a peer and pushing it under an id, once per peer and key.\<close>

definition send_sealed ::
  "'p sync_env \<Rightarrow> string \<Rightarrow> string \<Rightarrow> string \<Rightarrow> bytes option \<Rightarrow> 'p sync_node \<Rightarrow> relay
   \<Rightarrow> (sync_error, nat) result \<times> 'p sync_node \<times> relay" where
  "send_sealed E peer key pid payload n r =
     (case map_of (sn_peers n) peer of
        None \<Rightarrow> (Err (SyncPanic ''peer listed''), n, r)
      | Some ch \<Rightarrow>
          (case payload of
             None \<Rightarrow> (Err Serialization, n, r)
           | Some plain \<Rightarrow>
               (case v2_seal (se_prims E) (pc_outbound ch) plain of
                  (res, s') \<Rightarrow>
                    let n1 = set_peer peer (ch\<lparr>pc_outbound := s'\<rparr>) n in
                    (case res of
                       Inl e \<Rightarrow> (Err (SessionError e), n1, r)
                     | Inr envelope \<Rightarrow>
                         (case push r (inbox peer (sn_label n1)) pid envelope of
                            (Inl e, r') \<Rightarrow> (Err (RelayError e), n1, r')
                          | (Inr _, r') \<Rightarrow>
                              (Okay 1, n1\<lparr>sn_sent_to := (sn_sent_to n1)
                                 (key := insort_insert peer (sn_sent_to n1 key))\<rparr>, r'))))))"

fun send_events ::
  "'p sync_env \<Rightarrow> string \<Rightarrow> journal_event list \<Rightarrow> 'p sync_node \<Rightarrow> relay \<Rightarrow> nat
   \<Rightarrow> (sync_error, nat) result \<times> 'p sync_node \<times> relay" where
  "send_events E peer [] n r pushed = (Okay pushed, n, r)"
| "send_events E peer (ev # evs) n r pushed =
     (if peer \<in> set (sn_sent_to n (je_id ev)) then send_events E peer evs n r pushed
      else case send_sealed E peer (je_id ev) (sn_label n @ '':'' @ je_id ev) (serialize_event E ev) n r of
        (Inl e, n', r') \<Rightarrow> (Err e, n', r')
      | (Inr k, n', r') \<Rightarrow> send_events E peer evs n' r' (pushed + k))"

definition send_batch ::
  "'p sync_env \<Rightarrow> bytes \<Rightarrow> string \<Rightarrow> 'p sync_node \<Rightarrow> relay \<Rightarrow> nat
   \<Rightarrow> (sync_error, nat) result \<times> 'p sync_node \<times> relay" where
  "send_batch E seed peer n r pushed =
     (if \<forall>ev\<in>set (sn_outbox n). peer \<in> set (sn_sent_to n (je_id ev)) then (Okay pushed, n, r)
      else case map_of (sn_peers n) peer of
        None \<Rightarrow> (Err (SyncPanic ''peer listed''), n, r)
      | Some ch \<Rightarrow>
          (case open_turn (se_prims E) (pc_outbound ch) seed of
             (res, s') \<Rightarrow>
               let n1 = set_peer peer (ch\<lparr>pc_outbound := s'\<rparr>) n in
               (case res of
                  Inl e \<Rightarrow> (Err (SessionError e), n1, r)
                | Inr _ \<Rightarrow> send_events E peer (sn_outbox n1) n1 r pushed)))"

fun send_batches ::
  "'p sync_env \<Rightarrow> bytes \<Rightarrow> string list \<Rightarrow> 'p sync_node \<Rightarrow> relay \<Rightarrow> nat
   \<Rightarrow> (sync_error, nat) result \<times> 'p sync_node \<times> relay" where
  "send_batches E seed [] n r pushed = (Okay pushed, n, r)"
| "send_batches E seed (peer # peers) n r pushed =
     (case send_batch E seed peer n r pushed of
        (Inl e, n', r') \<Rightarrow> (Err e, n', r')
      | (Inr k, n', r') \<Rightarrow> send_batches E seed peers n' r' k)"

text \<open>\<open>fan_out_blob_chunks\<close>: no chunk is added or dropped during the loops, so the triples of blob,
  chunk and peer are those of the start.\<close>

definition chunk_jobs :: "'p sync_node \<Rightarrow> string list \<Rightarrow> (string \<times> string \<times> string) list" where
  "chunk_jobs n peers =
     concat (map (\<lambda>(blob, stored). concat (map (\<lambda>(chunk, _). map (\<lambda>peer. (blob, chunk, peer)) peers)
       (sb_chunks stored))) (sn_blobs n))"

definition chunk_payload ::
  "'p sync_env \<Rightarrow> 'p sync_node \<Rightarrow> string \<Rightarrow> string \<Rightarrow> (sync_error, bytes option) result" where
  "chunk_payload E n blob chunk =
     (let stored = bt_get stored_blob_default (sn_blobs n) blob in
      case List.find (\<lambda>e. ble_blob_id e = chunk) (sb_entries stored) of
        None \<Rightarrow> Err (SyncPanic ''held chunk is in its manifest'')
      | Some e \<Rightarrow> Okay (se_encode E (PayloadChunk \<lparr>bw_blob_id = blob,
          bw_content_hash = ble_content_hash e, bw_chunk_id = chunk,
          bw_ciphertext = bt_get [] (sb_chunks stored) chunk\<rparr>)))"

fun send_chunks ::
  "'p sync_env \<Rightarrow> (string \<times> string \<times> string) list \<Rightarrow> 'p sync_node \<Rightarrow> relay \<Rightarrow> nat
   \<Rightarrow> (sync_error, nat) result \<times> 'p sync_node \<times> relay" where
  "send_chunks E [] n r pushed = (Okay pushed, n, r)"
| "send_chunks E ((blob, chunk, peer) # jobs) n r pushed =
     (if peer \<in> set (sn_sent_to n (''blob:'' @ chunk)) then send_chunks E jobs n r pushed
      else case chunk_payload E n blob chunk of
        Inl e \<Rightarrow> (Err e, n, r)
      | Inr payload \<Rightarrow>
          (case send_sealed E peer (''blob:'' @ chunk) (sn_label n @ '':blob:'' @ chunk) payload n r of
             (Inl e, n', r') \<Rightarrow> (Err e, n', r')
           | (Inr k, n', r') \<Rightarrow> send_chunks E jobs n' r' (pushed + k)))"

definition fan_out_blob_chunks ::
  "'p sync_env \<Rightarrow> string list \<Rightarrow> 'p sync_node \<Rightarrow> relay \<Rightarrow> nat
   \<Rightarrow> (sync_error, nat) result \<times> 'p sync_node \<times> relay" where
  "fan_out_blob_chunks E peers n r pushed = send_chunks E (chunk_jobs n peers) n r pushed"

text \<open>\<open>flush\<close>: poll, acknowledge, one batch per peer, then the chunks.\<close>

definition sync_flush ::
  "'p sync_env \<Rightarrow> nat \<Rightarrow> 'p sync_node \<Rightarrow> relay \<Rightarrow> bytes
   \<Rightarrow> ((sync_error, nat) result \<times> 'p sync_node \<times> relay) option" where
  "sync_flush E fuel n r seed =
     (case sync_poll E fuel n r of
        None \<Rightarrow> None
      | Some (Inl e, n', r') \<Rightarrow> Some (Err e, n', r')
      | Some (Inr _, n1, r1) \<Rightarrow>
          (case local_event E n1 (AckEvent (applied_frontier n1)) of
             (Inl e, n2) \<Rightarrow> Some (Err e, n2, r1)
           | (Inr _, n2) \<Rightarrow>
               let peers = map fst (sn_peers n2) in
               (case send_batches E seed peers n2 r1 0 of
                  (Inl e, n3, r3) \<Rightarrow> Some (Err e, n3, r3)
                | (Inr pushed, n3, r3) \<Rightarrow> Some (fan_out_blob_chunks E peers n3 r3 pushed))))"

section \<open>Blobs\<close>

definition put_blob ::
  "'p sync_env \<Rightarrow> 'p sync_node \<Rightarrow> bytes \<Rightarrow> bytes \<Rightarrow> (sync_error, string) result \<times> 'p sync_node" where
  "put_blob E n vault_key bs =
     (case split_and_encrypt (se_prims E) (se_sha E) vault_key bs of
        None \<Rightarrow> (Err (SyncPanic ''sealing with a valid key cannot fail''), n)
      | Some (chunks, manifest) \<Rightarrow>
          let es = map (\<lambda>e. \<lparr>ble_content_hash = sync_hex_encode (me_content_hash e),
                     ble_blob_id = sync_hex_encode (me_blob_id e),
                     ble_ciphertext_len = of_nat (me_ciphertext_len e)\<rparr>) (bm_entries manifest);
              blob = sync_hex_encode (blob_id_of (se_sha E) manifest);
              stored = \<lparr>sb_total_size = bm_total_size manifest, sb_entries = es,
                 sb_chunks = foldl (\<lambda>m c. bt_insert (sync_hex_encode (cc_blob_id c)) (cc_ciphertext c) m)
                   [] chunks\<rparr>;
              n1 = n\<lparr>sn_blobs := bt_insert blob stored (sn_blobs n)\<rparr> in
          (case local_event E n1 (BlobAdded blob (bm_total_size manifest) es) of
             (Inl e, n2) \<Rightarrow> (Err e, n2)
           | (Inr _, n2) \<Rightarrow> (Okay blob, n2)))"

definition decode_entry :: "blob_entry \<Rightarrow> chunk_manifest_entry option" where
  "decode_entry e =
     (case (sync_hex_decode (ble_content_hash e), sync_hex_decode (ble_blob_id e)) of
        (Some h, Some i) \<Rightarrow> Some \<lparr>me_content_hash = h, me_blob_id = i,
          me_ciphertext_len = unat (ble_ciphertext_len e)\<rparr>
      | _ \<Rightarrow> None)"

definition get_blob ::
  "'p sync_env \<Rightarrow> 'p sync_node \<Rightarrow> bytes \<Rightarrow> string \<Rightarrow> (sync_error, bytes) result" where
  "get_blob E n vault_key blob =
     (case map_of (sn_blobs n) blob of
        None \<Rightarrow> Err (Invariant (''unknown blob '' @ blob))
      | Some stored \<Rightarrow>
          let es = List.map_filter decode_entry (sb_entries stored) in
          if length es \<noteq> length (sb_entries stored) then Err (Invariant ''blob manifest hex decode'')
          else
            let store = List.map_filter (\<lambda>(i, ct). map_option (\<lambda>k. (k, ct)) (sync_hex_decode i))
                  (sb_chunks stored) in
            (case decrypt_and_reassemble (se_prims E) (se_sha E) vault_key
                    \<lparr>bm_total_size = sb_total_size stored, bm_entries = es\<rparr> (map_of (rev store)) of
               Inl e \<Rightarrow> Err (SessionError e)
             | Inr p \<Rightarrow> Okay p))"

section \<open>Digest and compaction gate\<close>

fun fnv_step :: "u64 \<Rightarrow> bytes \<Rightarrow> u64" where
  "fnv_step h [] = h"
| "fnv_step h (b # bs) = fnv_step ((h XOR ucast b) * 0x100000001b3) bs"

definition state_digest :: "'p sync_node \<Rightarrow> u64" where
  "state_digest n =
     (let h0 = 0xcbf29ce484222325;
          h1 = foldl (\<lambda>h (doc, es). fnv_step (foldl (\<lambda>h e. fnv_step (fnv_step h (str_bytes e)) [0x1e])
                 (fnv_step h (str_bytes doc)) es) [0x1d]) h0 (sn_documents n);
          h2 = foldl (\<lambda>h (mem, content). fnv_step (fnv_step (fnv_step h (str_bytes mem))
                 (str_bytes content)) [0x1d]) h1 (sn_memories n)
      in foldl (\<lambda>h (mem, mark). fnv_step (fnv_step (fnv_step (fnv_step (fnv_step h (str_bytes mem))
             (tm_digest mark)) (str_bytes (tm_origin mark))) (be64 (tm_seq mark))) [0x1d])
           h2 (sn_tombstones n))"

definition gc_floor :: "'p sync_node \<Rightarrow> string \<Rightarrow> u64" where
  "gc_floor n origin =
     foldl (\<lambda>floor peer. min floor (bt_get 0 (bt_get [] (sn_peer_acks n) peer) origin)) (- 1)
       (map fst (sn_peers n))"

definition gc_frontiers :: "'p sync_node \<Rightarrow> (string \<times> u64) list" where
  "gc_frontiers n =
     (let origins = foldl (\<lambda>s org. insort_insert org s) []
            (concat (map (\<lambda>(_, acks). map fst acks) (sn_peer_acks n)))
      in map (\<lambda>origin. (origin, gc_floor n origin)) origins)"

section \<open>The in-process port\<close>

record memory_port =
  mp_applied :: "journal_event list"
  mp_applied_ids :: "(string \<times> nat) list"
  mp_cursors :: "(string \<times> nat) list"
  mp_tombstones :: "(string \<times> (tombstone_mark \<times> u64)) list"

definition memory_port_new :: memory_port where
  "memory_port_new = \<lparr>mp_applied = [], mp_applied_ids = [], mp_cursors = [], mp_tombstones = []\<rparr>"

definition memory_record_applied ::
  "memory_port \<Rightarrow> journal_event \<Rightarrow> (sync_error, bool) result \<times> memory_port" where
  "memory_record_applied p ev =
     (if map_of (mp_applied_ids p) (je_id ev) \<noteq> None then (Okay False, p)
      else let evs = mp_applied p @ [ev] in
        (Okay True, p\<lparr>mp_applied := evs,
           mp_applied_ids := bt_insert (je_id ev) (length evs) (mp_applied_ids p)\<rparr>))"

definition memory_state_port :: "memory_port sync_state_port" where
  "memory_state_port = \<lparr>record_applied = memory_record_applied,
     load_applied = (\<lambda>p. (Okay (mp_applied p), p)),
     record_fetch_cursor = (\<lambda>p peer pos. (Okay (), p\<lparr>mp_cursors := bt_insert peer pos (mp_cursors p)\<rparr>)),
     load_fetch_cursors = (\<lambda>p. (Okay (mp_cursors p), p)),
     record_tombstone = (\<lambda>p mem mark at.
        (Okay (), p\<lparr>mp_tombstones := bt_insert mem (mark, at) (mp_tombstones p)\<rparr>)),
     load_tombstones = (\<lambda>p. (Okay (map (\<lambda>(mem, (mark, _)). (mem, mark)) (mp_tombstones p)), p))\<rparr>"

end
