(* ===== verification/Sync_Journal.thy ===== *)
theory Sync_Journal
  imports Sync_Model
begin

text \<open>
  What a sync node shows is a function of the journal it has applied. The operations of a node are
  broken into four kinds of small steps (a local event, an admitted peer event, a moved fetch position, a
  change that touches neither journal nor projections); an invariant ties documents, memories and
  tombstones to the set of applied events.
\<close>

section \<open>Small steps\<close>

definition identities :: "'p sync_node \<Rightarrow> string \<Rightarrow> device_identity option" where
  "identities n peer = map_option pc_identity (map_of (sn_peers n) peer)"

text \<open>A change outside the journal and its projections.\<close>

definition frame :: "'p sync_node \<Rightarrow> 'p sync_node \<Rightarrow> bool" where
  "frame n n' \<longleftrightarrow> sn_label n' = sn_label n \<and> sn_keys n' = sn_keys n \<and> sn_applied n' = sn_applied n
     \<and> sn_memories n' = sn_memories n \<and> sn_tombstones n' = sn_tombstones n
     \<and> sn_documents n' = sn_documents n \<and> sn_peer_acks n' = sn_peer_acks n
     \<and> sn_outbox n' = sn_outbox n \<and> sn_next_seq n' = sn_next_seq n \<and> sn_state n' = sn_state n
     \<and> bt_ok (sn_peers n') \<and> identities n \<subseteq>\<^sub>m identities n'"

text \<open>An event vouched for by an identity: its signature over the canonical bytes verifies.\<close>

definition signed_by :: "'p sync_env \<Rightarrow> device_identity \<Rightarrow> journal_event \<Rightarrow> bool" where
  "signed_by E ident ev \<longleftrightarrow> je_origin ev = di_id ident \<and> ed_verify (se_prims E) (di_ed25519 ident)
     (se_canonical E (je_id ev) (je_origin ev) (je_seq ev) (je_body ev)) (je_signature ev)"

inductive micro :: "'p sync_env \<Rightarrow> 'p sync_node \<Rightarrow> 'p sync_node \<Rightarrow> bool" for E where
  m_local: "local_event E n body = (res, n') \<Longrightarrow> micro E n n'"
| m_receive: "identities n peer = Some ident \<Longrightarrow> signed_by E ident ev \<Longrightarrow>
    map_of (sn_applied n) (je_id ev) = None \<Longrightarrow> sync_admit E n ev = (res, n') \<Longrightarrow> micro E n n'"
| m_cursor: "sn_state n = Some port \<Longrightarrow> record_fetch_cursor (se_port E) port peer pos = (res, port') \<Longrightarrow>
    micro E n (n\<lparr>sn_state := Some port'\<rparr>)"
| m_frame: "frame n n' \<Longrightarrow> micro E n n'"

abbreviation micros :: "'p sync_env \<Rightarrow> 'p sync_node \<Rightarrow> 'p sync_node \<Rightarrow> bool" where
  "micros E \<equiv> (micro E)\<^sup>*\<^sup>*"

subsection \<open>Frames\<close>

lemma identities_update [simp]:
  "identities (n\<lparr>sn_sent_to := f\<rparr>) = identities n" "identities (n\<lparr>sn_state := st\<rparr>) = identities n"
  "identities (n\<lparr>sn_blobs := b\<rparr>) = identities n" "identities (n\<lparr>sn_suppressed := k\<rparr>) = identities n"
  "identities (n\<lparr>sn_next_seq := i, sn_outbox := q\<rparr>) = identities n"
  by (simp_all add: identities_def fun_eq_iff)

lemma frame_refl: "bt_ok (sn_peers n) \<Longrightarrow> frame n n"
  by (simp add: frame_def)

lemma frame_peers: "frame n n' \<Longrightarrow> bt_ok (sn_peers n')"
  by (simp add: frame_def)

lemma set_peer_frame:
  "bt_ok (sn_peers n) \<Longrightarrow> map_of (sn_peers n) peer = Some ch \<Longrightarrow> pc_identity ch' = pc_identity ch \<Longrightarrow>
   frame n (set_peer peer ch' n)"
  by (auto simp: frame_def set_peer_def identities_def bt_insert_ok map_le_def)

lemma set_peer_peers [simp]:
  "bt_ok (sn_peers n) \<Longrightarrow> map_of (sn_peers (set_peer peer ch n)) = (map_of (sn_peers n))(peer \<mapsto> ch)"
  "bt_ok (sn_peers n) \<Longrightarrow> bt_ok (sn_peers (set_peer peer ch n))"
  "sn_label (set_peer peer ch n) = sn_label n" "sn_state (set_peer peer ch n) = sn_state n"
  "sn_outbox (set_peer peer ch n) = sn_outbox n" "sn_applied (set_peer peer ch n) = sn_applied n"
  "sn_blobs (set_peer peer ch n) = sn_blobs n" "sn_sent_to (set_peer peer ch n) = sn_sent_to n"
  "sn_keys (set_peer peer ch n) = sn_keys n" "sn_next_seq (set_peer peer ch n) = sn_next_seq n"
  by (simp_all add: set_peer_def bt_insert_ok)

lemma sync_apply_peers: "sync_apply E n ev = (res, n') \<Longrightarrow> sn_peers n' = sn_peers n"
  by (auto simp: sync_apply_def mark_applied_def Let_def split: event_body.splits if_splits
      option.splits prod.splits sum.splits)

lemma sync_admit_peers: "sync_admit E n ev = (res, n') \<Longrightarrow> sn_peers n' = sn_peers n"
  using sync_apply_peers[of E]
  by (auto simp: sync_admit_def Let_def split: if_splits option.splits prod.splits sum.splits)

lemma local_event_peers: "local_event E n body = (res, n') \<Longrightarrow> sn_peers n' = sn_peers n"
  by (auto simp: local_event_def sync_create_def Let_def split: prod.splits sum.splits
      dest!: sync_admit_peers)

lemma micro_peers: "micro E n n' \<Longrightarrow> bt_ok (sn_peers n) \<Longrightarrow> bt_ok (sn_peers n')"
  by (induction rule: micro.induct) (auto dest: local_event_peers sync_admit_peers frame_peers)

lemma micros_peers: "micros E n n' \<Longrightarrow> bt_ok (sn_peers n) \<Longrightarrow> bt_ok (sn_peers n')"
  by (induction rule: rtranclp_induct) (auto intro: micro_peers)

subsection \<open>Operations as small steps\<close>

lemma micros_frame: "frame n n' \<Longrightarrow> micros E n n'"
  by (rule r_into_rtranclp) (rule m_frame)

lemma frame_micros: "frame n n1 \<Longrightarrow> micros E n1 n' \<Longrightarrow> micros E n n'"
  using m_frame by (rule converse_rtranclp_into_rtranclp)

lemma micros_local: "local_event E n body = (res, n') \<Longrightarrow> micros E n n'"
  by (rule r_into_rtranclp) (rule m_local)

lemma ingest_chunk_frame:
  "bt_ok (sn_peers n) \<Longrightarrow> ingest_chunk E n peer c = (res, n') \<Longrightarrow> frame n n'"
  by (auto simp: ingest_chunk_def frame_def split: if_splits option.splits)

lemma receive_event_micros:
  assumes "identities n peer = Some ident" "receive_event E n ident w = (res, n')"
  shows "micros E n n'"
proof -
  let ?ev = "\<lparr>je_id = we_id w, je_origin = we_origin w, je_seq = we_seq w,
    je_signature = we_signature w, je_body = we_body w\<rparr>"
  have "n' = n \<or> (signed_by E ident ?ev \<and> map_of (sn_applied n) (je_id ?ev) = None
      \<and> (\<exists>r. sync_admit E n ?ev = (r, n')))"
    using assms(2)
    by (auto simp: receive_event_def signed_by_def verify_signature_def
        split: if_splits sum.splits prod.splits)
  then show ?thesis using m_receive[OF assms(1)] by blast
qed

lemma receive_item_micros:
  assumes "bt_ok (sn_peers n)" "receive_item E peer n item = (res, n')"
  shows "micros E n n'"
proof (cases "map_of (sn_peers n) peer")
  case None
  then show ?thesis using assms(2) by (simp add: receive_item_def)
next
  case (Some ch)
  obtain r s' where op: "v2_open (se_prims E) (pc_inbound ch) (item_payload item) = (r, s')"
    by fastforce
  define n1 where "n1 = set_peer peer (ch\<lparr>pc_inbound := s'\<rparr>) n"
  have f: "frame n n1" unfolding n1_def using assms(1) Some by (rule set_peer_frame) simp
  have id1: "identities n1 peer = Some (pc_identity ch)"
    using Some assms(1) by (simp add: n1_def identities_def)
  have "n' = n1 \<or> (\<exists>c r. ingest_chunk E n1 peer c = (r, n'))
      \<or> (\<exists>w r. receive_event E n1 (pc_identity ch) w = (r, n'))"
    using assms(2) unfolding receive_item_def Some option.case op prod.case n1_def[symmetric] Let_def
    by (auto split: sum.splits crypto_error.splits if_splits option.splits sync_payload.splits prod.splits)
  then have "micros E n1 n'"
    using ingest_chunk_frame[OF frame_peers[OF f]] receive_event_micros[OF id1]
    by (auto intro: micros_frame)
  then show ?thesis using micros_frame[OF f] by (rule rtranclp_trans[rotated])
qed

lemma receive_items_micros:
  "bt_ok (sn_peers n) \<Longrightarrow> receive_items E peer n xs k = (res, n') \<Longrightarrow> micros E n n'"
proof (induction xs arbitrary: n k)
  case Nil
  then show ?case by simp
next
  case (Cons x xs)
  obtain r n1 where x: "receive_item E peer n x = (r, n1)" by fastforce
  have m: "micros E n n1" using receive_item_micros[OF Cons.prems(1) x] .
  show ?case
  proof (cases r)
    case (Inl e)
    then show ?thesis using Cons.prems(2) x m by simp
  next
    case (Inr j)
    then have "micros E n1 n'"
      using Cons.IH[OF micros_peers[OF m Cons.prems(1)]] Cons.prems(2) x by simp
    then show ?thesis using m by simp
  qed
qed

lemma move_cursor_micros:
  assumes "bt_ok (sn_peers n)" "map_of (sn_peers n) peer = Some ch"
    "move_cursor E peer ch pos n = (res, n')"
  shows "micros E n n'"
proof -
  let ?n1 = "set_peer peer (ch\<lparr>pc_cursor := pos\<rparr>) n"
  have f: "frame n ?n1" using assms(1,2) by (rule set_peer_frame) simp
  have "n' = ?n1 \<or> micro E ?n1 n'"
    using assms(3) by (auto simp: move_cursor_def Let_def split: option.splits prod.splits intro: m_cursor)
  then show ?thesis using micros_frame[OF f, of E] by auto
qed

lemma poll_peer_micros:
  "bt_ok (sn_peers n) \<Longrightarrow> poll_peer E fuel peer n r k = Some (res, n', r') \<Longrightarrow> micros E n n'"
proof (induction fuel arbitrary: n r k)
  case 0
  then show ?case by simp
next
  case (Suc fuel)
  show ?case
  proof (cases "map_of (sn_peers n) peer")
    case None
    then show ?thesis using Suc.prems(2) by simp
  next
    case (Some ch)
    obtain page r1 where pg: "fetch r (inbox (sn_label n) peer) (pc_cursor ch) poll_page_limit = (page, r1)"
      by fastforce
    show ?thesis
    proof (cases page)
      case (Entries items pos has_more)
      obtain mr n1 where mv: "move_cursor E peer ch pos n = (mr, n1)" by fastforce
      have m1: "micros E n n1" using move_cursor_micros[OF Suc.prems(1) Some mv] .
      obtain rr n2 where rc: "receive_items E peer n1 items k = (rr, n2)" by fastforce
      have m2: "micros E n1 n2" using receive_items_micros[OF micros_peers[OF m1 Suc.prems(1)] rc] .
      have "n' = n1 \<or> n' = n2 \<or> (\<exists>j. poll_peer E fuel peer n2 r1 j = Some (res, n', r'))"
        using Suc.prems(2) Some pg Entries mv rc by (auto split: sum.splits if_splits)
      moreover have "micros E n n2" using m1 m2 by simp
      ultimately show ?thesis
        using m1 Suc.IH[OF micros_peers[OF \<open>micros E n n2\<close> Suc.prems(1)]] by (metis rtranclp_trans)
    qed (use Suc.prems(2) Some pg in auto)
  qed
qed

lemma poll_peers_micros:
  "bt_ok (sn_peers n) \<Longrightarrow> poll_peers E fuel ps n r k = Some (res, n', r') \<Longrightarrow> micros E n n'"
proof (induction ps arbitrary: n r k)
  case Nil
  then show ?case by simp
next
  case (Cons p ps)
  obtain pr n1 r1 where p: "poll_peer E fuel p n r k = Some (pr, n1, r1)"
    using Cons.prems(2) by (auto split: option.splits)
  have m: "micros E n n1" using poll_peer_micros[OF Cons.prems(1) p] .
  then show ?case
    using Cons.prems(2) p Cons.IH[OF micros_peers[OF m Cons.prems(1)]]
    by (auto split: sum.splits) (metis rtranclp_trans)
qed

lemma sync_poll_micros:
  "bt_ok (sn_peers n) \<Longrightarrow> sync_poll E fuel n r = Some (res, n', r') \<Longrightarrow> micros E n n'"
  unfolding sync_poll_def by (rule poll_peers_micros)

lemma send_sealed_frame:
  assumes "bt_ok (sn_peers n)" "send_sealed E peer key pid payload n r = (res, n', r')"
  shows "frame n n'"
proof (cases "map_of (sn_peers n) peer")
  case None
  then show ?thesis using assms by (simp add: send_sealed_def frame_refl)
next
  case (Some ch)
  have "frame n (set_peer peer (ch\<lparr>pc_outbound := s\<rparr>) n)" for s
    using assms(1) Some by (rule set_peer_frame) simp
  moreover have "frame n m \<Longrightarrow> frame n (m\<lparr>sn_sent_to := f\<rparr>)" for m f
    by (simp add: frame_def)
  ultimately show ?thesis
    using assms Some frame_refl[OF assms(1)]
    by (auto simp: send_sealed_def Let_def split: option.splits prod.splits sum.splits)
qed

lemma frame_trans: "frame n n1 \<Longrightarrow> frame n1 n2 \<Longrightarrow> frame n n2"
  by (auto simp: frame_def intro: map_le_trans)

lemma send_events_frame:
  "bt_ok (sn_peers n) \<Longrightarrow> send_events E peer evs n r k = (res, n', r') \<Longrightarrow> frame n n'"
proof (induction evs arbitrary: n r k)
  case Nil
  then show ?case by (simp add: frame_refl)
next
  case (Cons ev evs)
  show ?case
  proof (cases "peer \<in> set (sn_sent_to n (je_id ev))")
    case True
    then show ?thesis using Cons by simp
  next
    case False
    obtain sr n1 r1 where s: "send_sealed E peer (je_id ev) (sn_label n @ '':'' @ je_id ev)
        (serialize_event E ev) n r = (sr, n1, r1)" by (metis prod_cases3)
    have f: "frame n n1" using send_sealed_frame[OF Cons.prems(1) s] .
    show ?thesis
      using Cons.prems(2) False s f Cons.IH[OF frame_peers[OF f]]
      by (auto split: sum.splits intro: frame_trans)
  qed
qed

lemma send_batch_frame:
  assumes "bt_ok (sn_peers n)" "send_batch E seed peer n r k = (res, n', r')"
  shows "frame n n'"
proof (cases "map_of (sn_peers n) peer")
  case None
  then show ?thesis using assms by (auto simp: send_batch_def frame_refl split: if_splits)
next
  case (Some ch)
  have f: "frame n (set_peer peer (ch\<lparr>pc_outbound := s\<rparr>) n)" for s
    using assms(1) Some by (rule set_peer_frame) simp
  show ?thesis
    using assms Some f frame_refl[OF assms(1)] frame_trans[OF f send_events_frame[OF frame_peers[OF f]]]
    by (auto simp: send_batch_def Let_def split: if_splits prod.splits sum.splits)
qed

lemma send_batches_frame:
  "bt_ok (sn_peers n) \<Longrightarrow> send_batches E seed ps n r k = (res, n', r') \<Longrightarrow> frame n n'"
proof (induction ps arbitrary: n r k)
  case Nil
  then show ?case by (simp add: frame_refl)
next
  case (Cons p ps)
  obtain br n1 r1 where b: "send_batch E seed p n r k = (br, n1, r1)" by (metis prod_cases3)
  have f: "frame n n1" using send_batch_frame[OF Cons.prems(1) b] .
  show ?case
    using Cons.prems(2) b f Cons.IH[OF frame_peers[OF f]] by (auto split: sum.splits intro: frame_trans)
qed

lemma send_chunks_frame:
  "bt_ok (sn_peers n) \<Longrightarrow> send_chunks E jobs n r k = (res, n', r') \<Longrightarrow> frame n n'"
proof (induction jobs arbitrary: n r k)
  case Nil
  then show ?case by (simp add: frame_refl)
next
  case (Cons job jobs)
  obtain blob chunk peer where job: "job = (blob, chunk, peer)" by (metis prod_cases3)
  consider "peer \<in> set (sn_sent_to n (''blob:'' @ chunk))"
    | e where "peer \<notin> set (sn_sent_to n (''blob:'' @ chunk))" "chunk_payload E n blob chunk = Err e"
    | payload sr n1 r1 where "peer \<notin> set (sn_sent_to n (''blob:'' @ chunk))"
      "chunk_payload E n blob chunk = Okay payload"
      "send_sealed E peer (''blob:'' @ chunk) (sn_label n @ '':blob:'' @ chunk) payload n r = (sr, n1, r1)"
    by (metis prod_cases3 sum.exhaust)
  then show ?case
  proof cases
    case 3
    have f: "frame n n1" using send_sealed_frame[OF Cons.prems(1) 3(3)] .
    show ?thesis
      using Cons.prems(2) 3 job f Cons.IH[OF frame_peers[OF f]] by (auto split: sum.splits intro: frame_trans)
  qed (use Cons job frame_refl in auto)
qed

lemma sync_flush_micros:
  assumes "bt_ok (sn_peers n)" "sync_flush E fuel n r seed = Some (res, n', r')"
  shows "micros E n n'"
proof -
  obtain pr n1 r1 where p: "sync_poll E fuel n r = Some (pr, n1, r1)"
    using assms(2) by (auto simp: sync_flush_def split: option.splits)
  have m1: "micros E n n1" using sync_poll_micros[OF assms(1) p] .
  obtain lr n2 where l: "local_event E n1 (AckEvent (applied_frontier n1)) = (lr, n2)" by fastforce
  have m2: "micros E n n2" using m1 m_local[OF l] by simp
  have ok: "bt_ok (sn_peers n2)" using micros_peers[OF m2 assms(1)] .
  obtain br n3 r3 where b: "send_batches E seed (map fst (sn_peers n2)) n2 r1 0 = (br, n3, r3)"
    by (metis prod_cases3)
  have f: "frame n2 n3" using send_batches_frame[OF ok b] .
  have "n' = n1 \<or> n' = n2 \<or> n' = n3 \<or> frame n3 n'"
    using assms(2) p l b send_chunks_frame[OF frame_peers[OF f]]
    by (auto simp: sync_flush_def Let_def fan_out_blob_chunks_def split: sum.splits)
  then have "n' = n1 \<or> micros E n2 n'" using f by (auto intro: frame_micros micros_frame)
  then show ?thesis using m1 m2 by auto
qed

section \<open>Nodes under their public operations\<close>

text \<open>A node is paired with a new peer, or again with a peer of the same identity.\<close>

definition may_pair :: "'p sync_env \<Rightarrow> 'p sync_node \<Rightarrow> 'p sync_node \<Rightarrow> bool" where
  "may_pair E n peer \<longleftrightarrow> (case identities n (sn_label peer) of
     None \<Rightarrow> True | Some i \<Rightarrow> i = public_identity (se_prims E) (sn_keys peer))"

inductive node_step :: "'p sync_env \<Rightarrow> 'p sync_node \<Rightarrow> 'p sync_node \<Rightarrow> bool" for E where
  ns_append: "append_document E n doc entry = (res, n') \<Longrightarrow> node_step E n n'"
| ns_propose: "propose_memory E n mem content = (res', n') \<Longrightarrow> node_step E n n'"
| ns_forget: "forget_memory E n mem at digest = (res, n') \<Longrightarrow> node_step E n n'"
| ns_blob: "put_blob E n key bs = (res, n') \<Longrightarrow> node_step E n n'"
| ns_poll: "sync_poll E fuel n r = Some (res'', n', r') \<Longrightarrow> node_step E n n'"
| ns_flush: "sync_flush E fuel n r seed = Some (res'', n', r') \<Longrightarrow> node_step E n n'"
| ns_pair: "sync_pair E n m epoch eseq x y = (resp, n', m') \<Longrightarrow> may_pair E n m \<Longrightarrow> node_step E n n'"
| ns_paired: "sync_pair E m n epoch eseq x y = (resp, m', n') \<Longrightarrow> may_pair E n m \<Longrightarrow> node_step E n n'"

lemma sync_pair_frame:
  assumes "sync_pair E a b epoch eseq x y = (res, a', b')"
  shows "bt_ok (sn_peers a) \<Longrightarrow> may_pair E a b \<Longrightarrow> frame a a'"
    and "bt_ok (sn_peers b) \<Longrightarrow> may_pair E b a \<Longrightarrow> frame b b'"
proof -
  have new: "frame n (n\<lparr>sn_peers := bt_insert (sn_label m) ch (sn_peers n)\<rparr>)"
    if "bt_ok (sn_peers n)" "may_pair E n m" "pc_identity ch = public_identity (se_prims E) (sn_keys m)"
    for n m :: "'a sync_node" and ch
    using that by (auto simp: frame_def may_pair_def bt_insert_ok identities_def map_le_def dom_def
        split: option.splits)
  show "bt_ok (sn_peers a) \<Longrightarrow> may_pair E a b \<Longrightarrow> frame a a'"
    using assms new[of a b] frame_refl[of a] by (auto simp: sync_pair_def Let_def split: sum.splits)
  show "bt_ok (sn_peers b) \<Longrightarrow> may_pair E b a \<Longrightarrow> frame b b'"
    using assms new[of b a] frame_refl[of b] by (auto simp: sync_pair_def Let_def split: sum.splits)
qed

lemma node_step_micros: "node_step E n n' \<Longrightarrow> bt_ok (sn_peers n) \<Longrightarrow> micros E n n'"
proof (induction rule: node_step.induct)
  case (ns_append n doc entry res n')
  then show ?case by (auto simp: append_document_def intro: micros_local)
next
  case (ns_propose n mem content res' n')
  have "frame n (n\<lparr>sn_suppressed := sn_suppressed n + 1\<rparr>)"
    using ns_propose(2) by (simp add: frame_def)
  then show ?case
    using ns_propose by (auto simp: propose_memory_def split: if_splits prod.splits sum.splits
        intro: micros_frame micros_local)
next
  case (ns_forget n mem at digest res n')
  then show ?case by (auto simp: forget_memory_def intro: micros_local)
next
  case (ns_blob n key bs res n')
  have "frame n (n\<lparr>sn_blobs := x\<rparr>)" for x
    using ns_blob(2) by (simp add: frame_def)
  then show ?case
    using ns_blob frame_refl[OF ns_blob(2)]
    by (auto simp: put_blob_def Let_def split: option.splits prod.splits sum.splits
        intro: micros_frame frame_micros micros_local)
qed (auto intro: sync_poll_micros sync_flush_micros micros_frame dest: sync_pair_frame)

end
