(* ===== verification/Sync_State.thy ===== *)
theory Sync_State
  imports Sync_Journal
begin

text \<open>
  The invariant of a sync node: the documents and the sets of visible and of tombstoned memories are functions of
  the set of applied events, whatever the order of their arrival; a content and a mark come from one of the events
  that propose or forget the memory; and every applied event is signed by the device it names.
\<close>

section \<open>The projection of one event\<close>

definition project :: "journal_event \<Rightarrow> 'p sync_node \<Rightarrow> 'p sync_node" where
  "project ev n = mark_applied ev (case je_body ev of
     DocumentAppend doc entry \<Rightarrow>
       n\<lparr>sn_documents := bt_insert doc (insort_insert entry (bt_get [] (sn_documents n) doc)) (sn_documents n)\<rparr>
   | MemoryProposed mem content \<Rightarrow>
       (if map_of (sn_tombstones n) mem \<noteq> None then n\<lparr>sn_suppressed := sn_suppressed n + 1\<rparr>
        else n\<lparr>sn_memories := bt_insert mem content (sn_memories n)\<rparr>)
   | MemoryForgotten mem forgotten_at digest \<Rightarrow>
       n\<lparr>sn_tombstones := bt_insert mem
           \<lparr>tm_digest = digest, tm_origin = je_origin ev, tm_seq = je_seq ev\<rparr> (sn_tombstones n),
         sn_memories := bt_remove mem (sn_memories n)\<rparr>
   | BlobAdded blob total_size es \<Rightarrow>
       n\<lparr>sn_blobs := bt_insert blob ((bt_get stored_blob_default (sn_blobs n) blob)
           \<lparr>sb_total_size := total_size, sb_entries := es\<rparr>) (sn_blobs n)\<rparr>
   | AckEvent frontiers \<Rightarrow>
       n\<lparr>sn_peer_acks := bt_insert (je_origin ev)
           (merge_acks (bt_get [] (sn_peer_acks n) (je_origin ev)) frontiers) (sn_peer_acks n)\<rparr>)"

text \<open>Applying is projecting, except that a durable node may fail to record a tombstone.\<close>

lemma sync_apply_cases:
  assumes "sync_apply E n ev = (res, n')"
  obtains (failed) st e where "n' = n\<lparr>sn_state := st\<rparr>" "res = Err e" "sn_state n \<noteq> None"
  | (projected) st where "n' = project ev (n\<lparr>sn_state := st\<rparr>)" "res = Okay ()"
      "sn_state n = None \<Longrightarrow> st = None"
proof (cases "\<exists>mem at digest port. je_body ev = MemoryForgotten mem at digest \<and> sn_state n = Some port")
  case True
  then obtain mem at digest port where b: "je_body ev = MemoryForgotten mem at digest"
    "sn_state n = Some port" by blast
  obtain r port' where rt: "record_tombstone (se_port E) port mem
      \<lparr>tm_digest = digest, tm_origin = je_origin ev, tm_seq = je_seq ev\<rparr> at = (r, port')" by fastforce
  show thesis
  proof (cases r)
    case (Inl e)
    then show thesis using assms b rt failed[of "Some port'"] by (auto simp: sync_apply_def)
  next
    case (Inr u)
    have "project ev (n\<lparr>sn_state := Some port'\<rparr>) = n'" "res = Okay ()"
      using assms b rt Inr by (simp_all add: sync_apply_def project_def)
    then show thesis using projected[of "Some port'"] b(2) by simp
  qed
next
  case False
  then have "sync_apply E n ev = (Okay (), project ev (n\<lparr>sn_state := sn_state n\<rparr>))"
    by (auto simp: sync_apply_def project_def Let_def split: event_body.splits option.splits)
  then show thesis using assms projected[of "sn_state n"] by simp
qed

lemma sync_apply_volatile: "sn_state n = None \<Longrightarrow> sync_apply E n ev = (Okay (), project ev n)"
  by (auto simp: sync_apply_def project_def Let_def split: event_body.split)

lemma sync_admit_cases:
  assumes "sync_admit E n ev = (res, n')"
  obtains (skipped) st where "n' = n\<lparr>sn_state := st\<rparr>" "sn_state n = None \<Longrightarrow> st = None"
      "res = Okay () \<Longrightarrow> map_of (sn_applied n) (je_id ev) \<noteq> None"
  | (projected) st where "n' = project ev (n\<lparr>sn_state := st\<rparr>)" "map_of (sn_applied n) (je_id ev) = None"
      "res = Okay ()" "sn_state n = None \<Longrightarrow> st = None"
proof (cases "map_of (sn_applied n) (je_id ev) = None")
  case False
  then show thesis using assms skipped[of "sn_state n"] by (simp add: sync_admit_def)
next
  case True
  have up: "(n\<lparr>sn_state := x\<rparr>)\<lparr>sn_state := y\<rparr> = n\<lparr>sn_state := y\<rparr>" for x y by simp
  consider st e where "n' = n\<lparr>sn_state := st\<rparr>" "res = Err e" "sn_state n \<noteq> None"
    | st where "sync_apply E (n\<lparr>sn_state := st\<rparr>) ev = (res, n')" "sn_state n = None \<Longrightarrow> st = None"
    using assms True
    by (auto simp: sync_admit_def Let_def split: option.splits prod.splits sum.splits)
      (metis (full_types) sync_node.surjective sync_node.update_convs(11))
  then show thesis
  proof cases
    case 1
    then show thesis using skipped by auto
  next
    case (2 st)
    show thesis
      using 2(1)
    proof (cases rule: sync_apply_cases)
      case (failed st' e)
      then show thesis using skipped[of st'] 2(2) by auto
    next
      case (projected st')
      then show thesis using that(2)[of st'] 2(2) True by auto
    qed
  qed
qed

section \<open>The view of a journal\<close>

definition events_of :: "'p sync_node \<Rightarrow> journal_event set" where
  "events_of n = ran (map_of (sn_applied n))"

definition doc_entries :: "journal_event set \<Rightarrow> string \<Rightarrow> string set" where
  "doc_entries S doc = {x. \<exists>ev\<in>S. je_body ev = DocumentAppend doc x}"

definition proposed :: "journal_event set \<Rightarrow> string set" where
  "proposed S = {m. \<exists>ev\<in>S. \<exists>c. je_body ev = MemoryProposed m c}"

definition forgotten :: "journal_event set \<Rightarrow> string set" where
  "forgotten S = {m. \<exists>ev\<in>S. \<exists>t g. je_body ev = MemoryForgotten m t g}"

definition proposals_agree :: "journal_event set \<Rightarrow> bool" where
  "proposals_agree S \<longleftrightarrow> (\<forall>e\<in>S. \<forall>e'\<in>S. \<forall>m c c'. je_body e = MemoryProposed m c \<longrightarrow>
     je_body e' = MemoryProposed m c' \<longrightarrow> c = c')"

definition forgets_agree :: "journal_event set \<Rightarrow> bool" where
  "forgets_agree S \<longleftrightarrow> (\<forall>e\<in>S. \<forall>e'\<in>S. \<forall>m t g t' g'. je_body e = MemoryForgotten m t g \<longrightarrow>
     je_body e' = MemoryForgotten m t' g' \<longrightarrow> e = e')"

definition mark_of :: "journal_event \<Rightarrow> bytes \<Rightarrow> tombstone_mark" where
  "mark_of ev g = \<lparr>tm_digest = g, tm_origin = je_origin ev, tm_seq = je_seq ev\<rparr>"

definition view_ok :: "'p sync_node \<Rightarrow> bool" where
  "view_ok n \<longleftrightarrow> bt_ok (sn_applied n) \<and> bt_ok (sn_memories n) \<and> bt_ok (sn_tombstones n) \<and> bt_ok (sn_documents n)
     \<and> (\<forall>i ev. map_of (sn_applied n) i = Some ev \<longrightarrow> je_id ev = i)
     \<and> (\<forall>doc. sorted (bt_get [] (sn_documents n) doc) \<and> distinct (bt_get [] (sn_documents n) doc)
          \<and> set (bt_get [] (sn_documents n) doc) = doc_entries (events_of n) doc
          \<and> (map_of (sn_documents n) doc = None \<longleftrightarrow> doc_entries (events_of n) doc = {}))
     \<and> dom (map_of (sn_tombstones n)) = forgotten (events_of n)
     \<and> dom (map_of (sn_memories n)) = proposed (events_of n) - forgotten (events_of n)
     \<and> (\<forall>m c. map_of (sn_memories n) m = Some c \<longrightarrow> (\<exists>ev\<in>events_of n. je_body ev = MemoryProposed m c))
     \<and> (\<forall>m k. map_of (sn_tombstones n) m = Some k \<longrightarrow>
          (\<exists>ev\<in>events_of n. \<exists>t g. je_body ev = MemoryForgotten m t g \<and> k = mark_of ev g))"

lemma view_cong:
  "sn_applied n' = sn_applied n \<Longrightarrow> sn_memories n' = sn_memories n \<Longrightarrow> sn_tombstones n' = sn_tombstones n \<Longrightarrow>
   sn_documents n' = sn_documents n \<Longrightarrow> view_ok n' = view_ok n"
  by (simp add: view_ok_def events_of_def)

lemma events_update [simp]:
  "events_of (n\<lparr>sn_state := st\<rparr>) = events_of n"
  "events_of (n\<lparr>sn_next_seq := i, sn_outbox := q\<rparr>) = events_of n"
  by (simp_all add: events_of_def)

lemma view_update [simp]:
  "view_ok (n\<lparr>sn_state := st\<rparr>) = view_ok n"
  "view_ok (n\<lparr>sn_next_seq := i, sn_outbox := q\<rparr>) = view_ok n"
  by (rule view_cong; simp)+

lemma project_applied: "sn_applied (project ev n) = bt_insert (je_id ev) ev (sn_applied n)"
  by (simp add: project_def mark_applied_def split: event_body.split)

lemma project_events:
  "bt_ok (sn_applied n) \<Longrightarrow> map_of (sn_applied n) (je_id ev) = None \<Longrightarrow>
   events_of (project ev n) = insert ev (events_of n)"
  by (simp add: events_of_def project_applied ran_map_upd)

lemma view_insert [simp]:
  "doc_entries (insert ev S) doc =
     (case je_body ev of DocumentAppend d x \<Rightarrow> (if d = doc then {x} else {}) | _ \<Rightarrow> {}) \<union> doc_entries S doc"
  "proposed (insert ev S) = (case je_body ev of MemoryProposed m c \<Rightarrow> {m} | _ \<Rightarrow> {}) \<union> proposed S"
  "forgotten (insert ev S) = (case je_body ev of MemoryForgotten m t g \<Rightarrow> {m} | _ \<Rightarrow> {}) \<union> forgotten S"
  by (auto simp: doc_entries_def proposed_def forgotten_def split: event_body.splits)

section \<open>The invariant\<close>

lemma view_ok_project:
  assumes v: "view_ok n" and fresh: "map_of (sn_applied n) (je_id ev) = None"
  shows "view_ok (project ev n)"
proof -
  have ok: "bt_ok (sn_applied n)" "bt_ok (sn_memories n)" "bt_ok (sn_tombstones n)" "bt_ok (sn_documents n)"
    using v by (simp_all add: view_ok_def)
  have ev: "events_of (project ev n) = insert ev (events_of n)"
    using project_events[OF ok(1) fresh] .
  have ap: "map_of (sn_applied (project ev n)) = (map_of (sn_applied n))(je_id ev \<mapsto> ev)"
    "bt_ok (sn_applied (project ev n))"
    using ok(1) by (simp_all add: project_applied bt_insert_ok)
  have docs: "sorted (bt_get [] (sn_documents (project ev n)) doc)
      \<and> distinct (bt_get [] (sn_documents (project ev n)) doc)
      \<and> set (bt_get [] (sn_documents (project ev n)) doc) = doc_entries (insert ev (events_of n)) doc
      \<and> (map_of (sn_documents (project ev n)) doc = None \<longleftrightarrow> doc_entries (insert ev (events_of n)) doc = {})"
    for doc
  proof -
    have old: "sorted (bt_get [] (sn_documents n) d)" "distinct (bt_get [] (sn_documents n) d)"
      "set (bt_get [] (sn_documents n) d) = doc_entries (events_of n) d"
      "map_of (sn_documents n) d = None \<longleftrightarrow> doc_entries (events_of n) d = {}" for d
      using v by (simp_all add: view_ok_def)
    show ?thesis
    proof (cases "\<exists>d x. je_body ev = DocumentAppend d x")
      case True
      then obtain d x where b: "je_body ev = DocumentAppend d x" by blast
      then have "sn_documents (project ev n) = bt_insert d (insort_insert x (bt_get [] (sn_documents n) d)) (sn_documents n)"
        by (simp add: project_def mark_applied_def)
      then show ?thesis
        using b old ok(4) by (auto simp: bt_get_def set_insort_insert sorted_insort_insert distinct_insort_insert)
    next
      case False
      then have "sn_documents (project ev n) = sn_documents n"
        by (auto simp: project_def mark_applied_def split: event_body.split)
      then show ?thesis using False old by (auto split: event_body.splits)
    qed
  qed
  have tombs: "bt_ok (sn_tombstones (project ev n))"
    "dom (map_of (sn_tombstones (project ev n))) = forgotten (insert ev (events_of n))"
    using v by (auto simp: view_ok_def project_def mark_applied_def bt_insert_ok split: event_body.split)
  have tm: "map_of (sn_tombstones n) m = None \<longleftrightarrow> m \<notin> forgotten (events_of n)" for m
    using v by (metis domIff view_ok_def)
  have mems: "bt_ok (sn_memories (project ev n))"
    "dom (map_of (sn_memories (project ev n))) = proposed (insert ev (events_of n)) - forgotten (insert ev (events_of n))"
    using v tm by (auto simp: view_ok_def project_def mark_applied_def bt_insert_ok bt_remove_ok
        split: event_body.split)
  have content: "\<exists>e\<in>insert ev (events_of n). je_body e = MemoryProposed m c"
    if "map_of (sn_memories (project ev n)) m = Some c" for m c
    using v that
    by (cases "je_body ev") (auto simp: view_ok_def project_def mark_applied_def split: if_splits)
  have marks: "\<exists>e\<in>insert ev (events_of n). \<exists>t g. je_body e = MemoryForgotten m t g \<and> k = mark_of e g"
    if "map_of (sn_tombstones (project ev n)) m = Some k" for m k
    using v that
    by (cases "je_body ev") (auto simp: view_ok_def project_def mark_applied_def mark_of_def split: if_splits)
  have doc_ok: "bt_ok (sn_documents (project ev n))"
    using ok(4) by (auto simp: project_def mark_applied_def bt_insert_ok split: event_body.split)
  show ?thesis
    unfolding view_ok_def ev ap(1)
    using v ap(2) docs tombs mems content marks doc_ok by (simp add: view_ok_def)
qed

text \<open>An event a node may hold: signed by itself, or by a peer it is paired with under the peer's name.\<close>

definition authentic :: "'p sync_env \<Rightarrow> 'p sync_node \<Rightarrow> journal_event \<Rightarrow> bool" where
  "authentic E n ev \<longleftrightarrow> (\<exists>peer ident. identities n peer = Some ident \<and> signed_by E ident ev)
     \<or> je_origin ev = sn_label n \<and> je_signature ev = keys_sign (se_prims E) (sn_keys n)
         (se_canonical E (je_id ev) (je_origin ev) (je_seq ev) (je_body ev))"

definition node_ok :: "'p sync_env \<Rightarrow> 'p sync_node \<Rightarrow> bool" where
  "node_ok E n \<longleftrightarrow> bt_ok (sn_peers n) \<and> view_ok n \<and> (\<forall>ev\<in>events_of n. authentic E n ev)"

text \<open>What one step may do to a good node.\<close>

definition node_grows :: "'p sync_env \<Rightarrow> 'p sync_node \<Rightarrow> 'p sync_node \<Rightarrow> bool" where
  "node_grows E n n' \<longleftrightarrow> node_ok E n' \<and> events_of n \<subseteq> events_of n'
     \<and> sn_label n' = sn_label n \<and> sn_keys n' = sn_keys n \<and> identities n \<subseteq>\<^sub>m identities n'"

lemma authentic_update [simp]:
  "authentic E (n\<lparr>sn_state := st\<rparr>) = authentic E n"
  "authentic E (n\<lparr>sn_next_seq := i, sn_outbox := q\<rparr>) = authentic E n"
  by (simp_all add: authentic_def fun_eq_iff)

lemma authentic_mono:
  "authentic E n ev \<Longrightarrow> identities n \<subseteq>\<^sub>m identities n' \<Longrightarrow> sn_label n' = sn_label n \<Longrightarrow> sn_keys n' = sn_keys n \<Longrightarrow>
   authentic E n' ev"
  unfolding authentic_def map_le_def dom_def by (metis (mono_tags, lifting) mem_Collect_eq option.distinct(1))

lemma project_frame [simp]:
  "sn_peers (project ev n) = sn_peers n" "sn_label (project ev n) = sn_label n"
  "sn_keys (project ev n) = sn_keys n" "identities (project ev n) = identities n"
  "sn_outbox (project ev n) = sn_outbox n" "sn_next_seq (project ev n) = sn_next_seq n"
  "sn_sent_to (project ev n) = sn_sent_to n" "sn_state (project ev n) = sn_state n"
  by (auto simp: project_def mark_applied_def identities_def split: event_body.split)

lemma admit_grows:
  assumes ok: "node_ok E n" and au: "authentic E n ev" and ad: "sync_admit E n ev = (res, n')"
  shows "node_grows E n n'"
  using ad
proof (cases rule: sync_admit_cases)
  case (skipped st)
  then show ?thesis
    using ok by (simp add: node_grows_def node_ok_def)
next
  case (projected st)
  let ?n = "n\<lparr>sn_state := st\<rparr>"
  have v: "view_ok ?n" using ok by (simp add: node_ok_def)
  have e: "events_of n' = insert ev (events_of n)"
    using v projected project_events[of ?n ev] by (simp add: view_ok_def)
  have "view_ok n'" using view_ok_project[OF v] projected by simp
  moreover have "authentic E n' x" if "x \<in> events_of n'" for x
    using that ok au e projected(1) by (auto simp: node_ok_def authentic_def)
  ultimately show ?thesis using ok projected(1) e by (auto simp: node_grows_def node_ok_def)
qed

lemma micro_grows:
  assumes "node_ok E n" "micro E n n'"
  shows "node_grows E n n'"
  using assms(2)
proof (cases rule: micro.cases)
  case (m_local body res)
  obtain ev n1 where c: "sync_create E n body = (ev, n1)" by fastforce
  then obtain i q where n1: "n1 = n\<lparr>sn_next_seq := i, sn_outbox := q\<rparr>"
    by (auto simp: sync_create_def Let_def)
  obtain r where a: "sync_admit E n1 ev = (r, n')"
    using m_local c by (auto simp: local_event_def split: prod.splits sum.splits)
  have "node_ok E n1" using assms(1) n1 by (simp add: node_ok_def)
  moreover have "authentic E n1 ev" using c by (auto simp: authentic_def sync_create_def Let_def)
  ultimately have "node_grows E n1 n'" using a by (rule admit_grows)
  then show ?thesis using n1 by (simp add: node_grows_def)
next
  case (m_receive peer ident ev res)
  then have "authentic E n ev" unfolding authentic_def by blast
  then show ?thesis using admit_grows[OF assms(1)] m_receive by blast
next
  case (m_cursor port peer pos res port')
  then show ?thesis
    using assms(1) by (simp add: node_grows_def node_ok_def)
next
  case m_frame
  then have "view_ok n' = view_ok n" by (intro view_cong) (simp_all add: frame_def)
  moreover have e: "events_of n' = events_of n" using m_frame by (simp add: frame_def events_of_def)
  moreover have f: "identities n \<subseteq>\<^sub>m identities n'" "sn_label n' = sn_label n" "sn_keys n' = sn_keys n"
    "bt_ok (sn_peers n')"
    using m_frame by (simp_all add: frame_def)
  moreover have "authentic E n' x" if "x \<in> events_of n" for x
    using authentic_mono[OF _ f(1-3)] assms(1) that by (simp add: node_ok_def)
  ultimately show ?thesis using assms(1) by (simp add: node_grows_def node_ok_def)
qed

lemma node_grows_trans: "node_grows E n n1 \<Longrightarrow> node_grows E n1 n2 \<Longrightarrow> node_grows E n n2"
  by (auto simp: node_grows_def intro: map_le_trans)

lemma micros_grow: "micros E n n' \<Longrightarrow> node_ok E n \<Longrightarrow> node_grows E n n'"
proof (induction rule: rtranclp_induct)
  case base
  then show ?case by (simp add: node_grows_def)
next
  case (step n1 n2)
  then have "node_grows E n n1" "node_ok E n1" by (auto simp: node_grows_def)
  then show ?case using micro_grows[OF _ step(2)] node_grows_trans by blast
qed

lemma node_step_grows: "node_ok E n \<Longrightarrow> node_step E n n' \<Longrightarrow> node_grows E n n'"
  using micros_grow[OF node_step_micros] by (auto simp: node_ok_def)

text \<open>A node starts with an empty journal, any pairings and a volatile state or some port.\<close>

definition node_start :: "'p sync_node \<Rightarrow> bool" where
  "node_start n \<longleftrightarrow> bt_ok (sn_peers n) \<and> sn_applied n = [] \<and> sn_memories n = [] \<and> sn_tombstones n = []
     \<and> sn_documents n = []"

interpretation journal_machine: guarded_machine node_start "node_step E" "node_ok E" for E
proof
  fix n :: "'a sync_node" assume "node_start n"
  then show "node_ok E n"
    by (auto simp: node_start_def node_ok_def view_ok_def events_of_def bt_get_def doc_entries_def
        forgotten_def proposed_def)
next
  fix n n' :: "'a sync_node" assume "node_ok E n" "node_step E n n'"
  then show "node_ok E n'" using node_step_grows by (auto simp: node_grows_def)
qed

lemma node_steps_grow: "(node_step E)\<^sup>*\<^sup>* n n' \<Longrightarrow> node_ok E n \<Longrightarrow> node_grows E n n'"
proof (induction rule: rtranclp_induct)
  case base
  then show ?case by (simp add: node_grows_def)
next
  case (step n1 n2)
  then have "node_grows E n n1" "node_ok E n1" by (auto simp: node_grows_def)
  then show ?case using node_step_grows[OF _ step(2)] node_grows_trans by blast
qed

section \<open>Concrete nodes\<close>

text \<open>An environment for concrete runs: a codec that knows a finite list of payloads, and the
  transparent primitives.\<close>

definition sample_encode :: "sync_payload list \<Rightarrow> sync_payload \<Rightarrow> bytes option" where
  "sample_encode ps p = map_option (\<lambda>i. [of_nat (fst i)]) (List.find (\<lambda>i. snd i = p) (enumerate 0 ps))"

definition sample_decode :: "sync_payload list \<Rightarrow> bytes \<Rightarrow> sync_payload option" where
  "sample_decode ps w = (case w of [b] \<Rightarrow> if unat b < length ps then Some (ps ! unat b) else None | _ \<Rightarrow> None)"

definition sample_env :: "sync_payload list \<Rightarrow> memory_port sync_env" where
  "sample_env ps = \<lparr>se_prims = sample_prims, se_sha = id, se_encode = sample_encode ps,
     se_decode = sample_decode ps, se_canonical = (\<lambda>_ _ _ _. []), se_port = memory_state_port\<rparr>"

definition sample_node :: "string \<Rightarrow> byte \<Rightarrow> memory_port sync_node" where
  "sample_node label b = sync_new (sample_keys label b) label"

definition sample_proposed :: "memory_port sync_node" where
  "sample_proposed = snd (propose_memory (sample_env []) (sample_node ''laptop'' 1) ''mem'' ''tea'')"

definition sample_forgot :: "memory_port sync_node" where
  "sample_forgot = snd (forget_memory (sample_env []) sample_proposed ''mem'' 5 [9])"

lemma sample_node_start: "node_start (sample_node label b)"
  by (simp add: node_start_def sample_node_def sync_new_def)

lemma reach_sample_proposed: "reach node_start (node_step (sample_env [])) sample_proposed"
  unfolding sample_proposed_def
  by (rule reach_move[where s = "sample_node ''laptop'' 1"])
    (rule reach_start, rule sample_node_start, rule ns_propose, rule surjective_pairing)

definition sample_stored :: "memory_port sync_node" where
  "sample_stored = snd (forget_memory (sample_env []) (snd (propose_memory (sample_env [])
     ((sample_node ''laptop'' 1)\<lparr>sn_state := Some memory_port_new\<rparr>) ''mem'' ''tea'')) ''mem'' 5 [9])"

lemma reach_sample_stored: "reach node_start (node_step (sample_env [])) sample_stored"
proof -
  let ?n = "(sample_node ''laptop'' 1)\<lparr>sn_state := Some memory_port_new\<rparr>"
  have "node_start ?n" by (simp add: node_start_def sample_node_def sync_new_def)
  then have "reach node_start (node_step (sample_env [])) ?n" by (rule reach_start)
  moreover have "node_step (sample_env []) ?n (snd (propose_memory (sample_env []) ?n ''mem'' ''tea''))"
    by (rule ns_propose, rule surjective_pairing)
  ultimately have "reach node_start (node_step (sample_env [])) (snd (propose_memory (sample_env []) ?n ''mem'' ''tea''))"
    by (rule reach_move)
  then show ?thesis unfolding sample_stored_def by (rule reach_move) (rule ns_forget, rule surjective_pairing)
qed

lemma reach_sample_forgot: "reach node_start (node_step (sample_env [])) sample_forgot"
  unfolding sample_forgot_def
  by (rule reach_move[OF reach_sample_proposed]) (rule ns_forget, rule surjective_pairing)

section \<open>Properties\<close>

lemma view_documents:
  assumes "view_ok n" "view_ok n'" "events_of n = events_of n'"
  shows "sn_documents n = sn_documents n'"
proof (rule bt_eqI)
  show "bt_ok (sn_documents n)" "bt_ok (sn_documents n')" using assms by (simp_all add: view_ok_def)
  show "map_of (sn_documents n) = map_of (sn_documents n')"
  proof
    fix doc
    have "bt_get [] (sn_documents n) doc = bt_get [] (sn_documents n') doc"
      using assms by (intro sorted_distinct_set_unique) (simp_all add: view_ok_def)
    moreover have "map_of (sn_documents n) doc = None \<longleftrightarrow> map_of (sn_documents n') doc = None"
      using assms by (simp add: view_ok_def)
    ultimately show "map_of (sn_documents n) doc = map_of (sn_documents n') doc"
      by (auto simp: bt_get_def split: option.splits)
  qed
qed

text \<open>Two trees over one key set are equal when no key admits two values.\<close>

lemma bt_determined:
  assumes "bt_ok t" "bt_ok t'" "dom (map_of t) = dom (map_of t')"
    and val: "\<And>k v. map_of t k = Some v \<or> map_of t' k = Some v \<Longrightarrow> P k v"
    and single: "\<And>k v v'. P k v \<Longrightarrow> P k v' \<Longrightarrow> v = v'"
  shows "t = t'"
proof (rule bt_eqI[OF assms(1,2)], rule ext)
  fix k
  show "map_of t k = map_of t' k"
  proof (cases "map_of t k")
    case None
    then show ?thesis using assms(3) by (metis domIff)
  next
    case (Some x)
    then obtain y where "map_of t' k = Some y" using assms(3) by (metis domD domI)
    then show ?thesis using Some val single by metis
  qed
qed

lemma view_memories:
  assumes "view_ok n" "view_ok n'" "events_of n = events_of n'" "proposals_agree (events_of n)"
  shows "sn_memories n = sn_memories n'"
proof (rule bt_determined[where P = "\<lambda>m c. \<exists>e\<in>events_of n. je_body e = MemoryProposed m c"])
  show "m = m'" if "\<exists>e\<in>events_of n. je_body e = MemoryProposed k m" "\<exists>e\<in>events_of n. je_body e = MemoryProposed k m'"
    for k m m'
    using that assms(4) unfolding proposals_agree_def by blast
qed (use assms(1-3) in \<open>auto simp: view_ok_def\<close>)

lemma view_tombstones:
  assumes "view_ok n" "view_ok n'" "events_of n = events_of n'" "forgets_agree (events_of n)"
  shows "sn_tombstones n = sn_tombstones n'"
proof (rule bt_determined[where P = "\<lambda>m k. \<exists>e\<in>events_of n. \<exists>t g. je_body e = MemoryForgotten m t g \<and> k = mark_of e g"])
  show "k = k'" if "\<exists>e\<in>events_of n. \<exists>t g. je_body e = MemoryForgotten m t g \<and> k = mark_of e g"
    "\<exists>e\<in>events_of n. \<exists>t g. je_body e = MemoryForgotten m t g \<and> k' = mark_of e g" for m k k'
    using that assms(4) unfolding forgets_agree_def by (metis event_body.inject(3))
qed (use assms(1-3) in \<open>auto simp: view_ok_def\<close>)

lemma digest_cong:
  "sn_documents n = sn_documents n' \<Longrightarrow> sn_memories n = sn_memories n' \<Longrightarrow> sn_tombstones n = sn_tombstones n' \<Longrightarrow>
   state_digest n = state_digest n'"
  by (simp add: state_digest_def)

lemma view_determined:
  assumes "view_ok n" "view_ok n'" "events_of n = events_of n'"
  shows "sn_documents n = sn_documents n'
     \<and> dom (map_of (sn_tombstones n)) = dom (map_of (sn_tombstones n'))
     \<and> dom (map_of (sn_memories n)) = dom (map_of (sn_memories n'))
     \<and> (proposals_agree (events_of n) \<longrightarrow> sn_memories n = sn_memories n')
     \<and> (forgets_agree (events_of n) \<longrightarrow> sn_tombstones n = sn_tombstones n')
     \<and> (proposals_agree (events_of n) \<and> forgets_agree (events_of n) \<longrightarrow> state_digest n = state_digest n')"
proof -
  have "dom (map_of (sn_tombstones n)) = dom (map_of (sn_tombstones n'))"
    "dom (map_of (sn_memories n)) = dom (map_of (sn_memories n'))"
    using assms by (simp_all add: view_ok_def)
  then show ?thesis
    using view_documents[OF assms] view_memories[OF assms] view_tombstones[OF assms] digest_cong[of n n'] by blast
qed

text \<open>C14: A forgotten memory stays forgotten. Once a node has applied a forget of a memory, no sequence
  of edits, proposals, polls, flushes and pairings, with any content of the relay and any answers of the
  port, makes the memory visible again or drops its tombstone.\<close>

theorem forgotten_stays_forgotten:
  assumes "reach node_start (node_step E) n" "map_of (sn_tombstones n) mem \<noteq> None"
    and "(node_step E)\<^sup>*\<^sup>* n n'"
  shows "map_of (sn_tombstones n') mem \<noteq> None \<and> map_of (sn_memories n') mem = None"
proof -
  have ok: "node_ok E n" using assms(1) by (rule journal_machine.reach_good)
  have g: "view_ok n" "view_ok n'" "events_of n \<subseteq> events_of n'"
    using node_steps_grow[OF assms(3) ok] ok by (simp_all add: node_grows_def node_ok_def)
  have "mem \<in> forgotten (events_of n)" using assms(2) g(1) by (metis domIff view_ok_def)
  then have "mem \<in> forgotten (events_of n')" using g(3) by (auto simp: forgotten_def)
  then show ?thesis using g(2) unfolding view_ok_def by (metis DiffE domIff)
qed

theorem forgotten_stays_forgotten_witness:
  "map_of (sn_memories sample_proposed) ''mem'' = Some ''tea''
   \<and> map_of (sn_tombstones (snd (propose_memory (sample_env []) sample_forgot ''mem'' ''tea''))) ''mem'' \<noteq> None
   \<and> map_of (sn_memories (snd (propose_memory (sample_env []) sample_forgot ''mem'' ''tea''))) ''mem'' = None"
proof -
  let ?n = "snd (propose_memory (sample_env []) sample_forgot ''mem'' ''tea'')"
  have "node_step (sample_env []) sample_forgot ?n" by (rule ns_propose, rule surjective_pairing)
  then have "(node_step (sample_env []))\<^sup>*\<^sup>* sample_forgot ?n" by blast
  moreover have "map_of (sn_tombstones sample_forgot) ''mem'' \<noteq> None" by code_simp
  ultimately have "map_of (sn_tombstones ?n) ''mem'' \<noteq> None \<and> map_of (sn_memories ?n) ''mem'' = None"
    using forgotten_stays_forgotten[OF reach_sample_forgot] by blast
  moreover have "map_of (sn_memories sample_proposed) ''mem'' = Some ''tea''" by code_simp
  ultimately show ?thesis by blast
qed



section \<open>Limits of the engine\<close>

text \<open>Concurrent proposals of one memory do not converge: the content that arrived last wins.\<close>

definition sample_proposal :: "string \<Rightarrow> u64 \<Rightarrow> string \<Rightarrow> journal_event" where
  "sample_proposal origin seq content = \<lparr>je_id = event_id_of origin seq, je_origin = origin, je_seq = seq,
     je_signature = [], je_body = MemoryProposed ''mem'' content\<rparr>"

theorem concurrent_proposals_diverge:
  "let x = sample_proposal ''laptop'' 1 ''tea''; y = sample_proposal ''phone'' 1 ''coffee'';
       n = snd (apply_all (sample_env []) (sample_node ''laptop'' 1) [x, y]);
       n' = snd (apply_all (sample_env []) (sample_node ''phone'' 2) [y, x])
   in sn_applied n = sn_applied n' \<and> sn_memories n \<noteq> sn_memories n'"
  by code_simp

text \<open>Nor do concurrent forgets of one memory: the mark that arrived last is kept, and the digests differ.\<close>

definition sample_forget :: "string \<Rightarrow> u64 \<Rightarrow> bytes \<Rightarrow> journal_event" where
  "sample_forget origin seq digest = \<lparr>je_id = event_id_of origin seq, je_origin = origin, je_seq = seq,
     je_signature = [], je_body = MemoryForgotten ''mem'' 5 digest\<rparr>"

theorem concurrent_forgets_diverge:
  "let x = sample_forget ''laptop'' 1 [1]; y = sample_forget ''phone'' 1 [2];
       n = snd (apply_all (sample_env []) (sample_node ''laptop'' 1) [x, y]);
       n' = snd (apply_all (sample_env []) (sample_node ''phone'' 2) [y, x])
   in sn_applied n = sn_applied n' \<and> sn_tombstones n \<noteq> sn_tombstones n' \<and> state_digest n \<noteq> state_digest n'"
  by code_simp

text \<open>An event id is not bound to its origin: a paired peer may sign an event under the id the receiver
  will use for its own next event, which is then never applied locally.\<close>

theorem peer_can_take_event_ids:
  "let E = sample_env []; n = sample_node ''laptop'' 1; ident = public_identity sample_prims (sample_keys ''phone'' 2);
       w = \<lparr>we_id = ''laptop:1'', we_origin = ''phone'', we_seq = 1,
            we_signature = keys_sign sample_prims (sample_keys ''phone'' 2) [],
            we_body = DocumentAppend ''doc'' ''x''\<rparr>;
       n1 = snd (receive_event E n ident w);
       n2 = snd (append_document E n1 ''doc'' ''mine'')
   in fst (receive_event E n ident w) = Okay 1 \<and> isl (fst (append_document E n1 ''doc'' ''mine'')) = False
      \<and> sn_documents n2 = [(''doc'', [''x''])]"
  by code_simp

text \<open>Equal digests do not mean equal states, for lack of a separator between a memory's id and its
  content.\<close>

theorem state_digest_ambiguous:
  "let n = (sample_node ''laptop'' 1)\<lparr>sn_memories := [(''a'', ''bc'')]\<rparr>;
       n' = (sample_node ''laptop'' 1)\<lparr>sn_memories := [(''ab'', ''c'')]\<rparr>
   in state_digest n = state_digest n' \<and> sn_memories n \<noteq> sn_memories n'"
  by (simp add: state_digest_def sample_node_def sync_new_def str_bytes_def)

text \<open>The hexadecimal decoder takes a plus sign for a digit.\<close>

theorem hex_decode_accepts_plus: "sync_hex_decode (''+f'' @ replicate 62 (CHR ''0'')) = Some (15 # replicate 31 0)"
  by code_simp

end
