(* ===== verification/Sync_Exchange.thy ===== *)
theory Sync_Exchange
  imports Sync_State
begin

text \<open>
  Delivery: what a poll of a peer's bucket and a flush to a peer do, in terms of the relay's contents, the
  sessions and the journals. These are the facts the convergence of two replicas is built from.
\<close>

section \<open>Laws of the environment\<close>

text \<open>What the JSON codec wrote, it reads back.\<close>

definition codec_ok :: "'p sync_env \<Rightarrow> bool" where
  "codec_ok E \<longleftrightarrow> (\<forall>p w. se_encode E p = Some w \<longrightarrow> se_decode E w = Some p)"

definition wire_of :: "journal_event \<Rightarrow> wire_event" where
  "wire_of ev = \<lparr>we_id = je_id ev, we_origin = je_origin ev, we_seq = je_seq ev,
     we_signature = je_signature ev, we_body = je_body ev\<rparr>"

lemma serialize_decode:
  "codec_ok E \<Longrightarrow> serialize_event E ev = Some w \<Longrightarrow> se_decode E w = Some (PayloadEvent (wire_of ev))"
  by (simp add: codec_ok_def serialize_event_def wire_of_def)

text \<open>An event a receiver accepts from a peer.\<close>

definition trusted :: "'p sync_env \<Rightarrow> device_identity \<Rightarrow> journal_event \<Rightarrow> bool" where
  "trusted E ident ev \<longleftrightarrow> signed_by E ident ev \<and> length (je_signature ev) = 64"

section \<open>Receiving\<close>

definition absorb :: "journal_event \<Rightarrow> 'p sync_node \<Rightarrow> 'p sync_node" where
  "absorb ev n = (if map_of (sn_applied n) (je_id ev) = None then project ev n else n)"

lemma sync_admit_volatile: "sn_state n = None \<Longrightarrow> sync_admit E n ev = (Okay (), absorb ev n)"
  by (simp add: sync_admit_def sync_apply_volatile absorb_def)

lemma absorb_frame [simp]:
  "sn_peers (absorb ev n) = sn_peers n" "sn_label (absorb ev n) = sn_label n" "sn_keys (absorb ev n) = sn_keys n"
  "sn_outbox (absorb ev n) = sn_outbox n" "sn_next_seq (absorb ev n) = sn_next_seq n"
  "sn_sent_to (absorb ev n) = sn_sent_to n" "sn_state (absorb ev n) = sn_state n"
  by (simp_all add: absorb_def)

lemma absorb_all_frame [simp]:
  "sn_peers (fold absorb evs n) = sn_peers n" "sn_label (fold absorb evs n) = sn_label n"
  "sn_keys (fold absorb evs n) = sn_keys n" "sn_outbox (fold absorb evs n) = sn_outbox n"
  "sn_next_seq (fold absorb evs n) = sn_next_seq n" "sn_sent_to (fold absorb evs n) = sn_sent_to n"
  "sn_state (fold absorb evs n) = sn_state n"
  by (induction evs arbitrary: n) simp_all

lemma project_set_peer: "project ev (set_peer peer ch n) = set_peer peer ch (project ev n)"
  by (simp add: project_def set_peer_def mark_applied_def split: event_body.split)

lemma absorb_set_peer: "absorb ev (set_peer peer ch n) = set_peer peer ch (absorb ev n)"
  by (simp add: absorb_def project_set_peer)

lemma absorb_all_set_peer: "fold absorb evs (set_peer peer ch n) = set_peer peer ch (fold absorb evs n)"
  by (induction evs arbitrary: n) (simp_all add: absorb_set_peer)

lemma bt_insert_twice: "bt_ok m \<Longrightarrow> bt_insert k v (bt_insert k w m) = bt_insert k v m"
  by (rule bt_eqI) (simp_all add: bt_insert_ok)

lemma bt_insert_same: "bt_ok m \<Longrightarrow> map_of m k = Some v \<Longrightarrow> bt_insert k v m = m"
  by (rule bt_eqI) (auto simp: bt_insert_ok)

lemma set_peer_twice [simp]:
  "bt_ok (sn_peers n) \<Longrightarrow> set_peer peer ch (set_peer peer ch' n) = set_peer peer ch n"
  by (simp add: set_peer_def bt_insert_twice)

lemma set_peer_same: "bt_ok (sn_peers n) \<Longrightarrow> map_of (sn_peers n) peer = Some ch \<Longrightarrow> set_peer peer ch n = n"
  by (simp add: set_peer_def bt_insert_same)

lemma receive_event_absorbs:
  assumes "sn_state n = None" "trusted E ident ev"
  shows "\<exists>c. receive_event E n ident (wire_of ev) = (Okay c, absorb ev n)"
proof -
  let ?ev = "\<lparr>je_id = je_id ev, je_origin = je_origin ev, je_seq = je_seq ev, je_signature = je_signature ev,
      je_body = je_body ev\<rparr>"
  have rec: "?ev = ev" by simp
  have "sync_admit E n ?ev = (Okay (), absorb ev n)" unfolding rec using assms(1) by (rule sync_admit_volatile)
  moreover have "di_id ident = je_origin ev" "length (je_signature ev) = 64"
    "verify_signature (se_prims E) ident
       (se_canonical E (je_id ev) (je_origin ev) (je_seq ev) (je_body ev)) (je_signature ev) = Okay ()"
    using assms(2) unfolding trusted_def signed_by_def verify_signature_def by auto
  ultimately show ?thesis by (simp add: receive_event_def wire_of_def absorb_def)
qed

lemma receive_item_absorbs:
  assumes "sn_state n = None" "bt_ok (sn_peers n)" "map_of (sn_peers n) peer = Some ch"
    "v2_open (se_prims E) (pc_inbound ch) (item_payload x) = (Okay w, t')"
    "se_decode E w = Some (PayloadEvent (wire_of ev))" "trusted E (pc_identity ch) ev"
  shows "\<exists>c. receive_item E peer n x = (Okay c, set_peer peer (ch\<lparr>pc_inbound := t'\<rparr>) (absorb ev n))"
proof -
  have "sn_state (set_peer peer (ch\<lparr>pc_inbound := t'\<rparr>) n) = None" using assms(1) by simp
  then obtain c where "receive_event E (set_peer peer (ch\<lparr>pc_inbound := t'\<rparr>) n) (pc_identity ch) (wire_of ev)
      = (Okay c, absorb ev (set_peer peer (ch\<lparr>pc_inbound := t'\<rparr>) n))"
    using receive_event_absorbs[OF _ assms(6)] by blast
  then show ?thesis using assms(3-5) by (simp add: receive_item_def absorb_set_peer)
qed

text \<open>A page of envelopes that open to serialised events is absorbed event by event.\<close>

lemma receive_items_absorb:
  assumes "sn_state n = None" "bt_ok (sn_peers n)" "map_of (sn_peers n) peer = Some ch" "codec_ok E"
    "try_all (v2_open (se_prims E)) (pc_inbound ch) (map item_payload xs) = (Okay ws, t')"
    "list_all2 (\<lambda>ev w. serialize_event E ev = Some w) evs ws" "\<forall>ev\<in>set evs. trusted E (pc_identity ch) ev"
  shows "\<exists>c. receive_items E peer n xs k = (Okay c, set_peer peer (ch\<lparr>pc_inbound := t'\<rparr>) (fold absorb evs n))"
  using assms
proof (induction xs arbitrary: n ch ws evs k)
  case Nil
  then show ?case by (auto simp: set_peer_same)
next
  case (Cons x xs)
  obtain w ws' t1 where op: "v2_open (se_prims E) (pc_inbound ch) (item_payload x) = (Okay w, t1)"
    "try_all (v2_open (se_prims E)) t1 (map item_payload xs) = (Okay ws', t')" "ws = w # ws'"
    using Cons.prems(5) unfolding list.map by (rule try_all_ConsE)
  obtain ev evs' where ev: "evs = ev # evs'" "serialize_event E ev = Some w"
    "list_all2 (\<lambda>ev w. serialize_event E ev = Some w) evs' ws'"
    using Cons.prems(6) op(3) by (auto simp: list_all2_Cons2)
  let ?ch = "ch\<lparr>pc_inbound := t1\<rparr>"
  let ?n = "set_peer peer ?ch (absorb ev n)"
  obtain c where c: "receive_item E peer n x = (Okay c, ?n)"
    using receive_item_absorbs[OF Cons.prems(1-3) op(1) serialize_decode[OF Cons.prems(4) ev(2)]]
      Cons.prems(7) ev(1) by auto
  have "\<exists>c'. receive_items E peer ?n xs (k + c) = (Okay c', set_peer peer (?ch\<lparr>pc_inbound := t'\<rparr>) (fold absorb evs' ?n))"
  proof (rule Cons.IH[OF _ _ _ Cons.prems(4) _ ev(3)])
    show "sn_state ?n = None" "bt_ok (sn_peers ?n)" "map_of (sn_peers ?n) peer = Some ?ch"
      using Cons.prems(1,2) by simp_all
    show "try_all (v2_open (se_prims E)) (pc_inbound ?ch) (map item_payload xs) = (Okay ws', t')"
      using op(2) by simp
    show "\<forall>ev\<in>set evs'. trusted E (pc_identity ?ch) ev" using Cons.prems(7) ev(1) by simp
  qed
  then show ?case using c ev(1) Cons.prems(2) by (simp add: absorb_all_set_peer)
qed

section \<open>Reading a bucket\<close>

definition unread :: "relay \<Rightarrow> bucket_id \<Rightarrow> nat \<Rightarrow> fetched_item list" where
  "unread r k pos = filter (\<lambda>i. pos < item_seq i) (retained r k)"

text \<open>Two relays that show the same buckets to every reader.\<close>

definition relay_same :: "relay \<Rightarrow> relay \<Rightarrow> bool" where
  "relay_same r r' \<longleftrightarrow> retained r' = retained r \<and> checkpoint r' = checkpoint r \<and> head_seq r' = head_seq r
     \<and> relay_ok r'"

lemma fetch_same:
  assumes "relay_ok r" "checkpoint r k \<le> pos" "pos \<le> head_seq r k"
  shows "relay_same r (snd (fetch r k pos limit))"
proof -
  have here: "relay_ok (snd (fetch r k pos limit))" "retained (snd (fetch r k pos limit)) k = retained r k"
    "checkpoint (snd (fetch r k pos limit)) k = checkpoint r k"
    "head_seq (snd (fetch r k pos limit)) k = head_seq r k"
    using relay_mail.read_only[OF assms] by blast+
  have "buckets (snd (fetch r k pos limit)) k' = buckets r k'" if "k' \<noteq> k" for k'
    using that by (auto simp: fetch_def put_slot_def split: option.splits prod.splits)
  then have "retained (snd (fetch r k pos limit)) k' = retained r k'
      \<and> checkpoint (snd (fetch r k pos limit)) k' = checkpoint r k'
      \<and> head_seq (snd (fetch r k pos limit)) k' = head_seq r k'" for k'
    using here by (cases "k' = k") (simp_all add: retained_def checkpoint_def head_seq_def)
  then show ?thesis using here(1) by (auto simp: relay_same_def)
qed

lemma relay_same_trans: "relay_same r r1 \<Longrightarrow> relay_same r1 r2 \<Longrightarrow> relay_same r r2"
  by (simp add: relay_same_def)

text \<open>Polling one peer reads the bucket to its end and absorbs what was unread.\<close>

lemma poll_peer_absorbs:
  assumes "sn_state n = None" "bt_ok (sn_peers n)" "map_of (sn_peers n) peer = Some ch" "codec_ok E"
    "relay_ok r" "checkpoint r (inbox (sn_label n) peer) \<le> pc_cursor ch"
    "pc_cursor ch \<le> head_seq r (inbox (sn_label n) peer)"
    "try_all (v2_open (se_prims E)) (pc_inbound ch)
       (map item_payload (unread r (inbox (sn_label n) peer) (pc_cursor ch))) = (Okay ws, t')"
    "list_all2 (\<lambda>ev w. serialize_event E ev = Some w) evs ws" "\<forall>ev\<in>set evs. trusted E (pc_identity ch) ev"
    "length (unread r (inbox (sn_label n) peer) (pc_cursor ch)) < fuel"
  shows "\<exists>c r' fin. poll_peer E fuel peer n r k =
       Some (Okay c, set_peer peer (ch\<lparr>pc_inbound := t', pc_cursor := fin\<rparr>) (fold absorb evs n), r')
     \<and> relay_same r r' \<and> unread r (inbox (sn_label n) peer) fin = []
     \<and> pc_cursor ch \<le> fin \<and> fin \<le> head_seq r (inbox (sn_label n) peer)"
  using assms
proof (induction fuel arbitrary: n ch r ws evs k)
  case 0
  then show ?case by simp
next
  case (Suc fuel)
  let ?k = "inbox (sn_label n) peer" and ?pos = "pc_cursor ch"
  let ?todo = "unread r ?k ?pos"
  let ?now = "take poll_page_limit ?todo"
  obtain r1 where r1: "r1 = snd (fetch r ?k ?pos poll_page_limit)" by simp
  have same: "relay_same r r1" unfolding r1 using fetch_same[OF Suc.prems(5-7)] .
  have ft: "fetch r ?k ?pos poll_page_limit = (Entries ?now (if ?now = [] then ?pos else item_seq (last ?now))
      (poll_page_limit < length ?todo), r1)"
    using relay_mail.page[OF Suc.prems(5-7), of poll_page_limit] unfolding r1 unread_def
    by (metis (no_types, lifting) prod.collapse)
  have lim: "0 < poll_page_limit" by (simp add: poll_page_limit_def)
  show ?case
  proof (cases "?todo = []")
    case True
    then have "ws = []" "t' = pc_inbound ch" using Suc.prems(8) by simp_all
    then have "evs = []" using Suc.prems(9) by simp
    have "poll_peer E (Suc fuel) peer n r k = Some (Okay k, set_peer peer (ch\<lparr>pc_cursor := ?pos\<rparr>) n, r1)"
      using Suc.prems(1,3) ft True by (simp add: move_cursor_def)
    then show ?thesis
      using True same \<open>t' = pc_inbound ch\<close> \<open>evs = []\<close> Suc.prems(7) by (intro exI[of _ k] exI[of _ r1] exI[of _ ?pos]) simp
  next
    case False
    then have now: "?now \<noteq> []" using lim by simp
    let ?nc = "item_seq (last ?now)"
    have "last ?now \<in> set ?todo" using now by (meson in_set_takeD last_in_set)
    then have nc: "?pos \<le> ?nc" "?nc \<le> head_seq r ?k"
      using relay_mail.contents_high[OF Suc.prems(5)] by (auto simp: unread_def)
    have rest: "unread r ?k ?nc = drop poll_page_limit ?todo"
      using relay_mail.rest_after_page[OF Suc.prems(5), of ?now poll_page_limit ?pos ?k] now
      unfolding unread_def by simp
    have split: "map item_payload ?todo = map item_payload ?now @ map item_payload (drop poll_page_limit ?todo)"
      by (metis append_take_drop_id map_append)
    obtain ws1 ws2 t1 where op: "try_all (v2_open (se_prims E)) (pc_inbound ch) (map item_payload ?now) = (Okay ws1, t1)"
      "try_all (v2_open (se_prims E)) t1 (map item_payload (drop poll_page_limit ?todo)) = (Okay ws2, t')" "ws = ws1 @ ws2"
      using Suc.prems(8) unfolding split try_all_append by (auto split: prod.splits sum.splits)
    obtain evs1 evs2 where ev: "evs = evs1 @ evs2" "list_all2 (\<lambda>ev w. serialize_event E ev = Some w) evs1 ws1"
      "list_all2 (\<lambda>ev w. serialize_event E ev = Some w) evs2 ws2"
      using Suc.prems(9) unfolding op(3) list_all2_append2 by blast
    let ?n1 = "set_peer peer (ch\<lparr>pc_cursor := ?nc\<rparr>) n"
    let ?ch2 = "ch\<lparr>pc_cursor := ?nc, pc_inbound := t1\<rparr>"
    let ?n2 = "set_peer peer ?ch2 (fold absorb evs1 n)"
    have "\<exists>c. receive_items E peer ?n1 ?now k = (Okay c,
        set_peer peer ((ch\<lparr>pc_cursor := ?nc\<rparr>)\<lparr>pc_inbound := t1\<rparr>) (fold absorb evs1 ?n1))"
      using Suc.prems(1,2,4,10) op(1) ev(1,2) by (intro receive_items_absorb) auto
    then obtain c where c: "receive_items E peer ?n1 ?now k = (Okay c, ?n2)"
      using Suc.prems(2) by (auto simp: absorb_all_set_peer)
    have step: "poll_peer E (Suc fuel) peer n r k = poll_peer E fuel peer ?n2 r1 c"
      using Suc.prems(1,3) ft now c by (simp add: move_cursor_def)
    have r1': "retained r1 = retained r" "checkpoint r1 = checkpoint r" "head_seq r1 = head_seq r" "relay_ok r1"
      using same by (simp_all add: relay_same_def)
    have u1: "unread r1 ?k pos = unread r ?k pos" for pos by (simp add: unread_def r1')
    have "\<exists>c' r' fin. poll_peer E fuel peer ?n2 r1 c =
         Some (Okay c', set_peer peer (?ch2\<lparr>pc_inbound := t', pc_cursor := fin\<rparr>) (fold absorb evs2 ?n2), r')
       \<and> relay_same r1 r' \<and> unread r1 (inbox (sn_label ?n2) peer) fin = []
       \<and> pc_cursor ?ch2 \<le> fin \<and> fin \<le> head_seq r1 (inbox (sn_label ?n2) peer)"
    proof (rule Suc.IH[where ws = ws2])
      show "sn_state ?n2 = None" "bt_ok (sn_peers ?n2)" "map_of (sn_peers ?n2) peer = Some ?ch2" "codec_ok E" "relay_ok r1"
        using Suc.prems(1,2,4) r1'(4) by simp_all
      show "checkpoint r1 (inbox (sn_label ?n2) peer) \<le> pc_cursor ?ch2"
        "pc_cursor ?ch2 \<le> head_seq r1 (inbox (sn_label ?n2) peer)"
        using Suc.prems(6) nc r1' by simp_all
      show "try_all (v2_open (se_prims E)) (pc_inbound ?ch2)
          (map item_payload (unread r1 (inbox (sn_label ?n2) peer) (pc_cursor ?ch2))) = (Okay ws2, t')"
        using op(2) rest u1 by simp
      show "list_all2 (\<lambda>ev w. serialize_event E ev = Some w) evs2 ws2" by (rule ev(3))
      show "\<forall>ev\<in>set evs2. trusted E (pc_identity ?ch2) ev" using Suc.prems(10) ev(1) by simp
      show "length (unread r1 (inbox (sn_label ?n2) peer) (pc_cursor ?ch2)) < fuel"
        using Suc.prems(11) rest u1 lim False by (cases ?todo) auto
    qed
    then obtain c' r' fin where fin: "poll_peer E fuel peer ?n2 r1 c = Some (Okay c',
        set_peer peer (ch\<lparr>pc_inbound := t', pc_cursor := fin\<rparr>) (fold absorb evs n), r')"
      "relay_same r1 r'" "unread r ?k fin = []" "?nc \<le> fin" "fin \<le> head_seq r ?k"
      using ev(1) Suc.prems(2) r1' u1 by (auto simp: absorb_all_set_peer)
    then show ?thesis
      using step nc(1) relay_same_trans[OF same fin(2)] le_trans[OF nc(1) fin(4)] by metis
  qed
qed

section \<open>Sending\<close>

text \<open>Pushing under an id the bucket does not retain appends one item, above everything before it.\<close>

lemma push_appends:
  assumes "relay_ok r" "push r k i pl = (Okay out, r')" "i \<notin> item_id ` set (retained r k)"
  shows "\<exists>x. retained r' k = retained r k @ [x] \<and> item_id x = i \<and> item_payload x = pl
       \<and> head_seq r k < item_seq x \<and> head_seq r' k = item_seq x"
    and "checkpoint r' k = checkpoint r k" and "relay_ok r'"
    and "k' \<noteq> k \<Longrightarrow> retained r' k' = retained r k' \<and> checkpoint r' k' = checkpoint r k'
       \<and> head_seq r' k' = head_seq r k'"
proof -
  let ?slot = "slot_or_default r k"
  have none: "find_by_id ?slot i = None"
    using assms(3) by (auto simp: find_by_id_def find_None_iff retained_slot image_image)
  have "fst (push r k i pl) = Okay (Pushed (next_seq r))"
    using assms(2) none by (auto simp: push_def Let_def split: if_splits)
  then have r': "r' = (put_slot r k (?slot\<lparr>entries := entries ?slot @
      [\<lparr>qe_seq = next_seq r, qe_id = i, qe_payload = pl, qe_tick = tick r, qe_fetched = False\<rparr>]\<rparr>))
      \<lparr>next_seq := next_seq r + 1\<rparr>"
    using push_Pushed_state assms(2) by fastforce
  have h: "head_seq r k < next_seq r"
    using assms(1) frontier_less_next[OF relay_okD[OF assms(1)]]
    by (auto simp: head_seq_def relay_ok_def split: option.split)
  show "\<exists>x. retained r' k = retained r k @ [x] \<and> item_id x = i \<and> item_payload x = pl
       \<and> head_seq r k < item_seq x \<and> head_seq r' k = item_seq x"
    using h by (simp add: r' retained_slot[of r k] retained_def[of "_\<lparr>next_seq := _\<rparr>"] put_slot_def to_item_def
        head_seq_def[of "_\<lparr>next_seq := _\<rparr>"] frontier_def)
  show "checkpoint r' k = checkpoint r k"
    by (simp add: r' checkpoint_def put_slot_def slot_or_default_def bucket_default_def split: option.split)
  show "relay_ok r'" using relay_ok_push[OF assms(1), of k i pl] assms(2) by simp
  show "k' \<noteq> k \<Longrightarrow> retained r' k' = retained r k' \<and> checkpoint r' k' = checkpoint r k'
       \<and> head_seq r' k' = head_seq r k'"
    by (simp add: r' retained_def checkpoint_def head_seq_def put_slot_def)
qed

text \<open>What a bucket has after a batch, compared with before: new items at its end, nothing else
  changed.\<close>

definition relay_grows :: "bucket_id \<Rightarrow> fetched_item list \<Rightarrow> relay \<Rightarrow> relay \<Rightarrow> bool" where
  "relay_grows k xs r r' \<longleftrightarrow> relay_ok r' \<and> retained r' k = retained r k @ xs \<and> checkpoint r' k = checkpoint r k
     \<and> head_seq r k \<le> head_seq r' k \<and> (\<forall>x\<in>set xs. head_seq r k < item_seq x)
     \<and> (\<forall>k'. k' \<noteq> k \<longrightarrow> retained r' k' = retained r k' \<and> checkpoint r' k' = checkpoint r k'
          \<and> head_seq r' k' = head_seq r k')"

lemma relay_grows_refl: "relay_ok r \<Longrightarrow> relay_grows k [] r r"
  by (simp add: relay_grows_def)

lemma relay_grows_push:
  assumes "relay_ok r" "push r k i pl = (Okay out, r1)" "i \<notin> item_id ` set (retained r k)" "relay_grows k xs r1 r'"
  shows "\<exists>x. relay_grows k (x # xs) r r' \<and> item_id x = i \<and> item_payload x = pl"
proof -
  obtain x where x: "retained r1 k = retained r k @ [x]" "item_id x = i" "item_payload x = pl"
    "head_seq r k < item_seq x" "head_seq r1 k = item_seq x"
    using push_appends(1)[OF assms(1-3)] by blast
  have "relay_grows k (x # xs) r r'"
    using x assms(4) push_appends(2,4)[OF assms(1-3)] by (fastforce simp: relay_grows_def)
  then show ?thesis using x by blast
qed

definition push_key :: "string \<Rightarrow> journal_event \<Rightarrow> string" where
  "push_key label ev = label @ '':'' @ je_id ev"

definition unsent :: "string \<Rightarrow> 'p sync_node \<Rightarrow> journal_event list \<Rightarrow> journal_event list" where
  "unsent peer n evs = filter (\<lambda>ev. peer \<notin> set (sn_sent_to n (je_id ev))) evs"

text \<open>A successful batch seals the unsent events in order and appends the envelopes to the bucket.\<close>

lemma send_events_appends:
  assumes "send_events E peer evs n r k = (Okay k', n', r')" "bt_ok (sn_peers n)" "relay_ok r"
    "map_of (sn_peers n) peer = Some ch" "distinct (map je_id evs)"
    "\<forall>ev\<in>set (unsent peer n evs). push_key (sn_label n) ev \<notin> item_id ` set (retained r (inbox peer (sn_label n)))"
  shows "\<exists>ws envs out' st xs. list_all2 (\<lambda>ev w. serialize_event E ev = Some w) (unsent peer n evs) ws
     \<and> try_all (v2_seal (se_prims E)) (pc_outbound ch) ws = (Okay envs, out')
     \<and> n' = (set_peer peer (ch\<lparr>pc_outbound := out'\<rparr>) n)\<lparr>sn_sent_to := st\<rparr>
     \<and> (\<forall>i. peer \<in> set (st i) \<longleftrightarrow> peer \<in> set (sn_sent_to n i) \<or> i \<in> je_id ` set (unsent peer n evs))
     \<and> relay_grows (inbox peer (sn_label n)) xs r r' \<and> map item_payload xs = envs
     \<and> map item_id xs = map (push_key (sn_label n)) (unsent peer n evs)"
  using assms
proof (induction evs arbitrary: n r k ch)
  case Nil
  have eq: "n = (set_peer peer ch n)\<lparr>sn_sent_to := sn_sent_to n\<rparr>"
    using set_peer_same[OF Nil.prems(2,4)] by simp
  show ?case
    by (rule exI[of _ "[]"], rule exI[of _ "[]"], rule exI[of _ "pc_outbound ch"],
        rule exI[of _ "sn_sent_to n"], rule exI[of _ "[]"])
      (use Nil.prems(1,3) eq in \<open>simp add: unsent_def relay_grows_refl\<close>)
next
  case (Cons ev evs)
  show ?case
  proof (cases "peer \<in> set (sn_sent_to n (je_id ev))")
    case True
    then have "unsent peer n (ev # evs) = unsent peer n evs" by (simp add: unsent_def)
    then show ?thesis using Cons.IH[of n r k ch] Cons.prems True by simp
  next
    case False
    then have un: "unsent peer n (ev # evs) = ev # unsent peer n evs" by (simp add: unsent_def)
    let ?k = "inbox peer (sn_label n)"
    obtain w s1 env out1 r1 where one: "serialize_event E ev = Some w"
      "v2_seal (se_prims E) (pc_outbound ch) w = (Okay env, s1)"
      "push r ?k (push_key (sn_label n) ev) env = (Okay out1, r1)"
      and rest: "send_events E peer evs ((set_peer peer (ch\<lparr>pc_outbound := s1\<rparr>) n)
         \<lparr>sn_sent_to := (sn_sent_to n)(je_id ev := insort_insert peer (sn_sent_to n (je_id ev)))\<rparr>) r1 (k + 1)
         = (Okay k', n', r')"
      using Cons.prems(1,4) False
      by (auto simp: send_sealed_def push_key_def Let_def split: option.splits prod.splits sum.splits)
    let ?ch1 = "ch\<lparr>pc_outbound := s1\<rparr>"
    let ?st1 = "(sn_sent_to n)(je_id ev := insort_insert peer (sn_sent_to n (je_id ev)))"
    let ?n1 = "(set_peer peer ?ch1 n)\<lparr>sn_sent_to := ?st1\<rparr>"
    have fresh: "push_key (sn_label n) ev \<notin> item_id ` set (retained r ?k)" using Cons.prems(6) un by simp
    have ne: "je_id e \<noteq> je_id ev" if "e \<in> set evs" for e
      using that Cons.prems(5) by (metis distinct.simps(2) image_eqI list.set_map list.simps(9))
    have un1: "unsent peer ?n1 evs = unsent peer n evs"
      using ne unfolding unsent_def by (intro filter_cong) simp_all
    have key: "push_key (sn_label n) e \<noteq> push_key (sn_label n) ev" if "e \<in> set evs" for e
      using ne[OF that] by (simp add: push_key_def)
    obtain x where x: "retained r1 ?k = retained r ?k @ [x]" "item_id x = push_key (sn_label n) ev"
      using push_appends(1)[OF Cons.prems(3) one(3) fresh] by blast
    have "\<exists>ws envs out' st xs. list_all2 (\<lambda>ev w. serialize_event E ev = Some w) (unsent peer ?n1 evs) ws
     \<and> try_all (v2_seal (se_prims E)) (pc_outbound ?ch1) ws = (Okay envs, out')
     \<and> n' = (set_peer peer (?ch1\<lparr>pc_outbound := out'\<rparr>) ?n1)\<lparr>sn_sent_to := st\<rparr>
     \<and> (\<forall>i. peer \<in> set (st i) \<longleftrightarrow> peer \<in> set (sn_sent_to ?n1 i) \<or> i \<in> je_id ` set (unsent peer ?n1 evs))
     \<and> relay_grows (inbox peer (sn_label ?n1)) xs r1 r' \<and> map item_payload xs = envs
     \<and> map item_id xs = map (push_key (sn_label ?n1)) (unsent peer ?n1 evs)"
    proof (rule Cons.IH[OF rest])
      show "bt_ok (sn_peers ?n1)" "map_of (sn_peers ?n1) peer = Some ?ch1" "distinct (map je_id evs)"
        using Cons.prems(2,5) by simp_all
      show "relay_ok r1" using push_appends(3)[OF Cons.prems(3) one(3) fresh] .
      show "\<forall>e\<in>set (unsent peer ?n1 evs). push_key (sn_label ?n1) e \<notin> item_id ` set (retained r1 (inbox peer (sn_label ?n1)))"
        using Cons.prems(6) un un1 x key by (auto simp: unsent_def)
    qed
    then obtain ws envs out' st xs where ih: "list_all2 (\<lambda>ev w. serialize_event E ev = Some w) (unsent peer n evs) ws"
      "try_all (v2_seal (se_prims E)) s1 ws = (Okay envs, out')"
      "n' = (set_peer peer (ch\<lparr>pc_outbound := out'\<rparr>) ?n1)\<lparr>sn_sent_to := st\<rparr>"
      "\<forall>i. peer \<in> set (st i) \<longleftrightarrow> peer \<in> set (?st1 i) \<or> i \<in> je_id ` set (unsent peer n evs)"
      "relay_grows ?k xs r1 r'" "map item_payload xs = envs"
      "map item_id xs = map (push_key (sn_label n)) (unsent peer n evs)"
      unfolding un1 by auto
    obtain y where y: "relay_grows ?k (y # xs) r r'" "item_id y = push_key (sn_label n) ev" "item_payload y = env"
      using relay_grows_push[OF Cons.prems(3) one(3) fresh ih(5)] by blast
    have n': "n' = (set_peer peer (ch\<lparr>pc_outbound := out'\<rparr>) n)\<lparr>sn_sent_to := st\<rparr>"
      using ih(3) Cons.prems(2) by (simp add: set_peer_def bt_insert_twice)
    show ?thesis
      unfolding un
      by (rule exI[of _ "w # ws"], rule exI[of _ "env # envs"], rule exI[of _ out'], rule exI[of _ st],
          rule exI[of _ "y # xs"])
        (use one(1,2) ih(1,2,4,6,7) y n' in \<open>auto simp: set_insort_insert\<close>)
  qed
qed

end
