(* ===== verification/Sync_Durable.thy ===== *)
theory Sync_Durable
  imports Sync_State
begin

text \<open>
  Durability: what a state port promises as a locale, the restart of a node over such a port, and the
  in-process port of \<open>persist.rs\<close> as an instance.
\<close>

section \<open>The state port as an interface\<close>

definition same_view :: "'p sync_node \<Rightarrow> 'p sync_node \<Rightarrow> bool" where
  "same_view m n \<longleftrightarrow> sn_applied m = sn_applied n \<and> sn_memories m = sn_memories n
     \<and> sn_tombstones m = sn_tombstones n \<and> sn_documents m = sn_documents n \<and> sn_peer_acks m = sn_peer_acks n"

lemma same_view_project: "same_view m n \<Longrightarrow> same_view (project ev m) (project ev n)"
  by (auto simp: same_view_def project_def mark_applied_def split: event_body.split)

lemma same_view_update [simp]:
  "same_view m (n\<lparr>sn_state := st\<rparr>) = same_view m n"
  "same_view m (n\<lparr>sn_next_seq := i, sn_outbox := q\<rparr>) = same_view m n"
  by (simp_all add: same_view_def)

lemma apply_all_volatile: "sn_state n = None \<Longrightarrow> apply_all E n evs = (Okay (), fold project evs n)"
  by (induction evs arbitrary: n) (auto simp: sync_apply_volatile)

text \<open>The port records every event it does not know at the end of its journal or refuses it, keeps the last tombstone per
  memory and a position per peer, and gives back what it recorded. A port with columns of bounded width keeps these promises for
  the events that fit.\<close>

locale durable_port =
  fixes ops :: "'p sync_state_port"
    and good :: "'p \<Rightarrow> bool"
    and fits :: "journal_event \<Rightarrow> bool"
    and journal :: "'p \<Rightarrow> journal_event list"
    and marks :: "'p \<Rightarrow> (string \<times> tombstone_mark) list"
    and positions :: "'p \<Rightarrow> (string \<times> nat) list"
  assumes load_journal: "good p \<Longrightarrow> \<forall>ev\<in>set (journal p). fits ev \<Longrightarrow> load_applied ops p = (Okay (journal p), p)"
    and load_marks: "good p \<Longrightarrow> load_tombstones ops p = (Okay (marks p), p)"
    and load_positions: "load_fetch_cursors ops p = (Okay (positions p), p)"
    and record_new: "good p \<Longrightarrow> je_id ev \<notin> je_id ` set (journal p) \<Longrightarrow> record_applied ops p ev = (r, p') \<Longrightarrow>
      isl r \<and> p' = p \<or> r = Okay True \<and> good p' \<and> journal p' = journal p @ [ev] \<and> marks p' = marks p"
    and record_mark: "good p \<Longrightarrow> ev \<in> set (journal p) \<Longrightarrow> fits ev \<Longrightarrow> je_body ev = MemoryForgotten mem at digest \<Longrightarrow>
      mark = \<lparr>tm_digest = digest, tm_origin = je_origin ev, tm_seq = je_seq ev\<rparr> \<Longrightarrow>
      \<exists>p'. record_tombstone ops p mem mark at = (Okay (), p') \<and> good p' \<and> journal p' = journal p
        \<and> marks p' = bt_insert mem mark (marks p)"
    and record_position: "good p \<Longrightarrow> record_fetch_cursor ops p peer pos = (res, p') \<Longrightarrow>
      good p' \<and> journal p' = journal p \<and> marks p' = marks p"
    and applied_grows: "record_applied ops p ev = (r, p') \<Longrightarrow> set (journal p) \<subseteq> set (journal p')"
    and mark_grows: "record_tombstone ops p mem mark at = (res, p') \<Longrightarrow> set (journal p) \<subseteq> set (journal p')"
    and position_grows: "record_fetch_cursor ops p peer pos = (res, p') \<Longrightarrow> set (journal p) \<subseteq> set (journal p')"
begin

text \<open>Whatever fits, the journal of the port of a node only grows.\<close>

definition holds_more :: "'p \<Rightarrow> 'p sync_node \<Rightarrow> bool" where
  "holds_more p n \<longleftrightarrow> (\<exists>p'. sn_state n = Some p' \<and> set (journal p) \<subseteq> set (journal p'))"

lemma apply_holds:
  assumes "sn_state n = Some p" "se_port E = ops" "sync_apply E n ev = (res, n')"
  shows "holds_more p n'"
proof (cases "\<exists>mem at digest. je_body ev = MemoryForgotten mem at digest")
  case True
  then show ?thesis
    using assms mark_grows by (fastforce simp: sync_apply_def holds_more_def mark_applied_def Let_def split: prod.splits sum.splits)
next
  case False
  then show ?thesis
    using assms by (auto simp: sync_apply_def holds_more_def mark_applied_def split: event_body.splits if_splits)
qed

lemma holds_more_trans: "set (journal p) \<subseteq> set (journal q) \<Longrightarrow> holds_more q n \<Longrightarrow> holds_more p n"
  by (auto simp: holds_more_def)

lemma admit_holds:
  assumes "sn_state n = Some p" "se_port E = ops" "sync_admit E n ev = (res, n')"
  shows "holds_more p n'"
proof (cases "map_of (sn_applied n) (je_id ev)")
  case (Some e)
  then show ?thesis using assms by (simp add: sync_admit_def holds_more_def)
next
  case None
  obtain r p1 where r: "record_applied ops p ev = (r, p1)" by fastforce
  have g: "set (journal p) \<subseteq> set (journal p1)" using applied_grows[OF r] .
  then show ?thesis
    using holds_more_trans[OF g apply_holds[of "n\<lparr>sn_state := Some p1\<rparr>" p1 E ev res n']] assms None r
    by (cases r) (auto simp: sync_admit_def holds_more_def)
qed

lemma micro_holds:
  assumes "sn_state n = Some p" "se_port E = ops" "micro E n n'"
  shows "holds_more p n'"
  using assms(3)
proof (cases rule: micro.cases)
  case (m_local body res)
  obtain ev i q r where a: "sync_admit E (n\<lparr>sn_next_seq := i, sn_outbox := q\<rparr>) ev = (r, n')"
    using m_local by (auto simp: local_event_def sync_create_def Let_def split: prod.splits sum.splits)
  show ?thesis using admit_holds[OF _ assms(2) a] assms(1) by simp
next
  case (m_receive peer ident ev res)
  then show ?thesis using admit_holds[OF assms(1,2)] by blast
next
  case (m_cursor port peer pos res port')
  then show ?thesis using position_grows[of port peer pos res port'] assms(1,2) by (auto simp: holds_more_def)
next
  case m_frame
  then show ?thesis using assms(1) by (simp add: frame_def holds_more_def)
qed

text \<open>The port of a node holds the journal the node's view is the replay of.\<close>

definition tracked :: "'p sync_node \<Rightarrow> 'p \<Rightarrow> bool" where
  "tracked n p \<longleftrightarrow> sn_state n = Some p \<and> good p \<and> marks p = sn_tombstones n
     \<and> bt_ok (sn_applied n) \<and> dom (map_of (sn_applied n)) = je_id ` set (journal p)
     \<and> same_view (fold project (journal p) (sync_new (sn_keys n) (sn_label n))) n"

definition all_fit :: "'p \<Rightarrow> bool" where
  "all_fit p \<longleftrightarrow> (\<forall>ev\<in>set (journal p). fits ev)"

lemma tracked_project:
  assumes "tracked n p" "se_port E = ops" "fits ev"
    and p1: "good p1" "journal p1 = journal p @ [ev]" "marks p1 = marks p"
  shows "\<exists>p'. sync_apply E (n\<lparr>sn_state := Some p1\<rparr>) ev = (Okay (), project ev (n\<lparr>sn_state := Some p'\<rparr>))
       \<and> tracked (project ev (n\<lparr>sn_state := Some p'\<rparr>)) p'"
proof -
  have t: "sn_state n = Some p" "good p" "marks p = sn_tombstones n" "bt_ok (sn_applied n)"
    "dom (map_of (sn_applied n)) = je_id ` set (journal p)"
    "same_view (fold project (journal p) (sync_new (sn_keys n) (sn_label n))) n"
    using assms(1) by (simp_all add: tracked_def)
  have "\<exists>p'. sync_apply E (n\<lparr>sn_state := Some p1\<rparr>) ev = (Okay (), project ev (n\<lparr>sn_state := Some p'\<rparr>))
      \<and> good p' \<and> journal p' = journal p1 \<and> marks p' = sn_tombstones (project ev n)"
  proof (cases "\<exists>mem at digest. je_body ev = MemoryForgotten mem at digest")
    case True
    then obtain mem at digest where b: "je_body ev = MemoryForgotten mem at digest" by blast
    obtain p' where "record_tombstone ops p1 mem
        \<lparr>tm_digest = digest, tm_origin = je_origin ev, tm_seq = je_seq ev\<rparr> at = (Okay (), p')"
      "good p'" "journal p' = journal p1" "marks p' = bt_insert mem
        \<lparr>tm_digest = digest, tm_origin = je_origin ev, tm_seq = je_seq ev\<rparr> (marks p1)"
      using record_mark[OF p1(1) _ assms(3) b refl] p1(2) by auto
    then show ?thesis
      using b assms(2) p1(3) t(3)
      by (intro exI[of _ p']) (simp add: sync_apply_def project_def mark_applied_def Let_def)
  next
    case False
    then show ?thesis
      using p1 t(3) by (intro exI[of _ p1])
        (auto simp: sync_apply_def project_def mark_applied_def Let_def split: event_body.split)
  qed
  then obtain p' where p': "sync_apply E (n\<lparr>sn_state := Some p1\<rparr>) ev = (Okay (), project ev (n\<lparr>sn_state := Some p'\<rparr>))"
    "good p'" "journal p' = journal p1" "marks p' = sn_tombstones (project ev n)" by blast
  have tomb: "sn_tombstones (project ev (n\<lparr>sn_state := Some p'\<rparr>)) = sn_tombstones (project ev n)"
    by (simp add: project_def mark_applied_def split: event_body.split)
  have "same_view (fold project (journal p') (sync_new (sn_keys n) (sn_label n))) (project ev (n\<lparr>sn_state := Some p'\<rparr>))"
    using t(6) p'(3) p1(2) by (simp add: same_view_project)
  then have "tracked (project ev (n\<lparr>sn_state := Some p'\<rparr>)) p'"
    using p' p1(2) t(4,5) tomb by (simp add: tracked_def project_applied bt_insert_ok)
  then show ?thesis using p'(1) by blast
qed

lemma tracked_admit:
  assumes "tracked n p" "se_port E = ops" "sync_admit E n ev = (res, n')" "sn_state n' = Some p'" "all_fit p'"
  shows "tracked n' p'"
proof (cases "map_of (sn_applied n) (je_id ev)")
  case (Some e)
  then show ?thesis using assms by (auto simp: sync_admit_def tracked_def)
next
  case None
  have t: "sn_state n = Some p" "good p" using assms(1) by (simp_all add: tracked_def)
  have new: "je_id ev \<notin> je_id ` set (journal p)" using assms(1) None unfolding tracked_def by (metis domIff)
  obtain r p1 where r: "record_applied ops p ev = (r, p1)" by fastforce
  show ?thesis
  proof (cases "isl r")
    case True
    then have "p1 = p" using record_new[OF t(2) new r] by auto
    then have "n' = n" using assms(2,3) True None r t by (auto simp: sync_admit_def isl_def)
    then show ?thesis using assms(1,4) t by simp
  next
    case False
    then have p1: "r = Okay True" "good p1" "journal p1 = journal p @ [ev]" "marks p1 = marks p"
      using record_new[OF t(2) new r] by auto
    have a: "sync_apply E (n\<lparr>sn_state := Some p1\<rparr>) ev = (res, n')"
      using assms(2,3) None r t(1) p1(1) by (simp add: sync_admit_def)
    have "set (journal p1) \<subseteq> set (journal p')"
      using apply_holds[OF _ assms(2) a, of p1] assms(4) by (simp add: holds_more_def)
    then have "fits ev" using assms(5) p1(3) by (auto simp: all_fit_def)
    then obtain q where "n' = project ev (n\<lparr>sn_state := Some q\<rparr>)" "tracked n' q"
      using tracked_project[OF assms(1,2) _ p1(2-4)] a by auto
    moreover from this(2) have "q = p'" using assms(4) by (simp add: tracked_def)
    ultimately show ?thesis by simp
  qed
qed

lemma tracked_micro:
  assumes "tracked n p" "se_port E = ops" "micro E n n'" "sn_state n' = Some p'" "all_fit p'"
  shows "tracked n' p'"
  using assms(3)
proof (cases rule: micro.cases)
  case (m_local body res)
  obtain ev i q r where a: "sync_admit E (n\<lparr>sn_next_seq := i, sn_outbox := q\<rparr>) ev = (r, n')"
    using m_local by (auto simp: local_event_def sync_create_def Let_def split: prod.splits sum.splits)
  have "tracked (n\<lparr>sn_next_seq := i, sn_outbox := q\<rparr>) p" using assms(1) by (simp add: tracked_def)
  then show ?thesis using a assms(2,4,5) tracked_admit by blast
next
  case (m_receive peer ident ev res)
  then show ?thesis using tracked_admit[OF assms(1,2)] assms(4,5) by blast
next
  case (m_cursor port peer pos res port')
  then have "port = p" "good p" using assms(1) by (simp_all add: tracked_def)
  then show ?thesis
    using record_position[of p peer pos res port'] m_cursor assms(1,2,4) by (auto simp: tracked_def)
next
  case m_frame
  then show ?thesis using assms(1,4) by (simp add: tracked_def frame_def same_view_def)
qed

lemma tracked_micros:
  "micros E n n' \<Longrightarrow> tracked n p \<Longrightarrow> se_port E = ops \<Longrightarrow>
   \<exists>p'. sn_state n' = Some p' \<and> set (journal p) \<subseteq> set (journal p') \<and> (all_fit p' \<longrightarrow> tracked n' p')"
proof (induction rule: rtranclp_induct)
  case base
  then show ?case by (auto simp: tracked_def)
next
  case (step n1 n2)
  obtain p1 where p1: "sn_state n1 = Some p1" "set (journal p) \<subseteq> set (journal p1)" "all_fit p1 \<longrightarrow> tracked n1 p1"
    using step.IH[OF step.prems] by blast
  obtain p2 where p2: "sn_state n2 = Some p2" "set (journal p1) \<subseteq> set (journal p2)"
    using micro_holds[OF p1(1) step.prems(2) step.hyps(2)] by (auto simp: holds_more_def)
  have "all_fit p2 \<longrightarrow> tracked n2 p2"
    using p1(3) p2 tracked_micro[OF _ step.prems(2) step.hyps(2) p2(1)] by (auto simp: all_fit_def)
  then show ?case using p1(2) p2 by blast
qed

lemma tracked_steps:
  assumes "(node_step E)\<^sup>*\<^sup>* n n'" "node_ok E n" "tracked n p" "se_port E = ops" "sn_state n' = Some p'" "all_fit p'"
  shows "tracked n' p'"
proof -
  have "micros E n n'"
    using assms(1)
  proof (induction rule: rtranclp_induct)
    case (step n1 n2)
    have "node_ok E n1" using node_steps_grow[OF step.hyps(1) assms(2)] by (simp add: node_grows_def)
    then have "micros E n1 n2" using node_step_micros[OF step.hyps(2)] by (simp add: node_ok_def)
    then show ?case using step.IH by simp
  qed simp
  then obtain q where "sn_state n' = Some q" "all_fit q \<longrightarrow> tracked n' q"
    using tracked_micros[OF _ assms(3,4)] by blast
  then show ?thesis using assms(5,6) by simp
qed

text \<open>Loading a tracked port gives a node with the same view.\<close>

lemma restart:
  assumes "tracked n p" "se_port E = ops" "all_fit p"
  shows "\<exists>n'. sync_durable E (sn_keys n) (sn_label n) p = Okay n' \<and> same_view n' n \<and> sn_state n' = Some p
     \<and> sn_loaded_cursors n' = positions p \<and> sn_next_seq n' = next_own_seq n'
     \<and> sn_label n' = sn_label n"
proof -
  let ?m = "fold project (journal p) (sync_new (sn_keys n) (sn_label n)) :: 'p sync_node"
  have v: "same_view ?m n" "marks p = sn_tombstones n" using assms(1) by (simp_all add: tracked_def)
  have l: "sn_label (fold project evs k) = sn_label k" for evs and k :: "'p sync_node"
    by (induction evs arbitrary: k) auto
  have "apply_all E (sync_new (sn_keys n) (sn_label n)) (journal p) = (Okay (), ?m)"
    by (rule apply_all_volatile) (simp add: sync_new_def)
  then have "sync_durable E (sn_keys n) (sn_label n) p = Okay (?m\<lparr>sn_next_seq := next_own_seq ?m,
      sn_tombstones := marks p, sn_loaded_cursors := positions p, sn_state := Some p\<rparr>)"
    using assms load_journal[of p] load_marks[of p]
    by (simp add: sync_durable_def load_positions tracked_def all_fit_def)
  moreover have "next_own_seq (?m\<lparr>sn_next_seq := x, sn_tombstones := y, sn_loaded_cursors := z, sn_state := w\<rparr>)
      = next_own_seq ?m" for x y z w
    by (simp add: next_own_seq_def)
  ultimately show ?thesis using v l[of "journal p" "sync_new (sn_keys n) (sn_label n)"]
    by (auto simp: same_view_def sync_new_def)
qed

end

section \<open>Own sequence numbers\<close>

text \<open>The outbox of a node numbers its events from one on.\<close>

definition numbered :: "'p sync_node \<Rightarrow> bool" where
  "numbered n \<longleftrightarrow> map je_seq (sn_outbox n) = map of_nat [1..<Suc (length (sn_outbox n))]
     \<and> sn_next_seq n = of_nat (Suc (length (sn_outbox n)))"

lemma admit_outbox:
  "sync_admit E n ev = (res, n') \<Longrightarrow> sn_outbox n' = sn_outbox n \<and> sn_next_seq n' = sn_next_seq n"
  by (erule sync_admit_cases) auto

lemma numbered_cong:
  "sn_outbox n' = sn_outbox n \<Longrightarrow> sn_next_seq n' = sn_next_seq n \<Longrightarrow> numbered n' = numbered n"
  by (simp add: numbered_def)

lemma numbered_micro:
  assumes "numbered n" "micro E n n'"
  shows "numbered n'"
  using assms(2)
proof (cases rule: micro.cases)
  case (m_local body res)
  obtain ev r where c: "sync_create E n body = (ev, n\<lparr>sn_next_seq := sn_next_seq n + 1, sn_outbox := sn_outbox n @ [ev]\<rparr>)"
    "je_seq ev = sn_next_seq n"
    and a: "sync_admit E (n\<lparr>sn_next_seq := sn_next_seq n + 1, sn_outbox := sn_outbox n @ [ev]\<rparr>) ev = (r, n')"
    using m_local by (auto simp: local_event_def sync_create_def Let_def split: prod.splits sum.splits)
  show ?thesis using admit_outbox[OF a] assms(1) c(2) by (simp add: numbered_def)
next
  case (m_receive peer ident ev res)
  then show ?thesis using assms(1) admit_outbox numbered_cong by blast
next
  case (m_cursor port peer pos res port')
  then show ?thesis using assms(1) numbered_cong[of n' n] by simp
next
  case m_frame
  then show ?thesis using assms(1) numbered_cong[of n' n] by (simp add: frame_def)
qed

lemma numbered_steps:
  "(node_step E)\<^sup>*\<^sup>* n n' \<Longrightarrow> node_ok E n \<Longrightarrow> numbered n \<Longrightarrow> numbered n'"
proof (induction rule: rtranclp_induct)
  case base
  then show ?case by blast
next
  case (step n1 n2)
  have "node_ok E n1" using node_steps_grow[OF step(1,4)] by (simp add: node_grows_def)
  then have "micros E n1 n2" using node_step_micros[OF step(2)] by (simp add: node_ok_def)
  then show ?case using step.IH[OF step(4,5)]
    by (induction rule: rtranclp_induct) (auto intro: numbered_micro)
qed

lemma foldl_max_word: "foldl max (a :: u64) xs = Max (insert a (set xs))"
proof -
  have "(\<lambda>x s :: u64. max s x) = max" by (simp add: fun_eq_iff max.commute)
  then show ?thesis using Max.set_eq_fold[of a xs] by (simp add: foldl_conv_fold)
qed

lemma Max_numbers:
  assumes "L < 2 ^ 64"
  shows "Max (insert 0 (of_nat ` {1..<Suc L})) = (of_nat L :: u64)"
proof (rule Max_eqI)
  show "(of_nat L :: u64) \<in> insert 0 (of_nat ` {1..<Suc L})"
    by (cases "L = 0") auto
  fix y :: u64
  assume "y \<in> insert 0 (of_nat ` {1..<Suc L})"
  then show "y \<le> of_nat L" using assms by (auto simp: word_le_nat_alt unat_of_nat)
qed simp

lemma numbered_next:
  assumes "numbered n" "length (sn_outbox n) < 2 ^ 64" "bt_ok (sn_applied n)"
    "{ev \<in> events_of n. je_origin ev = sn_label n} = set (sn_outbox n)"
  shows "next_own_seq n = sn_next_seq n"
proof -
  have e: "events_of n = snd ` set (sn_applied n)"
    using assms(3) by (simp add: events_of_def ran_distinct bt_ok_distinct)
  have "set (map je_seq (filter (\<lambda>ev. je_origin ev = sn_label n) (map snd (sn_applied n))))
      = je_seq ` {ev \<in> events_of n. je_origin ev = sn_label n}"
    by (auto simp: e)
  also have "\<dots> = set (map je_seq (sn_outbox n))" by (simp add: assms(4))
  also have "\<dots> = of_nat ` {1..<Suc (length (sn_outbox n))}"
    using assms(1) unfolding numbered_def by (metis list.set_map set_upt)
  finally show ?thesis
    using assms(1,2) by (simp only: next_own_seq_def foldl_max_word Max_numbers numbered_def)
      (simp add: add.commute)
qed

section \<open>The in-process port\<close>

definition memory_good :: "memory_port \<Rightarrow> bool" where
  "memory_good p \<longleftrightarrow> bt_ok (mp_applied_ids p) \<and> dom (map_of (mp_applied_ids p)) = je_id ` set (mp_applied p)"

definition memory_marks :: "memory_port \<Rightarrow> (string \<times> tombstone_mark) list" where
  "memory_marks p = map (\<lambda>(mem, (mark, _)). (mem, mark)) (mp_tombstones p)"

lemma bt_insert_map:
  "map (\<lambda>(k, (v, _)). (k, v)) (bt_insert k (v, w) m) = bt_insert k v (map (\<lambda>(k, (v, _)). (k, v)) m)"
  by (induction m) (auto split: prod.splits)

interpretation memory_durable: durable_port memory_state_port memory_good "\<lambda>_. True" mp_applied memory_marks mp_cursors
proof
  fix p p' r and ev :: journal_event
  assume g: "memory_good p" "je_id ev \<notin> je_id ` set (mp_applied p)" "record_applied memory_state_port p ev = (r, p')"
  then have "map_of (mp_applied_ids p) (je_id ev) = None" unfolding memory_good_def by blast
  then have "r = Okay True" "p' = p\<lparr>mp_applied := mp_applied p @ [ev],
      mp_applied_ids := bt_insert (je_id ev) (Suc (length (mp_applied p))) (mp_applied_ids p)\<rparr>"
    using g(3) by (simp_all add: memory_state_port_def memory_record_applied_def Let_def)
  then show "isl r \<and> p' = p \<or> r = Okay True \<and> memory_good p' \<and> mp_applied p' = mp_applied p @ [ev]
      \<and> memory_marks p' = memory_marks p"
    using g(1) by (simp add: memory_good_def memory_marks_def bt_insert_ok)
next
  fix p p' :: memory_port and ev r
  assume "record_applied memory_state_port p ev = (r, p')"
  then show "set (mp_applied p) \<subseteq> set (mp_applied p')"
    by (auto simp: memory_state_port_def memory_record_applied_def Let_def split: if_splits)
qed (auto simp: memory_state_port_def memory_good_def memory_marks_def bt_insert_map)

section \<open>Properties\<close>

text \<open>A restart loses nothing of the journal. Starting from an empty in-process port, after any sequence of
  operations, loading the port again gives a node with the same journal, documents, memories, tombstones
  and acknowledgements, with the fetch positions the port recorded; and it continues with the same sequence
  number, as long as the events under the node's own name are exactly those it created.\<close>

theorem durable_restart_rebuilds:
  assumes "se_port E = memory_state_port" "sync_durable E keys label memory_port_new = Okay n0"
    and "(node_step E)\<^sup>*\<^sup>* n0 n" "sn_state n = Some p"
  shows "\<exists>n'. sync_durable E keys label p = Okay n' \<and> sn_applied n' = sn_applied n
     \<and> sn_documents n' = sn_documents n \<and> sn_memories n' = sn_memories n
     \<and> sn_tombstones n' = sn_tombstones n \<and> sn_peer_acks n' = sn_peer_acks n
     \<and> sn_loaded_cursors n' = mp_cursors p
     \<and> (length (sn_outbox n) < 2 ^ 64 \<and> {ev \<in> events_of n. je_origin ev = label} = set (sn_outbox n) \<longrightarrow>
          sn_next_seq n' = sn_next_seq n)"
proof -
  have n0: "n0 = (sync_new keys label)\<lparr>sn_state := Some memory_port_new\<rparr>"
    using assms(1,2)
    by (simp add: sync_durable_def memory_state_port_def memory_port_new_def next_own_seq_def sync_new_def)
  have start: "node_start n0" by (simp add: n0 node_start_def sync_new_def)
  then have ok0: "node_ok E n0" by (rule journal_machine.good_start)
  have tr0: "memory_durable.tracked n0 memory_port_new"
    by (simp add: memory_durable.tracked_def n0 memory_good_def memory_port_new_def memory_marks_def
        sync_new_def same_view_def)
  have g: "node_ok E n" "sn_label n = label" "sn_keys n = keys"
    using node_steps_grow[OF assms(3) ok0] by (simp_all add: node_grows_def n0 sync_new_def)
  have fit: "memory_durable.all_fit p" by (simp add: memory_durable.all_fit_def)
  have tr: "memory_durable.tracked n p"
    using memory_durable.tracked_steps[OF assms(3) ok0 tr0 assms(1,4) fit] .
  obtain n' where n': "sync_durable E keys label p = Okay n'" "same_view n' n"
    "sn_loaded_cursors n' = mp_cursors p" "sn_next_seq n' = next_own_seq n'" "sn_label n' = label"
    using memory_durable.restart[OF tr assms(1) fit] g by auto
  have num: "numbered n"
    using numbered_steps[OF assms(3) ok0] by (simp add: n0 numbered_def sync_new_def)
  have "next_own_seq n' = next_own_seq n"
    using n'(2,5) g(2) by (simp add: next_own_seq_def same_view_def)
  then have "length (sn_outbox n) < 2 ^ 64 \<and> {ev \<in> events_of n. je_origin ev = label} = set (sn_outbox n) \<longrightarrow>
      sn_next_seq n' = sn_next_seq n"
    using numbered_next[OF num] g n'(4) by (simp add: node_ok_def view_ok_def)
  then show ?thesis using n' by (auto simp: same_view_def)
qed

theorem durable_restart_rebuilds_witness:
  "\<exists>p n'. sn_state sample_stored = Some p \<and> sync_durable (sample_env []) (sample_keys ''laptop'' 1) ''laptop'' p = Okay n'
     \<and> sn_tombstones n' = sn_tombstones sample_stored \<and> sn_applied n' = sn_applied sample_stored
     \<and> sn_applied sample_stored \<noteq> []"
proof -
  let ?E = "sample_env []"
  let ?n0 = "(sample_node ''laptop'' 1)\<lparr>sn_state := Some memory_port_new\<rparr>"
  have n0: "sync_durable ?E (sample_keys ''laptop'' 1) ''laptop'' memory_port_new = Okay ?n0"
    by (simp add: sync_durable_def sample_env_def memory_state_port_def memory_port_new_def
        next_own_seq_def sync_new_def sample_node_def)
  have "node_step ?E ?n0 (snd (propose_memory ?E ?n0 ''mem'' ''tea''))"
    by (rule ns_propose, rule surjective_pairing)
  moreover have "node_step ?E (snd (propose_memory ?E ?n0 ''mem'' ''tea'')) sample_stored"
    unfolding sample_stored_def by (rule ns_forget, rule surjective_pairing)
  ultimately have steps: "(node_step ?E)\<^sup>*\<^sup>* ?n0 sample_stored"
    by (rule converse_rtranclp_into_rtranclp[OF _ r_into_rtranclp])
  have "sn_state sample_stored \<noteq> None" "sn_applied sample_stored \<noteq> []" by code_simp+
  then obtain p where p: "sn_state sample_stored = Some p" "sn_applied sample_stored \<noteq> []" by blast
  have "se_port ?E = memory_state_port" by (simp add: sample_env_def)
  then show ?thesis using durable_restart_rebuilds[OF _ n0 steps p(1)] p by blast
qed

end
