(* ===== verification/Sync_Convergence.thy ===== *)
theory Sync_Convergence
  imports Sync_Exchange Sync_Durable
begin

text \<open>
  Two paired replicas over one relay: an invariant of the two nodes, their four sessions and the two
  buckets between them, kept by every edit, poll and flush of either node, in any interleaving.
\<close>

section \<open>Event ids\<close>

lemma is_digit_not_colon: "is_digit c \<Longrightarrow> c \<noteq> CHR '':''"
  by (auto simp: is_digit_def)

lemma colon_split:
  assumes "xs @ CHR '':'' # ds = ys @ CHR '':'' # es" "list_all is_digit ds" "list_all is_digit es"
  shows "xs = ys \<and> ds = es"
proof -
  have c: "CHR '':'' \<notin> set ds" "CHR '':'' \<notin> set es"
    using assms(2,3) is_digit_not_colon by (auto simp: list_all_iff)
  have "takeWhile (\<lambda>c. c \<noteq> CHR '':'') (rev (us @ CHR '':'' # vs)) = rev vs" if "CHR '':'' \<notin> set vs" for us vs
    using that by (auto simp: takeWhile_append takeWhile_eq_all_conv)
  then have "rev ds = rev es" using c assms(1) by metis
  then show ?thesis using assms(1) by simp
qed

lemma event_id_inj:
  assumes "event_id_of l s = event_id_of l' s'"
  shows "l = l' \<and> s = s'"
proof -
  have "l = l' \<and> show_nat (unat s) = show_nat (unat s')"
    using colon_split[of l "show_nat (unat s)" l' "show_nat (unat s')"] assms show_nat_digits
    by (simp add: event_id_of_def)
  then show ?thesis by (metis digits_value_show word_unat_eq_iff)
qed

section \<open>The invariant\<close>

text \<open>An event as its creator makes it.\<close>

definition own_event :: "'p sync_env \<Rightarrow> 'p sync_node \<Rightarrow> journal_event \<Rightarrow> bool" where
  "own_event E n ev \<longleftrightarrow> je_origin ev = sn_label n \<and> je_id ev = event_id_of (sn_label n) (je_seq ev)
     \<and> je_signature ev = keys_sign (se_prims E) (sn_keys n)
          (se_canonical E (je_id ev) (je_origin ev) (je_seq ev) (je_body ev))
     \<and> (\<forall>b t es. je_body ev \<noteq> BlobAdded b t es)"

definition replica_ok :: "'p sync_env \<Rightarrow> 'p sync_node \<Rightarrow> 'p sync_node \<Rightarrow> bool" where
  "replica_ok E n m \<longleftrightarrow> sn_state n = None \<and> sn_label n = dk_id (sn_keys n) \<and> sn_blobs n = []
     \<and> (\<exists>ch. sn_peers n = [(sn_label m, ch)] \<and> pc_identity ch = public_identity (se_prims E) (sn_keys m))
     \<and> numbered n \<and> (\<forall>ev\<in>set (sn_outbox n). own_event E n ev \<and> map_of (sn_applied n) (je_id ev) = Some ev)
     \<and> view_ok n
     \<and> (\<forall>i ev. map_of (sn_applied n) i = Some ev \<longrightarrow> ev \<in> set (sn_outbox n) \<union> set (sn_outbox m))
     \<and> (\<forall>i. sn_label m \<in> set (sn_sent_to n i) \<longrightarrow> i \<in> je_id ` set (sn_outbox n))"

definition channel :: "'p sync_node \<Rightarrow> 'p sync_node \<Rightarrow> peer_channels" where
  "channel n m = the (map_of (sn_peers n) (sn_label m))"

text \<open>The direction from \<open>x\<close> to \<open>y\<close>: what \<open>y\<close> has not read opens to events of \<open>x\<close> and leaves the two
  sessions matched; everything \<open>x\<close> has sent is unread or applied.\<close>

definition link_ok :: "'p sync_env \<Rightarrow> 'p sync_node \<Rightarrow> 'p sync_node \<Rightarrow> relay \<Rightarrow> journal_event list \<Rightarrow> bool" where
  "link_ok E x y r evs \<longleftrightarrow>
     (let k = inbox (sn_label y) (sn_label x); out = pc_outbound (channel x y); pos = pc_cursor (channel y x) in
      checkpoint r k \<le> pos \<and> pos \<le> head_seq r k
    \<and> (\<exists>ws t. try_all (v2_open (se_prims E)) (pc_inbound (channel y x)) (map item_payload (unread r k pos)) = (Okay ws, t)
         \<and> list_all2 (\<lambda>ev w. serialize_event E ev = Some w) evs ws
         \<and> matched (se_prims E) out t) \<and> s2_next_counter out \<noteq> 0
    \<and> set evs \<subseteq> set (sn_outbox x)
    \<and> (\<forall>ev\<in>set (sn_outbox x). sn_label y \<in> set (sn_sent_to x (je_id ev)) \<longrightarrow>
         ev \<in> set evs \<or> map_of (sn_applied y) (je_id ev) = Some ev)
    \<and> item_id ` set (retained r k) \<subseteq>
         {push_key (sn_label x) ev | ev. ev \<in> set (sn_outbox x) \<and> sn_label y \<in> set (sn_sent_to x (je_id ev))})"

definition pair_ok :: "'p sync_env \<Rightarrow> 'p sync_node \<Rightarrow> 'p sync_node \<Rightarrow> relay \<Rightarrow> bool" where
  "pair_ok E a b r \<longleftrightarrow> relay_ok r \<and> inbox (sn_label a) (sn_label b) \<noteq> inbox (sn_label b) (sn_label a)
     \<and> replica_ok E a b \<and> replica_ok E b a \<and> (\<exists>evs. link_ok E a b r evs) \<and> (\<exists>evs. link_ok E b a r evs)"

definition env_ok :: "'p sync_env \<Rightarrow> bool" where
  "env_ok E \<longleftrightarrow> aead_correct (se_prims E) \<and> dh_agree (se_prims E) \<and> ed_correct (se_prims E) \<and> codec_ok E"

lemma pair_ok_sym: "pair_ok E a b r \<longleftrightarrow> pair_ok E b a r"
  by (auto simp: pair_ok_def)

lemma replica_channel:
  assumes "replica_ok E n m"
  shows "map_of (sn_peers n) (sn_label m) = Some (channel n m)" "sn_peers n = [(sn_label m, channel n m)]"
    "pc_identity (channel n m) = public_identity (se_prims E) (sn_keys m)" "bt_ok (sn_peers n)"
  using assms by (auto simp: replica_ok_def channel_def bt_ok_def)

lemma replica_own:
  "replica_ok E n m \<Longrightarrow> ev \<in> set (sn_outbox n) \<Longrightarrow> own_event E n ev \<and> map_of (sn_applied n) (je_id ev) = Some ev"
  by (simp add: replica_ok_def)

lemma own_event_cong: "sn_label n' = sn_label n \<Longrightarrow> sn_keys n' = sn_keys n \<Longrightarrow> own_event E n' = own_event E n"
  by (simp add: own_event_def fun_eq_iff)

text \<open>Own events are accepted by the peer.\<close>

lemma own_trusted:
  assumes "env_ok E" "replica_ok E x y" "own_event E x ev"
  shows "trusted E (public_identity (se_prims E) (sn_keys x)) ev"
  using assms by (auto simp: env_ok_def ed_correct_def own_event_def replica_ok_def trusted_def signed_by_def
      public_identity_def keys_sign_def)

lemma of_nat_seq_inj: "inj_on (of_nat :: nat \<Rightarrow> u64) {..<2 ^ 64}"
  by (auto simp: inj_on_def dest!: word_unat_eq_iff[THEN iffD1] simp: unat_of_nat)

lemma replica_ids:
  assumes "replica_ok E n m" "length (sn_outbox n) < 2 ^ 64"
  shows "distinct (map je_id (sn_outbox n))"
proof -
  have num: "map je_seq (sn_outbox n) = map of_nat [1..<Suc (length (sn_outbox n))]"
    using assms(1) unfolding replica_ok_def numbered_def by blast
  have "inj_on (of_nat :: nat \<Rightarrow> u64) (set [1..<Suc (length (sn_outbox n))])"
    by (rule inj_on_subset[OF of_nat_seq_inj]) (use assms(2) in auto)
  then have "distinct (map je_seq (sn_outbox n))" unfolding num by (simp add: distinct_map del: upt_Suc)
  then have "distinct (map (event_id_of (sn_label n)) (map je_seq (sn_outbox n)))"
    unfolding distinct_map[of "event_id_of (sn_label n)"] by (auto intro: inj_onI dest: event_id_inj)
  moreover have "map (event_id_of (sn_label n)) (map je_seq (sn_outbox n)) = map je_id (sn_outbox n)"
    using assms(1) by (auto simp: replica_ok_def own_event_def)
  ultimately show ?thesis by metis
qed

text \<open>The next own id is new to both nodes.\<close>

lemma next_id_fresh:
  assumes n: "replica_ok E n m" and m: "replica_ok E m n" and l: "sn_label n \<noteq> sn_label m"
    and small: "Suc (length (sn_outbox n)) < 2 ^ 64"
  shows "event_id_of (sn_label n) (sn_next_seq n) \<notin> je_id ` (set (sn_outbox n) \<union> set (sn_outbox m))"
proof
  assume "event_id_of (sn_label n) (sn_next_seq n) \<in> je_id ` (set (sn_outbox n) \<union> set (sn_outbox m))"
  then obtain ev where ev: "ev \<in> set (sn_outbox n) \<union> set (sn_outbox m)"
    "event_id_of (sn_label n) (sn_next_seq n) = je_id ev" by auto
  have nm: "ev \<notin> set (sn_outbox m)"
    using m ev(2) l event_id_inj by (fastforce simp: replica_ok_def own_event_def)
  then have "je_seq ev = sn_next_seq n"
    using n ev event_id_inj by (fastforce simp: replica_ok_def own_event_def)
  then have "sn_next_seq n \<in> set (map je_seq (sn_outbox n))"
    using ev(1) nm by (metis UnE imageI list.set_map)
  then have "(of_nat (Suc (length (sn_outbox n))) :: u64) \<in> of_nat ` {1..<Suc (length (sn_outbox n))}"
    using n unfolding replica_ok_def numbered_def by (metis list.set_map set_upt)
  then show False using small by (auto simp: word_unat_eq_iff unat_of_nat simp del: of_nat_Suc)
qed

lemma replica_peer_mono:
  "replica_ok E m n \<Longrightarrow> sn_label n' = sn_label n \<Longrightarrow> sn_keys n' = sn_keys n \<Longrightarrow>
   set (sn_outbox n) \<subseteq> set (sn_outbox n') \<Longrightarrow> replica_ok E m n'"
  unfolding replica_ok_def by (simp, blast)

section \<open>Local events\<close>

lemma project_blobs: "(\<And>b t es. je_body ev \<noteq> BlobAdded b t es) \<Longrightarrow> sn_blobs (project ev n) = sn_blobs n"
  by (auto simp: project_def mark_applied_def split: event_body.split)

lemma local_event_replica:
  assumes n: "replica_ok E n m" and m: "replica_ok E m n" and l: "sn_label n \<noteq> sn_label m"
    and small: "Suc (length (sn_outbox n)) < 2 ^ 64" and body: "\<And>b t es. body \<noteq> BlobAdded b t es"
  shows "\<exists>ev n'. local_event E n body = (Okay (je_id ev), n') \<and> replica_ok E n' m
     \<and> sn_outbox n' = sn_outbox n @ [ev] \<and> je_id ev \<notin> je_id ` set (sn_outbox n)
     \<and> sn_sent_to n' = sn_sent_to n \<and> sn_peers n' = sn_peers n \<and> sn_label n' = sn_label n \<and> sn_keys n' = sn_keys n
     \<and> map_of (sn_applied n) \<subseteq>\<^sub>m map_of (sn_applied n')"
proof -
  obtain ev where c: "sync_create E n body = (ev, n\<lparr>sn_next_seq := sn_next_seq n + 1, sn_outbox := sn_outbox n @ [ev]\<rparr>)"
    and ev: "own_event E n ev" "je_seq ev = sn_next_seq n" "je_id ev = event_id_of (sn_label n) (sn_next_seq n)"
      "je_body ev = body"
    using body that[of "fst (sync_create E n body)"] by (simp add: sync_create_def Let_def own_event_def)
  let ?n1 = "n\<lparr>sn_next_seq := sn_next_seq n + 1, sn_outbox := sn_outbox n @ [ev]\<rparr>"
  have new: "je_id ev \<notin> je_id ` (set (sn_outbox n) \<union> set (sn_outbox m))"
    unfolding ev(3) using next_id_fresh[OF n m l small] .
  have fresh: "map_of (sn_applied n) (je_id ev) = None"
  proof (rule ccontr)
    assume "\<not> ?thesis"
    then obtain v where v: "map_of (sn_applied n) (je_id ev) = Some v" by blast
    then have "je_id v = je_id ev" "v \<in> set (sn_outbox n) \<union> set (sn_outbox m)"
      using n by (auto simp: replica_ok_def view_ok_def)
    then show False using new by (metis imageI)
  qed
  have st: "sn_state ?n1 = None" using n by (simp add: replica_ok_def)
  let ?n' = "project ev ?n1"
  have "local_event E n body = (Okay (je_id ev), ?n')"
    using sync_admit_volatile[OF st, of E ev] fresh by (simp add: local_event_def c absorb_def)
  moreover have ap: "map_of (sn_applied ?n') = (map_of (sn_applied n))(je_id ev \<mapsto> ev)"
    using n by (simp add: project_applied replica_ok_def view_ok_def)
  moreover have "replica_ok E ?n' m"
    unfolding replica_ok_def
  proof (intro conjI)
    show "sn_state ?n' = None" using st by simp
    show "sn_label ?n' = dk_id (sn_keys ?n')"
      "\<exists>ch. sn_peers ?n' = [(sn_label m, ch)] \<and> pc_identity ch = public_identity (se_prims E) (sn_keys m)"
      using n by (simp_all add: replica_ok_def)
    show "sn_blobs ?n' = []" using n ev(4) body by (simp add: project_blobs replica_ok_def)
    have "numbered ?n1" using n ev(2) by (simp add: replica_ok_def numbered_def)
    then show "numbered ?n'" by (rule numbered_cong[THEN iffD2, rotated 2]) simp_all
    show "\<forall>e\<in>set (sn_outbox ?n'). own_event E ?n' e \<and> map_of (sn_applied ?n') (je_id e) = Some e"
    proof
      fix e
      assume "e \<in> set (sn_outbox ?n')"
      then consider "e = ev" | "e \<in> set (sn_outbox n)" by auto
      then show "own_event E ?n' e \<and> map_of (sn_applied ?n') (je_id e) = Some e"
      proof cases
        case 1
        then show ?thesis using ev(1) unfolding ap by (simp add: own_event_def)
      next
        case 2
        then have "je_id e \<noteq> je_id ev" using new by (metis UnI1 imageI)
        then show ?thesis using replica_own[OF n 2] own_event_cong[of ?n' n E] unfolding ap by simp
      qed
    qed
    show "view_ok ?n'" using n fresh by (intro view_ok_project) (simp_all add: replica_ok_def)
    show "\<forall>i e. map_of (sn_applied ?n') i = Some e \<longrightarrow> e \<in> set (sn_outbox ?n') \<union> set (sn_outbox m)"
      using n unfolding ap by (auto simp: replica_ok_def)
    show "\<forall>i. sn_label m \<in> set (sn_sent_to ?n' i) \<longrightarrow> i \<in> je_id ` set (sn_outbox ?n')"
      using n by (auto simp: replica_ok_def)
  qed
  moreover have "map_of (sn_applied n) \<subseteq>\<^sub>m map_of (sn_applied ?n')"
    using fresh unfolding ap by (auto simp: map_le_def)
  ultimately show ?thesis using new by (intro exI[of _ ev] exI[of _ ?n']) auto
qed

section \<open>Links\<close>

text \<open>A link survives changes that keep its two channels, what it has sent and what was applied.\<close>

lemma link_mono:
  assumes "link_ok E x y r evs" "sn_label x' = sn_label x" "sn_label y' = sn_label y"
    "pc_outbound (channel x' y') = pc_outbound (channel x y)" "pc_inbound (channel y' x') = pc_inbound (channel y x)"
    "pc_cursor (channel y' x') = pc_cursor (channel y x)"
    "retained r' (inbox (sn_label y) (sn_label x)) = retained r (inbox (sn_label y) (sn_label x))"
    "checkpoint r' (inbox (sn_label y) (sn_label x)) = checkpoint r (inbox (sn_label y) (sn_label x))"
    "head_seq r' (inbox (sn_label y) (sn_label x)) = head_seq r (inbox (sn_label y) (sn_label x))"
    "set (sn_outbox x) \<subseteq> set (sn_outbox x')" "sn_sent_to x' = sn_sent_to x"
    "\<And>ev. ev \<in> set (sn_outbox x') - set (sn_outbox x) \<Longrightarrow> sn_label y \<notin> set (sn_sent_to x (je_id ev))"
    "map_of (sn_applied y) \<subseteq>\<^sub>m map_of (sn_applied y')"
  shows "link_ok E x' y' r' evs"
proof -
  have ap: "map_of (sn_applied y) i = Some v \<Longrightarrow> map_of (sn_applied y') i = Some v" for i v
    using assms(13) by (metis domI map_le_def)
  have l: "checkpoint r (inbox (sn_label y) (sn_label x)) \<le> pc_cursor (channel y x)"
    "pc_cursor (channel y x) \<le> head_seq r (inbox (sn_label y) (sn_label x))"
    "\<exists>ws t. try_all (v2_open (se_prims E)) (pc_inbound (channel y x))
        (map item_payload (unread r (inbox (sn_label y) (sn_label x)) (pc_cursor (channel y x)))) = (Okay ws, t)
       \<and> list_all2 (\<lambda>ev w. serialize_event E ev = Some w) evs ws \<and> matched (se_prims E) (pc_outbound (channel x y)) t"
    "s2_next_counter (pc_outbound (channel x y)) \<noteq> 0" "set evs \<subseteq> set (sn_outbox x)"
    "\<And>ev. ev \<in> set (sn_outbox x) \<Longrightarrow> sn_label y \<in> set (sn_sent_to x (je_id ev)) \<Longrightarrow>
       ev \<in> set evs \<or> map_of (sn_applied y) (je_id ev) = Some ev"
    "item_id ` set (retained r (inbox (sn_label y) (sn_label x))) \<subseteq>
       {push_key (sn_label x) ev | ev. ev \<in> set (sn_outbox x) \<and> sn_label y \<in> set (sn_sent_to x (je_id ev))}"
    using assms(1) unfolding link_ok_def Let_def by blast+
  show ?thesis
    unfolding link_ok_def Let_def assms(2-6,8,9,11)
  proof (intro conjI)
    show "\<exists>ws t. try_all (v2_open (se_prims E)) (pc_inbound (channel y x))
        (map item_payload (unread r' (inbox (sn_label y) (sn_label x)) (pc_cursor (channel y x)))) = (Okay ws, t)
       \<and> list_all2 (\<lambda>ev w. serialize_event E ev = Some w) evs ws \<and> matched (se_prims E) (pc_outbound (channel x y)) t"
      using l(3) by (simp add: unread_def assms(7))
    show "\<forall>ev\<in>set (sn_outbox x'). sn_label y \<in> set (sn_sent_to x (je_id ev)) \<longrightarrow>
        ev \<in> set evs \<or> map_of (sn_applied y') (je_id ev) = Some ev"
      using l(6) ap assms(12) by blast
    show "item_id ` set (retained r' (inbox (sn_label y) (sn_label x))) \<subseteq>
       {push_key (sn_label x) ev | ev. ev \<in> set (sn_outbox x') \<and> sn_label y \<in> set (sn_sent_to x (je_id ev))}"
      using l(7) assms(10) unfolding assms(7) by blast
  qed (use l assms(10) in auto)
qed

lemma local_event_pair:
  assumes "pair_ok E x y r" "Suc (length (sn_outbox x)) < 2 ^ 64" "\<And>b t es. body \<noteq> BlobAdded b t es"
  shows "\<exists>ev x'. local_event E x body = (Okay (je_id ev), x') \<and> pair_ok E x' y r
     \<and> sn_outbox x' = sn_outbox x @ [ev] \<and> sn_label y \<notin> set (sn_sent_to x' (je_id ev))
     \<and> sn_label x' = sn_label x \<and> map_of (sn_applied x) \<subseteq>\<^sub>m map_of (sn_applied x')"
proof -
  have p: "relay_ok r" "inbox (sn_label x) (sn_label y) \<noteq> inbox (sn_label y) (sn_label x)"
    "replica_ok E x y" "replica_ok E y x"
    using assms(1) by (simp_all add: pair_ok_def)
  then have l: "sn_label x \<noteq> sn_label y" by metis
  obtain ev x' where x': "local_event E x body = (Okay (je_id ev), x')" "replica_ok E x' y"
    "sn_outbox x' = sn_outbox x @ [ev]" "je_id ev \<notin> je_id ` set (sn_outbox x)" "sn_sent_to x' = sn_sent_to x"
    "sn_peers x' = sn_peers x" "sn_label x' = sn_label x" "sn_keys x' = sn_keys x"
    "map_of (sn_applied x) \<subseteq>\<^sub>m map_of (sn_applied x')"
    using local_event_replica[OF p(3,4) l assms(2,3)] by blast
  have ns: "sn_label y \<notin> set (sn_sent_to x (je_id ev))" using p(3) x'(4) by (auto simp: replica_ok_def)
  have ch: "channel x' y = channel x y" "channel y x' = channel y x" by (simp_all add: channel_def x'(6,7))
  obtain evs evs' where lk: "link_ok E x y r evs" "link_ok E y x r evs'" using assms(1) by (auto simp: pair_ok_def)
  have "link_ok E x' y r evs" using ns by (intro link_mono[OF lk(1)]) (auto simp: x' ch)
  moreover have "link_ok E y x' r evs'" using x'(9) by (intro link_mono[OF lk(2)]) (auto simp: x' ch)
  moreover have "replica_ok E y x'" by (rule replica_peer_mono[OF p(4)]) (auto simp: x')
  ultimately have "pair_ok E x' y r" using p x'(2,7) by (auto simp: pair_ok_def)
  then show ?thesis using x'(1,3,5,7,9) ns by auto
qed

section \<open>Polling\<close>

lemma absorb_all:
  assumes "view_ok n" "\<And>ev v. ev \<in> set evs \<Longrightarrow> map_of (sn_applied n) (je_id ev) = Some v \<Longrightarrow> v = ev"
    "\<And>e e'. e \<in> set evs \<Longrightarrow> e' \<in> set evs \<Longrightarrow> je_id e = je_id e' \<Longrightarrow> e = e'"
    "\<And>ev b t es. ev \<in> set evs \<Longrightarrow> je_body ev \<noteq> BlobAdded b t es"
  shows "view_ok (fold absorb evs n) \<and> map_of (sn_applied n) \<subseteq>\<^sub>m map_of (sn_applied (fold absorb evs n))
     \<and> (\<forall>ev\<in>set evs. map_of (sn_applied (fold absorb evs n)) (je_id ev) = Some ev)
     \<and> (\<forall>i v. map_of (sn_applied (fold absorb evs n)) i = Some v \<longrightarrow> map_of (sn_applied n) i = Some v \<or> v \<in> set evs)
     \<and> sn_blobs (fold absorb evs n) = sn_blobs n"
  using assms
proof (induction evs arbitrary: n)
  case Nil
  then show ?case by simp
next
  case (Cons ev evs)
  let ?n = "absorb ev n"
  have bt: "bt_ok (sn_applied n)" using Cons.prems(1) by (simp add: view_ok_def)
  have v: "view_ok ?n" using Cons.prems(1) view_ok_project by (auto simp: absorb_def)
  have ap: "map_of (sn_applied ?n) = (map_of (sn_applied n))(je_id ev \<mapsto> ev)"
    using Cons.prems(2)[of ev] bt by (auto simp: absorb_def project_applied fun_eq_iff)
  have bl: "sn_blobs ?n = sn_blobs n" using Cons.prems(4)[of ev] by (simp add: absorb_def project_blobs)
  have ih: "view_ok (fold absorb evs ?n) \<and> map_of (sn_applied ?n) \<subseteq>\<^sub>m map_of (sn_applied (fold absorb evs ?n))
     \<and> (\<forall>ev\<in>set evs. map_of (sn_applied (fold absorb evs ?n)) (je_id ev) = Some ev)
     \<and> (\<forall>i v. map_of (sn_applied (fold absorb evs ?n)) i = Some v \<longrightarrow> map_of (sn_applied ?n) i = Some v \<or> v \<in> set evs)
     \<and> sn_blobs (fold absorb evs ?n) = sn_blobs ?n"
  proof (rule Cons.IH[OF v])
    show "w = e" if "e \<in> set evs" "map_of (sn_applied ?n) (je_id e) = Some w" for e w
      using that Cons.prems(2)[of e w] Cons.prems(3)[of e ev] unfolding ap by (auto split: if_splits)
  qed (use Cons.prems(3,4) in auto)
  have le: "map_of (sn_applied n) \<subseteq>\<^sub>m map_of (sn_applied ?n)"
    using Cons.prems(2)[of ev] unfolding ap by (auto simp: map_le_def)
  have "map_of (sn_applied (fold absorb evs ?n)) (je_id ev) = Some ev"
    using ih unfolding ap map_le_def by (auto simp: dom_def)
  moreover have "map_of (sn_applied n) i = Some v \<or> v \<in> set (ev # evs)"
    if "map_of (sn_applied (fold absorb evs ?n)) i = Some v" for i v
    using that ih unfolding ap by (auto split: if_splits)
  ultimately show ?case using ih le bl map_le_trans[OF le] by auto
qed

lemma poll_pair:
  assumes env: "env_ok E" and pair: "pair_ok E y x r" and small: "length (sn_outbox x) < 2 ^ 64"
    and fuel: "length (unread r (inbox (sn_label y) (sn_label x)) (pc_cursor (channel y x))) < fuel"
  shows "\<exists>c y' r'. sync_poll E fuel y r = Some (Okay c, y', r') \<and> pair_ok E y' x r'
     \<and> sn_outbox y' = sn_outbox y \<and> sn_label y' = sn_label y
     \<and> (\<forall>ev\<in>set (sn_outbox x). sn_label y \<in> set (sn_sent_to x (je_id ev)) \<longrightarrow>
          map_of (sn_applied y') (je_id ev) = Some ev)"
proof -
  let ?k = "inbox (sn_label y) (sn_label x)"
  have p: "relay_ok r" "inbox (sn_label y) (sn_label x) \<noteq> inbox (sn_label x) (sn_label y)"
    "replica_ok E y x" "replica_ok E x y"
    using pair by (simp_all add: pair_ok_def)
  obtain evs evs' where lk: "link_ok E x y r evs" "link_ok E y x r evs'" using pair by (auto simp: pair_ok_def)
  have l: "checkpoint r ?k \<le> pc_cursor (channel y x)" "pc_cursor (channel y x) \<le> head_seq r ?k"
    "s2_next_counter (pc_outbound (channel x y)) \<noteq> 0" "set evs \<subseteq> set (sn_outbox x)"
    "\<And>ev. ev \<in> set (sn_outbox x) \<Longrightarrow> sn_label y \<in> set (sn_sent_to x (je_id ev)) \<Longrightarrow>
       ev \<in> set evs \<or> map_of (sn_applied y) (je_id ev) = Some ev"
    "item_id ` set (retained r ?k) \<subseteq>
       {push_key (sn_label x) ev | ev. ev \<in> set (sn_outbox x) \<and> sn_label y \<in> set (sn_sent_to x (je_id ev))}"
    using lk(1) unfolding link_ok_def Let_def by blast+
  obtain ws t where o: "try_all (v2_open (se_prims E)) (pc_inbound (channel y x))
      (map item_payload (unread r ?k (pc_cursor (channel y x)))) = (Okay ws, t)"
    "list_all2 (\<lambda>ev w. serialize_event E ev = Some w) evs ws" "matched (se_prims E) (pc_outbound (channel x y)) t"
    using lk(1) unfolding link_ok_def Let_def by blast
  note cy = replica_channel[OF p(3)]
  have tr: "\<forall>ev\<in>set evs. trusted E (pc_identity (channel y x)) ev"
    using own_trusted[OF env p(4)] replica_own[OF p(4)] l(4) cy(3) by auto
  have vol: "sn_state y = None" and codec: "codec_ok E" using p(3) env by (simp_all add: replica_ok_def env_ok_def)
  obtain c r' fin where poll: "poll_peer E fuel (sn_label x) y r 0 = Some (Okay c,
      set_peer (sn_label x) ((channel y x)\<lparr>pc_inbound := t, pc_cursor := fin\<rparr>) (fold absorb evs y), r')"
    "relay_same r r'" "unread r ?k fin = []" "pc_cursor (channel y x) \<le> fin" "fin \<le> head_seq r ?k"
    using poll_peer_absorbs[OF vol cy(4,1) codec p(1) l(1,2) o(1,2) tr fuel] by metis
  let ?ch = "(channel y x)\<lparr>pc_inbound := t, pc_cursor := fin\<rparr>"
  let ?y = "set_peer (sn_label x) ?ch (fold absorb evs y)"
  have dist: "inj_on je_id (set (sn_outbox x))" using replica_ids[OF p(4) small] by (simp add: distinct_map)
  have known: "v = ev" if "ev \<in> set evs" "map_of (sn_applied y) (je_id ev) = Some v" for ev v
  proof -
    have v: "je_id v = je_id ev" "v \<in> set (sn_outbox y) \<union> set (sn_outbox x)"
      using p(3) that(2) by (auto simp: replica_ok_def view_ok_def)
    have ev: "ev \<in> set (sn_outbox x)" using that(1) l(4) by blast
    have "v \<notin> set (sn_outbox y)"
    proof
      assume "v \<in> set (sn_outbox y)"
      then have "event_id_of (sn_label y) (je_seq v) = event_id_of (sn_label x) (je_seq ev)"
        using replica_own[OF p(3)] replica_own[OF p(4) ev] v(1) by (metis own_event_def)
      then show False using p(2) event_id_inj by metis
    qed
    then show ?thesis using v ev dist by (metis UnE inj_onD)
  qed
  have abs: "view_ok (fold absorb evs y)" "map_of (sn_applied y) \<subseteq>\<^sub>m map_of (sn_applied (fold absorb evs y))"
    "\<And>ev. ev \<in> set evs \<Longrightarrow> map_of (sn_applied (fold absorb evs y)) (je_id ev) = Some ev"
    "\<And>i v. map_of (sn_applied (fold absorb evs y)) i = Some v \<Longrightarrow> map_of (sn_applied y) i = Some v \<or> v \<in> set evs"
    "sn_blobs (fold absorb evs y) = sn_blobs y"
    using absorb_all[of y evs] p(3) known dist l(4) replica_own[OF p(4)]
    by (auto simp: replica_ok_def own_event_def inj_on_def subset_iff)
  have bt: "bt_ok (sn_peers (fold absorb evs y))" using cy(4) by simp
  have chy: "channel ?y x = ?ch" using bt unfolding channel_def[of ?y] by simp
  have chx: "channel x ?y = channel x y" by (simp add: channel_def)
  have ap: "sn_applied ?y = sn_applied (fold absorb evs y)" by simp
  have ry: "replica_ok E ?y x"
    unfolding replica_ok_def
  proof (intro conjI)
    show "sn_state ?y = None" "sn_label ?y = dk_id (sn_keys ?y)" "sn_blobs ?y = []"
      using p(3) abs(5) by (simp_all add: replica_ok_def)
    show "\<exists>ch. sn_peers ?y = [(sn_label x, ch)] \<and> pc_identity ch = public_identity (se_prims E) (sn_keys x)"
      using cy(2,3) by (simp add: set_peer_def)
    have "numbered y" using p(3) by (simp add: replica_ok_def)
    then show "numbered ?y" by (rule numbered_cong[THEN iffD2, rotated 2]) simp_all
    show "\<forall>ev\<in>set (sn_outbox ?y). own_event E ?y ev \<and> map_of (sn_applied ?y) (je_id ev) = Some ev"
    proof
      fix ev
      assume "ev \<in> set (sn_outbox ?y)"
      then have "own_event E y ev \<and> map_of (sn_applied y) (je_id ev) = Some ev" using replica_own[OF p(3)] by simp
      then show "own_event E ?y ev \<and> map_of (sn_applied ?y) (je_id ev) = Some ev"
        using abs(2) own_event_cong[of ?y y E] by (auto simp: map_le_def dom_def)
    qed
    show "view_ok ?y" using abs(1) view_cong[of ?y "fold absorb evs y"] by (simp add: set_peer_def)
    show "\<forall>i ev. map_of (sn_applied ?y) i = Some ev \<longrightarrow> ev \<in> set (sn_outbox ?y) \<union> set (sn_outbox x)"
      using abs(4) l(4) p(3) unfolding ap by (fastforce simp: replica_ok_def)
    show "\<forall>i. sn_label x \<in> set (sn_sent_to ?y i) \<longrightarrow> i \<in> je_id ` set (sn_outbox ?y)"
      using p(3) by (simp add: replica_ok_def)
  qed
  have same: "retained r' = retained r" "checkpoint r' = checkpoint r" "head_seq r' = head_seq r" "relay_ok r'"
    using poll(2) by (simp_all add: relay_same_def)
  have delivered: "map_of (sn_applied ?y) (je_id ev) = Some ev"
    if "ev \<in> set (sn_outbox x)" "sn_label y \<in> set (sn_sent_to x (je_id ev))" for ev
    using l(5)[OF that] abs(2,3) unfolding ap by (auto simp: map_le_def dom_def)
  have "link_ok E x ?y r' []"
    unfolding link_ok_def Let_def chy chx
    using l(1,3,6) o(3) poll(3-5) delivered same by (auto simp: unread_def)
  moreover have "link_ok E ?y x r' evs'"
    by (rule link_mono[OF lk(2)]) (use chy chx same in simp_all)
  moreover have "replica_ok E x ?y" by (rule replica_peer_mono[OF p(4)]) simp_all
  ultimately have ok: "pair_ok E ?y x r'" using ry p(2) same(4) by (auto simp: pair_ok_def)
  have "sync_poll E fuel y r = Some (Okay c, ?y, r')" using poll(1) cy(2) by (simp add: sync_poll_def)
  then show ?thesis
    using ok delivered by (intro exI[of _ c] exI[of _ ?y] exI[of _ r']) simp
qed

text \<open>More fuel does not change a poll that ended.\<close>

lemma poll_peer_more:
  "poll_peer E fuel peer n r k = Some z \<Longrightarrow> fuel \<le> fuel' \<Longrightarrow> poll_peer E fuel' peer n r k = Some z"
proof (induction fuel arbitrary: fuel' n r k)
  case 0
  then show ?case by simp
next
  case (Suc fuel)
  then obtain f where "fuel' = Suc f" "fuel \<le> f" by (metis Suc_le_D Suc_le_mono)
  then show ?case using Suc.prems(1) Suc.IH
    by (auto split: option.splits prod.splits fetch_page.splits sum.splits if_splits)
qed

lemma poll_pair_result:
  assumes "env_ok E" "pair_ok E y x r" "length (sn_outbox x) < 2 ^ 64" "sync_poll E fuel y r = Some (res, y', r')"
  shows "(\<exists>c. res = Okay c) \<and> pair_ok E y' x r' \<and> sn_outbox y' = sn_outbox y \<and> sn_label y' = sn_label y
     \<and> (\<forall>ev\<in>set (sn_outbox x). sn_label y \<in> set (sn_sent_to x (je_id ev)) \<longrightarrow>
          map_of (sn_applied y') (je_id ev) = Some ev)"
proof -
  let ?f = "Suc (max fuel (length (unread r (inbox (sn_label y) (sn_label x)) (pc_cursor (channel y x)))))"
  have peers: "sn_peers y = [(sn_label x, channel y x)]"
    by (rule replica_channel(2)[where E = E]) (use assms(2) in \<open>simp add: pair_ok_def\<close>)
  obtain z where z: "poll_peer E fuel (sn_label x) y r 0 = Some z"
    using assms(4) peers by (auto simp: sync_poll_def split: option.splits)
  have "poll_peer E ?f (sn_label x) y r 0 = Some z" by (rule poll_peer_more[OF z]) simp
  then have "sync_poll E ?f y r = Some (res, y', r')"
    using assms(4) z peers by (cases z) (auto simp: sync_poll_def simp del: poll_peer.simps split: sum.splits)
  moreover have "length (unread r (inbox (sn_label y) (sn_label x)) (pc_cursor (channel y x))) < ?f" by simp
  ultimately show ?thesis using poll_pair[OF assms(1-3)] by fastforce
qed

section \<open>Flushing\<close>

lemma send_pair:
  assumes env: "env_ok E" and pair: "pair_ok E x y r" and small: "length (sn_outbox x) < 2 ^ 64"
    and un: "unsent (sn_label y) x (sn_outbox x) \<noteq> []"
    and send: "send_batch E seed (sn_label y) x r k = (Okay k', x', r')"
  shows "pair_ok E x' y r' \<and> sn_outbox x' = sn_outbox x \<and> sn_label x' = sn_label x
     \<and> sn_applied x' = sn_applied x \<and> (\<forall>ev\<in>set (sn_outbox x). sn_label y \<in> set (sn_sent_to x' (je_id ev)))"
proof -
  let ?k = "inbox (sn_label y) (sn_label x)" and ?P = "se_prims E" and ?out = "pc_outbound (channel x y)"
  let ?un = "unsent (sn_label y) x (sn_outbox x)"
  have p: "relay_ok r" "inbox (sn_label x) (sn_label y) \<noteq> inbox (sn_label y) (sn_label x)"
    "replica_ok E x y" "replica_ok E y x"
    using pair by (simp_all add: pair_ok_def)
  note cx = replica_channel[OF p(3)]
  obtain evs evs' where lk: "link_ok E x y r evs" "link_ok E y x r evs'" using pair by (auto simp: pair_ok_def)
  have l: "checkpoint r ?k \<le> pc_cursor (channel y x)" "pc_cursor (channel y x) \<le> head_seq r ?k"
    "s2_next_counter ?out \<noteq> 0" "set evs \<subseteq> set (sn_outbox x)"
    "\<And>ev. ev \<in> set (sn_outbox x) \<Longrightarrow> sn_label y \<in> set (sn_sent_to x (je_id ev)) \<Longrightarrow>
       ev \<in> set evs \<or> map_of (sn_applied y) (je_id ev) = Some ev"
    "item_id ` set (retained r ?k) \<subseteq>
       {push_key (sn_label x) ev | ev. ev \<in> set (sn_outbox x) \<and> sn_label y \<in> set (sn_sent_to x (je_id ev))}"
    using lk(1) unfolding link_ok_def Let_def by blast+
  obtain ws t where o: "try_all (v2_open ?P) (pc_inbound (channel y x))
      (map item_payload (unread r ?k (pc_cursor (channel y x)))) = (Okay ws, t)"
    "list_all2 (\<lambda>ev w. serialize_event E ev = Some w) evs ws" "matched ?P ?out t"
    using lk(1) unfolding link_ok_def Let_def by blast
  obtain s1 where turn: "open_turn ?P ?out seed = (Okay (), s1)"
    and ev: "send_events E (sn_label y) (sn_outbox x) (set_peer (sn_label y) ((channel x y)\<lparr>pc_outbound := s1\<rparr>) x) r k
      = (Okay k', x', r')"
    using send un cx(1) by (auto simp: send_batch_def unsent_def filter_empty_conv Let_def split: if_splits prod.splits sum.splits)
  let ?ch1 = "(channel x y)\<lparr>pc_outbound := s1\<rparr>"
  let ?x1 = "set_peer (sn_label y) ?ch1 x"
  have un1: "unsent (sn_label y) ?x1 (sn_outbox x) = ?un" by (simp add: unsent_def)
  have fresh: "push_key (sn_label x) e \<notin> item_id ` set (retained r ?k)" if "e \<in> set ?un" for e
  proof
    assume "push_key (sn_label x) e \<in> item_id ` set (retained r ?k)"
    then obtain e' where "push_key (sn_label x) e = push_key (sn_label x) e'" "sn_label y \<in> set (sn_sent_to x (je_id e'))"
      using l(6) by blast
    then show False using that by (simp add: push_key_def unsent_def)
  qed
  obtain ws' envs out' st xs where b: "list_all2 (\<lambda>ev w. serialize_event E ev = Some w) ?un ws'"
    "try_all (v2_seal ?P) s1 ws' = (Okay envs, out')"
    "x' = (set_peer (sn_label y) (?ch1\<lparr>pc_outbound := out'\<rparr>) ?x1)\<lparr>sn_sent_to := st\<rparr>"
    "\<forall>i. sn_label y \<in> set (st i) \<longleftrightarrow> sn_label y \<in> set (sn_sent_to x i) \<or> i \<in> je_id ` set ?un"
    "relay_grows ?k xs r r'" "map item_payload xs = envs" "map item_id xs = map (push_key (sn_label x)) ?un"
    using send_events_appends[OF ev, of ?ch1] cx(4) p(1) replica_ids[OF p(3) small] fresh unfolding un1 by auto
  have x': "x' = (set_peer (sn_label y) ((channel x y)\<lparr>pc_outbound := out'\<rparr>) x)\<lparr>sn_sent_to := st\<rparr>"
    using b(3) cx(4) by simp
  obtain w ws'' where ws': "ws' = w # ws''" using b(1) un by (cases ws') auto
  obtain t' where t': "try_all (v2_open ?P) t envs = (Okay ws', t')" "matched ?P out' t'" "s2_next_counter out' \<noteq> 0"
    using v2_batch_next_turn[of ?P ?out t seed w ws'' envs out'] env o(3) l(3) turn b(2) ws'
    by (auto simp: env_ok_def v2_send_batch_def)
  have ch: "channel x' y = (channel x y)\<lparr>pc_outbound := out'\<rparr>" "channel y x' = channel y x"
    using cx(4) by (simp_all add: x' channel_def)
  have g: "retained r' ?k = retained r ?k @ xs" "checkpoint r' ?k = checkpoint r ?k" "head_seq r ?k \<le> head_seq r' ?k"
    "\<forall>i\<in>set xs. head_seq r ?k < item_seq i" "relay_ok r'"
    using b(5) by (simp_all add: relay_grows_def)
  have unread: "unread r' ?k (pc_cursor (channel y x)) = unread r ?k (pc_cursor (channel y x)) @ xs"
    using g(1,4) l(2) by (auto simp: unread_def filter_id_conv)
  have all: "sn_label y \<in> set (st (je_id e))" if "e \<in> set (sn_outbox x)" for e
    using that b(4) by (auto simp: unsent_def)
  have "link_ok E x' y r' (evs @ ?un)"
    unfolding link_ok_def Let_def ch
  proof (intro conjI)
    show "\<exists>zs s. try_all (v2_open ?P) (pc_inbound (channel y x))
        (map item_payload (unread r' (inbox (sn_label y) (sn_label x')) (pc_cursor (channel y x)))) = (Okay zs, s)
      \<and> list_all2 (\<lambda>ev w. serialize_event E ev = Some w) (evs @ ?un) zs
      \<and> matched ?P (pc_outbound ((channel x y)\<lparr>pc_outbound := out'\<rparr>)) s"
      using o(1,2) b(1,6) t' unread by (auto simp: x' try_all_append intro: list_all2_appendI)
    show "item_id ` set (retained r' (inbox (sn_label y) (sn_label x'))) \<subseteq>
       {push_key (sn_label x') ev | ev. ev \<in> set (sn_outbox x') \<and> sn_label y \<in> set (sn_sent_to x' (je_id ev))}"
    proof -
      have "item_id ` set xs = push_key (sn_label x) ` set ?un" using b(7) by (metis list.set_map)
      then have "item_id ` set (retained r' ?k) \<subseteq> push_key (sn_label x) ` set (sn_outbox x)"
        using l(6) unfolding g(1) set_append image_Un by (auto simp: unsent_def)
      also have "\<dots> = {push_key (sn_label x) ev | ev. ev \<in> set (sn_outbox x) \<and> sn_label y \<in> set (st (je_id ev))}"
        using all by auto
      finally show ?thesis by (simp add: x')
    qed
    show "\<forall>ev\<in>set (sn_outbox x'). sn_label y \<in> set (sn_sent_to x' (je_id ev)) \<longrightarrow>
        ev \<in> set (evs @ ?un) \<or> map_of (sn_applied y) (je_id ev) = Some ev"
      using l(5) by (auto simp: x' unsent_def)
  qed (use l g t' in \<open>auto simp: x' unsent_def\<close>)
  moreover have "link_ok E y x' r' evs'"
    by (rule link_mono[OF lk(2)]) (use ch b(5) p(2) in \<open>simp_all add: x' relay_grows_def\<close>)
  moreover have "replica_ok E y x'" by (rule replica_peer_mono[OF p(4)]) (simp_all add: x')
  moreover have "replica_ok E x' y"
  proof -
    have "numbered x" using p(3) by (simp add: replica_ok_def)
    then have "numbered x'" by (rule numbered_cong[THEN iffD2, rotated 2]) (simp_all add: x')
    moreover have "view_ok x' = view_ok x" by (rule view_cong) (simp_all add: x' set_peer_def)
    moreover have "\<forall>i. sn_label y \<in> set (st i) \<longrightarrow> i \<in> je_id ` set (sn_outbox x)"
      using b(4) p(3) by (auto simp: replica_ok_def unsent_def)
    moreover have "sn_peers x' = [(sn_label y, (channel x y)\<lparr>pc_outbound := out'\<rparr>)]"
      using cx(2) by (simp add: x' set_peer_def)
    moreover have "own_event E x' = own_event E x" by (rule own_event_cong) (simp_all add: x')
    ultimately show ?thesis
      using p(3) cx(3) unfolding replica_ok_def by (simp add: x')
  qed
  ultimately show ?thesis using p g(5) all by (auto simp: pair_ok_def x')
qed

lemma flush_pair:
  assumes env: "env_ok E" and pair: "pair_ok E x y r" and flush: "sync_flush E fuel x r seed = Some (Okay k, x', r')"
    and small: "Suc (length (sn_outbox x)) < 2 ^ 64" "length (sn_outbox y) < 2 ^ 64"
  shows "pair_ok E x' y r' \<and> sn_label x' = sn_label x \<and> set (sn_outbox x) \<subseteq> set (sn_outbox x')
     \<and> length (sn_outbox x') = Suc (length (sn_outbox x))
     \<and> (\<forall>ev\<in>set (sn_outbox x'). sn_label y \<in> set (sn_sent_to x' (je_id ev)))
     \<and> (\<forall>ev\<in>set (sn_outbox y). sn_label x \<in> set (sn_sent_to y (je_id ev)) \<longrightarrow>
          map_of (sn_applied x') (je_id ev) = Some ev)"
proof -
  obtain pr x1 r1 where poll: "sync_poll E fuel x r = Some (pr, x1, r1)"
    using flush by (auto simp: sync_flush_def split: option.splits)
  have p1: "\<exists>c. pr = Okay c" "pair_ok E x1 y r1" "sn_outbox x1 = sn_outbox x" "sn_label x1 = sn_label x"
    "\<forall>ev\<in>set (sn_outbox y). sn_label x \<in> set (sn_sent_to y (je_id ev)) \<longrightarrow> map_of (sn_applied x1) (je_id ev) = Some ev"
    using poll_pair_result[OF env pair small(2) poll] by blast+
  let ?body = "AckEvent (applied_frontier x1)"
  obtain lr x2 where loc: "local_event E x1 ?body = (lr, x2)" by fastforce
  obtain k3 x3 r3 where sent: "send_batches E seed (map fst (sn_peers x2)) x2 r1 0 = (Okay k3, x3, r3)"
    and chunks: "fan_out_blob_chunks E (map fst (sn_peers x2)) x3 r3 k3 = (Okay k, x', r')"
    using flush poll p1(1) loc by (auto simp: sync_flush_def Let_def split: prod.splits sum.splits)
  have "Suc (length (sn_outbox x1)) < 2 ^ 64" using small(1) p1(3) by simp
  then obtain ev where e: "lr = Okay (je_id ev)" "pair_ok E x2 y r1" "sn_outbox x2 = sn_outbox x1 @ [ev]"
    "sn_label y \<notin> set (sn_sent_to x2 (je_id ev))" "sn_label x2 = sn_label x1"
    "map_of (sn_applied x1) \<subseteq>\<^sub>m map_of (sn_applied x2)"
    using local_event_pair[OF p1(2), of ?body] loc by auto
  have r2: "replica_ok E x2 y" using e(2) by (simp add: pair_ok_def)
  have un: "unsent (sn_label y) x2 (sn_outbox x2) \<noteq> []" using e(3,4) by (simp add: unsent_def)
  have "send_batch E seed (sn_label y) x2 r1 0 = (Okay k3, x3, r3)"
    using sent replica_channel(2)[OF r2] by (auto split: prod.splits sum.splits)
  moreover have "length (sn_outbox x2) < 2 ^ 64" using small(1) p1(3) e(3) by simp
  ultimately have p3: "pair_ok E x3 y r3" "sn_outbox x3 = sn_outbox x2" "sn_label x3 = sn_label x2"
    "sn_applied x3 = sn_applied x2" "\<forall>ev\<in>set (sn_outbox x2). sn_label y \<in> set (sn_sent_to x3 (je_id ev))"
    using send_pair[OF env e(2) _ un] by blast+
  have "sn_blobs x3 = []" using p3(1) by (simp add: pair_ok_def replica_ok_def)
  then have x': "x' = x3" "r' = r3" using chunks by (simp_all add: fan_out_blob_chunks_def chunk_jobs_def)
  have "map_of (sn_applied x3) i = Some v" if "map_of (sn_applied x1) i = Some v" for i v
    using that e(6) p3(4) by (metis domI map_le_def)
  then show ?thesis using p1(3-5) p3 e(3,5) by (auto simp: x')
qed

end
