(* ===== verification/Sync_Replicas.thy ===== *)
theory Sync_Replicas
  imports Sync_Convergence Crypto_V2_Safety
begin

text \<open>
  Convergence of two paired replicas: any interleaving of edits, polls and flushes of the two nodes keeps
  the invariant of Sync_Convergence, after successful calls a poll succeeds and delivers everything sent, one exchange
  of flushes gives both replicas the same journal, and a journal determines what a node shows as far as no two of its
  events contradict each other.
\<close>

section \<open>Runs of two nodes\<close>

datatype sync_op =
    OpAppend string string
  | OpPropose string string
  | OpForget string u64 bytes
  | OpPoll
  | OpFlush bytes

text \<open>One call on one node; \<open>None\<close> when the call returns an error or the page loop runs out of fuel.\<close>

fun do_op :: "'p sync_env \<Rightarrow> nat \<Rightarrow> sync_op \<Rightarrow> 'p sync_node \<Rightarrow> relay \<Rightarrow> ('p sync_node \<times> relay) option" where
  "do_op E fuel (OpAppend doc entry) n r =
     (case append_document E n doc entry of (Inl _, _) \<Rightarrow> None | (Inr _, n') \<Rightarrow> Some (n', r))"
| "do_op E fuel (OpPropose mem content) n r =
     (case propose_memory E n mem content of (Inl _, _) \<Rightarrow> None | (Inr _, n') \<Rightarrow> Some (n', r))"
| "do_op E fuel (OpForget mem at digest) n r =
     (case forget_memory E n mem at digest of (Inl _, _) \<Rightarrow> None | (Inr _, n') \<Rightarrow> Some (n', r))"
| "do_op E fuel OpPoll n r =
     (case sync_poll E fuel n r of Some (Inr _, n', r') \<Rightarrow> Some (n', r') | _ \<Rightarrow> None)"
| "do_op E fuel (OpFlush seed) n r =
     (case sync_flush E fuel n r seed of Some (Inr _, n', r') \<Rightarrow> Some (n', r') | _ \<Rightarrow> None)"

text \<open>A run: each step names the first or the second node. No node writes \<open>2 ^ 64\<close> events.\<close>

fun run_pair ::
  "'p sync_env \<Rightarrow> nat \<Rightarrow> (bool \<times> sync_op) list \<Rightarrow> 'p sync_node \<Rightarrow> 'p sync_node \<Rightarrow> relay
   \<Rightarrow> ('p sync_node \<times> 'p sync_node \<times> relay) option" where
  "run_pair E fuel [] a b r = Some (a, b, r)"
| "run_pair E fuel ((True, op) # ops) a b r =
     (case do_op E fuel op a r of None \<Rightarrow> None | Some (a', r') \<Rightarrow> run_pair E fuel ops a' b r')"
| "run_pair E fuel ((False, op) # ops) a b r =
     (case do_op E fuel op b r of None \<Rightarrow> None | Some (b', r') \<Rightarrow> run_pair E fuel ops a b' r')"

section \<open>Every operation keeps the invariant\<close>

lemma edit_pair:
  assumes "pair_ok E x y r" "Suc (length (sn_outbox x)) < 2 ^ 64" "\<And>b t es. body \<noteq> BlobAdded b t es"
    "local_event E x body = (res, x')"
  shows "(\<exists>i. res = Okay i) \<and> pair_ok E x' y r \<and> length (sn_outbox x') = Suc (length (sn_outbox x))"
  using local_event_pair[OF assms(1-3)] assms(4) by auto

lemma suppressed_pair:
  assumes "pair_ok E x y r"
  shows "pair_ok E (x\<lparr>sn_suppressed := k\<rparr>) y r"
proof -
  let ?x = "x\<lparr>sn_suppressed := k\<rparr>"
  have "numbered ?x = numbered x" "view_ok ?x = view_ok x" "own_event E ?x = own_event E x"
    by (rule numbered_cong view_cong own_event_cong; simp)+
  then have "replica_ok E ?x y = replica_ok E x y" "replica_ok E y ?x = replica_ok E y x"
    unfolding replica_ok_def by simp_all
  moreover have "channel ?x y = channel x y" "channel y ?x = channel y x" by (simp_all add: channel_def)
  then have "link_ok E ?x y r = link_ok E x y r" "link_ok E y ?x r = link_ok E y x r"
    unfolding link_ok_def fun_eq_iff by simp_all
  ultimately show ?thesis using assms unfolding pair_ok_def by simp
qed

text \<open>The outbox grows by at most one event per call.\<close>

lemma do_op_pair:
  assumes env: "env_ok E" and pair: "pair_ok E x y r" and op: "do_op E fuel op x r = Some (x', r')"
    and small: "Suc (length (sn_outbox x)) < 2 ^ 64" "length (sn_outbox y) < 2 ^ 64"
  shows "pair_ok E x' y r' \<and> length (sn_outbox x') \<le> Suc (length (sn_outbox x))"
proof (cases op)
  case (OpAppend doc entry)
  then show ?thesis
    using op edit_pair[OF pair small(1), of "DocumentAppend doc entry"]
    by (auto simp: append_document_def split: prod.splits sum.splits)
next
  case (OpPropose mem content)
  then show ?thesis
    using op edit_pair[OF pair small(1), of "MemoryProposed mem content"] suppressed_pair[OF pair]
    by (auto simp: propose_memory_def split: prod.splits sum.splits if_splits)
next
  case (OpForget mem at digest)
  then show ?thesis
    using op edit_pair[OF pair small(1), of "MemoryForgotten mem at digest"]
    by (auto simp: forget_memory_def split: prod.splits sum.splits)
next
  case OpPoll
  then show ?thesis
    using op poll_pair_result[OF env pair small(2)] by (fastforce split: option.splits prod.splits sum.splits)
next
  case (OpFlush seed)
  then obtain k where f: "sync_flush E fuel x r seed = Some (Okay k, x', r')"
    using op by (auto split: option.splits prod.splits sum.splits)
  show ?thesis using flush_pair[OF env pair f small] by simp
qed

text \<open>A run of \<open>ops\<close> calls writes at most that many events.\<close>

lemma run_pair_ok:
  assumes "env_ok E" "pair_ok E a b r" "run_pair E fuel ops a b r = Some (a', b', r')"
    "length (sn_outbox a) + length ops < 2 ^ 64" "length (sn_outbox b) + length ops < 2 ^ 64"
  shows "pair_ok E a' b' r' \<and> length (sn_outbox a') \<le> length (sn_outbox a) + length ops
     \<and> length (sn_outbox b') \<le> length (sn_outbox b) + length ops"
  using assms
proof (induction ops arbitrary: a b r)
  case Nil
  then show ?case by simp
next
  case (Cons step ops)
  obtain side op where step: "step = (side, op)" by fastforce
  show ?case
  proof (cases side)
    case True
    then obtain a1 r1 where one: "do_op E fuel op a r = Some (a1, r1)" "run_pair E fuel ops a1 b r1 = Some (a', b', r')"
      using Cons.prems(3) step by (auto split: option.splits)
    have "pair_ok E a1 b r1 \<and> length (sn_outbox a1) \<le> Suc (length (sn_outbox a))"
      using do_op_pair[OF Cons.prems(1,2) one(1)] Cons.prems(4,5) by simp
    then show ?thesis using Cons.IH[OF Cons.prems(1) _ one(2)] Cons.prems(4,5) by auto
  next
    case False
    then obtain b1 r1 where one: "do_op E fuel op b r = Some (b1, r1)" "run_pair E fuel ops a b1 r1 = Some (a', b', r')"
      using Cons.prems(3) step by (auto split: option.splits)
    have "pair_ok E b1 a r1 \<and> length (sn_outbox b1) \<le> Suc (length (sn_outbox b))"
      using do_op_pair[OF Cons.prems(1) Cons.prems(2)[unfolded pair_ok_sym[of E a]] one(1)] Cons.prems(4,5) by simp
    then show ?thesis using Cons.IH[OF Cons.prems(1) _ one(2)] Cons.prems(4,5) pair_ok_sym[of E a b1 r1] by auto
  qed
qed

text \<open>Two nodes with a common, complete journal.\<close>

lemma pair_complete:
  assumes "pair_ok E a b r"
    "\<forall>ev\<in>set (sn_outbox a). map_of (sn_applied b) (je_id ev) = Some ev"
    "\<forall>ev\<in>set (sn_outbox b). map_of (sn_applied a) (je_id ev) = Some ev"
  shows "sn_applied a = sn_applied b \<and> events_of a = set (sn_outbox a) \<union> set (sn_outbox b)"
proof -
  have ok: "replica_ok E a b" "replica_ok E b a" using assms(1) by (simp_all add: pair_ok_def)
  have id: "je_id ev = i" if "map_of (sn_applied n) i = Some ev" "replica_ok E n m" for n m i ev
    using that by (auto simp: replica_ok_def view_ok_def)
  have all: "map_of (sn_applied a) i = Some ev \<longleftrightarrow> ev \<in> set (sn_outbox a) \<union> set (sn_outbox b) \<and> je_id ev = i"
    "map_of (sn_applied b) i = Some ev \<longleftrightarrow> ev \<in> set (sn_outbox a) \<union> set (sn_outbox b) \<and> je_id ev = i" for i ev
    using ok assms(2,3) id unfolding replica_ok_def by blast+
  have "map_of (sn_applied a) i = map_of (sn_applied b) i" for i
    by (metis (no_types, lifting) all not_Some_eq)
  then have "sn_applied a = sn_applied b"
    using ok by (intro bt_eqI) (auto simp: replica_ok_def view_ok_def)
  then show ?thesis using all(1) by (auto simp: events_of_def ran_def)
qed

section \<open>The start of a run\<close>

definition paired :: "'p sync_env \<Rightarrow> device_keys \<Rightarrow> device_keys \<Rightarrow> bytes \<Rightarrow> u32 \<Rightarrow> counter_block option \<Rightarrow>
  counter_block option \<Rightarrow> (sync_error, unit) result \<times> 'p sync_node \<times> 'p sync_node" where
  "paired E ka kb ep eq blka blkb =
     sync_pair E (sync_new ka (dk_id ka)) (sync_new kb (dk_id kb)) ep eq blka blkb"

lemma view_ok_new: "view_ok (sync_new k l)"
  by (simp add: view_ok_def sync_new_def events_of_def doc_entries_def forgotten_def proposed_def bt_get_def
      bt_ok_def)

lemma relay_new_ok: "relay_ok (relay_new p)"
  by (simp add: relay_new_def relay_ok_def)

lemma relay_new_empty [simp]:
  "retained (relay_new p) k = []" "checkpoint (relay_new p) k = 0" "head_seq (relay_new p) k = 0"
  by (simp_all add: relay_new_def retained_def checkpoint_def head_seq_def)

lemma paired_ok:
  assumes env: "env_ok E" and ep: "length ep = 16" and pair: "paired E ka kb ep eq blka blkb = (Okay (), a, b)"
    and keys: "inbox (dk_id ka) (dk_id kb) \<noteq> inbox (dk_id kb) (dk_id ka)"
  shows "pair_ok E a b (relay_new p) \<and> sn_outbox a = [] \<and> sn_outbox b = []"
proof -
  let ?P = "se_prims E"
  obtain outa inb outb ina where s: "v2_outbound ?P ka (public_identity ?P kb) ep eq blka = Okay outa"
    "v2_inbound ?P kb (public_identity ?P ka) ep eq = Okay inb"
    "v2_outbound ?P kb (public_identity ?P ka) ep eq blkb = Okay outb"
    "v2_inbound ?P ka (public_identity ?P kb) ep eq = Okay ina"
    and a: "a = (sync_new ka (dk_id ka))\<lparr>sn_peers := [(dk_id kb, \<lparr>pc_identity = public_identity ?P kb,
        pc_outbound = outa, pc_inbound = ina, pc_cursor = 0\<rparr>)]\<rparr>"
    and b: "b = (sync_new kb (dk_id kb))\<lparr>sn_peers := [(dk_id ka, \<lparr>pc_identity = public_identity ?P ka,
        pc_outbound = outb, pc_inbound = inb, pc_cursor = 0\<rparr>)]\<rparr>"
    using pair by (auto simp: paired_def sync_pair_def Let_def sync_new_def bt_get_def split: sum.splits)
  have m: "matched ?P outa inb \<and> s2_next_counter outa \<noteq> 0" "matched ?P outb ina \<and> s2_next_counter outb \<noteq> 0"
    using matched_constructors[OF _ s(1,2) ep] matched_constructors[OF _ s(3,4) ep] env by (simp_all add: env_ok_def)
  have v: "view_ok a" "view_ok b"
    unfolding a b by (rule view_cong[THEN iffD2, rotated -1, OF view_ok_new]; simp add: sync_new_def)+
  have "replica_ok E a b" "replica_ok E b a"
    using v by (simp_all add: replica_ok_def a b sync_new_def numbered_def)
  moreover have "link_ok E a b (relay_new p) []" "link_ok E b a (relay_new p) []"
    using m by (simp_all add: link_ok_def Let_def a b sync_new_def channel_def unread_def)
  ultimately show ?thesis
    using keys relay_new_ok by (auto simp: pair_ok_def a b sync_new_def)
qed

section \<open>A concrete run\<close>

text \<open>Both nodes append to one document; the first proposes a memory that the second forgets.\<close>

definition sample_sent :: "string \<Rightarrow> byte \<Rightarrow> u64 \<Rightarrow> event_body \<Rightarrow> sync_payload" where
  "sample_sent label b seq body = PayloadEvent \<lparr>we_id = event_id_of label seq, we_origin = label, we_seq = seq,
     we_signature = keys_sign sample_prims (sample_keys label b) [], we_body = body\<rparr>"

definition sample_log :: "sync_payload list" where
  "sample_log = [sample_sent ''a'' 1 1 (DocumentAppend ''doc'' ''x''), sample_sent ''a'' 1 2 (AckEvent [(''a'', 1)]),
     sample_sent ''a'' 1 2 (MemoryProposed ''m'' ''tea''), sample_sent ''a'' 1 3 (AckEvent [(''a'', 2)]),
     sample_sent ''b'' 2 1 (DocumentAppend ''doc'' ''y''), sample_sent ''b'' 2 2 (MemoryForgotten ''m'' 5 [9]),
     sample_sent ''b'' 2 3 (AckEvent [(''a'', 3), (''b'', 2)])]"

definition sample_policy :: relay_policy where
  "sample_policy = \<lparr>max_payload_bytes = 200, max_bucket_depth = 10, max_age_ticks = 10, max_push_id_bytes = 20,
     max_bucket_bytes = 1000\<rparr>"

definition sample_ops :: "(bool \<times> sync_op) list" where
  "sample_ops = [(True, OpAppend ''doc'' ''x''), (True, OpPropose ''m'' ''tea''), (False, OpAppend ''doc'' ''y''), (False, OpForget ''m'' 5 [9])]"

definition sample_pair :: "(sync_error, unit) result \<times> memory_port sync_node \<times> memory_port sync_node" where
  "sample_pair = paired (sample_env sample_log) (sample_keys ''a'' 1) (sample_keys ''b'' 2) sample_epoch 1
     (Some sample_block) (Some sample_block)"

definition sample_before :: "(memory_port sync_node \<times> memory_port sync_node \<times> relay) option" where
  "sample_before = run_pair (sample_env sample_log) 4 sample_ops (fst (snd sample_pair)) (snd (snd sample_pair))
     (relay_new sample_policy)"

definition sample_after :: "(memory_port sync_node \<times> memory_port sync_node \<times> relay) option" where
  "sample_after = (case sample_before of None \<Rightarrow> None | Some (a, b, r) \<Rightarrow>
     run_pair (sample_env sample_log) 4 [(True, OpFlush [5]), (False, OpFlush [6]), (True, OpPoll)] a b r)"

lemma sample_env_ok: "length ps \<le> 256 \<Longrightarrow> env_ok (sample_env ps)"
  using sample_prims_sound
  by (auto simp: env_ok_def sample_env_def codec_ok_def sample_encode_def sample_decode_def find_Some_iff unat_of_nat
      nth_enumerate_eq)

lemma sample_pair_ok: "sample_pair = (Okay (), fst (snd sample_pair), snd (snd sample_pair))"
proof -
  have "fst sample_pair = Okay ()" by code_simp
  then show ?thesis by (simp add: prod_eq_iff)
qed

lemma sample_keys_apart:
  "inbox (dk_id (sample_keys ''a'' 1)) (dk_id (sample_keys ''b'' 2))
     \<noteq> inbox (dk_id (sample_keys ''b'' 2)) (dk_id (sample_keys ''a'' 1))"
  by (simp add: inbox_def sample_keys_def)

text \<open>An executable form of the two conditions on a journal.\<close>

definition no_conflicts :: "journal_event list \<Rightarrow> bool" where
  "no_conflicts evs \<longleftrightarrow> list_all (\<lambda>e. list_all (\<lambda>e'. e = e' \<or> (case (je_body e, je_body e') of
       (MemoryProposed m c, MemoryProposed m' c') \<Rightarrow> m \<noteq> m' \<or> c = c'
     | (MemoryForgotten m t g, MemoryForgotten m' t' g') \<Rightarrow> m \<noteq> m' | _ \<Rightarrow> True)) evs) evs"

lemma no_conflicts_agree:
  assumes "no_conflicts (map snd (sn_applied n))"
  shows "proposals_agree (events_of n) \<and> forgets_agree (events_of n)"
proof -
  have sub: "e \<in> snd ` set (sn_applied n)" if "e \<in> events_of n" for e
    using that by (force simp: events_of_def ran_def dest: map_of_SomeD)
  have "e = e' \<or> (case (je_body e, je_body e') of
       (MemoryProposed m c, MemoryProposed m' c') \<Rightarrow> m \<noteq> m' \<or> c = c'
     | (MemoryForgotten m t g, MemoryForgotten m' t' g') \<Rightarrow> m \<noteq> m' | _ \<Rightarrow> True)"
    if "e \<in> events_of n" "e' \<in> events_of n" for e e'
    using assms sub[OF that(1)] sub[OF that(2)] unfolding no_conflicts_def list_all_iff by auto
  then show ?thesis unfolding proposals_agree_def forgets_agree_def by fastforce
qed

lemma sample_after_agree:
  assumes "sample_after = Some (a, b, r)"
  shows "proposals_agree (events_of a) \<and> forgets_agree (events_of a)"
proof -
  have "case_option False (\<lambda>(a, b, r). no_conflicts (map snd (sn_applied a))) sample_after" by code_simp
  then have "no_conflicts (map snd (sn_applied a))" unfolding assms option.case prod.case .
  then show ?thesis by (rule no_conflicts_agree)
qed

text \<open>Every call of a run is a step of the node that makes it.\<close>

lemma do_op_step: "do_op E fuel op n r = Some (n', r') \<Longrightarrow> node_step E n n'"
  by (cases op) (auto split: prod.splits sum.splits option.splits intro: node_step.intros)

lemma run_pair_steps:
  "run_pair E fuel ops a b r = Some (a', b', r') \<Longrightarrow> (node_step E)\<^sup>*\<^sup>* a a' \<and> (node_step E)\<^sup>*\<^sup>* b b'"
proof (induction E fuel ops a b r rule: run_pair.induct)
  case (2 E fuel op ops a b r)
  then show ?case by (auto split: option.splits dest!: do_op_step intro: converse_rtranclp_into_rtranclp)
next
  case (3 E fuel op ops a b r)
  then show ?case by (auto split: option.splits dest!: do_op_step intro: converse_rtranclp_into_rtranclp)
qed simp

lemma reach_steps: "move\<^sup>*\<^sup>* s t \<Longrightarrow> reach start move s \<Longrightarrow> reach start move t"
  by (induction rule: rtranclp_induct) (auto intro: reach_move)

lemma sample_after_reach:
  assumes "sample_after = Some (a, b, r)"
  shows "reach node_start (node_step (sample_env sample_log)) a" "reach node_start (node_step (sample_env sample_log)) b"
proof -
  let ?E = "sample_env sample_log" and ?a = "fst (snd sample_pair)" and ?b = "snd (snd sample_pair)"
  obtain a1 b1 r1 where b: "sample_before = Some (a1, b1, r1)"
    using assms by (auto simp: sample_after_def split: option.splits)
  have "(node_step ?E)\<^sup>*\<^sup>* ?a a1 \<and> (node_step ?E)\<^sup>*\<^sup>* ?b b1"
    using b unfolding sample_before_def by (rule run_pair_steps)
  moreover have "(node_step ?E)\<^sup>*\<^sup>* a1 a \<and> (node_step ?E)\<^sup>*\<^sup>* b1 b"
    using assms unfolding sample_after_def b option.case prod.case by (rule run_pair_steps)
  moreover have "node_start ?a" "node_start ?b" by code_simp+
  ultimately show "reach node_start (node_step ?E) a" "reach node_start (node_step ?E) b"
    by (blast intro: reach_steps reach_start)+
qed

section \<open>Properties\<close>

text \<open>C12: Two paired replicas converge. Two new in-memory nodes are paired over an initially empty relay; each
  edits, proposes, forgets, polls and flushes in any interleaving in which every call succeeds. After one
  exchange (the first node flushes, then the second flushes, then the first polls) both nodes have the same
  journal, which holds every event either of them ever wrote, the same documents, the same set of tombstoned
  and the same set of visible memories. The contents of the memories are the same when no two events propose
  different contents for one memory, the tombstones are the same when no memory is forgotten by two events, and
  under both conditions the state digests are equal.\<close>

theorem replicas_converge:
  assumes "env_ok E" "length ep = 16" "paired E ka kb ep eq blka blkb = (Okay (), a0, b0)"
    and "inbox (dk_id ka) (dk_id kb) \<noteq> inbox (dk_id kb) (dk_id ka)"
    and "run_pair E fuel ops a0 b0 (relay_new p) = Some (a1, b1, r1)" "length ops + 2 < 2 ^ 64"
    and "run_pair E fuel [(True, OpFlush s), (False, OpFlush s'), (True, OpPoll)] a1 b1 r1 = Some (a, b, r)"
  shows "sn_applied a = sn_applied b \<and> events_of a = set (sn_outbox a) \<union> set (sn_outbox b)
     \<and> set (sn_outbox a1) \<subseteq> set (sn_outbox a) \<and> set (sn_outbox b1) \<subseteq> set (sn_outbox b)
     \<and> sn_documents a = sn_documents b
     \<and> dom (map_of (sn_tombstones a)) = dom (map_of (sn_tombstones b))
     \<and> dom (map_of (sn_memories a)) = dom (map_of (sn_memories b))
     \<and> (proposals_agree (events_of a) \<longrightarrow> sn_memories a = sn_memories b)
     \<and> (forgets_agree (events_of a) \<longrightarrow> sn_tombstones a = sn_tombstones b)
     \<and> (proposals_agree (events_of a) \<and> forgets_agree (events_of a) \<longrightarrow> state_digest a = state_digest b)"
proof -
  note env = assms(1)
  have "pair_ok E a0 b0 (relay_new p)" "sn_outbox a0 = []" "sn_outbox b0 = []"
    using paired_ok[OF assms(1-4)] by blast+
  then have p1: "pair_ok E a1 b1 r1" "length (sn_outbox a1) \<le> length ops" "length (sn_outbox b1) \<le> length ops"
    using run_pair_ok[OF env _ assms(5)] assms(6) by auto
  obtain k a2 r2 k' b3 r3 where f: "sync_flush E fuel a1 r1 s = Some (Okay k, a2, r2)"
    "sync_flush E fuel b1 r2 s' = Some (Okay k', b3, r3)"
    and last: "\<exists>c. sync_poll E fuel a2 r3 = Some (Okay c, a, r)" "b = b3"
    using assms(7) by (auto split: option.splits prod.splits sum.splits)
  have p2: "pair_ok E b1 a2 r2" "sn_label a2 = sn_label a1" "set (sn_outbox a1) \<subseteq> set (sn_outbox a2)"
    "length (sn_outbox a2) = Suc (length (sn_outbox a1))"
    "\<forall>ev\<in>set (sn_outbox a2). sn_label b1 \<in> set (sn_sent_to a2 (je_id ev))"
    using flush_pair[OF env p1(1) f(1)] p1(2,3) assms(6) pair_ok_sym[of E b1 a2 r2] by auto
  have p3: "pair_ok E a2 b3 r3" "sn_label b3 = sn_label b1" "set (sn_outbox b1) \<subseteq> set (sn_outbox b3)"
    "length (sn_outbox b3) = Suc (length (sn_outbox b1))"
    "\<forall>ev\<in>set (sn_outbox b3). sn_label a2 \<in> set (sn_sent_to b3 (je_id ev))"
    "\<forall>ev\<in>set (sn_outbox a2). map_of (sn_applied b3) (je_id ev) = Some ev"
    using flush_pair[OF env p2(1) f(2)] p1(2,3) p2(4,5) assms(6) pair_ok_sym[of E a2 b3 r3] by auto
  have p4: "pair_ok E a b3 r" "sn_outbox a = sn_outbox a2"
    "\<forall>ev\<in>set (sn_outbox b3). map_of (sn_applied a) (je_id ev) = Some ev"
    using last(1) poll_pair_result[OF env p3(1), of fuel] p1(3) p3(4,5) assms(6) by auto
  have c: "sn_applied a = sn_applied b" "events_of a = set (sn_outbox a) \<union> set (sn_outbox b)"
    using pair_complete[OF p4(1)] p3(6) p4(2,3) last(2) by auto
  have v: "view_ok a" "view_ok b" using p4(1) last(2) by (simp_all add: pair_ok_def replica_ok_def)
  have e: "events_of a = events_of b" using c(1) by (simp add: events_of_def)
  show ?thesis using c p2(3) p3(3) p4(2) last(2) view_determined[OF v e] by simp
qed

theorem replicas_converge_witness:
  "\<exists>a b r. sample_after = Some (a, b, r) \<and> sn_applied a = sn_applied b
     \<and> sn_documents a = [(''doc'', [''x'', ''y''])] \<and> sn_documents b = sn_documents a
     \<and> sn_tombstones b = sn_tombstones a \<and> state_digest b = state_digest a"
proof -
  have run: "map_option (\<lambda>(a, b, r). sn_documents a) sample_after = Some [(''doc'', [''x'', ''y''])]" by code_simp
  then obtain a b r where r: "sample_after = Some (a, b, r)" "sn_documents a = [(''doc'', [''x'', ''y''])]" by auto
  obtain a1 b1 r1 where b: "sample_before = Some (a1, b1, r1)"
    using r(1) by (auto simp: sample_after_def split: option.splits)
  have c: "sn_applied a = sn_applied b \<and> events_of a = set (sn_outbox a) \<union> set (sn_outbox b)
     \<and> set (sn_outbox a1) \<subseteq> set (sn_outbox a) \<and> set (sn_outbox b1) \<subseteq> set (sn_outbox b)
     \<and> sn_documents a = sn_documents b
     \<and> dom (map_of (sn_tombstones a)) = dom (map_of (sn_tombstones b))
     \<and> dom (map_of (sn_memories a)) = dom (map_of (sn_memories b))
     \<and> (proposals_agree (events_of a) \<longrightarrow> sn_memories a = sn_memories b)
     \<and> (forgets_agree (events_of a) \<longrightarrow> sn_tombstones a = sn_tombstones b)
     \<and> (proposals_agree (events_of a) \<and> forgets_agree (events_of a) \<longrightarrow> state_digest a = state_digest b)"
  proof (rule replicas_converge[where ops = sample_ops])
    show "env_ok (sample_env sample_log)" by (rule sample_env_ok) (simp add: sample_log_def)
    show "length sample_epoch = 16" "length sample_ops + 2 < 2 ^ 64" by (simp_all add: sample_epoch_def sample_ops_def)
    show "paired (sample_env sample_log) (sample_keys ''a'' 1) (sample_keys ''b'' 2) sample_epoch 1
        (Some sample_block) (Some sample_block) = (Okay (), fst (snd sample_pair), snd (snd sample_pair))"
      using sample_pair_ok unfolding sample_pair_def .
    show "run_pair (sample_env sample_log) 4 sample_ops (fst (snd sample_pair)) (snd (snd sample_pair))
        (relay_new sample_policy) = Some (a1, b1, r1)"
      using b unfolding sample_before_def .
    show "run_pair (sample_env sample_log) 4 [(True, OpFlush [5]), (False, OpFlush [6]), (True, OpPoll)] a1 b1 r1
        = Some (a, b, r)"
      using r(1) unfolding sample_after_def b option.case prod.case .
  qed (rule sample_keys_apart)
  then show ?thesis using r sample_after_agree by metis
qed

text \<open>C13: A poll of a healthy pair ends and delivers everything sent. Two new in-memory nodes (no durable state
  port) are paired over an initially empty relay; they edit, propose, forget, poll and flush in any
  interleaving in which every call succeeded, nothing compacts the relay and no blobs are sent. Then a poll of
  the second node, with one round of the page loop more than its bucket holds entries, ends without error and
  has applied, unchanged, every event the first has flushed to it.\<close>

theorem poll_delivers:
  assumes "env_ok E" "length ep = 16" "paired E ka kb ep eq blka blkb = (Okay (), a0, b0)"
    and "inbox (dk_id ka) (dk_id kb) \<noteq> inbox (dk_id kb) (dk_id ka)"
    and "run_pair E fuel ops a0 b0 (relay_new p) = Some (a, b, r)" "length ops < 2 ^ 64"
    and "length (retained r (inbox (sn_label b) (sn_label a))) < fuel'"
  shows "\<exists>c b' r'. sync_poll E fuel' b r = Some (Okay c, b', r')
     \<and> (\<forall>ev\<in>set (sn_outbox a). sn_label b \<in> set (sn_sent_to a (je_id ev)) \<longrightarrow>
          map_of (sn_applied b') (je_id ev) = Some ev)"
proof -
  have "pair_ok E a0 b0 (relay_new p)" "sn_outbox a0 = []" "sn_outbox b0 = []"
    using paired_ok[OF assms(1-4)] by blast+
  then have ok: "pair_ok E b a r" "length (sn_outbox a) < 2 ^ 64"
    using run_pair_ok[OF assms(1) _ assms(5)] assms(6) pair_ok_sym[of E a b r] by auto
  have "length (unread r (inbox (sn_label b) (sn_label a)) (pc_cursor (channel b a)))
      \<le> length (retained r (inbox (sn_label b) (sn_label a)))"
    by (simp add: unread_def)
  then show ?thesis using poll_pair[OF assms(1) ok, of fuel'] assms(7) by auto
qed

theorem poll_delivers_witness:
  "\<exists>a b r c b' r'. run_pair (sample_env sample_log) 4 [(True, OpAppend ''doc'' ''x''), (True, OpFlush [5])]
        (fst (snd sample_pair)) (snd (snd sample_pair)) (relay_new sample_policy) = Some (a, b, r)
     \<and> sync_poll (sample_env sample_log) 3 b r = Some (Okay c, b', r')
     \<and> (\<forall>ev\<in>set (sn_outbox a). map_of (sn_applied b') (je_id ev) = Some ev)"
proof -
  have run: "map_option (\<lambda>(a, b, r). length (retained r (inbox (sn_label b) (sn_label a))) < 3
      \<and> list_all (\<lambda>ev. sn_label b \<in> set (sn_sent_to a (je_id ev))) (sn_outbox a))
     (run_pair (sample_env sample_log) 4 [(True, OpAppend ''doc'' ''x''), (True, OpFlush [5])]
        (fst (snd sample_pair)) (snd (snd sample_pair)) (relay_new sample_policy)) = Some True" by code_simp
  then obtain a b r where r: "run_pair (sample_env sample_log) 4 [(True, OpAppend ''doc'' ''x''), (True, OpFlush [5])]
        (fst (snd sample_pair)) (snd (snd sample_pair)) (relay_new sample_policy) = Some (a, b, r)"
    "length (retained r (inbox (sn_label b) (sn_label a))) < 3"
    "\<forall>ev\<in>set (sn_outbox a). sn_label b \<in> set (sn_sent_to a (je_id ev))"
    by (auto simp: list_all_iff simp del: run_pair.simps)
  have "\<exists>c b' r'. sync_poll (sample_env sample_log) 3 b r = Some (Okay c, b', r')
     \<and> (\<forall>ev\<in>set (sn_outbox a). sn_label b \<in> set (sn_sent_to a (je_id ev)) \<longrightarrow>
          map_of (sn_applied b') (je_id ev) = Some ev)"
  proof (rule poll_delivers[OF _ _ sample_pair_ok[unfolded sample_pair_def paired_def[symmetric]] sample_keys_apart])
    show "env_ok (sample_env sample_log)" by (rule sample_env_ok) (simp add: sample_log_def)
    show "length sample_epoch = 16" by (simp add: sample_epoch_def)
    show "run_pair (sample_env sample_log) 4 [(True, OpAppend ''doc'' ''x''), (True, OpFlush [5])]
        (fst (snd (paired (sample_env sample_log) (sample_keys ''a'' 1) (sample_keys ''b'' 2) sample_epoch 1
           (Some sample_block) (Some sample_block))))
        (snd (snd (paired (sample_env sample_log) (sample_keys ''a'' 1) (sample_keys ''b'' 2) sample_epoch 1
           (Some sample_block) (Some sample_block)))) (relay_new sample_policy) = Some (a, b, r)"
      using r(1) unfolding sample_pair_def .
  qed (use r(2) in simp_all)
  then show ?thesis using r(1,3) by blast
qed

text \<open>C16: What a node shows depends on the set of events it applied. Two reachable nodes with the same journal,
  in whatever order and through whatever ports they applied it, have the same documents, the same set of
  tombstoned and the same set of visible memories; the same memory contents when no two of the events propose
  different contents for one memory; the same tombstone marks when no two of them forget one memory; and, under
  both conditions, the same state digest. Without the conditions the last event applied wins
  (\<open>concurrent_proposals_diverge\<close>, \<open>concurrent_forgets_diverge\<close>).\<close>

theorem journal_determines_view:
  assumes "reach node_start (node_step E) n" "reach node_start (node_step E') n'"
    and "sn_applied n = sn_applied n'"
  shows "sn_documents n = sn_documents n'
     \<and> dom (map_of (sn_tombstones n)) = dom (map_of (sn_tombstones n'))
     \<and> dom (map_of (sn_memories n)) = dom (map_of (sn_memories n'))
     \<and> (proposals_agree (events_of n) \<longrightarrow> sn_memories n = sn_memories n')
     \<and> (forgets_agree (events_of n) \<longrightarrow> sn_tombstones n = sn_tombstones n')
     \<and> (proposals_agree (events_of n) \<and> forgets_agree (events_of n) \<longrightarrow> state_digest n = state_digest n')"
proof -
  have "view_ok n" "view_ok n'"
    using journal_machine.reach_good[OF assms(1)] journal_machine.reach_good[OF assms(2)]
    by (simp_all add: node_ok_def)
  moreover have "events_of n = events_of n'" using assms(3) by (simp add: events_of_def)
  ultimately show ?thesis by (rule view_determined)
qed

text \<open>The first node of the concrete run applied a proposal of the memory and then the forget, the second the
  forget and then the proposal, which it suppressed.\<close>

theorem journal_determines_view_witness:
  "\<exists>a b r. sample_after = Some (a, b, r) \<and> map je_id (sn_outbox a) = [''a:1'', ''a:2'', ''a:3'']
     \<and> map je_id (sn_outbox b) = [''b:1'', ''b:2'', ''b:3'']
     \<and> sn_suppressed a = 0 \<and> sn_suppressed b = 1 \<and> map fst (sn_tombstones a) = [''m'']
     \<and> sn_memories a = sn_memories b \<and> sn_tombstones a = sn_tombstones b \<and> state_digest a = state_digest b"
proof -
  have "map_option (\<lambda>(a, b, r). map je_id (sn_outbox a) = [''a:1'', ''a:2'', ''a:3'']
     \<and> map je_id (sn_outbox b) = [''b:1'', ''b:2'', ''b:3''] \<and> sn_suppressed a = 0 \<and> sn_suppressed b = 1
     \<and> map fst (sn_tombstones a) = [''m''] \<and> sn_applied a = sn_applied b) sample_after = Some True" by code_simp
  then obtain a b r where r: "sample_after = Some (a, b, r)" "map je_id (sn_outbox a) = [''a:1'', ''a:2'', ''a:3'']
     \<and> map je_id (sn_outbox b) = [''b:1'', ''b:2'', ''b:3''] \<and> sn_suppressed a = 0 \<and> sn_suppressed b = 1
     \<and> map fst (sn_tombstones a) = [''m'']" "sn_applied a = sn_applied b" by auto
  then show ?thesis
    using journal_determines_view[OF sample_after_reach[OF r(1)] r(3)] sample_after_agree[OF r(1)]
    by (intro exI[of _ a] exI[of _ b] exI[of _ r]) simp
qed

section \<open>Bucket names\<close>

text \<open>The name of a bucket does not determine its two ends: devices whose labels contain the separator may
  share one bucket for both directions, which the properties above exclude by hypothesis.\<close>

theorem inbox_ambiguous: "inbox ''x'' ''x-from-x'' = inbox ''x-from-x'' ''x''"
  by (simp add: inbox_def)

end
