(* ===== verification/Acp_Wire.thy ===== *)
theory Acp_Wire
  imports Protocol_Event "HOL-Library.Monad_Syntax"
begin

text \<open>
  The stream of an agent process, \<open>crates/altior-acp/src/wire.rs\<close> and \<open>error.rs\<close>: newline-delimited JSON-RPC
  lines, their incremental decoder and the classification of messages.

  JSON texts are parsed and printed by serde_json, a pair of functions here (\<open>acp_json\<close>); objects are
  written with their keys in order, as its maps keep them. The first section has what serde's derived
  decoders accept: a struct comes from an object, unknown keys ignored, or from an array of its fields in
  order; a variant without fields from its name or from an object of the name and \<open>null\<close>. Their failures
  are \<open>None\<close> and become \<open>MalformedJson\<close>, a \<open>MalformedMessage\<close> with serde's text.
\<close>

section \<open>Derived decoders\<close>

definition serde_struct :: "nat \<Rightarrow> json \<Rightarrow> unit option" where
  "serde_struct n v =
     (case v of JObj _ \<Rightarrow> Some () | JArr xs \<Rightarrow> if length xs \<le> n then Some () else None | _ \<Rightarrow> None)"

definition serde_get :: "nat \<Rightarrow> string \<Rightarrow> json \<Rightarrow> json option" where
  "serde_get i key v =
     (case v of
        JObj kvs \<Rightarrow> map_of kvs key
      | JArr xs \<Rightarrow> if i < length xs then Some (xs ! i) else None
      | _ \<Rightarrow> None)"

definition serde_str :: "json \<Rightarrow> string option" where
  "serde_str v = (case v of JStr s \<Rightarrow> Some s | _ \<Rightarrow> None)"

definition serde_bool :: "json \<Rightarrow> bool option" where
  "serde_bool v = (case v of JBool b \<Rightarrow> Some b | _ \<Rightarrow> None)"

definition serde_u16 :: "json \<Rightarrow> nat option" where
  "serde_u16 v = (case v of JPosInt n \<Rightarrow> if unat n < 65536 then Some (unat n) else None | _ \<Rightarrow> None)"

definition serde_i64 :: "json \<Rightarrow> int option" where
  "serde_i64 v =
     (case v of
        JPosInt n \<Rightarrow> if unat n < 2 ^ 63 then Some (int (unat n)) else None
      | JNegInt i \<Rightarrow> if - (2 ^ 63) \<le> i then Some i else None
      | _ \<Rightarrow> None)"

text \<open>\<open>#[serde(default)]\<close> and \<open>Option\<close> fields.\<close>

definition serde_default :: "'a \<Rightarrow> (json \<Rightarrow> 'a option) \<Rightarrow> json option \<Rightarrow> 'a option" where
  "serde_default d f v = (case v of None \<Rightarrow> Some d | Some j \<Rightarrow> f j)"

definition serde_option :: "(json \<Rightarrow> 'a option) \<Rightarrow> json option \<Rightarrow> 'a option option" where
  "serde_option f v =
     (case v of None \<Rightarrow> Some None | Some JNull \<Rightarrow> Some None | Some j \<Rightarrow> map_option Some (f j))"

definition serde_variant :: "(string \<times> 'a) list \<Rightarrow> json \<Rightarrow> 'a option" where
  "serde_variant names v =
     (case v of
        JStr s \<Rightarrow> map_of names s
      | JObj [(s, JNull)] \<Rightarrow> map_of names s
      | _ \<Rightarrow> None)"

fun serde_list :: "(json \<Rightarrow> 'a option) \<Rightarrow> json list \<Rightarrow> 'a list option" where
  "serde_list f [] = Some []"
| "serde_list f (v # vs) = do { x \<leftarrow> f v; xs \<leftarrow> serde_list f vs; Some (x # xs) }"

definition serde_vec :: "(json \<Rightarrow> 'a option) \<Rightarrow> json \<Rightarrow> 'a list option" where
  "serde_vec f v = (case v of JArr xs \<Rightarrow> serde_list f xs | _ \<Rightarrow> None)"

section \<open>Messages\<close>

datatype acp_error =
    MalformedMessage string
  | MalformedJson
  | LineTooLarge nat nat
  | LineNotUtf8
  | RpcFailed int string
  | ProcessExited string
  | OutOfOrder string
  | ProcessSpawnFailed string string
  | AcpIo string
  | UnexpectedEof string
  | Unsupported string
  | InvalidConfig string
  | SecretResolutionFailed string string
  | AcpCancelled

datatype rpc_id = IdNumber u64 | IdText string

text \<open>The code is an \<open>i64\<close>.\<close>

record rpc_error =
  re_code :: int
  re_message :: string

datatype rpc_message =
    RpcRequest rpc_id string json
  | RpcNotification string json
  | RpcResponse rpc_id json
  | RpcErrorResponse rpc_id rpc_error

record acp_json =
  json_print :: "json \<Rightarrow> string"
  json_parse :: "string \<Rightarrow> json option"

definition serde :: "'a option \<Rightarrow> (acp_error, 'a) result" where
  "serde v = (case v of None \<Rightarrow> Err MalformedJson | Some x \<Rightarrow> Okay x)"

definition malformed :: acp_error where
  "malformed = MalformedMessage ''message is neither request, notification, nor response''"

definition decode_id :: "json \<Rightarrow> (acp_error, rpc_id) result" where
  "decode_id v =
     (case v of
        JPosInt n \<Rightarrow> Okay (IdNumber n)
      | JNegInt _ \<Rightarrow> Err (MalformedMessage ''request id is not an unsigned number'')
      | JFloat _ \<Rightarrow> Err (MalformedMessage ''request id is not an unsigned number'')
      | JStr t \<Rightarrow> Okay (IdText t)
      | _ \<Rightarrow> Err (MalformedMessage ''request id is neither number nor string''))"

definition rpc_error_from :: "json \<Rightarrow> rpc_error option" where
  "rpc_error_from v = do {
     serde_struct 2 v;
     c \<leftarrow> serde_get 0 ''code'' v \<bind> serde_i64;
     m \<leftarrow> serde_get 1 ''message'' v \<bind> serde_str;
     Some \<lparr>re_code = c, re_message = m\<rparr>
   }"

definition or_null :: "json option \<Rightarrow> json" where
  "or_null v = (case v of None \<Rightarrow> JNull | Some j \<Rightarrow> j)"

definition decode_object :: "(string \<times> json) list \<Rightarrow> (acp_error, rpc_message) result" where
  "decode_object obj =
     (if Option.bind (map_of obj ''jsonrpc'') json_as_str \<noteq> Some ''2.0''
      then Err (MalformedMessage ''message is not jsonrpc 2.0'')
      else
        and_then (case map_of obj ''id'' of None \<Rightarrow> Okay None | Some v \<Rightarrow> map_sum id Some (decode_id v)) (\<lambda>i.
        (case (map_of obj ''method'', i) of
           (Some m, Some i) \<Rightarrow>
             (case json_as_str m of
                None \<Rightarrow> Err malformed
              | Some name \<Rightarrow> Okay (RpcRequest i name (or_null (map_of obj ''params''))))
         | (Some m, None) \<Rightarrow>
             (case json_as_str m of
                None \<Rightarrow> Err malformed
              | Some name \<Rightarrow> Okay (RpcNotification name (or_null (map_of obj ''params''))))
         | (None, Some i) \<Rightarrow>
             (case map_of obj ''error'' of
                Some e \<Rightarrow> and_then (serde (rpc_error_from e)) (\<lambda>e. Okay (RpcErrorResponse i e))
              | None \<Rightarrow> Okay (RpcResponse i (or_null (map_of obj ''result''))))
         | (None, None) \<Rightarrow> Err malformed)))"

definition rpc_decode :: "acp_json \<Rightarrow> string \<Rightarrow> (acp_error, rpc_message) result" where
  "rpc_decode J line =
     (case json_parse J line of
        None \<Rightarrow> Err MalformedJson
      | Some (JObj obj) \<Rightarrow> decode_object obj
      | Some _ \<Rightarrow> Err (MalformedMessage ''stream line is not a JSON object''))"

fun id_json :: "rpc_id \<Rightarrow> json" where
  "id_json (IdNumber n) = JPosInt n"
| "id_json (IdText t) = JStr t"

definition int_json :: "int \<Rightarrow> json" where
  "int_json i = (if i < 0 then JNegInt i else JPosInt (word_of_int i))"

fun rpc_value :: "rpc_message \<Rightarrow> json" where
  "rpc_value (RpcRequest i m params) =
     JObj [(''id'', id_json i), (''jsonrpc'', JStr ''2.0''), (''method'', JStr m), (''params'', params)]"
| "rpc_value (RpcNotification m params) =
     JObj [(''jsonrpc'', JStr ''2.0''), (''method'', JStr m), (''params'', params)]"
| "rpc_value (RpcResponse i res) =
     JObj [(''id'', id_json i), (''jsonrpc'', JStr ''2.0''), (''result'', res)]"
| "rpc_value (RpcErrorResponse i e) =
     JObj [(''error'', JObj [(''code'', int_json (re_code e)), (''message'', JStr (re_message e))]),
       (''id'', id_json i), (''jsonrpc'', JStr ''2.0'')]"

definition rpc_encode :: "acp_json \<Rightarrow> rpc_message \<Rightarrow> string" where
  "rpc_encode J m = json_print J (rpc_value m)"

fun describes :: "rpc_message \<Rightarrow> string" where
  "describes (RpcRequest _ m _) = m"
| "describes (RpcNotification m _) = m"
| "describes (RpcResponse _ _) = ''response''"
| "describes (RpcErrorResponse _ _) = ''response''"

section \<open>Lines\<close>

definition newline :: char where
  "newline = CHR 0x0A"

definition max_line_bytes :: nat where
  "max_line_bytes = 1024 * 1024"

definition encode_line :: "string \<Rightarrow> (acp_error, string) result" where
  "encode_line line =
     (if length line + 1 > max_line_bytes then Err (LineTooLarge (length line + 1) max_line_bytes)
      else Okay (line @ [newline]))"

text \<open>One round of the loop of \<open>feed\<close>: the decoder is its buffer.\<close>

definition line_next :: "string \<Rightarrow> (acp_error, string option) result \<times> string" where
  "line_next buf =
     (let pre = takeWhile (\<lambda>c. c \<noteq> newline) buf; at = length pre in
      if at = length buf then
        (if length buf > max_line_bytes then (Err (LineTooLarge (length buf) max_line_bytes), buf)
         else (Okay None, buf))
      else if at + 1 > max_line_bytes then (Err (LineTooLarge (at + 1) max_line_bytes), buf)
      else if utf8_valid pre then (Okay (Some pre), drop (at + 1) buf)
      else (Err LineNotUtf8, drop (at + 1) buf))"

lemma line_next_shrinks: "line_next buf = (Okay (Some l), rest) \<Longrightarrow> length rest < length buf"
  by (cases buf) (auto simp: line_next_def Let_def split: if_splits)

function line_all :: "string \<Rightarrow> (acp_error, string list) result \<times> string" where
  "line_all buf =
     (case line_next buf of
        (Inl e, b) \<Rightarrow> (Err e, b)
      | (Inr None, b) \<Rightarrow> (Okay [], b)
      | (Inr (Some l), b) \<Rightarrow>
          (case line_all b of
             (Inl e, b') \<Rightarrow> (Err e, b')
           | (Inr ls, b') \<Rightarrow> (Okay (l # ls), b')))"
  by pat_completeness auto
termination
  by (relation "measure length") (auto dest: line_next_shrinks[OF sym])

declare line_all.simps [simp del]

definition line_feed :: "string \<Rightarrow> string \<Rightarrow> (acp_error, string list) result \<times> string" where
  "line_feed buf chunk = line_all (buf @ chunk)"

section \<open>Lemmas\<close>

lemma line_next_split:
  "newline \<notin> set pre \<Longrightarrow> line_next (pre @ newline # post) =
     (if length pre + 1 > max_line_bytes then (Err (LineTooLarge (length pre + 1) max_line_bytes), pre @ newline # post)
      else if utf8_valid pre then (Okay (Some pre), post) else (Err LineNotUtf8, post))"
proof -
  assume "newline \<notin> set pre"
  then have "takeWhile (\<lambda>c. c \<noteq> newline) (pre @ newline # post) = pre" by (auto simp: takeWhile_append)
  then show ?thesis unfolding line_next_def Let_def by simp
qed

lemma line_next_open:
  "newline \<notin> set buf \<Longrightarrow> line_next buf =
     (if length buf > max_line_bytes then (Err (LineTooLarge (length buf) max_line_bytes), buf) else (Okay None, buf))"
proof -
  assume "newline \<notin> set buf"
  then have "length (takeWhile (\<lambda>c. c \<noteq> newline) buf) = length buf" by (induction buf) auto
  then show ?thesis unfolding line_next_def Let_def by simp
qed

lemma line_cases:
  obtains "newline \<notin> set buf" | pre post where "buf = pre @ newline # post" "newline \<notin> set pre"
  by (metis split_list_first)

lemma line_next_append:
  assumes "line_next buf = (Okay (Some l), b)"
  shows "line_next (buf @ ext) = (Okay (Some l), b @ ext)"
proof (cases buf rule: line_cases)
  case 1
  then show ?thesis using assms by (simp add: line_next_open split: if_splits)
next
  case (2 pre post)
  then show ?thesis using assms line_next_split[of pre post] line_next_split[of pre "post @ ext"]
    by (auto split: if_splits)
qed

lemma line_next_append_err:
  assumes "line_next buf = (Err e, b)"
  shows "isl (fst (line_next (buf @ ext)))"
proof (cases buf rule: line_cases)
  case 1
  then have big: "length buf > max_line_bytes" using assms by (simp add: line_next_open split: if_splits)
  show ?thesis
  proof (cases ext rule: line_cases)
    case 1
    then show ?thesis using big \<open>newline \<notin> set buf\<close> by (simp add: line_next_open)
  next
    case (2 pre post)
    then show ?thesis using big \<open>newline \<notin> set buf\<close> line_next_split[of "buf @ pre" post] by simp
  qed
next
  case (2 pre post)
  then show ?thesis using assms line_next_split[of pre post] line_next_split[of pre "post @ ext"]
    by (auto split: if_splits)
qed

interpretation line_decoder: chunked_decoder line_next line_all
proof
  show "line_all buf = (case line_next buf of
         (Inl e, b) \<Rightarrow> (Err e, b)
       | (Inr None, b) \<Rightarrow> (Okay [], b)
       | (Inr (Some x), b) \<Rightarrow>
           (case line_all b of (Inl e, b') \<Rightarrow> (Err e, b') | (Inr xs, b') \<Rightarrow> (Okay (x # xs), b')))" for buf
    by (rule line_all.simps)
  show "line_next buf = (Okay None, b) \<Longrightarrow> b = buf" for buf b
    by (auto simp: line_next_def Let_def split: if_splits)
qed (use line_next_shrinks line_next_append line_next_append_err in auto)

lemma line_next_encoded:
  assumes "encode_line l = Okay s" "newline \<notin> set l" "utf8_valid l"
  shows "line_next (s @ rest) = (Okay (Some l), rest)"
proof -
  have s: "s = l @ [newline]" "length l + 1 \<le> max_line_bytes"
    using assms(1) by (auto simp: encode_line_def split: if_splits)
  then show ?thesis using line_next_split[OF assms(2), of rest] assms(3) by simp
qed

lemma line_all_encoded:
  "list_all2 (\<lambda>l s. encode_line l = Okay s) ls ss \<Longrightarrow> \<forall>l\<in>set ls. newline \<notin> set l \<and> utf8_valid l \<Longrightarrow>
   line_all (concat ss) = (Okay ls, [])"
proof (induction rule: list_all2_induct)
  case Nil
  then show ?case by (simp add: line_all.simps line_next_def)
next
  case (Cons l ls s ss)
  then show ?case using line_next_encoded[of l s "concat ss"] by (subst line_all.simps) simp
qed

text \<open>What the RPC layer needs of the JSON text layer on the values it prints: the text is one line of UTF-8
  that parses back to the value.\<close>

definition json_faithful :: "acp_json \<Rightarrow> json set \<Rightarrow> bool" where
  "json_faithful J V \<longleftrightarrow> (\<forall>v\<in>V. json_parse J (json_print J v) = Some v \<and> newline \<notin> set (json_print J v)
     \<and> utf8_valid (json_print J v))"

fun rpc_wf :: "rpc_message \<Rightarrow> bool" where
  "rpc_wf (RpcErrorResponse _ e) \<longleftrightarrow> - (2 ^ 63) \<le> re_code e \<and> re_code e < 2 ^ 63"
| "rpc_wf _ \<longleftrightarrow> True"

lemma decode_id_json [simp]: "decode_id (id_json i) = Okay i"
  by (cases i) (simp_all add: decode_id_def)

lemma serde_int_json: "- (2 ^ 63) \<le> i \<Longrightarrow> i < 2 ^ 63 \<Longrightarrow> serde_i64 (int_json i) = Some i"
proof -
  assume i: "- (2 ^ 63) \<le> i" "i < 2 ^ 63"
  have "unat (word_of_int i :: u64) = nat i" if "0 \<le> i"
    using that i by (simp add: unat_eq_nat_uint uint_word_of_int)
  then show ?thesis using i by (auto simp: int_json_def serde_i64_def nat_less_iff)
qed

lemma decode_value:
  assumes "rpc_wf m"
  shows "\<exists>obj. rpc_value m = JObj obj \<and> decode_object obj = Okay m"
proof (cases m)
  case (RpcErrorResponse i e)
  then have "rpc_error_from (JObj [(''code'', int_json (re_code e)), (''message'', JStr (re_message e))]) = Some e"
    using assms serde_int_json[of "re_code e"]
    by (simp add: rpc_error_from_def serde_struct_def serde_get_def serde_str_def)
  then show ?thesis using RpcErrorResponse by (simp add: decode_object_def json_as_str_def and_then_def serde_def)
qed (simp_all add: decode_object_def json_as_str_def and_then_def or_null_def)

lemma rpc_roundtrip: "json_faithful J V \<Longrightarrow> rpc_value m \<in> V \<Longrightarrow> rpc_wf m \<Longrightarrow> rpc_decode J (rpc_encode J m) = Okay m"
  using decode_value[of m] by (auto simp: rpc_decode_def rpc_encode_def json_faithful_def)

lemma line_all_open:
  "newline \<notin> set buf \<Longrightarrow> line_all buf =
     (if length buf > max_line_bytes then (Err (LineTooLarge (length buf) max_line_bytes), buf) else (Okay [], buf))"
  by (subst line_all.simps) (simp add: line_next_open)

lemma line_all_split:
  "newline \<notin> set pre \<Longrightarrow> line_all (pre @ newline # post) =
     (if length pre + 1 > max_line_bytes then (Err (LineTooLarge (length pre + 1) max_line_bytes), pre @ newline # post)
      else if utf8_valid pre then
        (case line_all post of (Inl e, b) \<Rightarrow> (Err e, b) | (Inr ls, b) \<Rightarrow> (Okay (pre # ls), b))
      else (Err LineNotUtf8, post))"
  by (subst line_all.simps) (simp add: line_next_split)

lemma line_induct [case_names open_line split_line]:
  assumes "\<And>buf. newline \<notin> set buf \<Longrightarrow> P buf"
    and "\<And>pre post. newline \<notin> set pre \<Longrightarrow> P post \<Longrightarrow> P (pre @ newline # post)"
  shows "P buf"
proof (induction "length buf" arbitrary: buf rule: less_induct)
  case less
  show ?case
    by (cases buf rule: line_cases) (use assms less in auto)
qed

lemma line_all_bounded:
  "line_all buf = (Okay ls, b) \<Longrightarrow> list_all (\<lambda>l. length l < max_line_bytes \<and> newline \<notin> set l \<and> utf8_valid l) ls"
  by (induction buf arbitrary: ls rule: line_induct)
    (auto simp: line_all_open line_all_split split: if_splits prod.splits sum.splits)

lemma line_all_error:
  "line_all buf = (Err e, b) \<Longrightarrow> e = LineNotUtf8 \<or> (\<exists>n k. e = LineTooLarge n max_line_bytes \<and> max_line_bytes < n
     \<and> line_next b = (Err (LineTooLarge k max_line_bytes), b))"
  by (induction buf rule: line_induct)
    (auto simp: line_all_open line_all_split line_next_open line_next_split split: if_splits prod.splits sum.splits)

lemma line_poisoned:
  assumes "line_next b = (Err (LineTooLarge k max_line_bytes), b)"
  shows "\<exists>k'. line_next (b @ c) = (Err (LineTooLarge k' max_line_bytes), b @ c)"
proof (cases b rule: line_cases)
  case 1
  then have big: "length b > max_line_bytes" using assms by (simp add: line_next_open split: if_splits)
  show ?thesis
  proof (cases c rule: line_cases)
    case 1
    then show ?thesis using big \<open>newline \<notin> set b\<close> by (simp add: line_next_open)
  next
    case (2 pre post)
    then show ?thesis using big \<open>newline \<notin> set b\<close> line_next_split[of "b @ pre" post] by simp
  qed
next
  case (2 pre post)
  then show ?thesis using assms line_next_split[of pre post] line_next_split[of pre "post @ c"]
    by (auto split: if_splits)
qed

section \<open>Properties\<close>

text \<open>Messages survive the stream. Messages whose lines are within the cap, written one after the
  other, are read back in order however the pipe cuts the bytes into chunks, and nothing is left over.\<close>

theorem agent_messages_survive_stream:
  assumes "json_faithful J (rpc_value ` set ms)" "\<forall>m\<in>set ms. rpc_wf m"
    and "map (\<lambda>m. encode_line (rpc_encode J m)) ms = map Okay ss" "concat cs = concat ss"
  shows "\<exists>lss. try_all line_feed [] cs = (Okay lss, []) \<and> map (rpc_decode J) (concat lss) = map Okay ms"
proof -
  let ?ls = "map (rpc_encode J) ms"
  have "list_all2 (\<lambda>l s. encode_line l = Okay s) ?ls ss"
    using assms(3) by (simp add: list_all2_conv_all_nth list_eq_iff_nth_eq)
  moreover have "\<forall>l\<in>set ?ls. newline \<notin> set l \<and> utf8_valid l"
    using assms(1) by (auto simp: json_faithful_def rpc_encode_def)
  ultimately have "line_all ([] @ concat cs) = (Okay ?ls, [])" using line_all_encoded assms(4) by simp
  moreover have "line_next [] = (Okay None, [])" by (simp add: line_next_def)
  ultimately obtain lss where "try_all (\<lambda>bu c. line_all (bu @ c)) [] cs = (Okay lss, [])" "concat lss = ?ls"
    using line_decoder.chunks by blast
  moreover have "line_feed = (\<lambda>bu c. line_all (bu @ c))" by (simp add: fun_eq_iff line_feed_def)
  moreover have "map (rpc_decode J) ?ls = map Okay ms"
    using assms(1,2) rpc_roundtrip[of J "rpc_value ` set ms"] by simp
  ultimately show ?thesis by simp
qed

definition sample_json :: "json list \<Rightarrow> acp_json" where
  "sample_json vs = \<lparr>json_print = (\<lambda>v. if v = vs ! 0 then ''a'' else ''b''),
     json_parse = (\<lambda>t. if t = ''a'' then Some (vs ! 0) else if t = ''b'' then Some (vs ! 1) else None)\<rparr>"

theorem agent_messages_survive_stream_witness:
  "let ms = [RpcRequest (IdNumber 1) ''session/prompt'' JNull, RpcErrorResponse (IdText ''x'') \<lparr>re_code = - 32601, re_message = ''no''\<rparr>];
       J = sample_json (map rpc_value ms)
   in \<exists>lss. try_all line_feed [] [[CHR ''a''], [CHR 0x0A, CHR ''b''], [CHR 0x0A]] = (Okay lss, [])
        \<and> map (rpc_decode J) (concat lss) = map Okay ms"
proof -
  let ?ms = "[RpcRequest (IdNumber 1) ''session/prompt'' JNull, RpcErrorResponse (IdText ''x'') \<lparr>re_code = - 32601, re_message = ''no''\<rparr>]"
  let ?J = "sample_json (map rpc_value ?ms)"
  have "\<exists>lss. try_all line_feed [] [[CHR ''a''], [CHR 0x0A, CHR ''b''], [CHR 0x0A]] = (Okay lss, [])
        \<and> map (rpc_decode ?J) (concat lss) = map Okay ?ms"
  proof (rule agent_messages_survive_stream[where ss = "[[CHR ''a'', CHR 0x0A], [CHR ''b'', CHR 0x0A]]"])
    show "json_faithful ?J (rpc_value ` set ?ms)"
      by (simp add: json_faithful_def sample_json_def newline_def byte_in_def)
    show "map (\<lambda>m. encode_line (rpc_encode ?J m)) ?ms = map Okay [[CHR ''a'', CHR 0x0A], [CHR ''b'', CHR 0x0A]]"
      by (simp add: encode_line_def rpc_encode_def sample_json_def newline_def max_line_bytes_def)
  qed simp_all
  then show ?thesis unfolding Let_def .
qed

text \<open>The cap on lines is enforced for good. Lines handed out are valid UTF-8 below the cap, and what stays in
  the buffer is no complete line and within the cap; once a line exceeded the cap, every later chunk is refused
  with the same kind of error.\<close>

theorem line_cap_enforced:
  "case line_feed buf chunk of
     (Inr ls, b) \<Rightarrow> list_all (\<lambda>l. length l < max_line_bytes \<and> newline \<notin> set l \<and> utf8_valid l) ls
       \<and> newline \<notin> set b \<and> length b \<le> max_line_bytes
   | (Inl (LineTooLarge n m), b) \<Rightarrow> m = max_line_bytes \<and> max_line_bytes < n
       \<and> (\<forall>c. \<exists>k. line_feed b c = (Err (LineTooLarge k max_line_bytes), b @ c))
   | (Inl e, b) \<Rightarrow> e = LineNotUtf8"
proof -
  obtain r b where d: "line_all (buf @ chunk) = (r, b)" by fastforce
  show ?thesis
  proof (cases r)
    case (Inr ls)
    then have "line_next b = (Okay None, b)" using d line_decoder.items_rest by blast
    then have "newline \<notin> set b \<and> length b \<le> max_line_bytes"
      using line_next_split line_next_open
      by (cases b rule: line_cases) (auto split: if_splits)
    then show ?thesis using d Inr line_all_bounded[of "buf @ chunk"] by (simp add: line_feed_def)
  next
    case (Inl e)
    then consider "e = LineNotUtf8" | n k where "e = LineTooLarge n max_line_bytes" "max_line_bytes < n"
      "line_next b = (Err (LineTooLarge k max_line_bytes), b)"
      using line_all_error[of "buf @ chunk" e b] d by blast
    then show ?thesis
    proof cases
      case 1
      then show ?thesis using d Inl by (simp add: line_feed_def)
    next
      case (2 n k)
      have "\<exists>k. line_all (b @ c) = (Err (LineTooLarge k max_line_bytes), b @ c)" for c
        using line_poisoned[OF 2(3), of c] by (subst line_all.simps) auto
      then show ?thesis using d Inl 2 by (simp add: line_feed_def)
    qed
  qed
qed

text \<open>A line that is not UTF-8 is reported and taken off the buffer: the decoder goes on with the next line.\<close>

theorem bad_utf8_does_not_poison:
  "line_feed [] [CHR 0xFF, CHR 0x0A] = (Err LineNotUtf8, []) \<and> line_feed [] [CHR ''x'', CHR 0x0A] = (Okay [''x''], [])"
  by (simp add: line_feed_def line_all.simps line_next_def newline_def max_line_bytes_def byte_in_def)

end
