(* ===== verification/Acp_Model.thy ===== *)
theory Acp_Model
  imports Acp_Wire Rust_Text
begin

text \<open>
  The agent client of \<open>crates/altior-acp\<close> apart from its stream: the message shapes of \<open>messages.rs\<close>, the
  normalisation of \<open>mapping.rs\<close>, the negotiation of \<open>negotiation.rs\<close>, the request builders of
  \<open>requests.rs\<close>, the delivery tracker of \<open>delivery.rs\<close> and the process lifecycle of \<open>lifecycle.rs\<close>.
\<close>

section \<open>Message shapes\<close>

record implementation =
  im_name :: string
  im_version :: "string option"

record prompt_capabilities =
  pcap_image :: bool
  pcap_audio :: bool
  pcap_embedded :: bool

record session_capabilities =
  scap_resume :: bool
  scap_steer :: bool

record agent_capabilities =
  ac_load_session :: bool
  ac_prompt :: prompt_capabilities
  ac_session :: session_capabilities
  ac_steer :: bool

record initialize_result =
  ir_protocol_version :: nat
  ir_agent_capabilities :: agent_capabilities
  ir_agent_info :: "implementation option"

definition prompt_capabilities_default :: prompt_capabilities where
  "prompt_capabilities_default = \<lparr>pcap_image = False, pcap_audio = False, pcap_embedded = False\<rparr>"

definition session_capabilities_default :: session_capabilities where
  "session_capabilities_default = \<lparr>scap_resume = False, scap_steer = False\<rparr>"

definition no_capabilities :: agent_capabilities where
  "no_capabilities = \<lparr>ac_load_session = False, ac_prompt = prompt_capabilities_default,
     ac_session = session_capabilities_default, ac_steer = False\<rparr>"

definition prompt_capabilities_from :: "json \<Rightarrow> prompt_capabilities option" where
  "prompt_capabilities_from v = do {
     serde_struct 3 v;
     i \<leftarrow> serde_default False serde_bool (serde_get 0 ''image'' v);
     a \<leftarrow> serde_default False serde_bool (serde_get 1 ''audio'' v);
     e \<leftarrow> serde_default False serde_bool (serde_get 2 ''embeddedContext'' v);
     Some \<lparr>pcap_image = i, pcap_audio = a, pcap_embedded = e\<rparr>
   }"

definition session_capabilities_from :: "json \<Rightarrow> session_capabilities option" where
  "session_capabilities_from v = do {
     serde_struct 2 v;
     r \<leftarrow> serde_default False serde_bool (serde_get 0 ''resume'' v);
     s \<leftarrow> serde_default False serde_bool (serde_get 1 ''steer'' v);
     Some \<lparr>scap_resume = r, scap_steer = s\<rparr>
   }"

definition agent_capabilities_from :: "json \<Rightarrow> agent_capabilities option" where
  "agent_capabilities_from v = do {
     serde_struct 4 v;
     l \<leftarrow> serde_default False serde_bool (serde_get 0 ''loadSession'' v);
     p \<leftarrow> serde_default prompt_capabilities_default prompt_capabilities_from (serde_get 1 ''promptCapabilities'' v);
     c \<leftarrow> serde_default session_capabilities_default session_capabilities_from (serde_get 2 ''sessionCapabilities'' v);
     s \<leftarrow> serde_default False serde_bool (serde_get 3 ''steer'' v);
     Some \<lparr>ac_load_session = l, ac_prompt = p, ac_session = c, ac_steer = s\<rparr>
   }"

definition implementation_from :: "json \<Rightarrow> implementation option" where
  "implementation_from v = do {
     serde_struct 2 v;
     n \<leftarrow> serde_get 0 ''name'' v \<bind> serde_str;
     ver \<leftarrow> serde_option serde_str (serde_get 1 ''version'' v);
     Some \<lparr>im_name = n, im_version = ver\<rparr>
   }"

definition initialize_result_from :: "json \<Rightarrow> initialize_result option" where
  "initialize_result_from v = do {
     serde_struct 3 v;
     p \<leftarrow> serde_get 0 ''protocolVersion'' v \<bind> serde_u16;
     c \<leftarrow> serde_default no_capabilities agent_capabilities_from (serde_get 1 ''agentCapabilities'' v);
     i \<leftarrow> serde_option implementation_from (serde_get 2 ''agentInfo'' v);
     Some \<lparr>ir_protocol_version = p, ir_agent_capabilities = c, ir_agent_info = i\<rparr>
   }"

definition new_session_result_from :: "json \<Rightarrow> string option" where
  "new_session_result_from v = do { serde_struct 1 v; serde_get 0 ''sessionId'' v \<bind> serde_str }"

datatype content_block =
    TextBlock string
  | ResourceLink string string
  | ImageBlock string string
  | AudioBlock string string
  | ResourceBlock json

text \<open>An internally tagged enum: the tag is a key of the object or the first entry of the array, the fields
  are the rest.\<close>

definition serde_tag :: "json \<Rightarrow> (string \<times> json) option" where
  "serde_tag v =
     (case v of
        JObj kvs \<Rightarrow> map_option (\<lambda>t. (t, JObj (filter (\<lambda>(k, _). k \<noteq> ''type'') kvs))) (map_of kvs ''type'' \<bind> serde_str)
      | JArr (t # xs) \<Rightarrow> map_option (\<lambda>t. (t, JArr xs)) (serde_str t)
      | _ \<Rightarrow> None)"

definition content_block_from :: "json \<Rightarrow> content_block option" where
  "content_block_from v = do {
     (t, w) \<leftarrow> serde_tag v;
     if t = ''text'' then do {
       serde_struct 1 w; x \<leftarrow> serde_get 0 ''text'' w \<bind> serde_str; Some (TextBlock x) }
     else if t = ''resource_link'' then do {
       serde_struct 2 w;
       u \<leftarrow> serde_get 0 ''uri'' w \<bind> serde_str; n \<leftarrow> serde_get 1 ''name'' w \<bind> serde_str; Some (ResourceLink u n) }
     else if t = ''image'' then do {
       serde_struct 2 w;
       d \<leftarrow> serde_get 0 ''data'' w \<bind> serde_str; m \<leftarrow> serde_get 1 ''mimeType'' w \<bind> serde_str; Some (ImageBlock d m) }
     else if t = ''audio'' then do {
       serde_struct 2 w;
       d \<leftarrow> serde_get 0 ''data'' w \<bind> serde_str; m \<leftarrow> serde_get 1 ''mimeType'' w \<bind> serde_str; Some (AudioBlock d m) }
     else if t = ''resource'' then do {
       serde_struct 1 w; x \<leftarrow> serde_get 0 ''resource'' w; Some (ResourceBlock x) }
     else None
   }"

fun content_block_json :: "content_block \<Rightarrow> json" where
  "content_block_json (TextBlock x) = JObj [(''text'', JStr x), (''type'', JStr ''text'')]"
| "content_block_json (ResourceLink u n) =
     JObj [(''name'', JStr n), (''type'', JStr ''resource_link''), (''uri'', JStr u)]"
| "content_block_json (ImageBlock d m) =
     JObj [(''data'', JStr d), (''mimeType'', JStr m), (''type'', JStr ''image'')]"
| "content_block_json (AudioBlock d m) =
     JObj [(''data'', JStr d), (''mimeType'', JStr m), (''type'', JStr ''audio'')]"
| "content_block_json (ResourceBlock x) = JObj [(''resource'', x), (''type'', JStr ''resource'')]"

datatype stop_reason = EndTurn | MaxTokens | MaxTurnRequests | Refusal | StopCancelled

definition is_success :: "stop_reason \<Rightarrow> bool" where
  "is_success r \<longleftrightarrow> r = EndTurn \<or> r = StopCancelled"

fun stop_reason_name :: "stop_reason \<Rightarrow> string" where
  "stop_reason_name EndTurn = ''end_turn''"
| "stop_reason_name MaxTokens = ''max_tokens''"
| "stop_reason_name MaxTurnRequests = ''max_turn_requests''"
| "stop_reason_name Refusal = ''refusal''"
| "stop_reason_name StopCancelled = ''cancelled''"

definition stop_reason_from :: "json \<Rightarrow> stop_reason option" where
  "stop_reason_from = serde_variant
     (map (\<lambda>r. (stop_reason_name r, r)) [EndTurn, MaxTokens, MaxTurnRequests, Refusal, StopCancelled])"

definition prompt_result_from :: "json \<Rightarrow> stop_reason option" where
  "prompt_result_from v = do { serde_struct 1 v; serde_get 0 ''stopReason'' v \<bind> stop_reason_from }"

datatype tool_call_status = ToolPending | ToolInProgress | ToolCompleted | ToolFailed

fun tool_status_name :: "tool_call_status \<Rightarrow> string" where
  "tool_status_name ToolPending = ''pending''"
| "tool_status_name ToolInProgress = ''in_progress''"
| "tool_status_name ToolCompleted = ''completed''"
| "tool_status_name ToolFailed = ''failed''"

definition tool_status_from :: "json \<Rightarrow> tool_call_status option" where
  "tool_status_from = serde_variant
     (map (\<lambda>s. (tool_status_name s, s)) [ToolPending, ToolInProgress, ToolCompleted, ToolFailed])"

record tool_call_update =
  tc_id :: string
  tc_status :: "tool_call_status option"

definition tool_call_update_from :: "json \<Rightarrow> tool_call_update option" where
  "tool_call_update_from v = do {
     serde_struct 2 v;
     i \<leftarrow> serde_get 0 ''toolCallId'' v \<bind> serde_str;
     s \<leftarrow> serde_option tool_status_from (serde_get 1 ''status'' v);
     Some \<lparr>tc_id = i, tc_status = s\<rparr>
   }"

record content_chunk =
  cc_content :: content_block
  cc_message_id :: "string option"

definition content_chunk_from :: "json \<Rightarrow> content_chunk option" where
  "content_chunk_from v = do {
     serde_struct 2 v;
     c \<leftarrow> serde_get 0 ''content'' v \<bind> content_block_from;
     m \<leftarrow> serde_option serde_str (serde_get 1 ''messageId'' v);
     Some \<lparr>cc_content = c, cc_message_id = m\<rparr>
   }"

datatype session_update =
    UserMessageChunk content_chunk
  | AgentMessageChunk content_chunk
  | AgentThoughtChunk content_chunk
  | ToolCallNew tool_call_update
  | ToolCallChanged tool_call_update
  | UpdatePreserved string json

definition session_update_from :: "json \<Rightarrow> (acp_error, session_update) result" where
  "session_update_from update =
     (case json_get update ''sessionUpdate'' \<bind> json_as_str of
        None \<Rightarrow> Err (MalformedMessage ''session/update carries no sessionUpdate kind'')
      | Some kind \<Rightarrow>
          if kind = ''user_message_chunk'' then serde (map_option UserMessageChunk (content_chunk_from update))
          else if kind = ''agent_message_chunk'' then serde (map_option AgentMessageChunk (content_chunk_from update))
          else if kind = ''agent_thought_chunk'' then serde (map_option AgentThoughtChunk (content_chunk_from update))
          else if kind = ''tool_call'' \<or> kind = ''tool_call_update'' then
            and_then (serde (tool_call_update_from update)) (\<lambda>t.
              Okay (if kind = ''tool_call'' then ToolCallNew t else ToolCallChanged t))
          else Okay (UpdatePreserved kind update))"

fun update_kind_name :: "session_update \<Rightarrow> string" where
  "update_kind_name (UserMessageChunk _) = ''user_message_chunk''"
| "update_kind_name (AgentMessageChunk _) = ''agent_message_chunk''"
| "update_kind_name (AgentThoughtChunk _) = ''agent_thought_chunk''"
| "update_kind_name (ToolCallNew _) = ''tool_call''"
| "update_kind_name (ToolCallChanged _) = ''tool_call_update''"
| "update_kind_name (UpdatePreserved kind _) = kind"

record permission_option =
  po_option_id :: string
  po_name :: string

record request_permission_params =
  rp_options :: "permission_option list"
  rp_session_id :: string
  rp_tool_call :: tool_call_update

definition permission_option_from :: "json \<Rightarrow> permission_option option" where
  "permission_option_from v = do {
     serde_struct 2 v;
     i \<leftarrow> serde_get 0 ''optionId'' v \<bind> serde_str;
     n \<leftarrow> serde_get 1 ''name'' v \<bind> serde_str;
     Some \<lparr>po_option_id = i, po_name = n\<rparr>
   }"

definition request_permission_from :: "json \<Rightarrow> request_permission_params option" where
  "request_permission_from v = do {
     serde_struct 3 v;
     os \<leftarrow> serde_get 0 ''options'' v \<bind> serde_vec permission_option_from;
     s \<leftarrow> serde_get 1 ''sessionId'' v \<bind> serde_str;
     t \<leftarrow> serde_get 2 ''toolCall'' v \<bind> tool_call_update_from;
     Some \<lparr>rp_options = os, rp_session_id = s, rp_tool_call = t\<rparr>
   }"

datatype acp_method =
    Initialize | NewSession | LoadSession | Prompt | Steer | Cancel | SessionUpdate | RequestPermission
  | FsReadTextFile | FsWriteTextFile

fun method_name :: "acp_method \<Rightarrow> string" where
  "method_name Initialize = ''initialize''"
| "method_name NewSession = ''session/new''"
| "method_name LoadSession = ''session/load''"
| "method_name Prompt = ''session/prompt''"
| "method_name Steer = ''session/steer''"
| "method_name Cancel = ''session/cancel''"
| "method_name SessionUpdate = ''session/update''"
| "method_name RequestPermission = ''session/request_permission''"
| "method_name FsReadTextFile = ''fs/read_text_file''"
| "method_name FsWriteTextFile = ''fs/write_text_file''"

definition all_methods :: "acp_method list" where
  "all_methods = [Initialize, NewSession, LoadSession, Prompt, Steer, Cancel, SessionUpdate, RequestPermission,
     FsReadTextFile, FsWriteTextFile]"

definition method_parse :: "string \<Rightarrow> acp_method option" where
  "method_parse name = map_of (map (\<lambda>m. (method_name m, m)) all_methods) name"

section \<open>Bounded text\<close>

definition truncation_marker :: string where
  "truncation_marker = [CHR 0xE2, CHR 0x80, CHR 0xA6] @ ''[truncated]''"

definition bounded_diagnostic :: "acp_json \<Rightarrow> json \<Rightarrow> string" where
  "bounded_diagnostic J v =
     (let txt = json_print J v in
      if length txt > diagnostic_cap
      then take (char_boundary txt (diagnostic_cap - length truncation_marker)) txt @ truncation_marker
      else txt)"

definition truncate_to_message :: "string \<Rightarrow> string" where
  "truncate_to_message txt =
     (if length txt \<le> message_cap then txt else take (char_boundary txt message_cap) txt)"

section \<open>Normalisation\<close>

datatype agent_event =
    AeSessionCreated string
  | AeSessionResumed string
  | AeTurnStarted
  | AeDelta string
  | AeToolObserved string "string option"
  | AePermissionRequested string "string option"
  | AeTurnCompleted stop_reason
  | AeTurnFailed string
  | AePreserved string json

fun ae_provider_kind :: "agent_event \<Rightarrow> string" where
  "ae_provider_kind (AeSessionCreated _) = ''acp.session.created''"
| "ae_provider_kind (AeSessionResumed _) = ''acp.session.resumed''"
| "ae_provider_kind AeTurnStarted = ''acp.turn''"
| "ae_provider_kind (AeDelta _) = ''acp.turn''"
| "ae_provider_kind (AeTurnCompleted _) = ''acp.turn''"
| "ae_provider_kind (AeToolObserved _ _) = ''acp.tool''"
| "ae_provider_kind (AePermissionRequested _ _) = ''acp.permission.requested''"
| "ae_provider_kind (AeTurnFailed _) = ''acp.turn.failed''"
| "ae_provider_kind (AePreserved kind _) = kind"

fun ae_raw_json :: "agent_event \<Rightarrow> json" where
  "ae_raw_json (AeSessionCreated i) = JObj [(''sessionId'', JStr i)]"
| "ae_raw_json (AeSessionResumed i) = JObj [(''sessionId'', JStr i)]"
| "ae_raw_json AeTurnStarted = JNull"
| "ae_raw_json (AeDelta txt) = JObj [(''text'', JStr txt)]"
| "ae_raw_json (AeToolObserved i status) = JObj [(''status'', opt_str status), (''toolCallId'', JStr i)]"
| "ae_raw_json (AePermissionRequested i tool) = JObj [(''requestId'', JStr i), (''toolCallId'', opt_str tool)]"
| "ae_raw_json (AeTurnCompleted r) = JObj [(''stopReason'', JStr (stop_reason_name r))]"
| "ae_raw_json (AeTurnFailed d) = JObj [(''diagnostic'', JStr d)]"
| "ae_raw_json (AePreserved _ raw) = raw"

fun to_event_body :: "acp_json \<Rightarrow> agent_event \<Rightarrow> event_body" where
  "to_event_body J (AeSessionCreated i) =
     Unknown ''acp.session.created'' (bounded_diagnostic J (ae_raw_json (AeSessionCreated i)))"
| "to_event_body J (AeSessionResumed i) =
     Unknown ''acp.session.resumed'' (bounded_diagnostic J (ae_raw_json (AeSessionResumed i)))"
| "to_event_body J AeTurnStarted = Known TurnStarted"
| "to_event_body J (AeDelta txt) = Known (MessageDelta (truncate_to_message txt))"
| "to_event_body J (AeToolObserved i status) = Known (ToolCall i status)"
| "to_event_body J (AePermissionRequested i tool) =
     Unknown ''acp.permission.requested''
       (bounded_diagnostic J (JObj [(''requestId'', JStr i), (''toolCallId'', opt_str tool)]))"
| "to_event_body J (AeTurnCompleted r) = Known TurnCompleted"
| "to_event_body J (AeTurnFailed d) =
     Unknown ''acp.turn.failed'' (bounded_diagnostic J (JObj [(''diagnostic'', JStr d)]))"
| "to_event_body J (AePreserved kind raw) = Unknown kind (bounded_diagnostic J raw)"

record normalized_event =
  ne_wire_kind :: string
  ne_event :: agent_event

fun id_text :: "rpc_id \<Rightarrow> string" where
  "id_text (IdNumber n) = show_nat (unat n)"
| "id_text (IdText t) = t"

definition map_stop_reason :: "stop_reason \<Rightarrow> agent_event" where
  "map_stop_reason r =
     (if is_success r then AeTurnCompleted r else AeTurnFailed (''turn stopped: '' @ stop_reason_name r))"

definition map_result :: "json \<Rightarrow> agent_event" where
  "map_result res =
     (case new_session_result_from res of
        Some i \<Rightarrow> AeSessionCreated i
      | None \<Rightarrow>
          (case prompt_result_from res of
             Some r \<Rightarrow> map_stop_reason r
           | None \<Rightarrow> AePreserved ''acp.result.unmapped'' res))"

fun map_update :: "session_update \<Rightarrow> agent_event" where
  "map_update (AgentMessageChunk c) =
     (case cc_content c of
        TextBlock txt \<Rightarrow> AeDelta txt
      | other \<Rightarrow> AePreserved ''acp.content.unmapped'' (JObj [(''content'', content_block_json other)]))"
| "map_update (UserMessageChunk c) =
     (case cc_content c of
        TextBlock txt \<Rightarrow> AePreserved ''acp.user_message'' (JObj [(''text'', JStr txt)])
      | other \<Rightarrow> AePreserved ''acp.content.unmapped'' (JObj [(''content'', content_block_json other)]))"
| "map_update (AgentThoughtChunk c) =
     AePreserved ''acp.agent_thought'' (JObj [(''content'', content_block_json (cc_content c))])"
| "map_update (ToolCallNew t) = AeToolObserved (tc_id t) (map_option tool_status_name (tc_status t))"
| "map_update (ToolCallChanged t) = AeToolObserved (tc_id t) (map_option tool_status_name (tc_status t))"
| "map_update (UpdatePreserved kind raw) = AePreserved (''acp.update.'' @ kind) raw"

fun normalize_message :: "rpc_message \<Rightarrow> (acp_error, normalized_event list) result" where
  "normalize_message (RpcResponse _ res) =
     Okay [\<lparr>ne_wire_kind = ''response'', ne_event = map_result res\<rparr>]"
| "normalize_message (RpcErrorResponse i e) =
     Okay [\<lparr>ne_wire_kind = ''error_response'', ne_event = AePreserved ''acp.failure''
        (JObj [(''code'', int_json (re_code e)), (''id'', JStr (id_text i)), (''message'', JStr (re_message e))])\<rparr>]"
| "normalize_message (RpcRequest i m params) =
     (if m = ''session/request_permission'' then
        and_then (serde (request_permission_from params)) (\<lambda>p.
          Okay [\<lparr>ne_wire_kind = ''session/request_permission'',
                 ne_event = AePermissionRequested (id_text i) (Some (tc_id (rp_tool_call p)))\<rparr>])
      else if m = ''fs/read_text_file'' \<or> m = ''fs/write_text_file'' then
        Okay [\<lparr>ne_wire_kind = m, ne_event = AePreserved ''acp.fs.denied'' (JObj [(''method'', JStr m)])\<rparr>]
      else
        Okay [\<lparr>ne_wire_kind = ''request:'' @ m, ne_event = AePreserved ''acp.request.unmapped''
           (JObj [(''id'', JStr (id_text i)), (''method'', JStr m)])\<rparr>])"
| "normalize_message (RpcNotification m params) =
     (if m = ''session/update'' then
        (case json_get params ''update'' of
           None \<Rightarrow> Err (MalformedMessage ''session/update params carry no update object'')
         | Some u \<Rightarrow> and_then (session_update_from u) (\<lambda>u.
             Okay [\<lparr>ne_wire_kind = ''session/update:'' @ update_kind_name u, ne_event = map_update u\<rparr>]))
      else
        Okay [\<lparr>ne_wire_kind = ''notification:'' @ m,
               ne_event = AePreserved ''acp.notification.unmapped'' (JObj [(''method'', JStr m)])\<rparr>])"

fun normalize_trace :: "acp_json \<Rightarrow> string list \<Rightarrow> (acp_error, normalized_event list) result" where
  "normalize_trace J [] = Okay []"
| "normalize_trace J (l # ls) =
     and_then (rpc_decode J l) (\<lambda>m. and_then (normalize_message m) (\<lambda>es.
     and_then (normalize_trace J ls) (\<lambda>es'. Okay (es @ es'))))"

section \<open>Negotiation\<close>

definition client_protocol_version :: nat where
  "client_protocol_version = 1"

record negotiated_capabilities =
  nc_load_session :: bool
  nc_resume :: bool
  nc_steer :: bool
  nc_prompt :: prompt_capabilities
  nc_agent_protocol_version :: nat

definition may_resume :: "negotiated_capabilities \<Rightarrow> bool" where
  "may_resume c \<longleftrightarrow> nc_load_session c \<or> nc_resume c"

definition negotiate_capabilities :: "initialize_result \<Rightarrow> negotiated_capabilities" where
  "negotiate_capabilities r = (let c = ir_agent_capabilities r in
     \<lparr>nc_load_session = ac_load_session c, nc_resume = scap_resume (ac_session c),
       nc_steer = (ac_steer c \<or> scap_steer (ac_session c)), nc_prompt = ac_prompt c,
       nc_agent_protocol_version = ir_protocol_version r\<rparr>)"

definition initialize_request :: "string \<Rightarrow> json" where
  "initialize_request client_version = JObj
     [(''clientCapabilities'', JObj [(''fs'', JObj [(''readTextFile'', JBool False), (''writeTextFile'', JBool False)])]),
      (''clientInfo'', JObj [(''name'', JStr ''altior''), (''version'', JStr client_version)]),
      (''protocolVersion'', JPosInt (of_nat client_protocol_version))]"

section \<open>Requests\<close>

datatype pending_kind =
    PkInitialize | PkNewSession | PkLoadSession | PkPrompt | PkSteer | PkOther string

type_synonym pending_requests = "(string \<times> (rpc_id \<times> pending_kind)) list"

fun id_key :: "rpc_id \<Rightarrow> string" where
  "id_key (IdNumber n) = ''num:'' @ show_nat (unat n)"
| "id_key (IdText t) = ''txt:'' @ t"

definition pending_insert :: "rpc_id \<Rightarrow> pending_kind \<Rightarrow> pending_requests \<Rightarrow> pending_requests" where
  "pending_insert i k p = bt_insert (id_key i) (i, k) p"

definition pending_get :: "rpc_id \<Rightarrow> pending_requests \<Rightarrow> pending_kind option" where
  "pending_get i p = map_option snd (map_of p (id_key i))"

definition pending_remove :: "rpc_id \<Rightarrow> pending_requests \<Rightarrow> pending_kind option \<times> pending_requests" where
  "pending_remove i p = (pending_get i p, bt_remove (id_key i) p)"

text \<open>A builder is the last number its id source gave out.\<close>

definition allocate :: "u64 \<Rightarrow> rpc_id \<times> u64" where
  "allocate next = (IdNumber (next + 1), next + 1)"

definition build_request :: "string \<Rightarrow> json \<Rightarrow> u64 \<Rightarrow> rpc_id \<times> rpc_message \<times> u64" where
  "build_request m params b = (case allocate b of (i, b') \<Rightarrow> (i, RpcRequest i m params, b'))"

definition build_initialize :: "string \<Rightarrow> u64 \<Rightarrow> rpc_id \<times> rpc_message \<times> u64" where
  "build_initialize client_version = build_request ''initialize'' (initialize_request client_version)"

definition build_new_session :: "string \<Rightarrow> json list \<Rightarrow> u64 \<Rightarrow> rpc_id \<times> rpc_message \<times> u64" where
  "build_new_session cwd servers =
     build_request ''session/new'' (JObj [(''cwd'', JStr cwd), (''mcpServers'', JArr servers)])"

definition build_load_session :: "string \<Rightarrow> string \<Rightarrow> json list \<Rightarrow> u64 \<Rightarrow> rpc_id \<times> rpc_message \<times> u64" where
  "build_load_session cwd session servers =
     build_request ''session/load''
       (JObj [(''cwd'', JStr cwd), (''mcpServers'', JArr servers), (''sessionId'', JStr session)])"

definition prompt_params :: "string \<Rightarrow> content_block list \<Rightarrow> json" where
  "prompt_params session blocks =
     JObj [(''prompt'', JArr (map content_block_json blocks)), (''sessionId'', JStr session)]"

definition build_prompt :: "string \<Rightarrow> content_block list \<Rightarrow> u64 \<Rightarrow> rpc_id \<times> rpc_message \<times> u64" where
  "build_prompt session blocks = build_request ''session/prompt'' (prompt_params session blocks)"

definition build_steer ::
  "string \<Rightarrow> content_block list \<Rightarrow> negotiated_capabilities \<Rightarrow> u64
   \<Rightarrow> (acp_error, rpc_id \<times> rpc_message) result \<times> u64" where
  "build_steer session blocks caps b =
     (if \<not> nc_steer caps then (Err (Unsupported ''session/steer''), b)
      else case build_request ''session/steer'' (prompt_params session blocks) b of
        (i, m, b') \<Rightarrow> (Okay (i, m), b'))"

definition build_cancel :: "string \<Rightarrow> rpc_message" where
  "build_cancel session = RpcNotification ''session/cancel'' (JObj [(''sessionId'', JStr session)])"

definition build_permission_response :: "rpc_id \<Rightarrow> json \<Rightarrow> rpc_message" where
  "build_permission_response i outcome = RpcResponse i outcome"

definition build_permission_cancelled :: "rpc_id \<Rightarrow> rpc_message" where
  "build_permission_cancelled i = RpcResponse i (JObj [(''outcome'', JStr ''cancelled'')])"

definition build_refusal :: "rpc_id \<Rightarrow> string \<Rightarrow> rpc_message" where
  "build_refusal i m = RpcErrorResponse i \<lparr>re_code = - 32601, re_message = ''altior grants no '' @ m\<rparr>"

section \<open>Delivery\<close>

datatype delivery_cause = CauseProcessExited | CauseIdleTimeout

record prompt_delivery =
  pd_state :: delivery_state
  pd_outstanding :: bool
  pd_cause :: "delivery_cause option"

definition not_sent :: prompt_delivery where
  "not_sent = \<lparr>pd_state = Absent, pd_outstanding = False, pd_cause = None\<rparr>"

definition may_resend :: "prompt_delivery \<Rightarrow> bool" where
  "may_resend d \<longleftrightarrow> pd_state d = Absent \<or> pd_state d = Rejected"

definition mark_written :: "prompt_delivery \<Rightarrow> (acp_error, unit) result \<times> prompt_delivery" where
  "mark_written d =
     (if pd_outstanding d then (Err (OutOfOrder ''mark a prompt written twice for one attempt''), d)
      else (Okay (), d\<lparr>pd_outstanding := True, pd_state := Indeterminate\<rparr>))"

definition mark_write_failed :: "prompt_delivery \<Rightarrow> (acp_error, unit) result \<times> prompt_delivery" where
  "mark_write_failed d =
     (if pd_outstanding d then (Err (OutOfOrder ''report a failed write after a successful one''), d)
      else (Okay (), d))"

definition settle ::
  "delivery_state \<Rightarrow> prompt_delivery \<Rightarrow> (acp_error, delivery_state) result \<times> prompt_delivery" where
  "settle verdict d =
     (if \<not> pd_outstanding d then (Err (OutOfOrder ''settle a prompt delivery with nothing outstanding''), d)
      else (Okay verdict, d\<lparr>pd_outstanding := False, pd_state := verdict\<rparr>))"

definition on_prompt_response :: "prompt_delivery \<Rightarrow> (acp_error, delivery_state) result \<times> prompt_delivery" where
  "on_prompt_response d = settle Confirmed d"

definition on_error_response :: "prompt_delivery \<Rightarrow> (acp_error, delivery_state) result \<times> prompt_delivery" where
  "on_error_response d = settle Rejected d"

definition on_connection_lost ::
  "delivery_cause \<Rightarrow> prompt_delivery \<Rightarrow> (acp_error, delivery_state) result \<times> prompt_delivery" where
  "on_connection_lost cause d =
     (if \<not> pd_outstanding d then (Err (OutOfOrder ''settle a prompt delivery with nothing outstanding''), d)
      else settle Indeterminate (d\<lparr>pd_cause := Some cause\<rparr>))"

section \<open>Lifecycle\<close>

datatype agent_phase =
    PhReady
  | PhPrompting "rpc_id list"
  | PhCancelling "rpc_id list"
  | PhKilling
  | PhDead

fun phase_permissions :: "agent_phase \<Rightarrow> rpc_id list" where
  "phase_permissions (PhPrompting ps) = ps"
| "phase_permissions (PhCancelling ps) = ps"
| "phase_permissions _ = []"

datatype host_action =
    HostContinue
  | SendCancelNotification
  | AnswerPermissionCancelled rpc_id
  | TurnSettled
  | KillAndReap

definition on_prompt_written :: "agent_phase \<Rightarrow> agent_phase" where
  "on_prompt_written p = (if p = PhReady then PhPrompting [] else p)"

fun on_permission_requested :: "rpc_id \<Rightarrow> agent_phase \<Rightarrow> (acp_error, host_action list) result \<times> agent_phase" where
  "on_permission_requested i (PhPrompting ps) = (Okay [HostContinue], PhPrompting (ps @ [i]))"
| "on_permission_requested i (PhCancelling ps) = (Okay [AnswerPermissionCancelled i], PhCancelling ps)"
| "on_permission_requested i p =
     (Err (OutOfOrder ''receive a permission request with no turn running''), p)"

fun on_cancel_requested :: "agent_phase \<Rightarrow> (acp_error, host_action list) result \<times> agent_phase" where
  "on_cancel_requested (PhPrompting ps) =
     (Okay (SendCancelNotification # map AnswerPermissionCancelled ps), PhCancelling [])"
| "on_cancel_requested p = (Err (OutOfOrder ''cancel a turn with no turn running''), p)"

fun on_prompt_settled :: "agent_phase \<Rightarrow> (acp_error, host_action list) result \<times> agent_phase" where
  "on_prompt_settled (PhPrompting _) = (Okay [TurnSettled], PhReady)"
| "on_prompt_settled (PhCancelling _) = (Okay [TurnSettled], PhReady)"
| "on_prompt_settled p = (Err (OutOfOrder ''settle a prompt with no turn outstanding''), p)"

definition on_process_lost :: "agent_phase \<Rightarrow> host_action list \<times> agent_phase" where
  "on_process_lost p = ([KillAndReap], PhDead)"

definition on_idle_elapsed :: "agent_phase \<Rightarrow> host_action list \<times> agent_phase" where
  "on_idle_elapsed p = ([KillAndReap], PhKilling)"

definition on_reaped :: "agent_phase \<Rightarrow> agent_phase" where
  "on_reaped p = (if p = PhKilling then PhDead else p)"

definition permissions_unanswered :: "agent_phase \<Rightarrow> nat" where
  "permissions_unanswered p = length (phase_permissions p)"

end
