(* ===== verification/Acp_Runtime.thy ===== *)
theory Acp_Runtime
  imports Acp_Model
begin

text \<open>
  The client of one agent process, \<open>crates/altior-acp/src/runtime.rs\<close>.

  The transport (\<open>transport.rs\<close>, a child process), the two callbacks and the cancellation signal are
  parameters. Every call of the transport is an entry of a trace and its answer is a function of the trace up to
  and including the call; the signal and the permission callback are functions of the trace as well, the event
  callback of the events delivered so far. The read loops may run for ever and take fuel.
\<close>

section \<open>Model\<close>

datatype acp_call = CallWrite string | CallRead | CallReadTimeout | CallTerminate | CallClose

record acp_port =
  ap_json :: acp_json
  ap_write :: "acp_call list \<Rightarrow> (acp_error, unit) result"
  ap_read :: "acp_call list \<Rightarrow> (acp_error, string option) result"
  ap_read_timeout :: "acp_call list \<Rightarrow> (acp_error, string option option) result"
  ap_terminate :: "acp_call list \<Rightarrow> (acp_error, unit) result"
  ap_close :: "acp_call list \<Rightarrow> (acp_error, string option) result"
  ap_on_event :: "normalized_event list \<Rightarrow> (acp_error, unit) result"
  ap_on_permission :: "acp_call list \<Rightarrow> rpc_id \<Rightarrow> string option \<Rightarrow> (acp_error, json option) result"
  ap_cancel_signal :: "acp_call list \<Rightarrow> bool"

record acp_runtime =
  ar_builder :: u64
  ar_pending :: pending_requests
  ar_capabilities :: "negotiated_capabilities option"
  ar_phase :: agent_phase
  ar_delivery :: prompt_delivery
  ar_session :: "string option"
  ar_trace :: "acp_call list"

definition acp_runtime_new :: acp_runtime where
  "acp_runtime_new = \<lparr>ar_builder = 0, ar_pending = [], ar_capabilities = None, ar_phase = PhReady,
     ar_delivery = not_sent, ar_session = None, ar_trace = []\<rparr>"

definition write_message ::
  "acp_port \<Rightarrow> rpc_message \<Rightarrow> acp_runtime \<Rightarrow> (acp_error, unit) result \<times> acp_runtime" where
  "write_message P m s =
     (let tr = ar_trace s @ [CallWrite (rpc_encode (ap_json P) m)] in (ap_write P tr, s\<lparr>ar_trace := tr\<rparr>))"

definition acp_terminate :: "acp_port \<Rightarrow> acp_runtime \<Rightarrow> (acp_error, unit) result \<times> acp_runtime" where
  "acp_terminate P s = (let tr = ar_trace s @ [CallTerminate] in (ap_terminate P tr, s\<lparr>ar_trace := tr\<rparr>))"

definition acp_close :: "acp_port \<Rightarrow> acp_runtime \<Rightarrow> (acp_error, string option) result \<times> acp_runtime" where
  "acp_close P s = (let tr = ar_trace s @ [CallClose] in (ap_close P tr, s\<lparr>ar_trace := tr\<rparr>))"

fun execute_host_action ::
  "acp_port \<Rightarrow> string \<Rightarrow> acp_runtime \<Rightarrow> host_action \<Rightarrow> (acp_error, unit) result \<times> acp_runtime" where
  "execute_host_action P session s HostContinue = (Okay (), s)"
| "execute_host_action P session s TurnSettled = (Okay (), s)"
| "execute_host_action P session s SendCancelNotification = write_message P (build_cancel session) s"
| "execute_host_action P session s (AnswerPermissionCancelled i) = write_message P (build_permission_cancelled i) s"
| "execute_host_action P session s KillAndReap = acp_terminate P s"

definition trigger_cancel ::
  "acp_port \<Rightarrow> string \<Rightarrow> acp_runtime \<Rightarrow> (acp_error, unit) result \<times> acp_runtime" where
  "trigger_cancel P session s =
     (case on_cancel_requested (ar_phase s) of
        (Inl e, p) \<Rightarrow> (Err e, s\<lparr>ar_phase := p\<rparr>)
      | (Inr acts, p) \<Rightarrow>
          (case try_all (execute_host_action P session) (s\<lparr>ar_phase := p\<rparr>) acts of
             (Inl e, s') \<Rightarrow> (Err e, s')
           | (Inr _, s') \<Rightarrow> (Okay (), s')))"

text \<open>Waiting for the answer to a request outside a turn.\<close>

fun debug_id :: "rpc_id \<Rightarrow> string" where
  "debug_id (IdNumber n) = ''Number('' @ show_nat (unat n) @ '')''"
| "debug_id (IdText t) = ''Text('' @ t @ '')''"

fun wait_for_response ::
  "acp_port \<Rightarrow> nat \<Rightarrow> rpc_id \<Rightarrow> acp_runtime \<Rightarrow> ((acp_error, json) result \<times> acp_runtime) option" where
  "wait_for_response P 0 expected s = None"
| "wait_for_response P (Suc fuel) expected s =
     (let tr = ar_trace s @ [CallRead]; s1 = s\<lparr>ar_trace := tr\<rparr> in
      case ap_read P tr of
        Inl e \<Rightarrow> Some (Err e, s1)
      | Inr None \<Rightarrow> Some (Err (UnexpectedEof (''EOF while awaiting response for '' @ debug_id expected)), s1)
      | Inr (Some line) \<Rightarrow>
          (case rpc_decode (ap_json P) line of
             Inl e \<Rightarrow> Some (Err e, s1)
           | Inr (RpcResponse i res) \<Rightarrow>
               if i = expected then Some (Okay res, s1\<lparr>ar_pending := snd (pending_remove i (ar_pending s1))\<rparr>)
               else wait_for_response P fuel expected s1
           | Inr (RpcErrorResponse i e) \<Rightarrow>
               if i = expected
               then Some (Err (RpcFailed (re_code e) (re_message e)),
                      s1\<lparr>ar_pending := snd (pending_remove i (ar_pending s1))\<rparr>)
               else wait_for_response P fuel expected s1
           | Inr (RpcRequest i m _) \<Rightarrow>
               (case write_message P (build_refusal i m) s1 of
                  (Inl e, s2) \<Rightarrow> Some (Err e, s2)
                | (Inr _, s2) \<Rightarrow> wait_for_response P fuel expected s2)
           | Inr (RpcNotification _ _) \<Rightarrow> wait_for_response P fuel expected s1))"

text \<open>A request: recorded as pending, written, answered.\<close>

definition send_request ::
  "acp_port \<Rightarrow> nat \<Rightarrow> pending_kind \<Rightarrow> (u64 \<Rightarrow> rpc_id \<times> rpc_message \<times> u64) \<Rightarrow> acp_runtime
   \<Rightarrow> ((acp_error, json) result \<times> acp_runtime) option" where
  "send_request P fuel kind build s =
     (case build (ar_builder s) of
        (i, m, b) \<Rightarrow>
          (case write_message P m (s\<lparr>ar_builder := b, ar_pending := pending_insert i kind (ar_pending s)\<rparr>) of
             (Inl e, s1) \<Rightarrow> Some (Err e, s1)
           | (Inr _, s1) \<Rightarrow> wait_for_response P fuel i s1))"

definition acp_initialize ::
  "acp_port \<Rightarrow> nat \<Rightarrow> string \<Rightarrow> acp_runtime
   \<Rightarrow> ((acp_error, negotiated_capabilities) result \<times> acp_runtime) option" where
  "acp_initialize P fuel client_version s =
     (case send_request P fuel PkInitialize (build_initialize client_version) s of
        None \<Rightarrow> None
      | Some (Inl e, s1) \<Rightarrow> Some (Err e, s1)
      | Some (Inr res, s1) \<Rightarrow>
          (case initialize_result_from res of
             None \<Rightarrow> Some (Err MalformedJson, s1)
           | Some r \<Rightarrow> let c = negotiate_capabilities r in Some (Okay c, s1\<lparr>ar_capabilities := Some c\<rparr>)))"

definition acp_new_session ::
  "acp_port \<Rightarrow> nat \<Rightarrow> string \<Rightarrow> json list \<Rightarrow> acp_runtime
   \<Rightarrow> ((acp_error, string) result \<times> acp_runtime) option" where
  "acp_new_session P fuel cwd servers s =
     (case send_request P fuel PkNewSession (build_new_session cwd servers) s of
        None \<Rightarrow> None
      | Some (Inl e, s1) \<Rightarrow> Some (Err e, s1)
      | Some (Inr res, s1) \<Rightarrow>
          (case new_session_result_from res of
             None \<Rightarrow> Some (Err MalformedJson, s1)
           | Some i \<Rightarrow> Some (Okay i, s1\<lparr>ar_session := Some i\<rparr>)))"

definition acp_load_session ::
  "acp_port \<Rightarrow> nat \<Rightarrow> string \<Rightarrow> string \<Rightarrow> json list \<Rightarrow> acp_runtime
   \<Rightarrow> ((acp_error, string) result \<times> acp_runtime) option" where
  "acp_load_session P fuel cwd session servers s =
     (case ar_capabilities s of
        None \<Rightarrow> Some (Err (OutOfOrder ''load_session before initialize handshake''), s)
      | Some caps \<Rightarrow>
          if \<not> may_resume caps then Some (Err (Unsupported ''session/load''), s)
          else (case send_request P fuel PkLoadSession (build_load_session cwd session servers) s of
             None \<Rightarrow> None
           | Some (Inl e, s1) \<Rightarrow> Some (Err e, s1)
           | Some (Inr _, s1) \<Rightarrow> Some (Okay session, s1\<lparr>ar_session := Some session\<rparr>)))"

definition acp_steer ::
  "acp_port \<Rightarrow> content_block list \<Rightarrow> acp_runtime \<Rightarrow> (acp_error, rpc_id) result \<times> acp_runtime" where
  "acp_steer P blocks s =
     (case ar_capabilities s of
        None \<Rightarrow> (Err (OutOfOrder ''steer before initialize handshake''), s)
      | Some caps \<Rightarrow>
          (case ar_session s of
             None \<Rightarrow> (Err (OutOfOrder ''steer without an active session''), s)
           | Some session \<Rightarrow>
               (case build_steer session blocks caps (ar_builder s) of
                  (Inl e, b) \<Rightarrow> (Err e, s\<lparr>ar_builder := b\<rparr>)
                | (Inr (i, m), b) \<Rightarrow>
                    (case write_message P m
                            (s\<lparr>ar_builder := b, ar_pending := pending_insert i PkSteer (ar_pending s)\<rparr>) of
                       (Inl e, s1) \<Rightarrow> (Err e, s1)
                     | (Inr _, s1) \<Rightarrow> (Okay i, s1)))))"

definition acp_cancel :: "acp_port \<Rightarrow> acp_runtime \<Rightarrow> (acp_error, unit) result \<times> acp_runtime" where
  "acp_cancel P s =
     (case ar_session s of
        None \<Rightarrow> (Err (OutOfOrder ''cancel without an active session''), s)
      | Some session \<Rightarrow> trigger_cancel P session s)"

definition answer_permission ::
  "acp_port \<Rightarrow> rpc_id \<Rightarrow> json \<Rightarrow> acp_runtime \<Rightarrow> (acp_error, unit) result \<times> acp_runtime" where
  "answer_permission P i outcome s = write_message P (build_permission_response i outcome) s"

section \<open>A turn\<close>

datatype turn_step =
    TurnDone "(acp_error, stop_reason) result" acp_runtime
  | TurnGo bool "normalized_event list" acp_runtime

text \<open>The connection is lost while the prompt is outstanding; both reports ignore their results.\<close>

definition lose_connection :: "acp_runtime \<Rightarrow> acp_runtime" where
  "lose_connection s = s\<lparr>ar_delivery := snd (on_connection_lost CauseProcessExited (ar_delivery s)),
     ar_phase := snd (on_process_lost (ar_phase s))\<rparr>"

text \<open>Events are handed to the callback; a cancelled answer cancels the turn once.\<close>

fun deliver_events ::
  "acp_port \<Rightarrow> string \<Rightarrow> bool \<Rightarrow> normalized_event list \<Rightarrow> normalized_event list \<Rightarrow> acp_runtime
   \<Rightarrow> (acp_error, bool \<times> normalized_event list) result \<times> acp_runtime" where
  "deliver_events P session sent seen [] s = (Okay (sent, seen), s)"
| "deliver_events P session sent seen (ev # evs) s =
     (if ap_on_event P (seen @ [ev]) = Err AcpCancelled \<and> \<not> sent then
        (case trigger_cancel P session s of
           (Inl e, s1) \<Rightarrow> (Err e, s1)
         | (Inr _, s1) \<Rightarrow> deliver_events P session True (seen @ [ev]) evs s1)
      else deliver_events P session sent (seen @ [ev]) evs s)"

definition tool_call_of :: "json \<Rightarrow> string option" where
  "tool_call_of params =
     (case json_get params ''toolCall'' of
        None \<Rightarrow> None
      | Some tc \<Rightarrow> (case json_get tc ''toolCallId'' of None \<Rightarrow> None | Some v \<Rightarrow> json_as_str v))"

definition handle_permission ::
  "acp_port \<Rightarrow> rpc_id \<Rightarrow> json \<Rightarrow> acp_runtime \<Rightarrow> (acp_error, unit) result \<times> acp_runtime" where
  "handle_permission P i params s =
     (case on_permission_requested i (ar_phase s) of
        (Inl e, p) \<Rightarrow> (Err e, s\<lparr>ar_phase := p\<rparr>)
      | (Inr acts, p) \<Rightarrow>
          let s1 = s\<lparr>ar_phase := p\<rparr>;
              answers = List.map_filter (\<lambda>a. case a of AnswerPermissionCancelled j \<Rightarrow> Some j | _ \<Rightarrow> None) acts in
          (case try_all (\<lambda>s j. write_message P (build_permission_cancelled j) s) s1 answers of
             (Inl e, s2) \<Rightarrow> (Err e, s2)
           | (Inr _, s2) \<Rightarrow>
               if answers \<noteq> [] then (Okay (), s2)
               else (case ap_on_permission P (ar_trace s2) i (tool_call_of params) of
                  Inl e \<Rightarrow> (Err e, s2)
                | Inr (Some outcome) \<Rightarrow> write_message P (build_permission_response i outcome) s2
                | Inr None \<Rightarrow> write_message P (build_permission_cancelled i) s2)))"

definition go_on :: "bool \<Rightarrow> normalized_event list \<Rightarrow> (acp_error, unit) result \<times> acp_runtime \<Rightarrow> turn_step" where
  "go_on sent seen r = (case r of (Inl e, s) \<Rightarrow> TurnDone (Err e) s | (Inr _, s) \<Rightarrow> TurnGo sent seen s)"

text \<open>The prompt was answered: the delivery is settled, then the lifecycle.\<close>

definition settle_turn ::
  "(prompt_delivery \<Rightarrow> (acp_error, delivery_state) result \<times> prompt_delivery) \<Rightarrow> (acp_error, stop_reason) result
   \<Rightarrow> rpc_id \<Rightarrow> acp_runtime \<Rightarrow> turn_step" where
  "settle_turn report res i s =
     (let s1 = s\<lparr>ar_pending := snd (pending_remove i (ar_pending s))\<rparr> in
      case report (ar_delivery s1) of
        (Inl e, d) \<Rightarrow> TurnDone (Err e) (s1\<lparr>ar_delivery := d\<rparr>)
      | (Inr _, d) \<Rightarrow>
          (case on_prompt_settled (ar_phase s1) of
             (Inl e, p) \<Rightarrow> TurnDone (Err e) (s1\<lparr>ar_delivery := d, ar_phase := p\<rparr>)
           | (Inr _, p) \<Rightarrow> TurnDone res (s1\<lparr>ar_delivery := d, ar_phase := p\<rparr>)))"

definition handle_message ::
  "acp_port \<Rightarrow> rpc_id \<Rightarrow> bool \<Rightarrow> normalized_event list \<Rightarrow> rpc_message \<Rightarrow> acp_runtime \<Rightarrow> turn_step" where
  "handle_message P pid sent seen m s =
     (case m of
        RpcResponse i res \<Rightarrow>
          if i = pid then settle_turn on_prompt_response (serde (prompt_result_from res)) i s
          else TurnGo sent seen s
      | RpcErrorResponse i e \<Rightarrow>
          if i = pid then settle_turn on_error_response (Err (RpcFailed (re_code e) (re_message e))) i s
          else TurnGo sent seen s
      | RpcRequest i name params \<Rightarrow>
          go_on sent seen (if name = ''session/request_permission'' then handle_permission P i params s
                           else write_message P (build_refusal i name) s)
      | RpcNotification _ _ \<Rightarrow> TurnGo sent seen s)"

definition check_cancel ::
  "acp_port \<Rightarrow> string \<Rightarrow> bool \<Rightarrow> acp_runtime \<Rightarrow> (acp_error, bool) result \<times> acp_runtime" where
  "check_cancel P session sent s =
     (if \<not> sent \<and> ap_cancel_signal P (ar_trace s) then
        (case trigger_cancel P session s of (Inl e, s1) \<Rightarrow> (Err e, s1) | (Inr _, s1) \<Rightarrow> (Okay True, s1))
      else (Okay sent, s))"

definition receive_line ::
  "acp_port \<Rightarrow> string \<Rightarrow> rpc_id \<Rightarrow> bool \<Rightarrow> normalized_event list \<Rightarrow> string \<Rightarrow> acp_runtime \<Rightarrow> turn_step" where
  "receive_line P session pid sent seen line s =
     (case rpc_decode (ap_json P) line of
        Inl e \<Rightarrow> TurnDone (Err e) (lose_connection s)
      | Inr m \<Rightarrow>
          (case normalize_message m of
             Inl e \<Rightarrow> TurnDone (Err e) s
           | Inr evs \<Rightarrow>
               (case deliver_events P session sent seen evs s of
                  (Inl e, s1) \<Rightarrow> TurnDone (Err e) s1
                | (Inr (sent', seen'), s1) \<Rightarrow> handle_message P pid sent' seen' m s1)))"

definition prompt_step ::
  "acp_port \<Rightarrow> string \<Rightarrow> rpc_id \<Rightarrow> bool \<Rightarrow> normalized_event list \<Rightarrow> acp_runtime \<Rightarrow> turn_step" where
  "prompt_step P session pid sent seen s =
     (case check_cancel P session sent s of
        (Inl e, s1) \<Rightarrow> TurnDone (Err e) s1
      | (Inr sent1, s1) \<Rightarrow>
          let tr = ar_trace s1 @ [CallReadTimeout]; s2 = s1\<lparr>ar_trace := tr\<rparr> in
          (case ap_read_timeout P tr of
             Inl e \<Rightarrow> TurnDone (Err e) (lose_connection s2)
           | Inr None \<Rightarrow> TurnGo sent1 seen s2
           | Inr (Some None) \<Rightarrow>
               TurnDone (Err (UnexpectedEof ''stream reached EOF while awaiting prompt completion'')) (lose_connection s2)
           | Inr (Some (Some line)) \<Rightarrow> receive_line P session pid sent1 seen line s2))"

fun prompt_loop ::
  "acp_port \<Rightarrow> nat \<Rightarrow> string \<Rightarrow> rpc_id \<Rightarrow> bool \<Rightarrow> normalized_event list \<Rightarrow> acp_runtime
   \<Rightarrow> ((acp_error, stop_reason) result \<times> acp_runtime) option" where
  "prompt_loop P 0 session pid sent seen s = None"
| "prompt_loop P (Suc fuel) session pid sent seen s =
     (case prompt_step P session pid sent seen s of
        TurnDone res s' \<Rightarrow> Some (res, s')
      | TurnGo sent' seen' s' \<Rightarrow> prompt_loop P fuel session pid sent' seen' s')"

text \<open>What \<open>prompt_with_handlers\<close> does before its loop, when a session is bound.\<close>

definition prompt_prepared :: "acp_runtime \<Rightarrow> rpc_id \<Rightarrow> u64 \<Rightarrow> acp_runtime" where
  "prompt_prepared s pid b = s\<lparr>ar_builder := b, ar_pending := pending_insert pid PkPrompt (ar_pending s),
     ar_delivery := snd (mark_written not_sent), ar_phase := on_prompt_written (ar_phase s)\<rparr>"

definition prompt_with_handlers ::
  "acp_port \<Rightarrow> nat \<Rightarrow> content_block list \<Rightarrow> acp_runtime
   \<Rightarrow> ((acp_error, stop_reason) result \<times> acp_runtime) option" where
  "prompt_with_handlers P fuel blocks s =
     (case ar_session s of
        None \<Rightarrow> Some (Err (OutOfOrder ''prompt without an active session''), s)
      | Some session \<Rightarrow>
          (case build_prompt session blocks (ar_builder s) of
             (pid, m, b) \<Rightarrow>
               (case write_message P m (prompt_prepared s pid b) of
                  (Inl e, s1) \<Rightarrow> Some (Err e, s1)
                | (Inr _, s1) \<Rightarrow> prompt_loop P fuel session pid False [] s1)))"

end
