(* ===== verification/Acp_Safety.thy ===== *)
theory Acp_Safety
  imports Acp_Runtime
begin

text \<open>
  What the agent client guarantees over any behaviour of the process and of the callbacks: how a prompt is
  classified, that requests of the agent are answered before the client reads on, and that normalisation loses
  nothing.
\<close>

section \<open>Traces\<close>

text \<open>A part of the client that writes and does not read.\<close>

definition quiet :: "acp_runtime \<Rightarrow> acp_runtime \<Rightarrow> bool" where
  "quiet s s' \<longleftrightarrow> ar_delivery s' = ar_delivery s
     \<and> (\<exists>ws. ar_trace s' = ar_trace s @ ws \<and> CallReadTimeout \<notin> set ws)"

lemma quiet_refl: "quiet s s"
  by (simp add: quiet_def)

lemma quiet_phase: "quiet s (s\<lparr>ar_phase := p\<rparr>)"
  by (simp add: quiet_def)

lemma quiet_trans: "quiet s s1 \<Longrightarrow> quiet s1 s2 \<Longrightarrow> quiet s s2"
  by (auto simp: quiet_def)

lemma quiet_write: "write_message P m s = (r, s') \<Longrightarrow> quiet s s'"
  by (auto simp: write_message_def quiet_def Let_def)

lemma quiet_try:
  "(\<And>s x r s'. f s x = (r, s') \<Longrightarrow> quiet s s') \<Longrightarrow> try_all f s xs = (r, s') \<Longrightarrow> quiet s s'"
proof (induction xs arbitrary: s r s')
  case Nil
  then show ?case by (simp add: quiet_refl)
next
  case (Cons x xs)
  obtain y s1 where f: "f s x = (y, s1)" by fastforce
  obtain z s2 where t: "try_all f s1 xs = (z, s2)" by fastforce
  have "quiet s s1" "quiet s1 s2" using Cons.prems(1)[OF f] Cons.IH[OF _ t] Cons.prems(1) by blast+
  then show ?case using Cons.prems(2) f t by (auto split: sum.splits intro: quiet_trans)
qed

lemma quiet_action: "execute_host_action P session s a = (r, s') \<Longrightarrow> quiet s s'"
  by (cases a) (auto simp: quiet_refl acp_terminate_def Let_def quiet_def dest: quiet_write)

lemma quiet_actions: "try_all (execute_host_action P session) s acts = (r, s') \<Longrightarrow> quiet s s'"
  by (rule quiet_try) (auto dest: quiet_action)

lemma quiet_cancel: "trigger_cancel P session s = (r, s') \<Longrightarrow> quiet s s'"
  unfolding trigger_cancel_def
  by (auto simp: quiet_phase split: prod.splits sum.splits dest!: quiet_actions intro: quiet_trans[OF quiet_phase])

lemma quiet_deliver: "deliver_events P session sent seen evs s = (r, s') \<Longrightarrow> quiet s s'"
proof (induction evs arbitrary: sent seen s)
  case Nil
  then show ?case by (simp add: quiet_refl)
next
  case (Cons ev evs)
  then show ?case by (auto split: if_splits prod.splits sum.splits dest: quiet_cancel intro: quiet_trans)
qed

lemma quiet_permission: "handle_permission P i params s = (r, s') \<Longrightarrow> quiet s s'"
proof -
  assume h: "handle_permission P i params s = (r, s')"
  have q: "try_all (\<lambda>s j. write_message P (build_permission_cancelled j) s) t js = (r', t') \<Longrightarrow> quiet t t'" for t js r' t'
    by (rule quiet_try) (auto dest: quiet_write)
  show ?thesis
    using h unfolding handle_permission_def Let_def
    by (auto simp: quiet_phase split: prod.splits sum.splits if_splits option.splits
        dest!: q quiet_write intro: quiet_trans quiet_trans[OF quiet_phase])
qed

text \<open>An answer to a request of the agent, and that it was written.\<close>

definition is_answer :: "rpc_id \<Rightarrow> rpc_message \<Rightarrow> bool" where
  "is_answer i m \<longleftrightarrow> (\<exists>v. m = RpcResponse i v) \<or> (\<exists>e. m = RpcErrorResponse i e)"

definition answered :: "acp_port \<Rightarrow> rpc_id \<Rightarrow> acp_call list \<Rightarrow> bool" where
  "answered P i ws \<longleftrightarrow> (\<exists>m. is_answer i m \<and> CallWrite (rpc_encode (ap_json P) m) \<in> set ws)"

lemma answered_write:
  "write_message P m s = (r, s') \<Longrightarrow> is_answer i m \<Longrightarrow> \<exists>ws. ar_trace s' = ar_trace s @ ws \<and> answered P i ws"
  by (auto simp: write_message_def Let_def answered_def)

lemma answers_built [simp]:
  "is_answer i (build_permission_cancelled i)" "is_answer i (build_permission_response i v)" "is_answer i (build_refusal i m)"
  by (simp_all add: is_answer_def build_permission_cancelled_def build_permission_response_def build_refusal_def)

lemma permission_answered:
  assumes "handle_permission P i params s = (Okay (), s')"
  shows "\<exists>ws. ar_trace s' = ar_trace s @ ws \<and> answered P i ws"
proof (cases "ar_phase s")
  case (PhPrompting ps)
  then show ?thesis
    using assms by (auto simp: handle_permission_def Let_def map_filter_simps split: sum.splits option.splits
        dest!: answered_write[where i = i])
next
  case (PhCancelling ps)
  then show ?thesis
    using assms by (auto simp: handle_permission_def Let_def map_filter_simps split: sum.splits option.splits prod.splits
        dest!: answered_write[where i = i])
qed (use assms in \<open>auto simp: handle_permission_def\<close>)

text \<open>The message the process sent as the answer to the read at a position of the trace, and the messages
  read from a position on.\<close>

definition read_at :: "acp_port \<Rightarrow> acp_call list \<Rightarrow> nat \<Rightarrow> rpc_message option" where
  "read_at P tr k =
     (if k < length tr \<and> tr ! k = CallReadTimeout then
        (case ap_read_timeout P (take (Suc k) tr) of
           Inr (Some (Some line)) \<Rightarrow> (case rpc_decode (ap_json P) line of Inr m \<Rightarrow> Some m | Inl _ \<Rightarrow> None)
         | _ \<Rightarrow> None)
      else None)"

definition agent_said :: "acp_port \<Rightarrow> nat \<Rightarrow> acp_call list \<Rightarrow> rpc_message \<Rightarrow> bool" where
  "agent_said P n tr m \<longleftrightarrow> (\<exists>k\<ge>n. read_at P tr k = Some m)"

lemma read_at_append: "read_at P tr k = Some m \<Longrightarrow> read_at P (tr @ tr') k = Some m"
  by (auto simp: read_at_def nth_append split: if_splits)

lemma read_at_here:
  "ap_read_timeout P (tr @ [CallReadTimeout]) = Okay (Some (Some line)) \<Longrightarrow> rpc_decode (ap_json P) line = Okay m \<Longrightarrow>
   read_at P (tr @ CallReadTimeout # ws) (length tr) = Some m"
  by (simp add: read_at_def)

lemma agent_said_mono: "agent_said P n (tr :: acp_call list) m \<Longrightarrow> n' \<le> n \<Longrightarrow> agent_said P n' (tr @ tr') m"
  by (meson agent_said_def le_trans read_at_append)

lemma agent_said_here:
  assumes "ap_read_timeout P (tr @ [CallReadTimeout]) = Okay (Some (Some line))" "rpc_decode (ap_json P) line = Okay m"
    "n \<le> length tr"
  shows "agent_said P n (tr @ CallReadTimeout # ws) m"
  using read_at_here[OF assms(1,2)] assms(3) unfolding agent_said_def by blast

section \<open>One round of a turn\<close>

lemma check_cancel_quiet: "check_cancel P session sent s = (r, s') \<Longrightarrow> quiet s s'"
  by (auto simp: check_cancel_def quiet_refl split: if_splits prod.splits sum.splits dest: quiet_cancel)

lemma go_onE:
  assumes "go_on sent seen r = TurnGo sent' seen' s'"
  obtains "r = (Okay (), s')"
  using assms by (auto simp: go_on_def split: prod.splits sum.splits)

lemma settle_turn_done: "settle_turn report res i s \<noteq> TurnGo sent seen s'"
  by (auto simp: settle_turn_def Let_def split: prod.splits sum.splits)

lemma handle_message_go:
  assumes "handle_message P pid sent seen m s = TurnGo sent' seen' s'"
  shows "quiet s s' \<and> (\<forall>i name params. m = RpcRequest i name params \<longrightarrow>
     (\<exists>ws. ar_trace s' = ar_trace s @ ws \<and> answered P i ws))"
proof (cases m)
  case (RpcRequest i name params)
  then show ?thesis
    using assms by (auto simp: handle_message_def elim!: go_onE split: if_splits
        dest: quiet_write quiet_permission permission_answered answered_write[where i = i])
qed (use assms settle_turn_done in \<open>auto simp: handle_message_def quiet_refl split: if_splits\<close>)

lemma prompt_step_go:
  assumes "prompt_step P session pid sent seen s = TurnGo sent' seen' s'"
  shows "ar_delivery s' = ar_delivery s \<and> (\<exists>ws ws'. ar_trace s' = ar_trace s @ ws @ CallReadTimeout # ws'
     \<and> CallReadTimeout \<notin> set ws \<and> CallReadTimeout \<notin> set ws'
     \<and> (\<forall>i name params. read_at P (ar_trace s') (length (ar_trace s @ ws)) = Some (RpcRequest i name params) \<longrightarrow>
          answered P i ws'))"
proof -
  obtain b s1 where c: "check_cancel P session sent s = (Okay b, s1)"
    using assms by (auto simp: prompt_step_def split: prod.splits sum.splits)
  obtain ws where ws: "ar_trace s1 = ar_trace s @ ws" "CallReadTimeout \<notin> set ws" "ar_delivery s1 = ar_delivery s"
    using check_cancel_quiet[OF c] by (auto simp: quiet_def)
  let ?tr = "ar_trace s1 @ [CallReadTimeout]"
  let ?s2 = "s1\<lparr>ar_trace := ?tr\<rparr>"
  consider "ap_read_timeout P ?tr = Okay None" "s' = ?s2"
    | line m evs sent2 seen2 s3 where "ap_read_timeout P ?tr = Okay (Some (Some line))" "rpc_decode (ap_json P) line = Okay m"
      "deliver_events P session b seen evs ?s2 = (Okay (sent2, seen2), s3)"
      "handle_message P pid sent2 seen2 m s3 = TurnGo sent' seen' s'"
    using assms c by (auto simp: prompt_step_def receive_line_def Let_def split: sum.splits option.splits prod.splits)
  then show ?thesis
  proof cases
    case 1
    then show ?thesis using ws
      by (intro conjI exI[of _ ws] exI[of _ "[]"]) (auto simp: read_at_def)
  next
    case (2 line m evs sent2 seen2 s3)
    obtain us where us: "ar_trace s3 = ?tr @ us" "CallReadTimeout \<notin> set us" "ar_delivery s3 = ar_delivery s1"
      using quiet_deliver[OF 2(3)] by (auto simp: quiet_def)
    obtain vs where vs: "ar_trace s' = ar_trace s3 @ vs" "CallReadTimeout \<notin> set vs" "ar_delivery s' = ar_delivery s3"
      using handle_message_go[OF 2(4)] by (auto simp: quiet_def)
    have tr: "ar_trace s' = ar_trace s @ ws @ CallReadTimeout # us @ vs" using ws us vs by simp
    have "read_at P (ar_trace s') (length (ar_trace s @ ws)) = Some m"
      using read_at_here[OF 2(1,2), of "us @ vs"] ws(1) unfolding tr by simp
    moreover have "answered P i (us @ vs)" if "m = RpcRequest i name params" for i name params
      using handle_message_go[OF 2(4)] that vs(1) by (auto simp: answered_def)
    ultimately show ?thesis
      using tr us vs ws by (intro conjI exI[of _ ws] exI[of _ "us @ vs"]) auto
  qed
qed

text \<open>The verdict on a prompt when its turn ends.\<close>

definition verdict ::
  "acp_port \<Rightarrow> rpc_id \<Rightarrow> nat \<Rightarrow> (acp_error, stop_reason) result \<Rightarrow> acp_runtime \<Rightarrow> bool" where
  "verdict P pid n res s \<longleftrightarrow> pd_state (ar_delivery s) \<noteq> Absent
     \<and> (pd_state (ar_delivery s) = Rejected \<longrightarrow> (\<exists>e. agent_said P n (ar_trace s) (RpcErrorResponse pid e)))
     \<and> (pd_state (ar_delivery s) = Confirmed \<longrightarrow> (\<exists>v. agent_said P n (ar_trace s) (RpcResponse pid v)))
     \<and> (\<forall>r. res = Okay r \<longrightarrow> pd_state (ar_delivery s) = Confirmed \<and> \<not> pd_outstanding (ar_delivery s)
          \<and> ar_phase s = PhReady
          \<and> (\<exists>v. agent_said P n (ar_trace s) (RpcResponse pid v) \<and> prompt_result_from v = Some r))"

definition in_flight :: "prompt_delivery \<Rightarrow> bool" where
  "in_flight d \<longleftrightarrow> pd_outstanding d \<and> pd_state d = Indeterminate"

lemma verdict_error: "pd_state (ar_delivery s) = Indeterminate \<Longrightarrow> verdict P pid n (Err e) s"
  by (simp add: verdict_def)

lemma quiet_verdict: "in_flight (ar_delivery s) \<Longrightarrow> quiet s s' \<Longrightarrow> verdict P pid n (Err e) s'"
  by (rule verdict_error) (simp add: in_flight_def quiet_def)

lemma lose_verdict: "in_flight (ar_delivery s) \<Longrightarrow> verdict P pid n (Err e) (lose_connection s)"
  by (rule verdict_error) (simp add: in_flight_def lose_connection_def on_connection_lost_def settle_def)

lemma settled_phase: "on_prompt_settled p = (Okay acts, p') \<Longrightarrow> p' = PhReady"
  by (cases p) auto

lemma handle_message_done:
  assumes "handle_message P pid sent seen m s = TurnDone res s'" "in_flight (ar_delivery s)" "agent_said P n (ar_trace s) m"
  shows "verdict P pid n res s'"
proof (cases m)
  case (RpcRequest i name params)
  then show ?thesis
    using assms quiet_permission[of P i params s] quiet_write[of P "build_refusal i name" s] quiet_verdict[of s]
    by (auto simp: handle_message_def go_on_def split: if_splits prod.splits sum.splits)
next
  case (RpcResponse i v)
  then have "i = pid" using assms(1) by (auto simp: handle_message_def split: if_splits)
  then show ?thesis
    using assms RpcResponse
    by (auto simp: handle_message_def settle_turn_def Let_def on_prompt_response_def settle_def in_flight_def verdict_def
        serde_def dest: settled_phase split: if_splits prod.splits sum.splits option.splits)
next
  case (RpcErrorResponse i e)
  then have "i = pid" using assms(1) by (auto simp: handle_message_def split: if_splits)
  then show ?thesis
    using assms RpcErrorResponse
    by (auto simp: handle_message_def settle_turn_def Let_def on_error_response_def settle_def in_flight_def verdict_def
        split: if_splits prod.splits sum.splits)
qed (use assms in \<open>auto simp: handle_message_def\<close>)

lemma prompt_step_done:
  assumes "prompt_step P session pid sent seen s = TurnDone res s'" "in_flight (ar_delivery s)" "n \<le> length (ar_trace s)"
  shows "verdict P pid n res s'"
proof -
  obtain cr s1 where c: "check_cancel P session sent s = (cr, s1)" by fastforce
  have q: "quiet s s1" using check_cancel_quiet[OF c] .
  then have fl: "in_flight (ar_delivery s1)" and len: "n \<le> length (ar_trace s1)" using assms(2,3) by (auto simp: quiet_def)
  show ?thesis
  proof (cases cr)
    case (Inl e)
    then show ?thesis using assms(1) c quiet_verdict[OF assms(2) q] by (auto simp: prompt_step_def)
  next
    case (Inr b)
    let ?tr = "ar_trace s1 @ [CallReadTimeout]"
    let ?s2 = "s1\<lparr>ar_trace := ?tr\<rparr>"
    have fl2: "in_flight (ar_delivery ?s2)" using fl by simp
    consider e where "s' = lose_connection ?s2" "res = Err e"
      | line where "ap_read_timeout P ?tr = Okay (Some (Some line))" "receive_line P session pid b seen line ?s2 = TurnDone res s'"
      using assms(1) c Inr by (auto simp: prompt_step_def Let_def split: sum.splits option.splits)
    then show ?thesis
    proof cases
      case 1
      then show ?thesis using lose_verdict[OF fl2] by simp
    next
      case (2 line)
      consider e where "s' = lose_connection ?s2" "res = Err e" | e where "s' = ?s2" "res = Err e"
        | m evs e where "deliver_events P session b seen evs ?s2 = (Err e, s')" "res = Err e"
        | m evs sent2 seen2 s3 where "rpc_decode (ap_json P) line = Okay m"
          "deliver_events P session b seen evs ?s2 = (Okay (sent2, seen2), s3)"
          "handle_message P pid sent2 seen2 m s3 = TurnDone res s'"
        using 2(2) by (auto simp: receive_line_def split: sum.splits prod.splits)
      then show ?thesis
      proof cases
        case (4 m evs sent2 seen2 s3)
        obtain us where us: "ar_trace s3 = ?tr @ us" "ar_delivery s3 = ar_delivery ?s2"
          using quiet_deliver[OF 4(2)] by (auto simp: quiet_def)
        have "agent_said P n (ar_trace s3) m" using agent_said_here[OF 2(1) 4(1) len, of us] us(1) by simp
        then show ?thesis using handle_message_done[OF 4(3)] fl2 us(2) by simp
      qed (use lose_verdict[OF fl2] quiet_verdict[OF fl2 quiet_refl] quiet_verdict[OF fl2 quiet_deliver] in auto)
    qed
  qed
qed

lemma prompt_loop_verdict:
  "prompt_loop P fuel session pid sent seen s = Some (res, s') \<Longrightarrow> in_flight (ar_delivery s) \<Longrightarrow>
   n \<le> length (ar_trace s) \<Longrightarrow> verdict P pid n res s'"
proof (induction fuel arbitrary: sent seen s)
  case 0
  then show ?case by simp
next
  case (Suc fuel)
  show ?case
  proof (cases "prompt_step P session pid sent seen s")
    case (TurnDone r s1)
    then show ?thesis using Suc.prems prompt_step_done by auto
  next
    case (TurnGo sent1 seen1 s1)
    then show ?thesis using Suc.prems Suc.IH[of sent1 seen1 s1] prompt_step_go[OF TurnGo] by auto
  qed
qed

text \<open>Every request read before the last read was answered in between.\<close>

definition served :: "acp_port \<Rightarrow> nat \<Rightarrow> acp_call list \<Rightarrow> bool" where
  "served P n tr \<longleftrightarrow> (\<forall>k k' i name params. n \<le> k \<longrightarrow> k < k' \<longrightarrow> k' < length tr \<longrightarrow> tr ! k' = CallReadTimeout \<longrightarrow>
     read_at P tr k = Some (RpcRequest i name params) \<longrightarrow>
     (\<exists>j m. k < j \<and> j < k' \<and> is_answer i m \<and> tr ! j = CallWrite (rpc_encode (ap_json P) m)))"

definition all_served :: "acp_port \<Rightarrow> nat \<Rightarrow> acp_call list \<Rightarrow> bool" where
  "all_served P n tr \<longleftrightarrow> (\<forall>k i name params. n \<le> k \<longrightarrow> read_at P tr k = Some (RpcRequest i name params) \<longrightarrow>
     (\<exists>j m. k < j \<and> j < length tr \<and> is_answer i m \<and> tr ! j = CallWrite (rpc_encode (ap_json P) m)
        \<and> (\<forall>l. k < l \<and> l \<le> j \<longrightarrow> tr ! l \<noteq> CallReadTimeout)))"

lemma read_at_prefix: "k < length tr \<Longrightarrow> read_at P (tr @ ext) k = read_at P tr k"
  by (simp add: read_at_def nth_append)

lemma read_at_quiet: "CallReadTimeout \<notin> set ext \<Longrightarrow> read_at P (tr @ ext) k = Some m \<Longrightarrow> k < length tr"
proof (rule ccontr)
  assume a: "CallReadTimeout \<notin> set ext" "read_at P (tr @ ext) k = Some m" "\<not> k < length tr"
  then have "k - length tr < length ext" "ext ! (k - length tr) = CallReadTimeout"
    by (auto simp: read_at_def nth_append split: if_splits)
  then show False using a(1) by (metis nth_mem)
qed

lemma all_served_quiet:
  assumes "all_served P n tr" "CallReadTimeout \<notin> set ext"
  shows "all_served P n (tr @ ext)"
  unfolding all_served_def
proof (intro allI impI)
  fix k i name params
  assume k: "n \<le> k" "read_at P (tr @ ext) k = Some (RpcRequest i name params)"
  have kl: "k < length tr" using read_at_quiet[OF assms(2) k(2)] .
  then have "read_at P tr k = Some (RpcRequest i name params)" using k(2) read_at_prefix by simp
  then obtain j m where "k < j" "j < length tr" "is_answer i m" "tr ! j = CallWrite (rpc_encode (ap_json P) m)"
    "\<forall>l. k < l \<and> l \<le> j \<longrightarrow> tr ! l \<noteq> CallReadTimeout"
    using assms(1) k(1) unfolding all_served_def by blast
  then show "\<exists>j m. k < j \<and> j < length (tr @ ext) \<and> is_answer i m
      \<and> (tr @ ext) ! j = CallWrite (rpc_encode (ap_json P) m)
      \<and> (\<forall>l. k < l \<and> l \<le> j \<longrightarrow> (tr @ ext) ! l \<noteq> CallReadTimeout)"
    by (intro exI[of _ j] exI[of _ m]) (auto simp: nth_append)
qed

lemma all_served_read:
  assumes "all_served P n tr" "CallReadTimeout \<notin> set ws'"
    "\<And>i name params. read_at P (tr @ CallReadTimeout # ws') (length tr) = Some (RpcRequest i name params) \<Longrightarrow> answered P i ws'"
  shows "all_served P n (tr @ CallReadTimeout # ws')"
  unfolding all_served_def
proof (intro allI impI)
  fix k i name params
  let ?tr = "tr @ CallReadTimeout # ws'"
  assume k: "n \<le> k" "read_at P ?tr k = Some (RpcRequest i name params)"
  have split: "?tr = (tr @ [CallReadTimeout]) @ ws'" by simp
  have "k < length (tr @ [CallReadTimeout])" using read_at_quiet[OF assms(2)] k(2) unfolding split by blast
  then consider "k < length tr" | "k = length tr" by fastforce
  then show "\<exists>j m. k < j \<and> j < length ?tr \<and> is_answer i m \<and> ?tr ! j = CallWrite (rpc_encode (ap_json P) m)
      \<and> (\<forall>l. k < l \<and> l \<le> j \<longrightarrow> ?tr ! l \<noteq> CallReadTimeout)"
  proof cases
    case 1
    then have "read_at P tr k = Some (RpcRequest i name params)" using k(2) read_at_prefix by simp
    then obtain j m where "k < j" "j < length tr" "is_answer i m" "tr ! j = CallWrite (rpc_encode (ap_json P) m)"
      "\<forall>l. k < l \<and> l \<le> j \<longrightarrow> tr ! l \<noteq> CallReadTimeout"
      using assms(1) k(1) unfolding all_served_def by blast
    then show ?thesis by (intro exI[of _ j] exI[of _ m]) (auto simp: nth_append)
  next
    case 2
    then obtain m where m: "is_answer i m" "CallWrite (rpc_encode (ap_json P) m) \<in> set ws'"
      using assms(3) k(2) by (auto simp: answered_def)
    then obtain p where "p < length ws'" "ws' ! p = CallWrite (rpc_encode (ap_json P) m)" by (metis in_set_conv_nth)
    moreover have "ws' ! l \<noteq> CallReadTimeout" if "l < length ws'" for l using assms(2) that by (metis nth_mem)
    ultimately show ?thesis
      using m(1) 2 by (intro exI[of _ "Suc (length tr + p)"] exI[of _ m]) (auto simp: nth_append nth_Cons')
  qed
qed

lemma served_more:
  assumes "all_served P n tr" "\<And>k. k < length ext \<Longrightarrow> k \<noteq> q \<Longrightarrow> ext ! k \<noteq> CallReadTimeout"
  shows "served P n (tr @ ext)"
  unfolding served_def
proof (intro allI impI)
  fix k k' i name params
  assume k: "n \<le> k" "k < k'" "k' < length (tr @ ext)" "(tr @ ext) ! k' = CallReadTimeout"
    "read_at P (tr @ ext) k = Some (RpcRequest i name params)"
  have "k < length tr"
  proof (rule ccontr)
    assume "\<not> k < length tr"
    moreover have "(tr @ ext) ! k = CallReadTimeout" using k(5) by (auto simp: read_at_def split: if_splits)
    ultimately have "k - length tr = q" "k' - length tr = q"
      using assms(2)[of "k - length tr"] assms(2)[of "k' - length tr"] k(2-4)
      by (auto simp: nth_append less_diff_conv2 not_less)
    then show False using k(2) \<open>\<not> k < length tr\<close> by simp
  qed
  then have "read_at P tr k = Some (RpcRequest i name params)" using k(5) read_at_prefix by simp
  then obtain j m where j: "k < j" "j < length tr" "is_answer i m" "tr ! j = CallWrite (rpc_encode (ap_json P) m)"
    "\<forall>l. k < l \<and> l \<le> j \<longrightarrow> tr ! l \<noteq> CallReadTimeout"
    using assms(1) k(1) unfolding all_served_def by blast
  have "j < k'"
  proof (rule ccontr)
    assume "\<not> j < k'"
    then show False using j(2,5) k(2,4) by (auto simp: nth_append split: if_splits)
  qed
  then show "\<exists>j m. k < j \<and> j < k' \<and> is_answer i m \<and> (tr @ ext) ! j = CallWrite (rpc_encode (ap_json P) m)"
    using j by (intro exI[of _ j] exI[of _ m]) (auto simp: nth_append)
qed

lemma handle_message_quiet:
  "handle_message P pid sent seen m s = TurnDone res s' \<Longrightarrow> \<exists>ws. ar_trace s' = ar_trace s @ ws \<and> CallReadTimeout \<notin> set ws"
  using quiet_permission quiet_write
  by (fastforce simp: handle_message_def go_on_def settle_turn_def Let_def quiet_def
      split: rpc_message.splits if_splits prod.splits sum.splits)

lemma prompt_step_ends:
  assumes "prompt_step P session pid sent seen s = TurnDone res s'"
  shows "\<exists>ext q. ar_trace s' = ar_trace s @ ext \<and> (\<forall>k<length ext. k \<noteq> q \<longrightarrow> ext ! k \<noteq> CallReadTimeout)"
proof -
  obtain cr s1 where c: "check_cancel P session sent s = (cr, s1)" by fastforce
  obtain ws where ws: "ar_trace s1 = ar_trace s @ ws" "CallReadTimeout \<notin> set ws"
    using check_cancel_quiet[OF c] by (auto simp: quiet_def)
  have "\<exists>us. CallReadTimeout \<notin> set us \<and> (ar_trace s' = ar_trace s1 \<or> ar_trace s' = ar_trace s1 @ CallReadTimeout # us)"
  proof (cases cr)
    case (Inl e)
    then show ?thesis using assms c by (auto simp: prompt_step_def intro: exI[of _ "[]"])
  next
    case (Inr b)
    let ?s2 = "s1\<lparr>ar_trace := ar_trace s1 @ [CallReadTimeout]\<rparr>"
    consider "ar_trace s' = ar_trace ?s2"
      | line where "receive_line P session pid b seen line ?s2 = TurnDone res s'"
      using assms c Inr by (auto simp: prompt_step_def lose_connection_def Let_def split: sum.splits option.splits)
    then have "\<exists>us. CallReadTimeout \<notin> set us \<and> ar_trace s' = ar_trace ?s2 @ us"
    proof cases
      case (2 line)
      then show ?thesis
        using quiet_deliver[of P session b seen _ ?s2] handle_message_quiet
        by (fastforce simp: receive_line_def lose_connection_def quiet_def split: sum.splits prod.splits)
    qed auto
    then show ?thesis by auto
  qed
  then obtain us where us: "CallReadTimeout \<notin> set us"
    "ar_trace s' = ar_trace s1 \<or> ar_trace s' = ar_trace s1 @ CallReadTimeout # us" by blast
  have "\<forall>k<length (ws @ CallReadTimeout # us). k \<noteq> length ws \<longrightarrow> (ws @ CallReadTimeout # us) ! k \<noteq> CallReadTimeout"
    using ws(2) us(1) by (auto simp: nth_append nth_Cons' in_set_conv_nth)
  moreover have "\<forall>k<length ws. ws ! k \<noteq> CallReadTimeout" using ws(2) by (metis nth_mem)
  ultimately show ?thesis using us(2) ws(1) by (metis append.assoc)
qed

lemma prompt_loop_served:
  "prompt_loop P fuel session pid sent seen s = Some (res, s') \<Longrightarrow> all_served P n (ar_trace s) \<Longrightarrow> served P n (ar_trace s')"
proof (induction fuel arbitrary: sent seen s)
  case 0
  then show ?case by simp
next
  case (Suc fuel)
  show ?case
  proof (cases "prompt_step P session pid sent seen s")
    case (TurnDone r s1)
    then obtain ext q where "ar_trace s' = ar_trace s @ ext" "\<forall>k<length ext. k \<noteq> q \<longrightarrow> ext ! k \<noteq> CallReadTimeout"
      using Suc.prems(1) prompt_step_ends[OF TurnDone] by auto
    then show ?thesis using served_more[OF Suc.prems(2), of ext q] by simp
  next
    case (TurnGo sent1 seen1 s1)
    obtain ws ws' where w: "ar_trace s1 = ar_trace s @ ws @ CallReadTimeout # ws'" "CallReadTimeout \<notin> set ws"
      "CallReadTimeout \<notin> set ws'" "\<And>i name params. read_at P (ar_trace s1) (length (ar_trace s @ ws)) = Some (RpcRequest i name params) \<Longrightarrow>
          answered P i ws'"
      using prompt_step_go[OF TurnGo] by blast
    have "all_served P n (ar_trace s1)"
      using all_served_read[OF all_served_quiet[OF Suc.prems(2) w(2)] w(3)] w(1,4) by simp
    then show ?thesis using Suc.prems(1) Suc.IH[of sent1 seen1 s1] TurnGo by simp
  qed
qed

section \<open>Bounded texts\<close>

lemma truncation_marker_valid: "utf8_valid truncation_marker"
  by (simp add: truncation_marker_def byte_in_def)

lemma length_marker [simp]: "length truncation_marker = 14"
  by (simp add: truncation_marker_def)

lemma bounded_diagnostic_ok:
  "length (bounded_diagnostic J v) \<le> diagnostic_cap \<and> (utf8_valid (json_print J v) \<longrightarrow> utf8_valid (bounded_diagnostic J v))"
  using char_boundary_le[of "json_print J v" "diagnostic_cap - 14"] char_boundary_valid[of "json_print J v"]
    utf8_append[OF _ truncation_marker_valid]
  by (auto simp: bounded_diagnostic_def Let_def diagnostic_cap_def)

lemma truncate_to_message_ok:
  "length (truncate_to_message t) \<le> message_cap \<and> (utf8_valid t \<longrightarrow> utf8_valid (truncate_to_message t))
     \<and> (\<exists>k. truncate_to_message t = take k t)"
  using char_boundary_le[of t message_cap] char_boundary_valid[of t]
  by (auto simp: truncate_to_message_def intro: exI[of _ "length t"])

section \<open>A scripted agent\<close>

text \<open>A process that sends the given messages, one per read, then closes its output. A message is named by a line
  as long as its position.\<close>

definition sample_agent :: "rpc_message list \<Rightarrow> acp_port" where
  "sample_agent ms = \<lparr>
     ap_json = \<lparr>json_print = (\<lambda>v. if v = rpc_value (build_permission_cancelled (IdNumber 7)) then ''cancelled 7'' else ''other''),
       json_parse = (\<lambda>t. if length t < length ms then Some (rpc_value (ms ! length t)) else None)\<rparr>,
     ap_write = (\<lambda>_. Okay ()), ap_read = (\<lambda>_. Okay None),
     ap_read_timeout = (\<lambda>tr. let k = length (filter (\<lambda>c. c = CallReadTimeout) tr) - 1 in
        if k < length ms then Okay (Some (Some (replicate k (CHR ''x'')))) else Okay (Some None)),
     ap_terminate = (\<lambda>_. Okay ()), ap_close = (\<lambda>_. Okay None),
     ap_on_event = (\<lambda>_. Okay ()), ap_on_permission = (\<lambda>_ _ _. Okay None), ap_cancel_signal = (\<lambda>_. False)\<rparr>"

definition sample_client :: acp_runtime where
  "sample_client = acp_runtime_new\<lparr>ar_session := Some ''s''\<rparr>"

definition sample_permission :: rpc_message where
  "sample_permission = RpcRequest (IdNumber 7) ''session/request_permission''
     (JObj [(''options'', JArr []), (''sessionId'', JStr ''s''), (''toolCall'', JObj [(''toolCallId'', JStr ''t'')])])"

definition sample_end :: rpc_message where
  "sample_end = RpcResponse (IdNumber 1) (JObj [(''stopReason'', JStr ''end_turn'')])"

section \<open>Properties\<close>

text \<open>C31: A prompt that reached the agent's input is classified by what the agent said. Whatever the process, the
  callbacks and the cancellation signal do, after a prompt on a bound session whose request was written without
  error (a failed write is \<open>failed_write_is_indeterminate\<close>) the attempt is never provably undelivered; it may be sent again only
  if the agent answered exactly this request with an error; it is confirmed only if the agent answered it with a
  result; and a turn that is reported as stopped was confirmed, carries the agent's stop reason and leaves the
  lifecycle ready.\<close>

theorem prompt_verdict_sound:
  assumes "ar_session s = Some session" "prompt_with_handlers P fuel blocks s = Some (res, s')"
    and "ap_write P (take (Suc (length (ar_trace s))) (ar_trace s')) = Okay ()"
  shows "let pid = IdNumber (ar_builder s + 1); n = length (ar_trace s); tr = ar_trace s'; d = ar_delivery s' in
     pd_state d \<noteq> Absent
   \<and> (may_resend d \<longrightarrow> (\<exists>e. agent_said P n tr (RpcErrorResponse pid e)))
   \<and> (pd_state d = Confirmed \<longrightarrow> (\<exists>v. agent_said P n tr (RpcResponse pid v)))
   \<and> (\<forall>r. res = Okay r \<longrightarrow> pd_state d = Confirmed \<and> \<not> pd_outstanding d \<and> ar_phase s' = PhReady
        \<and> (\<exists>v. agent_said P n tr (RpcResponse pid v) \<and> prompt_result_from v = Some r))"
proof -
  let ?pid = "IdNumber (ar_builder s + 1)"
  let ?s1 = "prompt_prepared s ?pid (ar_builder s + 1)"
  obtain m wr s2 where w: "write_message P m ?s1 = (wr, s2)"
    and run: "(case wr of Inl e \<Rightarrow> Some (Err e, s2) | Inr _ \<Rightarrow> prompt_loop P fuel session ?pid False [] s2) = Some (res, s')"
    using assms(1,2) by (auto simp: prompt_with_handlers_def build_prompt_def build_request_def allocate_def
        split: prod.splits sum.splits)
  have fl: "in_flight (ar_delivery ?s1)" and tr: "ar_trace ?s1 = ar_trace s"
    by (simp_all add: prompt_prepared_def in_flight_def mark_written_def not_sent_def)
  have q: "quiet ?s1 s2" using quiet_write[OF w] .
  have "verdict P ?pid (length (ar_trace s)) res s'"
  proof (cases wr)
    case (Inl e)
    then have "ar_trace s' = ar_trace s @ [CallWrite (rpc_encode (ap_json P) m)]" "ap_write P (ar_trace s') = Err e"
      using run w tr by (auto simp: write_message_def Let_def split: sum.splits)
    then show ?thesis using assms(3) by simp
  next
    case (Inr u)
    then show ?thesis
      using run prompt_loop_verdict[of P fuel session ?pid False "[]" s2] fl q tr by (auto simp: quiet_def)
  qed
  then show ?thesis by (auto simp: verdict_def may_resend_def)
qed

theorem prompt_verdict_sound_witness:
  "\<exists>s'. prompt_with_handlers (sample_agent [sample_permission, sample_end]) 2 [] sample_client = Some (Okay EndTurn, s')
     \<and> pd_state (ar_delivery s') = Confirmed \<and> ar_phase s' = PhReady"
proof -
  have "map_option fst (prompt_with_handlers (sample_agent [sample_permission, sample_end]) 2 [] sample_client)
      = Some (Okay EndTurn)" by code_simp
  then obtain s' where run: "prompt_with_handlers (sample_agent [sample_permission, sample_end]) 2 [] sample_client
      = Some (Okay EndTurn, s')" by auto
  have "ar_session sample_client = Some ''s''" by (simp add: sample_client_def)
  moreover have "ap_write (sample_agent [sample_permission, sample_end]) tr = Okay ()" for tr
    by (simp add: sample_agent_def)
  ultimately show ?thesis using prompt_verdict_sound[OF _ run] run by (auto simp: Let_def)
qed

text \<open>C32: No request of the agent is left open. During a prompt, between the line that carried a request of the agent
  and the next read of a line the client has written an answer to that request: a decision or a cancellation for a
  permission, a refusal for everything else.\<close>

theorem agent_requests_answered:
  assumes "ar_session s = Some session" "prompt_with_handlers P fuel blocks s = Some (res, s')"
    and "length (ar_trace s) \<le> k" "k < k'" "k' < length (ar_trace s')" "ar_trace s' ! k' = CallReadTimeout"
    and "read_at P (ar_trace s') k = Some (RpcRequest i name params)"
  shows "\<exists>j m. k < j \<and> j < k' \<and> is_answer i m \<and> ar_trace s' ! j = CallWrite (rpc_encode (ap_json P) m)"
proof -
  obtain pid b m wr s2 where w: "write_message P m (prompt_prepared s pid b) = (wr, s2)"
    and run: "(case wr of Inl e \<Rightarrow> Some (Err e, s2) | Inr _ \<Rightarrow> prompt_loop P fuel session pid False [] s2) = Some (res, s')"
    using assms(1,2) by (auto simp: prompt_with_handlers_def split: prod.splits sum.splits)
  have tr: "ar_trace s2 = ar_trace s @ [CallWrite (rpc_encode (ap_json P) m)]"
    using w by (auto simp: write_message_def prompt_prepared_def Let_def)
  then have "read_at P (ar_trace s2) l = None" if "length (ar_trace s) \<le> l" for l
    using that by (auto simp: read_at_def nth_append)
  then have all: "all_served P (length (ar_trace s)) (ar_trace s2)" by (simp add: all_served_def)
  have "served P (length (ar_trace s)) (ar_trace s')"
  proof (cases wr)
    case (Inl e)
    then show ?thesis using run served_more[OF all, of "[]"] by simp
  next
    case (Inr u)
    then show ?thesis using run prompt_loop_served[OF _ all] by simp
  qed
  then show ?thesis using assms(3-7) unfolding served_def by blast
qed

theorem agent_requests_answered_witness:
  "\<exists>s' j m. prompt_with_handlers (sample_agent [sample_permission, sample_end]) 2 [] sample_client = Some (Okay EndTurn, s')
     \<and> 1 < j \<and> j < (3 :: nat) \<and> is_answer (IdNumber 7) m
     \<and> ar_trace s' ! j = CallWrite (rpc_encode (ap_json (sample_agent [sample_permission, sample_end])) m)"
proof -
  let ?P = "sample_agent [sample_permission, sample_end]"
  have "map_option (\<lambda>(r, s'). (r, ar_trace s')) (prompt_with_handlers ?P 2 [] sample_client)
      = Some (Okay EndTurn, [CallWrite ''other'', CallReadTimeout, CallWrite ''cancelled 7'', CallReadTimeout])" by code_simp
  then obtain s' where run: "prompt_with_handlers ?P 2 [] sample_client = Some (Okay EndTurn, s')"
    "ar_trace s' = [CallWrite ''other'', CallReadTimeout, CallWrite ''cancelled 7'', CallReadTimeout]" by auto
  have "\<exists>i name params. sample_permission = RpcRequest i name params \<and> i = IdNumber 7" by (simp add: sample_permission_def)
  then obtain name params where perm: "sample_permission = RpcRequest (IdNumber 7) name params" by blast
  have "read_at ?P [CallWrite ''other'', CallReadTimeout, CallWrite ''cancelled 7'', CallReadTimeout] 1 = Some sample_permission"
    by code_simp
  then have "\<exists>j m. 1 < j \<and> j < 3 \<and> is_answer (IdNumber 7) m \<and> ar_trace s' ! j = CallWrite (rpc_encode (ap_json ?P) m)"
    using run(2) perm by (intro agent_requests_answered[OF _ run(1)])
      (simp_all add: sample_client_def acp_runtime_new_def nth_Cons')
  then show ?thesis using run(1) by blast
qed

lemma normalize_one: "normalize_message m = Okay es \<Longrightarrow> \<exists>e. es = [e]"
  by (cases m) (auto simp: and_then_def serde_def split: if_splits option.splits sum.splits)

text \<open>Normalisation drops nothing and stays in bounds. A trace that normalises has exactly one event per line,
  the one its message maps to, in order; and the protocol body of each event is within the caps of its text: a delta is a
  prefix of the agent's text that ends at a character, a preserved fragment is cut at a character and marked.\<close>

theorem normalization_complete_and_bounded:
  assumes "normalize_trace J ls = Okay es"
  shows "list_all2 (\<lambda>l e. \<exists>m. rpc_decode J l = Okay m \<and> normalize_message m = Okay [e]) ls es
   \<and> list_all (\<lambda>e. case to_event_body J (ne_event e) of
        Unknown kind d \<Rightarrow> length d \<le> diagnostic_cap \<and> ((\<forall>v. utf8_valid (json_print J v)) \<longrightarrow> utf8_valid d)
      | Known (MessageDelta t) \<Rightarrow> length t \<le> message_cap
          \<and> (\<exists>txt k. ne_event e = AeDelta txt \<and> t = take k txt \<and> (utf8_valid txt \<longrightarrow> utf8_valid t))
      | Known _ \<Rightarrow> True) es"
  using assms
proof (induction ls arbitrary: es)
  case Nil
  then show ?case by simp
next
  case (Cons l ls)
  obtain m es1 es2 where d: "rpc_decode J l = Okay m" "normalize_message m = Okay es1" "normalize_trace J ls = Okay es2"
    "es = es1 @ es2"
    using Cons.prems by (auto simp: and_then_def split: sum.splits)
  obtain e where e: "es1 = [e]" using normalize_one[OF d(2)] by blast
  have "case to_event_body J (ne_event e) of
        Unknown kind d \<Rightarrow> length d \<le> diagnostic_cap \<and> ((\<forall>v. utf8_valid (json_print J v)) \<longrightarrow> utf8_valid d)
      | Known (MessageDelta t) \<Rightarrow> length t \<le> message_cap
          \<and> (\<exists>txt k. ne_event e = AeDelta txt \<and> t = take k txt \<and> (utf8_valid txt \<longrightarrow> utf8_valid t))
      | Known _ \<Rightarrow> True"
    using bounded_diagnostic_ok[of J] truncate_to_message_ok by (cases "ne_event e") auto
  then show ?case using Cons.IH[OF d(3)] d(1,2,4) e by auto
qed

theorem normalization_complete_and_bounded_witness:
  "\<exists>es. normalize_trace (ap_json (sample_agent [sample_permission, sample_end])) ['''', ''x''] = Okay es \<and> length es = 2"
proof -
  let ?J = "ap_json (sample_agent [sample_permission, sample_end])"
  have "\<not> isl (normalize_trace ?J ['''', ''x''])" by code_simp
  then obtain es where es: "normalize_trace ?J ['''', ''x''] = Okay es" by (metis isl_def sum.exhaust)
  then show ?thesis using normalization_complete_and_bounded[OF es] list_all2_lengthD by fastforce
qed

section \<open>Limits of the client\<close>

text \<open>A permission that was answered stays in the list of pending ones: a later cancellation answers the same request a
  second time.\<close>

theorem permission_answered_twice:
  "map_option (\<lambda>(r, s'). (r, count_list (ar_trace s') (CallWrite ''cancelled 7'')))
     (prompt_with_handlers ((sample_agent [sample_permission, sample_end])
        \<lparr>ap_cancel_signal := \<lambda>tr. CallReadTimeout \<in> set tr\<rparr>) 2 [] sample_client) = Some (Okay EndTurn, 2)"
  by code_simp

text \<open>The prompt is reported as written before it is written: when the write fails the attempt counts as
  indeterminate and may not be repeated.\<close>

theorem failed_write_is_indeterminate:
  assumes "ar_session s = Some session" "\<And>tr. ap_write P tr = Err e"
  shows "\<exists>s'. prompt_with_handlers P fuel blocks s = Some (Err e, s') \<and> \<not> may_resend (ar_delivery s')"
  using assms by (simp add: prompt_with_handlers_def build_prompt_def build_request_def allocate_def write_message_def
      prompt_prepared_def mark_written_def not_sent_def may_resend_def Let_def)

text \<open>A malformed update ends the prompt without settling it: the lifecycle stays in the turn.\<close>

theorem malformed_update_leaves_turn_open:
  "map_option (\<lambda>(r, s'). (isl r, ar_phase s', pd_outstanding (ar_delivery s')))
     (prompt_with_handlers (sample_agent [RpcNotification ''session/update'' JNull]) 1 [] sample_client)
   = Some (True, PhPrompting [], True)"
  by code_simp

text \<open>A confirmed attempt can be reported as written again and then be rejected, after which a resend is allowed.\<close>

theorem confirmed_delivery_can_be_reopened:
  "let d = snd (on_prompt_response (snd (mark_written not_sent)));
       d' = snd (on_error_response (snd (mark_written d)))
   in pd_state d = Confirmed \<and> fst (mark_written d) = Okay () \<and> may_resend d'"
  by code_simp

text \<open>The kind of a preserved update is not bounded: past 53 characters it is no event kind of the protocol.\<close>

theorem preserved_kind_may_be_invalid:
  "let k = replicate 54 (CHR ''k'') in
   case to_event_body J (map_update (UpdatePreserved k raw)) of
     Unknown kind _ \<Rightarrow> validate_kind_name kind = Err (MalformedEventKind kind)
   | Known _ \<Rightarrow> False"
  by (simp add: validate_kind_name_def max_kind_len_def)

end
