(* ===== verification/Domain_Memory.thy ===== *)
theory Domain_Memory
  imports Domain_Entity Secret_Shape
begin

text \<open>
  Memories and identity documents of the domain, \<open>crates/altior-domain/src/entity.rs\<close> (from \<open>MemoryContent\<close> on) and
  \<open>identity.rs\<close>: their vocabularies, the scopes a memory applies to, its life cycle and the checks of a record.
  Times are \<open>u64\<close> milliseconds, identifiers and bounded texts the strings they wrap.
\<close>

section \<open>Scopes\<close>

datatype memory_scope = Global | Person string | Project string | Thread string

fun scope_kind_str :: "memory_scope \<Rightarrow> string" where
  "scope_kind_str Global = ''global''"
| "scope_kind_str (Person _) = ''person''"
| "scope_kind_str (Project _) = ''project''"
| "scope_kind_str (Thread _) = ''thread''"

fun scope_target_str :: "memory_scope \<Rightarrow> string option" where
  "scope_target_str Global = None"
| "scope_target_str (Person t) = Some t"
| "scope_target_str (Project t) = Some t"
| "scope_target_str (Thread t) = Some t"

definition labelled_scope :: "(string \<Rightarrow> memory_scope) \<Rightarrow> string option \<Rightarrow> (entity_error, memory_scope) result" where
  "labelled_scope con target =
     (case target of
        None \<Rightarrow> Err (EmptyText Label)
      | Some t \<Rightarrow> (case bounded_label_try_from t of Inl e \<Rightarrow> Err e | Inr label \<Rightarrow> Okay (con label)))"

definition scope_try_from_parts :: "string \<Rightarrow> string option \<Rightarrow> (entity_error, memory_scope) result" where
  "scope_try_from_parts kind target =
     (if kind = ''global'' then
        (if target \<noteq> None \<and> target \<noteq> Some [] then Err (InvalidName MemoryScopeName) else Okay Global)
      else if kind = ''person'' then labelled_scope Person target
      else if kind = ''project'' then labelled_scope Project target
      else if kind = ''thread'' then labelled_scope Thread target
      else Err (InvalidName MemoryScopeName))"

definition matches_scope :: "memory_scope \<Rightarrow> memory_scope \<Rightarrow> bool" where
  "matches_scope scope filt =
     (case (scope, filt) of
        (Global, _) \<Rightarrow> True
      | (Person a, Person b) \<Rightarrow> a = b
      | (Project a, Project b) \<Rightarrow> a = b
      | (Thread a, Thread b) \<Rightarrow> a = b
      | _ \<Rightarrow> False)"

definition is_allowed_in_context :: "memory_scope \<Rightarrow> memory_mode \<Rightarrow> string \<Rightarrow> string option \<Rightarrow> bool" where
  "is_allowed_in_context scope mode target_thread target_project =
     (case mode of
        Off \<Rightarrow> False
      | Session \<Rightarrow> (case scope of Thread label \<Rightarrow> label = target_thread | _ \<Rightarrow> False)
      | LongTerm \<Rightarrow>
          (case scope of
             Global \<Rightarrow> True
           | Person _ \<Rightarrow> True
           | Thread label \<Rightarrow> label = target_thread
           | Project label \<Rightarrow> target_project = Some label))"

definition scope_display :: "memory_scope \<Rightarrow> string" where
  "scope_display scope =
     (case scope of
        Global \<Rightarrow> ''global''
      | Person l \<Rightarrow> ''person:'' @ l
      | Project l \<Rightarrow> ''project:'' @ l
      | Thread l \<Rightarrow> ''thread:'' @ l)"

section \<open>Vocabularies\<close>

datatype memory_kind = MkFact | MkPreference | MkInstruction | MkSummary

fun memory_kind_as_str :: "memory_kind \<Rightarrow> string" where
  "memory_kind_as_str MkFact = ''fact''"
| "memory_kind_as_str MkPreference = ''preference''"
| "memory_kind_as_str MkInstruction = ''instruction''"
| "memory_kind_as_str MkSummary = ''summary''"

definition memory_kind_try_from_str :: "string \<Rightarrow> (entity_error, memory_kind) result" where
  "memory_kind_try_from_str s =
     (if s = ''fact'' then Okay MkFact
      else if s = ''preference'' then Okay MkPreference
      else if s = ''instruction'' then Okay MkInstruction
      else if s = ''summary'' then Okay MkSummary
      else Err (InvalidName MemoryKindName))"

datatype memory_state = MsCandidate | MsConfirmed | MsRejected | MsForgotten | MsExpired

fun memory_state_as_str :: "memory_state \<Rightarrow> string" where
  "memory_state_as_str MsCandidate = ''candidate''"
| "memory_state_as_str MsConfirmed = ''confirmed''"
| "memory_state_as_str MsRejected = ''rejected''"
| "memory_state_as_str MsForgotten = ''forgotten''"
| "memory_state_as_str MsExpired = ''expired''"

definition memory_state_try_from_str :: "string \<Rightarrow> (entity_error, memory_state) result" where
  "memory_state_try_from_str s =
     (if s = ''candidate'' then Okay MsCandidate
      else if s = ''confirmed'' then Okay MsConfirmed
      else if s = ''rejected'' then Okay MsRejected
      else if s = ''forgotten'' then Okay MsForgotten
      else if s = ''expired'' then Okay MsExpired
      else Err (InvalidName MemoryStateName))"

datatype memory_sensitivity = Normal | Sensitive

fun memory_sensitivity_as_str :: "memory_sensitivity \<Rightarrow> string" where
  "memory_sensitivity_as_str Normal = ''normal''"
| "memory_sensitivity_as_str Sensitive = ''sensitive''"

definition memory_sensitivity_try_from_str :: "string \<Rightarrow> (entity_error, memory_sensitivity) result" where
  "memory_sensitivity_try_from_str s =
     (if s = ''normal'' then Okay Normal
      else if s = ''sensitive'' then Okay Sensitive
      else Err (InvalidName MemorySensitivityName))"

datatype memory_source = Explicit | Inferred

fun memory_source_as_str :: "memory_source \<Rightarrow> string" where
  "memory_source_as_str Explicit = ''explicit''"
| "memory_source_as_str Inferred = ''inferred''"

definition memory_source_try_from_str :: "string \<Rightarrow> (entity_error, memory_source) result" where
  "memory_source_try_from_str s =
     (if s = ''explicit'' then Okay Explicit
      else if s = ''inferred'' then Okay Inferred
      else Err (InvalidName MemorySourceName))"

datatype identity_document_kind = IdName | IdAbout | IdPreference | IdInstruction

fun identity_kind_as_str :: "identity_document_kind \<Rightarrow> string" where
  "identity_kind_as_str IdName = ''name''"
| "identity_kind_as_str IdAbout = ''about''"
| "identity_kind_as_str IdPreference = ''preference''"
| "identity_kind_as_str IdInstruction = ''instruction''"

definition identity_kind_try_from_str :: "string \<Rightarrow> (entity_error, identity_document_kind) result" where
  "identity_kind_try_from_str s =
     (if s = ''name'' then Okay IdName
      else if s = ''about'' then Okay IdAbout
      else if s = ''preference'' then Okay IdPreference
      else if s = ''instruction'' then Okay IdInstruction
      else Err (InvalidName IdentityDocumentKindName))"

datatype context_drop_reason = BudgetExhausted | ScopeDisallowed

fun drop_reason_as_str :: "context_drop_reason \<Rightarrow> string" where
  "drop_reason_as_str BudgetExhausted = ''budget_exhausted''"
| "drop_reason_as_str ScopeDisallowed = ''scope_disallowed''"

definition drop_reason_try_from_str :: "string \<Rightarrow> (entity_error, context_drop_reason) result" where
  "drop_reason_try_from_str s =
     (if s = ''budget_exhausted'' then Okay BudgetExhausted
      else if s = ''scope_disallowed'' then Okay ScopeDisallowed
      else Err (InvalidName ContextDropReasonName))"

definition is_explicit :: "memory_source \<Rightarrow> bool" where
  "is_explicit s \<longleftrightarrow> s = Explicit"

fun render_priority :: "identity_document_kind \<Rightarrow> nat" where
  "render_priority IdName = 0"
| "render_priority IdAbout = 1"
| "render_priority IdInstruction = 2"
| "render_priority IdPreference = 3"

section \<open>Life cycle\<close>

definition state_is_retrievable :: "memory_state \<Rightarrow> string option \<Rightarrow> u64 option \<Rightarrow> u64 \<Rightarrow> bool" where
  "state_is_retrievable s superseded_by expires_at now \<longleftrightarrow>
     s = MsConfirmed \<and> superseded_by = None \<and> (case expires_at of None \<Rightarrow> True | Some e \<Rightarrow> e > now)"

definition validate_transition :: "memory_state \<Rightarrow> memory_state \<Rightarrow> (entity_error, unit) result" where
  "validate_transition from next =
     (if from = MsCandidate \<and> (next = MsConfirmed \<or> next = MsRejected)
         \<or> from = MsConfirmed \<and> (next = MsForgotten \<or> next = MsExpired) then Okay ()
      else if from = next then Okay ()
      else Err (InvalidMemoryTransition (memory_state_as_str from) (memory_state_as_str next)))"

section \<open>Records\<close>

record memory_provenance =
  mp_thread_id :: "string option"
  mp_turn_id :: "string option"
  mp_excerpt :: "string option"

record memory_record =
  mr_memory_id :: string
  mr_content :: string
  mr_scope :: memory_scope
  mr_kind :: memory_kind
  mr_state :: memory_state
  mr_confidence :: "8 word"
  mr_sensitivity :: memory_sensitivity
  mr_source :: memory_source
  mr_provenance :: memory_provenance
  mr_created_at :: u64
  mr_updated_at :: u64
  mr_expires_at :: "u64 option"
  mr_superseded_by :: "string option"

definition record_validate :: "memory_record \<Rightarrow> (entity_error, unit) result" where
  "record_validate r =
     (if mr_confidence r > 100 then Err (InvalidMemoryConfidence (mr_confidence r))
      else if mr_updated_at r < mr_created_at r
      then Err (InvalidMemoryTransition ''created_at'' ''updated_at earlier than created_at'')
      else if mr_superseded_by r \<noteq> None \<and> mr_state r \<noteq> MsConfirmed
      then Err (InvalidMemoryTransition (memory_state_as_str (mr_state r)) ''superseded requires confirmed state'')
      else Okay ())"

definition record_is_retrievable :: "memory_record \<Rightarrow> u64 \<Rightarrow> bool" where
  "record_is_retrievable r now = state_is_retrievable (mr_state r) (mr_superseded_by r) (mr_expires_at r) now"

record memory_draft =
  md_id :: "string option"
  md_content :: string
  md_scope :: memory_scope
  md_kind :: memory_kind
  md_state :: "memory_state option"
  md_confidence :: "8 word"
  md_sensitivity :: memory_sensitivity
  md_source :: memory_source
  md_provenance :: memory_provenance
  md_expires_at :: "u64 option"

definition draft_new :: "string \<Rightarrow> memory_scope \<Rightarrow> memory_kind \<Rightarrow> memory_draft" where
  "draft_new content scope kind =
     \<lparr>md_id = None, md_content = content, md_scope = scope, md_kind = kind, md_state = None,
      md_confidence = 100, md_sensitivity = Normal, md_source = Explicit,
      md_provenance = \<lparr>mp_thread_id = None, mp_turn_id = None, mp_excerpt = None\<rparr>, md_expires_at = None\<rparr>"

section \<open>Identity documents\<close>

record identity_document =
  id_doc_id :: string
  id_doc_kind :: identity_document_kind
  id_doc_content :: string
  id_doc_created_at :: u64
  id_doc_updated_at :: u64

definition identity_validate :: "identity_document \<Rightarrow> (entity_error, unit) result" where
  "identity_validate d =
     (if id_doc_updated_at d < id_doc_created_at d
      then Err (InvalidIdentityDocument ''updated_at earlier than created_at'')
      else Okay ())"

section \<open>Lemmas\<close>

interpretation memory_kind: named_vocabulary memory_kind_as_str memory_kind_try_from_str
proof
  fix s k
  show "memory_kind_try_from_str s = Okay k \<longleftrightarrow> s = memory_kind_as_str k"
    by (cases k) (auto simp: memory_kind_try_from_str_def)
qed

interpretation memory_state: named_vocabulary memory_state_as_str memory_state_try_from_str
proof
  fix s k
  show "memory_state_try_from_str s = Okay k \<longleftrightarrow> s = memory_state_as_str k"
    by (cases k) (auto simp: memory_state_try_from_str_def)
qed

interpretation memory_sensitivity: named_vocabulary memory_sensitivity_as_str memory_sensitivity_try_from_str
proof
  fix s k
  show "memory_sensitivity_try_from_str s = Okay k \<longleftrightarrow> s = memory_sensitivity_as_str k"
    by (cases k) (auto simp: memory_sensitivity_try_from_str_def)
qed

interpretation memory_source: named_vocabulary memory_source_as_str memory_source_try_from_str
proof
  fix s k
  show "memory_source_try_from_str s = Okay k \<longleftrightarrow> s = memory_source_as_str k"
    by (cases k) (auto simp: memory_source_try_from_str_def)
qed

interpretation identity_kind: named_vocabulary identity_kind_as_str identity_kind_try_from_str
proof
  fix s k
  show "identity_kind_try_from_str s = Okay k \<longleftrightarrow> s = identity_kind_as_str k"
    by (cases k) (auto simp: identity_kind_try_from_str_def)
qed

interpretation drop_reason: named_vocabulary drop_reason_as_str drop_reason_try_from_str
proof
  fix s k
  show "drop_reason_try_from_str s = Okay k \<longleftrightarrow> s = drop_reason_as_str k"
    by (cases k) (auto simp: drop_reason_try_from_str_def)
qed

text \<open>A scope is stored as two columns. The columns of a scope with a valid label are read back as that scope.\<close>

definition scope_ok :: "memory_scope \<Rightarrow> bool" where
  "scope_ok scope = (case scope_target_str scope of None \<Rightarrow> True | Some t \<Rightarrow> bounded_label_try_from t = Okay t)"

lemma scope_parts_ok: "scope_try_from_parts kind target = Okay scope \<Longrightarrow> scope_ok scope \<and> scope_kind_str scope = kind"
  by (auto simp: scope_try_from_parts_def labelled_scope_def scope_ok_def dest: bounded_label.reread
      split: if_splits option.splits sum.splits)

lemma scope_parts_roundtrip:
  "scope_ok scope \<Longrightarrow> scope_try_from_parts (scope_kind_str scope) (scope_target_str scope) = Okay scope"
  by (cases scope) (simp_all add: scope_try_from_parts_def labelled_scope_def scope_ok_def)

text \<open>The life cycle as a machine: from a state to any state the check allows.\<close>

definition memory_move :: "memory_state \<Rightarrow> memory_state \<Rightarrow> bool" where
  "memory_move s t \<longleftrightarrow> validate_transition s t = Okay ()"

lemma memory_move_iff: "memory_move s t \<longleftrightarrow>
   s = t \<or> s = MsCandidate \<and> t \<in> {MsConfirmed, MsRejected} \<or> s = MsConfirmed \<and> t \<in> {MsForgotten, MsExpired}"
  by (auto simp: memory_move_def validate_transition_def)

interpretation ended_memory: guarded_machine
  "\<lambda>s. s \<in> {MsRejected, MsForgotten, MsExpired}" memory_move "\<lambda>s. s \<in> {MsRejected, MsForgotten, MsExpired}"
  by unfold_locales (auto simp: memory_move_iff)

interpretation confirmed_memory: guarded_machine
  "\<lambda>s. s = MsConfirmed" memory_move "\<lambda>s. s \<notin> {MsCandidate, MsRejected}"
  by unfold_locales (auto simp: memory_move_iff)

interpretation unconfirmed_memory: guarded_machine
  "\<lambda>s. s = MsCandidate" "\<lambda>s t. memory_move s t \<and> t \<noteq> MsConfirmed" "\<lambda>s. s \<in> {MsCandidate, MsRejected}"
  by unfold_locales (auto simp: memory_move_iff)

section \<open>Properties\<close>

text \<open>The life cycle of a memory only moves on. A memory that was rejected, forgotten or has expired is never
  retrievable again whatever transitions follow, a confirmed one never becomes a candidate or rejected again, a memory
  gets from candidate to forgotten or expired only by way of confirmed, and the allowed transitions lead in no
  circle.\<close>

theorem memory_lifecycle_final:
  assumes "memory_move\<^sup>*\<^sup>* s t"
  shows "(s \<in> {MsRejected, MsForgotten, MsExpired} \<longrightarrow>
            t \<in> {MsRejected, MsForgotten, MsExpired} \<and> (\<forall>by_ex now. \<not> state_is_retrievable t (fst by_ex) (snd by_ex) now))
       \<and> (s = MsConfirmed \<longrightarrow> t \<notin> {MsCandidate, MsRejected})
       \<and> (s = MsCandidate \<and> t \<in> {MsForgotten, MsExpired} \<longrightarrow>
            \<not> (\<lambda>x y. memory_move x y \<and> y \<noteq> MsConfirmed)\<^sup>*\<^sup>* s t)
       \<and> (memory_move\<^sup>*\<^sup>* t s \<longrightarrow> s = t)"
proof -
  define rank where "rank = (\<lambda>s. case s of MsCandidate \<Rightarrow> 0 | MsConfirmed \<Rightarrow> 1 | _ \<Rightarrow> (2 :: nat))"
  have up: "x = y \<or> rank x < rank y" if "memory_move\<^sup>*\<^sup>* x y" for x y
    using that by (induction rule: rtranclp_induct) (auto simp: memory_move_iff rank_def split: memory_state.splits)
  show ?thesis
    using unconfirmed_memory.star_good[of s t] ended_memory.star_good[OF assms] confirmed_memory.star_good[OF assms] up[OF assms] up[of t s]
    by (auto simp: state_is_retrievable_def)
qed

theorem memory_lifecycle_final_witness:
  "memory_move\<^sup>*\<^sup>* MsConfirmed MsForgotten \<and> \<not> memory_move\<^sup>*\<^sup>* MsForgotten MsConfirmed"
proof -
  have m: "memory_move\<^sup>*\<^sup>* MsConfirmed MsForgotten" by (rule r_into_rtranclp) (simp add: memory_move_iff)
  then show ?thesis using memory_lifecycle_final[OF m] by blast
qed

end
