(* ===== verification/Acp_Launch.thy ===== *)
theory Acp_Launch
  imports Acp_Wire Rust_Text
begin

text \<open>
  Launching an agent process and reading its pipes: the bounded launch configuration of
  \<open>crates/altior-acp/src/config.rs\<close> and the readers of \<open>transport.rs\<close>. The secret store is a function from
  references to secrets; a pipe is the bytes that arrive on it until it is closed. Diagnostic texts with numbers in
  them keep the texts around the numbers.
\<close>

section \<open>Configuration\<close>

definition max_program_bytes :: nat where "max_program_bytes = 4096"
definition max_args_count :: nat where "max_args_count = 256"
definition max_arg_bytes :: nat where "max_arg_bytes = 65536"
definition max_env_count :: nat where "max_env_count = 256"
definition max_env_key_bytes :: nat where "max_env_key_bytes = 256"
definition max_env_value_bytes :: nat where "max_env_value_bytes = 65536"
definition max_stderr_capture_bytes :: nat where "max_stderr_capture_bytes = 65536"
definition max_secret_ref_bytes :: nat where "max_secret_ref_bytes = 256"

lemmas launch_caps = max_program_bytes_def max_args_count_def max_arg_bytes_def max_env_count_def max_env_key_bytes_def
  max_env_value_bytes_def max_secret_ref_bytes_def

definition exceeds :: "string \<Rightarrow> nat \<Rightarrow> string \<Rightarrow> nat \<Rightarrow> acp_error" where
  "exceeds what n verb cap = InvalidConfig (what @ show_nat n @ verb @ show_nat cap)"

definition secret_ref_new :: "string \<Rightarrow> (acp_error, string) result" where
  "secret_ref_new reference =
     (let trimmed = trim reference in
      if trimmed = [] then Err (InvalidConfig ''secret reference must not be empty'')
      else if length trimmed > max_secret_ref_bytes
      then Err (exceeds ''secret reference length '' (length trimmed) '' exceeds maximum '' max_secret_ref_bytes)
      else Okay trimmed)"

datatype env_var_value = EnvLiteral string | EnvSecret string

record launch_config =
  lc_program :: string
  lc_args :: "string list"
  lc_working_dir :: "string option"
  lc_env :: "(string \<times> env_var_value) list"

definition launch_new :: "string \<Rightarrow> (acp_error, launch_config) result" where
  "launch_new program =
     (let trimmed = trim program in
      if trimmed = [] then Err (InvalidConfig ''program path must not be empty'')
      else if length trimmed > max_program_bytes
      then Err (exceeds ''program path length '' (length trimmed) '' exceeds limit '' max_program_bytes)
      else Okay \<lparr>lc_program = trimmed, lc_args = [], lc_working_dir = None, lc_env = []\<rparr>)"

definition with_arg :: "launch_config \<Rightarrow> string \<Rightarrow> (acp_error, launch_config) result" where
  "with_arg c arg =
     (if length (lc_args c) \<ge> max_args_count
      then Err (InvalidConfig (''argument count exceeds limit of '' @ show_nat max_args_count))
      else if length arg > max_arg_bytes
      then Err (exceeds ''argument length '' (length arg) '' exceeds limit '' max_arg_bytes)
      else Okay (c\<lparr>lc_args := lc_args c @ [arg]\<rparr>))"

fun with_args :: "launch_config \<Rightarrow> string list \<Rightarrow> (acp_error, launch_config) result" where
  "with_args c [] = Okay c"
| "with_args c (a # as) = (case with_arg c a of Inl e \<Rightarrow> Err e | Inr c' \<Rightarrow> with_args c' as)"

definition with_working_dir :: "launch_config \<Rightarrow> string \<Rightarrow> (acp_error, launch_config) result" where
  "with_working_dir c cwd =
     (let trimmed = trim cwd in
      if length trimmed > max_program_bytes
      then Err (exceeds ''working directory length '' (length trimmed) '' exceeds limit '' max_program_bytes)
      else Okay (c\<lparr>lc_working_dir := (if trimmed = [] then None else Some trimmed)\<rparr>))"

definition validate_env_key :: "string \<Rightarrow> nat \<Rightarrow> (acp_error, unit) result" where
  "validate_env_key key current_count =
     (let trimmed = trim key in
      if trimmed = [] then Err (InvalidConfig ''environment variable key must not be empty'')
      else if length trimmed > max_env_key_bytes
      then Err (exceeds ''environment variable key length '' (length trimmed) '' exceeds limit '' max_env_key_bytes)
      else if current_count \<ge> max_env_count
      then Err (InvalidConfig (''environment variable count exceeds limit of '' @ show_nat max_env_count))
      else Okay ())"

definition validate_env_key_and_value :: "string \<Rightarrow> string \<Rightarrow> nat \<Rightarrow> (acp_error, unit) result" where
  "validate_env_key_and_value key value current_count =
     (case validate_env_key key current_count of
        Inl e \<Rightarrow> Err e
      | Inr _ \<Rightarrow>
          if length value > max_env_value_bytes
          then Err (exceeds ''environment variable value length '' (length value) '' exceeds limit '' max_env_value_bytes)
          else Okay ())"

definition with_literal_env :: "launch_config \<Rightarrow> string \<Rightarrow> string \<Rightarrow> (acp_error, launch_config) result" where
  "with_literal_env c key value =
     (case validate_env_key_and_value key value (length (lc_env c)) of
        Inl e \<Rightarrow> Err e
      | Inr _ \<Rightarrow> Okay (c\<lparr>lc_env := bt_insert key (EnvLiteral value) (lc_env c)\<rparr>))"

definition with_secret_env :: "launch_config \<Rightarrow> string \<Rightarrow> string \<Rightarrow> (acp_error, launch_config) result" where
  "with_secret_env c key secret_ref =
     (case validate_env_key key (length (lc_env c)) of
        Inl e \<Rightarrow> Err e
      | Inr _ \<Rightarrow> Okay (c\<lparr>lc_env := bt_insert key (EnvSecret secret_ref) (lc_env c)\<rparr>))"

section \<open>Resolution\<close>

record resolved_launch_config =
  rl_program :: string
  rl_args :: "string list"
  rl_working_dir :: "string option"
  rl_env :: "(string \<times> string) list"

definition resolve_value :: "(string \<Rightarrow> (acp_error, string) result) \<Rightarrow> string \<times> env_var_value \<Rightarrow> (acp_error, string \<times> string) result" where
  "resolve_value resolver kv =
     (case (case snd kv of EnvLiteral lit \<Rightarrow> Okay lit | EnvSecret sref \<Rightarrow> resolver sref) of
        Inl e \<Rightarrow> Err e
      | Inr v \<Rightarrow>
          if length v > max_env_value_bytes
          then Err (InvalidConfig (''resolved secret value for '' @ [CHR 39] @ fst kv @ [CHR 39] @ '' exceeds maximum length '' @ show_nat max_env_value_bytes))
          else Okay (fst kv, v))"

fun resolve_env ::
  "(string \<Rightarrow> (acp_error, string) result) \<Rightarrow> (string \<times> env_var_value) list \<Rightarrow> (acp_error, (string \<times> string) list) result" where
  "resolve_env resolver [] = Okay []"
| "resolve_env resolver (kv # kvs) =
     (case resolve_value resolver kv of
        Inl e \<Rightarrow> Err e
      | Inr x \<Rightarrow> (case resolve_env resolver kvs of Inl e \<Rightarrow> Err e | Inr xs \<Rightarrow> Okay (x # xs)))"

definition launch_resolve ::
  "(string \<Rightarrow> (acp_error, string) result) \<Rightarrow> launch_config \<Rightarrow> (acp_error, resolved_launch_config) result" where
  "launch_resolve resolver c =
     (case resolve_env resolver (lc_env c) of
        Inl e \<Rightarrow> Err e
      | Inr env \<Rightarrow> Okay \<lparr>rl_program = lc_program c, rl_args = lc_args c, rl_working_dir = lc_working_dir c, rl_env = env\<rparr>)"

definition no_secrets_resolver :: "string \<Rightarrow> (acp_error, string) result" where
  "no_secrets_resolver sref = Err (SecretResolutionFailed sref ''no secret resolver configured in composition'')"

definition resolved_new ::
  "string \<Rightarrow> string list \<Rightarrow> string option \<Rightarrow> (string \<times> string) list \<Rightarrow> (acp_error, resolved_launch_config) result" where
  "resolved_new program args working_dir env =
     (case launch_new program of
        Inl e \<Rightarrow> Err e
      | Inr c \<Rightarrow>
          (case with_args c args of
             Inl e \<Rightarrow> Err e
           | Inr c1 \<Rightarrow>
               (case with_working_dir c1 (case working_dir of None \<Rightarrow> [] | Some d \<Rightarrow> d) of
                  Inl e \<Rightarrow> Err e
                | Inr c2 \<Rightarrow>
                    (case List.find isl (map (\<lambda>(k, v). validate_env_key_and_value k v 0) env) of
                       Some (Inl e) \<Rightarrow> Err e
                     | _ \<Rightarrow> Okay \<lparr>rl_program = lc_program c2, rl_args = lc_args c2,
                         rl_working_dir = lc_working_dir c2, rl_env = env\<rparr>))))"

section \<open>Pipes\<close>

text \<open>\<open>read_bounded_line\<close> on what is left of the stream: the bytes collected so far and how many were read. The end
  of the list is the end of the stream.\<close>

definition finish_line :: "string \<Rightarrow> (acp_error, string option) result" where
  "finish_line line_bytes =
     (let l = strip_cr line_bytes in if utf8_valid l then Okay (Some l) else Err LineNotUtf8)"

fun read_bounded_line :: "string \<Rightarrow> nat \<Rightarrow> string \<Rightarrow> (acp_error, string option) result \<times> string" where
  "read_bounded_line line_bytes total_read [] =
     (if line_bytes = [] then (Okay None, []) else (finish_line line_bytes, []))"
| "read_bounded_line line_bytes total_read (b # s) =
     (if total_read + 1 > max_line_bytes then (Err (LineTooLarge (total_read + 1) max_line_bytes), s)
      else if b = newline_char then (finish_line line_bytes, s)
      else read_bounded_line (line_bytes @ [b]) (total_read + 1) s)"

lemma read_shrinks: "read_bounded_line acc n s = (r, s') \<Longrightarrow> length s' \<le> length s \<and> (s \<noteq> [] \<longrightarrow> length s' < length s)"
  by (induction acc n s arbitrary: r s' rule: read_bounded_line.induct) (auto split: if_splits)

lemma read_some: "read_bounded_line [] n s = (Okay (Some l), s') \<Longrightarrow> length s' < length s"
  using read_shrinks[of "[]" n s] by (cases s) auto

text \<open>The pump sends every line, then the end or the error.\<close>

function pump_stdout_lines :: "string \<Rightarrow> (acp_error, string option) result list" where
  "pump_stdout_lines s =
     (case read_bounded_line [] 0 s of
        (Inr (Some l), s') \<Rightarrow> Okay (Some l) # pump_stdout_lines s'
      | (r, _) \<Rightarrow> [r])"
  by pat_completeness auto
termination
  by (relation "measure length") (auto dest: read_some[OF sym])

declare pump_stdout_lines.simps [simp del]

text \<open>The capture of the error stream, chunk by chunk: the buffer and the bytes counted towards the bound.\<close>

definition stderr_marker :: string where
  "stderr_marker = [newline_char] @ ''...[stderr truncated]''"

fun capture_stderr :: "string \<Rightarrow> nat \<Rightarrow> string list \<Rightarrow> string" where
  "capture_stderr buf total_read [] = buf"
| "capture_stderr buf total_read (chunk # chunks) =
     (let available = max_stderr_capture_bytes - total_read in
      if available > 0 then
        (let to_append = min (length chunk) available in
         capture_stderr (buf @ take to_append chunk @ (if total_read + to_append \<ge> max_stderr_capture_bytes then stderr_marker else []))
           (total_read + to_append) chunks)
      else capture_stderr buf total_read chunks)"

section \<open>Lemmas\<close>

definition launch_ok :: "launch_config \<Rightarrow> bool" where
  "launch_ok c \<longleftrightarrow> lc_program c \<noteq> [] \<and> length (lc_program c) \<le> 4096 \<and> trim (lc_program c) = lc_program c
     \<and> length (lc_args c) \<le> 256 \<and> list_all (\<lambda>a. length a \<le> 65536) (lc_args c)
     \<and> (\<forall>d. lc_working_dir c = Some d \<longrightarrow> d \<noteq> [] \<and> length d \<le> 4096)
     \<and> bt_ok (lc_env c) \<and> length (lc_env c) \<le> 256
     \<and> list_all (\<lambda>(k, v). trim k \<noteq> [] \<and> length (trim k) \<le> 256 \<and> (\<forall>lit. v = EnvLiteral lit \<longrightarrow> length lit \<le> 65536)) (lc_env c)"

lemma launch_new_ok: "launch_new p = Okay c \<Longrightarrow> launch_ok c"
  by (auto simp: launch_new_def launch_ok_def Let_def launch_caps split: if_splits)

lemma with_arg_ok: "launch_ok c \<Longrightarrow> with_arg c a = Okay c' \<Longrightarrow> launch_ok c'"
  by (auto simp: with_arg_def launch_ok_def launch_caps split: if_splits)

lemma with_args_ok: "launch_ok c \<Longrightarrow> with_args c as = Okay c' \<Longrightarrow> launch_ok c'"
  by (induction c as rule: with_args.induct) (auto dest: with_arg_ok split: sum.splits)

lemma with_working_dir_ok: "launch_ok c \<Longrightarrow> with_working_dir c d = Okay c' \<Longrightarrow> launch_ok c'"
  by (auto simp: with_working_dir_def launch_ok_def Let_def launch_caps split: if_splits)

lemma env_insert_ok:
  assumes "launch_ok c" "validate_env_key k (length (lc_env c)) = Okay ()" "\<forall>lit. v = EnvLiteral lit \<longrightarrow> length lit \<le> 65536"
  shows "launch_ok (c\<lparr>lc_env := bt_insert k v (lc_env c)\<rparr>)"
proof -
  have k: "trim k \<noteq> []" "length (trim k) \<le> 256" "length (lc_env c) < 256"
    using assms(2) by (auto simp: validate_env_key_def Let_def launch_caps split: if_splits)
  define good where "good = (\<lambda>(k, v). trim k \<noteq> [] \<and> length (trim k) \<le> 256 \<and> (\<forall>lit. v = EnvLiteral lit \<longrightarrow> length lit \<le> 65536))"
  have "list_all good (bt_insert k v (lc_env c))"
    using assms(1,3) k(1,2) bt_insert_set[of k v "lc_env c"] unfolding launch_ok_def good_def list_all_iff by fastforce
  then show ?thesis
    using assms(1) k(3) bt_insert_length[of k v "lc_env c"] unfolding launch_ok_def good_def by (auto simp: bt_insert_ok)
qed

lemma with_literal_env_ok: "launch_ok c \<Longrightarrow> with_literal_env c k v = Okay c' \<Longrightarrow> launch_ok c'"
  by (auto simp: with_literal_env_def validate_env_key_and_value_def launch_caps intro!: env_insert_ok split: sum.splits if_splits)

lemma with_secret_env_ok: "launch_ok c \<Longrightarrow> with_secret_env c k v = Okay c' \<Longrightarrow> launch_ok c'"
  by (auto simp: with_secret_env_def intro!: env_insert_ok split: sum.splits)

text \<open>How an entry is resolved: a literal as it is, a reference by the secret store.\<close>

definition resolved_as :: "(string \<Rightarrow> (acp_error, string) result) \<Rightarrow> string \<times> env_var_value \<Rightarrow> string \<times> string \<Rightarrow> bool" where
  "resolved_as resolver kv kw \<longleftrightarrow> fst kw = fst kv \<and> length (snd kw) \<le> 65536
     \<and> (case snd kv of EnvLiteral lit \<Rightarrow> snd kw = lit | EnvSecret sref \<Rightarrow> resolver sref = Okay (snd kw))"

lemma resolve_value_ok: "resolve_value resolver kv = Okay kw \<Longrightarrow> resolved_as resolver kv kw"
  by (auto simp: resolve_value_def resolved_as_def launch_caps split: sum.splits if_splits env_var_value.splits)

lemma resolve_env_ok: "resolve_env resolver env = Okay env' \<Longrightarrow> list_all2 (resolved_as resolver) env env'"
  by (induction resolver env arbitrary: env' rule: resolve_env.induct)
    (auto dest: resolve_value_ok split: sum.splits)

section \<open>Properties\<close>

text \<open>The calls that build a configuration.\<close>

datatype launch_call =
    WithArg string | WithArgs "string list" | WithWorkingDir string | WithLiteral string string | WithSecret string string

fun launch_call_run :: "launch_config \<Rightarrow> launch_call \<Rightarrow> (acp_error, launch_config) result" where
  "launch_call_run c (WithArg a) = with_arg c a"
| "launch_call_run c (WithArgs as) = with_args c as"
| "launch_call_run c (WithWorkingDir d) = with_working_dir c d"
| "launch_call_run c (WithLiteral k v) = with_literal_env c k v"
| "launch_call_run c (WithSecret k r) = with_secret_env c k r"

interpretation launch_builder: guarded_machine
  "\<lambda>c. \<exists>program. launch_new program = Okay c" "\<lambda>c c'. \<exists>call. launch_call_run c call = Okay c'" launch_ok
proof
  fix c c'
  assume ok: "launch_ok c" and "\<exists>call. launch_call_run c call = Okay c'"
  then obtain call where "launch_call_run c call = Okay c'" by blast
  then show "launch_ok c'" using ok
    by (cases call) (auto intro: with_arg_ok with_args_ok with_working_dir_ok with_literal_env_ok with_secret_env_ok)
qed (auto dest: launch_new_ok)

text \<open>Every launch configuration that can be built is within its bounds, and so is what it resolves to: the
  program is a trimmed text of 1 to 4096 bytes, there are at most 256 arguments of at most 64 KiB and 256 environment
  entries with distinct keys, and a resolved entry is the literal that was given or what the secret store answered for
  its reference, within 64 KiB. Without a secret store a configuration that names a secret does not resolve.\<close>

theorem launch_config_bounded:
  assumes "reach (\<lambda>c. \<exists>program. launch_new program = Okay c) (\<lambda>c c'. \<exists>call. launch_call_run c call = Okay c') c"
  shows "launch_ok c
    \<and> (launch_resolve resolver c = Okay r \<longrightarrow>
         rl_program r = lc_program c \<and> rl_args r = lc_args c \<and> rl_working_dir r = lc_working_dir c
         \<and> list_all2 (resolved_as resolver) (lc_env c) (rl_env r))
    \<and> (launch_resolve no_secrets_resolver c = Okay r \<longrightarrow> (\<forall>k sref. (k, EnvSecret sref) \<notin> set (lc_env c)))"
proof -
  have "\<forall>k sref. (k, EnvSecret sref) \<notin> set env" if "resolve_env no_secrets_resolver env = Okay x" for env x
    using resolve_env_ok[OF that] by (fastforce simp: list_all2_conv_all_nth in_set_conv_nth resolved_as_def no_secrets_resolver_def)
  then show ?thesis
    using launch_builder.reach_good[OF assms]
    by (auto simp: launch_resolve_def dest: resolve_env_ok split: sum.splits)
qed

definition sample_launch :: launch_config where
  "sample_launch = \<lparr>lc_program = ''agent'', lc_args = [], lc_working_dir = None, lc_env = []\<rparr>"

lemma sample_launch_trim: "trim ''agent'' = ''agent''" "trim ''KEY'' = ''KEY''"
  by code_simp+

lemma sample_launch_built: "launch_new ''agent'' = Okay sample_launch"
  using sample_launch_trim(1) by (simp add: launch_new_def launch_caps sample_launch_def)

theorem launch_config_bounded_witness:
  "\<exists>c. reach (\<lambda>c. \<exists>program. launch_new program = Okay c) (\<lambda>c c'. \<exists>call. launch_call_run c call = Okay c') c
     \<and> lc_env c = [(''KEY'', EnvSecret ''ref'')] \<and> launch_ok c"
proof -
  let ?R = "reach (\<lambda>c. \<exists>program. launch_new program = Okay c) (\<lambda>c c'. \<exists>call. launch_call_run c call = Okay c')"
  let ?c = "sample_launch\<lparr>lc_env := [(''KEY'', EnvSecret ''ref'')]\<rparr>"
  have "?R sample_launch" using sample_launch_built by (blast intro: reach_start)
  moreover have "launch_call_run sample_launch (WithSecret ''KEY'' ''ref'') = Okay ?c"
    using sample_launch_trim by (simp add: with_secret_env_def validate_env_key_def launch_caps sample_launch_def)
  ultimately have "?R ?c" by (blast intro: reach_move)
  then show ?thesis using launch_config_bounded[of ?c] by (intro exI[of _ ?c]) auto
qed

text \<open>The bound of a key is on the trimmed key and the key is stored as it came, so blanks around it are not bounded; and a
  configuration that is built resolved takes any number of entries.\<close>

theorem launch_key_not_trimmed:
  "with_literal_env \<lparr>lc_program = ''agent'', lc_args = [], lc_working_dir = None, lc_env = []\<rparr> '' KEY '' ''v''
   = Okay \<lparr>lc_program = ''agent'', lc_args = [], lc_working_dir = None, lc_env = [('' KEY '', EnvLiteral ''v'')]\<rparr>"
proof -
  have "trim '' KEY '' = ''KEY''" by code_simp
  then show ?thesis by (simp add: with_literal_env_def validate_env_key_and_value_def validate_env_key_def launch_caps)
qed

section \<open>Reading\<close>

lemma read_line_step:
  "newline_char \<notin> set l \<Longrightarrow> n + length l < max_line_bytes \<Longrightarrow>
   read_bounded_line acc n (l @ newline_char # s) = (finish_line (acc @ l), s)"
  by (induction l arbitrary: acc n) auto

text \<open>Lines written one after the other are pumped in order, then the end of the stream.\<close>

theorem pump_reads_lines:
  assumes "\<forall>l\<in>set ls. newline_char \<notin> set l \<and> length l < max_line_bytes \<and> utf8_valid l \<and> strip_cr l = l"
  shows "pump_stdout_lines (concat (map (\<lambda>l. l @ [newline_char]) ls)) = map (\<lambda>l. Okay (Some l)) ls @ [Okay None]"
  using assms
proof (induction ls)
  case Nil
  then show ?case by (simp add: pump_stdout_lines.simps)
next
  case (Cons l ls)
  let ?s = "concat (map (\<lambda>l. l @ [newline_char]) ls)"
  have "read_bounded_line [] 0 (l @ newline_char # ?s) = (Okay (Some l), ?s)"
    using Cons.prems by (simp add: read_line_step finish_line_def)
  then show ?case using Cons by (simp add: pump_stdout_lines.simps[of "l @ newline_char # ?s"])
qed

text \<open>The captured error output is a prefix of the stream of at most 64 KiB, with the marker after it when it is cut
  there.\<close>

lemma capture_spec:
  "n \<le> max_stderr_capture_bytes \<Longrightarrow> capture_stderr buf n chunks =
     buf @ take (max_stderr_capture_bytes - n) (concat chunks)
     @ (if n < max_stderr_capture_bytes \<and> n + length (concat chunks) \<ge> max_stderr_capture_bytes then stderr_marker else [])"
proof (induction buf n chunks rule: capture_stderr.induct)
  case (2 buf n chunk chunks)
  show ?case
  proof (cases "n < max_stderr_capture_bytes")
    case True
    show ?thesis
    proof (cases "length chunk < max_stderr_capture_bytes - n")
      case True
      then have "n + length chunk < max_stderr_capture_bytes" by simp
      then show ?thesis using 2 \<open>n < _\<close> by (simp add: Let_def)
    next
      case False
      then have "min (length chunk) (max_stderr_capture_bytes - n) = max_stderr_capture_bytes - n" by simp
      moreover have "n + (length chunk + length (concat chunks)) \<ge> max_stderr_capture_bytes" using False by simp
      ultimately show ?thesis using 2 \<open>n < _\<close> False by (simp add: Let_def)
    qed
  qed (use 2 in \<open>simp add: Let_def\<close>)
qed auto

end
