(* ===== verification/Storage_Model.thy ===== *)
theory Storage_Model
  imports Domain_Memory
begin

text \<open>
  The tables of the store, \<open>crates/altior-storage/src\<close>: the schema of \<open>migrations.rs\<close>, the errors of \<open>error.rs\<close>, and the
  protocol journal of \<open>lib.rs\<close> with its thread projection. A table with a primary key is a strictly ordered association
  list from the key to the other columns; a journal is the list of its rows in append order. A statement of a method is the
  change it makes to these tables, and a transaction that is not committed leaves them as they were. An \<open>INTEGER\<close> column
  is an \<open>int\<close>, a \<open>TEXT\<close> or \<open>BLOB\<close> column a string of bytes, a nullable column an option. Failures of SQLite itself
  (a full disk, a locked file) are left out. The text of a diagnostic ends where it would quote another error.
\<close>

section \<open>Errors\<close>

datatype storage_error =
    SchemaTooNew int int
  | MigrationFailed int string
  | JournalPayloadTooLarge nat nat
  | JournalLimitOutOfRange u32 u32
  | InvalidDomainEvent string
  | EventIdCollision string int
  | EncodeFailed protocol_error
  | PayloadNotUtf8 int
  | DecodeFailed int protocol_error
  | JournalImmutable string
  | RebuildInvariant string
  | AgentProfileAlreadyExists string
  | AgentProfileNotFound string
  | HarnessBindingAlreadyExists string
  | HarnessBindingNotFound string
  | ProjectRefAlreadyExists string
  | ProjectRefNotFound string
  | ProjectReferencedByThreads string nat
  | InvalidEntityData string
  | CheckpointCollision string string
  | CheckpointNotFound string
  | CheckpointSettlementConflict string string string
  | InvalidCheckpointTransition string string
  | TurnNotFound string
  | TurnThreadMismatch string string string
  | MemoryNotFound string
  | IdentityDocumentNotFound string
  | IdentityDocumentConflict string
  | IdentityDocumentCountExceeded nat nat
  | ContextSnapshotConflict string
  | ContextSnapshotCorrupt string string
  | SecretShapedContent
  | LimitOutOfRange u32 u32
  | Sqlite string string

section \<open>Columns\<close>

text \<open>\<open>i64::try_from\<close> of a \<open>u64\<close> and \<open>u64::try_from\<close> of an \<open>i64\<close>.\<close>

definition i64_try_from :: "u64 \<Rightarrow> int option" where
  "i64_try_from n = (if unat n < 2 ^ 63 then Some (uint n) else None)"

definition u64_try_from :: "int \<Rightarrow> u64 option" where
  "u64_try_from i = (if i < 0 then None else Some (word_of_int i))"

definition i64_max :: int where
  "i64_max = 9223372036854775807"

text \<open>Lower-case hexadecimal digits, two for each byte: \<open>{:016x}\<close> of a \<open>u64\<close> and \<open>{:08x}\<close> of a \<open>u32\<close>.\<close>

definition hex_of_bytes :: "bytes \<Rightarrow> string" where
  "hex_of_bytes bs =
     concat (map (\<lambda>b. [''0123456789abcdef'' ! (unat b div 16), ''0123456789abcdef'' ! (unat b mod 16)]) bs)"

text \<open>\<open>UPDATE \<dots> WHERE\<close> the primary key is given.\<close>

definition update_row :: "'k \<Rightarrow> ('v \<Rightarrow> 'v) \<Rightarrow> ('k \<times> 'v) list \<Rightarrow> ('k \<times> 'v) list" where
  "update_row k f = map (\<lambda>(k', v). (k', if k' = k then f v else v))"

section \<open>Rows\<close>

record journal_row =
  jr_seq :: int
  jr_event_id :: string
  jr_thread_id :: "string option"
  jr_turn_id :: "string option"
  jr_stream_sequence :: int
  jr_kind :: string
  jr_payload :: string
  jr_occurred_at :: int

record thread_summary =
  su_event_count :: int
  su_first_seq :: int
  su_last_seq :: int
  su_last_event_id :: string
  su_last_kind :: string
  su_updated_at :: int

record domain_journal_row =
  dj_seq :: int
  dj_event_id :: string
  dj_thread_id :: "string option"
  dj_turn_id :: "string option"
  dj_operation_id :: "string option"
  dj_kind :: string
  dj_payload :: string
  dj_occurred_at :: int

record thread_row =
  th_agent_profile_id :: string
  th_title :: string
  th_state :: string
  th_project_id :: "string option"
  th_event_count :: int
  th_first_event_seq :: "int option"
  th_last_event_seq :: "int option"
  th_last_event_id :: "string option"
  th_last_event_kind :: "string option"
  th_created_at :: int
  th_updated_at :: int

record turn_row =
  tr_thread_id :: string
  tr_operation_id :: "string option"
  tr_state :: string
  tr_delivery :: string
  tr_event_count :: int
  tr_started_at :: int
  tr_ended_at :: "int option"

record permission_row =
  pr_turn_id :: string
  pr_thread_id :: string
  pr_kind :: string
  pr_description :: string
  pr_decision :: string
  pr_requested_at :: int
  pr_decided_at :: "int option"

record memory_row =
  my_content :: string
  my_scope_kind :: string
  my_scope_target :: "string option"
  my_kind :: string
  my_state :: string
  my_confidence :: int
  my_sensitivity :: string
  my_source :: string
  my_explicit :: int
  my_thread_id :: "string option"
  my_turn_id :: "string option"
  my_excerpt :: "string option"
  my_created_at :: int
  my_updated_at :: int
  my_expires_at :: "int option"
  my_superseded_by :: "string option"

text \<open>The tables that are derived from the domain journal. \<open>memory_fts\<close> is a table of its own that triggers keep.\<close>

record projections =
  pj_threads :: "(string \<times> thread_row) list"
  pj_turns :: "(string \<times> turn_row) list"
  pj_permissions :: "(string \<times> permission_row) list"
  pj_memories :: "(string \<times> memory_row) list"
  pj_memory_fts :: "(string \<times> string) list"

record projection_state =
  ps_journal_max_seq :: int
  ps_version :: int
  ps_rebuilt_at :: int

record domain_projection_state =
  dp_journal_max_seq :: int
  dp_version :: int
  dp_rebuilt_at :: int
  dp_digest :: string

record checkpoint_row =
  cp_thread_id :: string
  cp_turn_id :: "string option"
  cp_operation_id :: string
  cp_boundary_kind :: string
  cp_state :: string
  cp_remote_request_id :: "string option"
  cp_diagnostic_summary :: "string option"
  cp_created_at :: int
  cp_settled_at :: "int option"

record session_row =
  sb_harness_binding_id :: string
  sb_opaque_session_id :: string
  sb_updated_at :: int

record profile_row =
  ap_display_name :: string
  ap_preferred_harness :: string
  ap_memory_mode :: string
  ap_created_at :: int
  ap_updated_at :: int

record binding_row =
  br_agent_profile_id :: string
  br_label :: string
  br_command :: string
  br_args_json :: string
  br_env_keys_json :: string
  br_secret_refs_json :: string
  br_created_at :: int

record project_row =
  pf_label :: string
  pf_path :: string
  pf_created_at :: int

record store =
  st_journal :: "journal_row list"
  st_thread_projection :: "(string \<times> thread_summary) list"
  st_projection_state :: "projection_state option"
  st_domain_journal :: "domain_journal_row list"
  st_projections :: projections
  st_domain_state :: "domain_projection_state option"
  st_checkpoints :: "(string \<times> checkpoint_row) list"
  st_sessions :: "(string \<times> session_row) list"
  st_profiles :: "(string \<times> profile_row) list"
  st_bindings :: "(string \<times> binding_row) list"
  st_projects :: "(string \<times> project_row) list"

definition no_projections :: projections where
  "no_projections = \<lparr>pj_threads = [], pj_turns = [], pj_permissions = [], pj_memories = [], pj_memory_fts = []\<rparr>"

text \<open>The store right after the migrations of a new file.\<close>

definition fresh_store :: store where
  "fresh_store = \<lparr>st_journal = [], st_thread_projection = [], st_projection_state = None, st_domain_journal = [],
     st_projections = no_projections, st_domain_state = None, st_checkpoints = [], st_sessions = [],
     st_profiles = [], st_bindings = [], st_projects = []\<rparr>"

section \<open>Protocol journal\<close>

definition journal_payload_max :: nat where
  "journal_payload_max = 1048576"

definition projection_version :: int where
  "projection_version = 1"

definition journal_limit_max :: u32 where
  "journal_limit_max = 10000"

definition journal_limit_try_new :: "u32 \<Rightarrow> (storage_error, u32) result" where
  "journal_limit_try_new value =
     (if value > journal_limit_max then Err (JournalLimitOutOfRange value journal_limit_max) else Okay value)"

datatype append_outcome = Appended int | AppendDuplicate int

text \<open>An \<open>AUTOINCREMENT\<close> key of a table whose rows are never deleted.\<close>

definition next_seq :: "int list \<Rightarrow> int" where
  "next_seq seqs = (if seqs = [] then 1 else last seqs + 1)"

definition existing_event :: "store \<Rightarrow> string \<Rightarrow> (int \<times> string) option" where
  "existing_event s event_id =
     map_option (\<lambda>r. (jr_seq r, jr_payload r)) (List.find (\<lambda>r. jr_event_id r = event_id) (st_journal s))"

definition fold_summary :: "journal_row \<Rightarrow> (string \<times> thread_summary) list \<Rightarrow> (string \<times> thread_summary) list" where
  "fold_summary r table =
     (case jr_thread_id r of
        None \<Rightarrow> table
      | Some t \<Rightarrow>
          bt_insert t
            (case map_of table t of
               None \<Rightarrow> \<lparr>su_event_count = 1, su_first_seq = jr_seq r, su_last_seq = jr_seq r, su_last_event_id = jr_event_id r,
                 su_last_kind = jr_kind r, su_updated_at = jr_occurred_at r\<rparr>
             | Some u \<Rightarrow> u\<lparr>su_event_count := su_event_count u + 1, su_last_seq := jr_seq r,
                 su_last_event_id := jr_event_id r, su_last_kind := jr_kind r, su_updated_at := jr_occurred_at r\<rparr>) table)"

definition append_event ::
  "(event_envelope \<Rightarrow> (protocol_error, string) result) \<Rightarrow> store \<Rightarrow> event_envelope
   \<Rightarrow> (storage_error, append_outcome) result \<times> store" where
  "append_event to_json s e =
     (case to_json e of
        Inl err \<Rightarrow> (Err (EncodeFailed err), s)
      | Inr payload \<Rightarrow>
          if length payload > journal_payload_max
          then (Err (JournalPayloadTooLarge (length payload) journal_payload_max), s)
          else (case i64_try_from (ev_occurred_at e) of
            None \<Rightarrow> (Err (RebuildInvariant ''occurred_at exceeds the i64 column''), s)
          | Some occurred_at \<Rightarrow>
              (case i64_try_from (ev_sequence e) of
                 None \<Rightarrow> (Err (RebuildInvariant ''sequence exceeds the i64 column''), s)
               | Some stream_sequence \<Rightarrow>
                   (case existing_event s (ev_id e) of
                      Some (seq, existing_payload) \<Rightarrow>
                        (if existing_payload = payload then Okay (AppendDuplicate seq)
                         else Err (EventIdCollision (ev_id e) seq), s)
                    | None \<Rightarrow>
                        let seq = next_seq (map jr_seq (st_journal s));
                            row = \<lparr>jr_seq = seq, jr_event_id = ev_id e, jr_thread_id = ev_thread e, jr_turn_id = ev_turn e,
                              jr_stream_sequence = stream_sequence, jr_kind = kind_name (ev_body e), jr_payload = payload,
                              jr_occurred_at = occurred_at\<rparr> in
                        (Okay (Appended seq),
                         s\<lparr>st_journal := st_journal s @ [row],
                           st_thread_projection := fold_summary row (st_thread_projection s),
                           st_projection_state := Some \<lparr>ps_journal_max_seq = seq, ps_version = projection_version,
                             ps_rebuilt_at = occurred_at\<rparr>\<rparr>)))))"

text \<open>\<open>\<dots> WHERE seq > ?1 ORDER BY seq LIMIT ?2\<close>; the journal is in the order of its keys.\<close>

definition journal_records :: "store \<Rightarrow> int \<Rightarrow> u32 \<Rightarrow> journal_row list" where
  "journal_records s after_seq limit = take (unat limit) (filter (\<lambda>r. jr_seq r > after_seq) (st_journal s))"

definition journal_row_decode ::
  "(string \<Rightarrow> (protocol_error, event_envelope) result) \<Rightarrow> journal_row \<Rightarrow> (storage_error, event_envelope) result" where
  "journal_row_decode from_json r =
     (if \<not> utf8_valid (jr_payload r) then Err (PayloadNotUtf8 (jr_seq r))
      else case from_json (jr_payload r) of Inl e \<Rightarrow> Err (DecodeFailed (jr_seq r) e) | Inr e \<Rightarrow> Okay e)"

definition thread_summaries :: "store \<Rightarrow> (string \<times> thread_summary) list" where
  "thread_summaries s = st_thread_projection s"

definition journal_len :: "store \<Rightarrow> int" where
  "journal_len s = int (length (st_journal s))"

definition journal_max_seq :: "store \<Rightarrow> int" where
  "journal_max_seq s = (if st_journal s = [] then 0 else Max (set (map jr_seq (st_journal s))))"

text \<open>The rebuild is one aggregate query: per thread the count, the lowest and the highest key, joined with the row
  that has the highest key.\<close>

definition summary_rows :: "journal_row list \<Rightarrow> string \<Rightarrow> (string \<times> thread_summary) list" where
  "summary_rows js t =
     (let rows = filter (\<lambda>r. jr_thread_id r = Some t) js;
          first_seq = Min (set (map jr_seq rows));
          last_seq = Max (set (map jr_seq rows)) in
      map (\<lambda>j. (t, \<lparr>su_event_count = int (length rows), su_first_seq = first_seq, su_last_seq = jr_seq j,
             su_last_event_id = jr_event_id j, su_last_kind = jr_kind j, su_updated_at = jr_occurred_at j\<rparr>))
        (filter (\<lambda>j. jr_seq j = last_seq) rows))"

definition rebuild_projections :: "store \<Rightarrow> int \<times> store" where
  "rebuild_projections s =
     (let js = st_journal s in
      (int (length js),
       s\<lparr>st_thread_projection := concat (map (summary_rows js) (sort (remdups (List.map_filter jr_thread_id js)))),
         st_projection_state := Some \<lparr>ps_journal_max_seq = journal_max_seq s, ps_version = projection_version,
           ps_rebuilt_at = (if js = [] then 0 else Max (set (map jr_occurred_at js)))\<rparr>\<rparr>))"

definition ensure_projections_current :: "store \<Rightarrow> (storage_error, unit) result \<times> store" where
  "ensure_projections_current s =
     (case st_projection_state s of
        None \<Rightarrow> (Okay (), if journal_max_seq s = 0 then s else snd (rebuild_projections s))
      | Some m \<Rightarrow>
          if ps_version m \<noteq> projection_version then (Okay (), snd (rebuild_projections s))
          else if ps_journal_max_seq m < journal_max_seq s then (Okay (), snd (rebuild_projections s))
          else if ps_journal_max_seq m > journal_max_seq s
          then (Err (RebuildInvariant ''projection marker is ahead of journal max''), s)
          else (Okay (), s))"

end
