(* ===== verification/Storage_Domain.thy ===== *)
theory Storage_Domain
  imports Storage_Model
begin

text \<open>
  The domain journal of \<open>crates/altior-storage/src/lib.rs\<close>: the check of an event against the projections, its fold into
  them, the append, and the rebuild of the projections from the journal. serde_json's parser is the argument \<open>parse\<close>.
\<close>

section \<open>Events\<close>

record domain_event =
  de_event_id :: string
  de_thread_id :: "string option"
  de_turn_id :: "string option"
  de_operation_id :: "string option"
  de_kind :: domain_event_kind
  de_payload :: string
  de_occurred_at :: u64

text \<open>\<open>Value::as_u64\<close>, \<open>as_i64\<close>, \<open>as_bool\<close>, and the string member of an object.\<close>

definition json_as_u64 :: "json \<Rightarrow> u64 option" where
  "json_as_u64 v = (case v of JPosInt n \<Rightarrow> Some n | _ \<Rightarrow> None)"

definition json_as_i64 :: "json \<Rightarrow> int option" where
  "json_as_i64 v = (case v of JPosInt n \<Rightarrow> i64_try_from n | JNegInt i \<Rightarrow> Some i | _ \<Rightarrow> None)"

definition json_as_bool :: "json \<Rightarrow> bool option" where
  "json_as_bool v = (case v of JBool b \<Rightarrow> Some b | _ \<Rightarrow> None)"

definition json_str :: "json \<Rightarrow> string \<Rightarrow> string option" where
  "json_str p k = Option.bind (json_get p k) json_as_str"

abbreviation unwrap_or :: "'a option \<Rightarrow> 'a \<Rightarrow> 'a" where
  "unwrap_or x d \<equiv> (case x of None \<Rightarrow> d | Some v \<Rightarrow> v)"

definition extract_json_string :: "(string \<Rightarrow> json option) \<Rightarrow> string \<Rightarrow> string \<Rightarrow> string option" where
  "extract_json_string parse p k = Option.bind (parse p) (\<lambda>v. json_str v k)"

section \<open>Memory rows and their search index\<close>

text \<open>The triggers \<open>memory_fts_insert\<close> and \<open>memory_fts_update\<close>: only retrievable memories are indexed.\<close>

definition retrievable_row :: "memory_row \<Rightarrow> bool" where
  "retrievable_row r \<longleftrightarrow> my_state r = ''confirmed'' \<and> my_superseded_by r = None"

definition memory_fts_insert :: "string \<Rightarrow> memory_row \<Rightarrow> (string \<times> string) list \<Rightarrow> (string \<times> string) list" where
  "memory_fts_insert k r fts = (if retrievable_row r then fts @ [(k, my_content r)] else fts)"

definition memory_fts_update :: "string \<Rightarrow> memory_row \<Rightarrow> (string \<times> string) list \<Rightarrow> (string \<times> string) list" where
  "memory_fts_update k r fts = memory_fts_insert k r (filter (\<lambda>(i, c). i \<noteq> k) fts)"

definition insert_memory :: "string \<Rightarrow> memory_row \<Rightarrow> projections \<Rightarrow> projections" where
  "insert_memory k r p = p\<lparr>pj_memories := bt_insert k r (pj_memories p), pj_memory_fts := memory_fts_insert k r (pj_memory_fts p)\<rparr>"

definition update_memory :: "string \<Rightarrow> (memory_row \<Rightarrow> memory_row) \<Rightarrow> projections \<Rightarrow> projections" where
  "update_memory k f p =
     (case map_of (pj_memories p) k of
        None \<Rightarrow> p
      | Some r \<Rightarrow> p\<lparr>pj_memories := update_row k f (pj_memories p), pj_memory_fts := memory_fts_update k (f r) (pj_memory_fts p)\<rparr>)"

section \<open>Fold\<close>

definition update_thread_activity ::
  "projections \<Rightarrow> string \<Rightarrow> int \<Rightarrow> string \<Rightarrow> string \<Rightarrow> int \<Rightarrow> (storage_error, projections) result" where
  "update_thread_activity p thread seq event_id kind at =
     (if map_of (pj_threads p) thread = None then Err (InvalidDomainEvent ''thread missing during fold'')
      else Okay (p\<lparr>pj_threads := update_row thread (\<lambda>r. r\<lparr>th_event_count := th_event_count r + 1,
             th_last_event_seq := Some seq, th_last_event_id := Some event_id, th_last_event_kind := Some kind,
             th_updated_at := at\<rparr>) (pj_threads p)\<rparr>))"

definition event_activity :: "projections \<Rightarrow> domain_event \<Rightarrow> int \<Rightarrow> int \<Rightarrow> (storage_error, projections) result" where
  "event_activity p e seq at =
     (case de_thread_id e of
        None \<Rightarrow> Okay p
      | Some t \<Rightarrow> update_thread_activity p t seq (de_event_id e) (event_kind_as_str (de_kind e)) at)"

text \<open>The row a draft payload describes; the fold of a confirmed memory has other defaults for the source.\<close>

definition draft_row :: "json \<Rightarrow> string \<Rightarrow> string \<Rightarrow> bool \<Rightarrow> int \<Rightarrow> memory_row" where
  "draft_row p state source explicit at =
     \<lparr>my_content = unwrap_or (json_str p ''content'') [],
      my_scope_kind = unwrap_or (json_str p ''scope_kind'') ''global'',
      my_scope_target = json_str p ''scope_target'',
      my_kind = unwrap_or (json_str p ''kind'') ''fact'',
      my_state = state,
      my_confidence = sint (unwrap_or (Option.bind (json_get p ''confidence'') json_as_u64) 100),
      my_sensitivity = unwrap_or (json_str p ''sensitivity'') ''normal'',
      my_source = unwrap_or (json_str p ''source'') source,
      my_explicit = of_bool (unwrap_or (Option.bind (json_get p ''explicit'') json_as_bool) explicit),
      my_thread_id = json_str p ''provenance_thread_id'',
      my_turn_id = json_str p ''provenance_turn_id'',
      my_excerpt = json_str p ''excerpt'',
      my_created_at = at, my_updated_at = at,
      my_expires_at = Option.bind (json_get p ''expires_at'') json_as_i64,
      my_superseded_by = None\<rparr>"

definition fold_memory_proposed ::
  "(string \<Rightarrow> json option) \<Rightarrow> projections \<Rightarrow> domain_event \<Rightarrow> int \<Rightarrow> (storage_error, projections) result" where
  "fold_memory_proposed parse pj e at =
     (case parse (de_payload e) of
        None \<Rightarrow> Err (InvalidDomainEvent ''payload is not JSON'')
      | Some p \<Rightarrow>
          let k = unwrap_or (json_str p ''memory_id'') []; r = draft_row p ''candidate'' ''inferred'' False at in
          Okay (case map_of (pj_memories pj) k of
                  None \<Rightarrow> insert_memory k r pj
                | Some _ \<Rightarrow> update_memory k (\<lambda>old. r\<lparr>my_created_at := my_created_at old,
                    my_superseded_by := my_superseded_by old\<rparr>) pj))"

definition fold_memory_confirmed ::
  "(string \<Rightarrow> json option) \<Rightarrow> projections \<Rightarrow> domain_event \<Rightarrow> int \<Rightarrow> (storage_error, projections) result" where
  "fold_memory_confirmed parse pj e at =
     (case parse (de_payload e) of
        None \<Rightarrow> Err (InvalidDomainEvent ''payload is not JSON'')
      | Some p \<Rightarrow>
          let k = unwrap_or (json_str p ''memory_id'') [] in
          Okay (case map_of (pj_memories pj) k of
                  Some _ \<Rightarrow> update_memory k (\<lambda>r. r\<lparr>my_state := ''confirmed'', my_updated_at := at\<rparr>) pj
                | None \<Rightarrow> insert_memory k (draft_row p ''confirmed'' ''explicit'' True at) pj))"

text \<open>A memory event that changes the state of an existing row.\<close>

definition fold_memory_state ::
  "(string \<Rightarrow> json option) \<Rightarrow> projections \<Rightarrow> domain_event \<Rightarrow> int \<Rightarrow> string \<Rightarrow> projections" where
  "fold_memory_state parse pj e at state =
     update_memory (unwrap_or (extract_json_string parse (de_payload e) ''memory_id'') [])
       (\<lambda>r. r\<lparr>my_state := state, my_updated_at := at\<rparr>) pj"

definition fold_memory_superseded ::
  "(string \<Rightarrow> json option) \<Rightarrow> projections \<Rightarrow> domain_event \<Rightarrow> int \<Rightarrow> projections" where
  "fold_memory_superseded parse pj e at =
     update_memory (unwrap_or (extract_json_string parse (de_payload e) ''memory_id'') [])
       (\<lambda>r. r\<lparr>my_superseded_by := Some (unwrap_or (extract_json_string parse (de_payload e) ''superseded_by'') []),
          my_updated_at := at\<rparr>) pj"

definition update_turn :: "string option \<Rightarrow> (turn_row \<Rightarrow> turn_row) \<Rightarrow> projections \<Rightarrow> projections" where
  "update_turn turn f p = (case turn of None \<Rightarrow> p | Some k \<Rightarrow> p\<lparr>pj_turns := update_row k f (pj_turns p)\<rparr>)"

definition end_turn :: "string \<Rightarrow> int \<Rightarrow> turn_row \<Rightarrow> turn_row" where
  "end_turn state at r = r\<lparr>tr_state := state, tr_event_count := tr_event_count r + 1, tr_ended_at := Some at\<rparr>"

definition fold_thread_created ::
  "(string \<Rightarrow> json option) \<Rightarrow> projections \<Rightarrow> domain_event \<Rightarrow> string \<Rightarrow> int \<Rightarrow> int \<Rightarrow> projections" where
  "fold_thread_created parse p e t seq at =
     (let get = extract_json_string parse (de_payload e) in
      p\<lparr>pj_threads := bt_insert t
        (case map_of (pj_threads p) t of
           None \<Rightarrow> \<lparr>th_agent_profile_id = unwrap_or (get ''agent_profile_id'') [], th_title = unwrap_or (get ''title'') [],
             th_state = ''open'', th_project_id = get ''project_id'', th_event_count = 1,
             th_first_event_seq = Some seq, th_last_event_seq = Some seq, th_last_event_id = Some (de_event_id e),
             th_last_event_kind = Some (event_kind_as_str (de_kind e)), th_created_at = at, th_updated_at = at\<rparr>
         | Some r \<Rightarrow> r\<lparr>th_event_count := th_event_count r + 1, th_last_event_seq := Some seq,
             th_last_event_id := Some (de_event_id e), th_last_event_kind := Some (event_kind_as_str (de_kind e)),
             th_updated_at := at\<rparr>) (pj_threads p)\<rparr>)"

definition fold_thread_changed ::
  "projections \<Rightarrow> domain_event \<Rightarrow> string \<Rightarrow> int \<Rightarrow> int \<Rightarrow> (thread_row \<Rightarrow> thread_row) \<Rightarrow> projections" where
  "fold_thread_changed p e t seq at change =
     p\<lparr>pj_threads := update_row t (\<lambda>r. (change r)\<lparr>th_event_count := th_event_count r + 1, th_last_event_seq := Some seq,
        th_last_event_id := Some (de_event_id e), th_last_event_kind := Some (event_kind_as_str (de_kind e)),
        th_updated_at := at\<rparr>) (pj_threads p)\<rparr>"

definition fold_turn_started :: "projections \<Rightarrow> domain_event \<Rightarrow> string \<Rightarrow> int \<Rightarrow> projections" where
  "fold_turn_started p e t at =
     (case de_turn_id e of
        None \<Rightarrow> p
      | Some k \<Rightarrow>
          p\<lparr>pj_turns := bt_insert k
            (case map_of (pj_turns p) k of
               None \<Rightarrow> \<lparr>tr_thread_id = t, tr_operation_id = de_operation_id e, tr_state = ''active'', tr_delivery = ''absent'',
                 tr_event_count = 1, tr_started_at = at, tr_ended_at = None\<rparr>
             | Some r \<Rightarrow> r\<lparr>tr_event_count := tr_event_count r + 1\<rparr>) (pj_turns p)\<rparr>)"

definition fold_permission_requested ::
  "(string \<Rightarrow> json option) \<Rightarrow> projections \<Rightarrow> domain_event \<Rightarrow> string \<Rightarrow> int \<Rightarrow> projections" where
  "fold_permission_requested parse p e t at =
     (let get = extract_json_string parse (de_payload e) in
      case de_turn_id e of
        None \<Rightarrow> p
      | Some turn \<Rightarrow>
          if map_of (pj_permissions p) (de_event_id e) \<noteq> None then p
          else p\<lparr>pj_permissions := bt_insert (de_event_id e)
             \<lparr>pr_turn_id = turn, pr_thread_id = t, pr_kind = unwrap_or (get ''permission_kind'') ''execute'',
              pr_description = unwrap_or (get ''description'') [], pr_decision = ''pending'',
              pr_requested_at = at, pr_decided_at = None\<rparr> (pj_permissions p)\<rparr>)"

definition fold_permission_decided ::
  "(string \<Rightarrow> json option) \<Rightarrow> projections \<Rightarrow> domain_event \<Rightarrow> int \<Rightarrow> projections" where
  "fold_permission_decided parse p e at =
     (let get = extract_json_string parse (de_payload e); decision = unwrap_or (get ''decision'') ''denied'' in
      case get ''permission_event_id'' of
        None \<Rightarrow> p
      | Some k \<Rightarrow> p\<lparr>pj_permissions := update_row k (\<lambda>r. r\<lparr>pr_decision := decision, pr_decided_at := Some at\<rparr>)
                     (pj_permissions p)\<rparr>)"

definition fold_domain_event ::
  "(string \<Rightarrow> json option) \<Rightarrow> projections \<Rightarrow> domain_event \<Rightarrow> int \<Rightarrow> int \<Rightarrow> (storage_error, projections) result" where
  "fold_domain_event parse p e seq at =
     (let active = (\<lambda>p'. event_activity p' e seq at);
          get = extract_json_string parse (de_payload e);
          thread = (\<lambda>f. case de_thread_id e of None \<Rightarrow> Okay p | Some t \<Rightarrow> f t) in
      case de_kind e of
        DeMemoryProposed \<Rightarrow> and_then (fold_memory_proposed parse p e at) active
      | DeMemoryConfirmed \<Rightarrow> and_then (fold_memory_confirmed parse p e at) active
      | DeMemoryRejected \<Rightarrow> active (fold_memory_state parse p e at ''rejected'')
      | DeMemorySuperseded \<Rightarrow> active (fold_memory_superseded parse p e at)
      | DeMemoryForgotten \<Rightarrow> active (fold_memory_state parse p e at ''forgotten'')
      | DeMemoryExpired \<Rightarrow> active (fold_memory_state parse p e at ''expired'')
      | DeThreadCreated \<Rightarrow> thread (\<lambda>t. Okay (fold_thread_created parse p e t seq at))
      | DeThreadTitleChanged \<Rightarrow> thread (\<lambda>t. Okay (fold_thread_changed p e t seq at
          (\<lambda>r. r\<lparr>th_title := unwrap_or (get ''title'') []\<rparr>)))
      | DeThreadStateChanged \<Rightarrow> thread (\<lambda>t. Okay (fold_thread_changed p e t seq at
          (\<lambda>r. r\<lparr>th_state := unwrap_or (get ''state'') ''open''\<rparr>)))
      | DeTurnStarted \<Rightarrow> thread (\<lambda>t. active (fold_turn_started p e t at))
      | DeTurnCompleted \<Rightarrow> thread (\<lambda>t. active (update_turn (de_turn_id e)
          (\<lambda>r. (end_turn ''completed'' at r)\<lparr>tr_delivery := ''confirmed''\<rparr>) p))
      | DeTurnCancelled \<Rightarrow> thread (\<lambda>t. active (update_turn (de_turn_id e) (end_turn ''cancelled'' at) p))
      | DeTurnFailed \<Rightarrow> thread (\<lambda>t. active (update_turn (de_turn_id e) (end_turn ''failed'' at) p))
      | DePermissionRequested \<Rightarrow> thread (\<lambda>t. active (fold_permission_requested parse p e t at))
      | DePermissionDecided \<Rightarrow> thread (\<lambda>t. active (fold_permission_decided parse p e at))
      | DeOther _ \<Rightarrow> thread (\<lambda>t. active p)
      | DeMessageDelta \<Rightarrow> thread (\<lambda>t. active (update_turn (de_turn_id e)
          (\<lambda>r. r\<lparr>tr_event_count := tr_event_count r + 1\<rparr>) p)))"

section \<open>Checks\<close>

abbreviation fail :: "string \<Rightarrow> (storage_error, 'a) result" where
  "fail detail \<equiv> Err (InvalidDomainEvent detail)"

definition require :: "bool \<Rightarrow> string \<Rightarrow> (storage_error, unit) result" where
  "require b detail = (if b then Okay () else fail detail)"

definition require_ok :: "('e, 'a) result \<Rightarrow> string \<Rightarrow> (storage_error, 'a) result" where
  "require_ok r detail = (case r of Inl _ \<Rightarrow> fail detail | Inr x \<Rightarrow> Okay x)"

text \<open>The closure \<open>req\<close>: a string member that is not empty.\<close>

definition req :: "json \<Rightarrow> string \<Rightarrow> (storage_error, string) result" where
  "req p k = (case json_str p k of Some v \<Rightarrow> if v = [] then fail (''missing/wrong '' @ k) else Okay v
              | None \<Rightarrow> fail (''missing/wrong '' @ k))"

definition validate_memory_draft_payload :: "json \<Rightarrow> (storage_error, unit) result" where
  "validate_memory_draft_payload p =
     (case json_str p ''content'' of
        None \<Rightarrow> fail ''missing/wrong content''
      | Some content \<Rightarrow>
          if trim content = [] then fail ''empty memory content''
          else if length content > memory_content_max_bytes then fail ''memory content exceeds capacity''
          else if is_secret_shaped content then fail ''secret-shaped memory content refused''
          else
            and_then (require_ok (scope_try_from_parts (unwrap_or (json_str p ''scope_kind'') ''global'')
                                   (json_str p ''scope_target'')) ''invalid memory scope: '') (\<lambda>_.
            and_then (require_ok (memory_kind_try_from_str (unwrap_or (json_str p ''kind'') ''fact''))
                                 ''invalid memory kind: '') (\<lambda>_.
            and_then (require (case Option.bind (json_get p ''confidence'') json_as_u64 of None \<Rightarrow> True | Some c \<Rightarrow> c \<le> 100)
                                 ''memory confidence exceeds 100'') (\<lambda>_.
            and_then (case json_str p ''sensitivity'' of None \<Rightarrow> Okay ()
                      | Some x \<Rightarrow> map_sum id (\<lambda>_. ()) (require_ok (memory_sensitivity_try_from_str x) ''invalid memory sensitivity: '')) (\<lambda>_.
            and_then (case json_str p ''source'' of None \<Rightarrow> Okay ()
                      | Some x \<Rightarrow> map_sum id (\<lambda>_. ()) (require_ok (memory_source_try_from_str x) ''invalid memory source: '')) (\<lambda>_.
            case json_str p ''excerpt'' of
              None \<Rightarrow> Okay ()
            | Some x \<Rightarrow>
                if length x > memory_excerpt_max_bytes then fail ''memory excerpt exceeds capacity''
                else require (\<not> is_secret_shaped x) ''secret-shaped memory excerpt refused''))))))"

definition memory_state_in :: "projections \<Rightarrow> string \<Rightarrow> string option" where
  "memory_state_in pj k = map_option my_state (map_of (pj_memories pj) k)"

definition require_state :: "projections \<Rightarrow> string \<Rightarrow> string \<Rightarrow> string \<Rightarrow> (storage_error, unit) result" where
  "require_state pj k state detail =
     (case memory_state_in pj k of
        None \<Rightarrow> fail ''memory not found''
      | Some st \<Rightarrow> require (st = state) detail)"

definition validate_memory_kind_transition ::
  "projections \<Rightarrow> domain_event_kind \<Rightarrow> string \<Rightarrow> json \<Rightarrow> (storage_error, unit) result" where
  "validate_memory_kind_transition pj kind k p =
     (case kind of
        DeMemoryProposed \<Rightarrow>
          and_then (validate_memory_draft_payload p) (\<lambda>_.
            require (map_of (pj_memories pj) k = None) ''memory already exists'')
      | DeMemoryConfirmed \<Rightarrow>
          if map_of (pj_memories pj) k \<noteq> None
          then require (memory_state_in pj k = Some ''candidate'') ''cannot confirm non-candidate memory''
          else validate_memory_draft_payload p
      | DeMemoryRejected \<Rightarrow> require_state pj k ''candidate'' ''cannot reject non-candidate memory''
      | DeMemorySuperseded \<Rightarrow>
          and_then (req p ''superseded_by'') (\<lambda>by.
          and_then (require_ok (id_from_str memory_prefix by) ''invalid superseded_by memory_id: '') (\<lambda>_.
            case map_of (pj_memories pj) k of
              None \<Rightarrow> fail ''memory not found''
            | Some r \<Rightarrow> require (my_state r = ''confirmed'' \<and> my_superseded_by r = None)
                ''cannot supersede non-confirmed or already-superseded memory''))
      | DeMemoryForgotten \<Rightarrow> require_state pj k ''confirmed'' ''cannot forget non-confirmed memory''
      | DeMemoryExpired \<Rightarrow> require_state pj k ''confirmed'' ''cannot expire non-confirmed memory''
      | _ \<Rightarrow> Okay ())"

definition validate_memory_domain_event :: "projections \<Rightarrow> domain_event \<Rightarrow> json \<Rightarrow> (storage_error, unit) result" where
  "validate_memory_domain_event pj e p =
     and_then (case de_thread_id e of None \<Rightarrow> Okay ()
               | Some t \<Rightarrow> require (map_of (pj_threads pj) t \<noteq> None) ''thread missing'') (\<lambda>_.
     and_then (req p ''memory_id'') (\<lambda>k.
     and_then (require_ok (id_from_str memory_prefix k) ''invalid memory_id: '') (\<lambda>_.
       validate_memory_kind_transition pj (de_kind e) k p)))"

definition is_memory_kind :: "domain_event_kind \<Rightarrow> bool" where
  "is_memory_kind k \<longleftrightarrow>
     k \<in> {DeMemoryProposed, DeMemoryConfirmed, DeMemoryRejected, DeMemorySuperseded, DeMemoryForgotten, DeMemoryExpired}"

definition is_other_kind :: "domain_event_kind \<Rightarrow> bool" where
  "is_other_kind k = (case k of DeOther _ \<Rightarrow> True | _ \<Rightarrow> False)"

text \<open>A turn that exists in the thread and is active.\<close>

definition require_active_turn :: "projections \<Rightarrow> domain_event \<Rightarrow> string \<Rightarrow> string \<Rightarrow> (storage_error, string) result" where
  "require_active_turn pj e t detail =
     (case de_turn_id e of
        None \<Rightarrow> fail ''turn scope required''
      | Some turn \<Rightarrow>
          (case map_of (pj_turns pj) turn of
             None \<Rightarrow> fail ''turn missing/cross-thread''
           | Some r \<Rightarrow>
               if tr_thread_id r \<noteq> t then fail ''turn missing/cross-thread''
               else if tr_state r \<noteq> ''active'' then fail detail
               else Okay turn))"

definition validate_thread_created :: "domain_event \<Rightarrow> json \<Rightarrow> (storage_error, unit) result" where
  "validate_thread_created e p =
     and_then (req p ''agent_profile_id'') (\<lambda>agp.
     and_then (require_ok (id_from_str agent_profile_prefix agp) ''invalid agent_profile_id: '') (\<lambda>_.
     and_then (case json_str p ''project_id'' of None \<Rightarrow> Okay ()
               | Some prj \<Rightarrow> if prj = [] then Okay ()
                   else map_sum id (\<lambda>_. ()) (require_ok (id_from_str project_prefix prj) ''invalid project_id: '')) (\<lambda>_.
     and_then (case json_get p ''title'' of None \<Rightarrow> Okay ()
               | Some v \<Rightarrow> (case json_as_str v of None \<Rightarrow> fail ''title must be a string''
                   | Some title \<Rightarrow> require (length title \<le> max_thread_title_bytes) ''title exceeds capacity'')) (\<lambda>_.
       require (de_turn_id e = None) ''create has turn scope''))))"

definition validate_permission_decided :: "projections \<Rightarrow> domain_event \<Rightarrow> string \<Rightarrow> json \<Rightarrow> (storage_error, unit) result" where
  "validate_permission_decided pj e t p =
     and_then (require_active_turn pj e t ''turn is terminal; permission cannot be decided'') (\<lambda>turn.
     and_then (req p ''permission_event_id'') (\<lambda>k.
     and_then (req p ''decision'') (\<lambda>decision.
     and_then (require (decision \<in> {''approved'', ''denied''}) ''invalid decision'') (\<lambda>_.
       case map_of (pj_permissions pj) k of
         None \<Rightarrow> fail ''decision requires pending permission''
       | Some r \<Rightarrow> require (pr_turn_id r = turn \<and> pr_thread_id r = t \<and> pr_decision r = ''pending'')
           ''decision requires pending permission''))))"

definition validate_thread_event :: "projections \<Rightarrow> domain_event \<Rightarrow> string \<Rightarrow> json \<Rightarrow> (storage_error, unit) result" where
  "validate_thread_event pj e t p =
     (case de_kind e of
        DeThreadCreated \<Rightarrow> validate_thread_created e p
      | DeThreadTitleChanged \<Rightarrow>
          (case json_str p ''title'' of
             None \<Rightarrow> fail ''missing/wrong title''
           | Some title \<Rightarrow> require (length title \<le> max_thread_title_bytes) ''title exceeds capacity'')
      | DeThreadStateChanged \<Rightarrow>
          and_then (req p ''state'') (\<lambda>st. require (st \<in> {''open'', ''pinned'', ''archived''}) ''invalid state'')
      | DeTurnStarted \<Rightarrow>
          (case de_turn_id e of
             None \<Rightarrow> fail ''start missing turn''
           | Some turn \<Rightarrow> require (map_of (pj_turns pj) turn = None) ''turn already exists'')
      | DeMessageDelta \<Rightarrow>
          map_sum id (\<lambda>_. ()) (require_active_turn pj e t ''turn is terminal; requires active turn'')
      | DePermissionRequested \<Rightarrow>
          and_then (require_active_turn pj e t ''turn is terminal; requires active turn'') (\<lambda>_.
          and_then (req p ''description'') (\<lambda>_.
          and_then (req p ''permission_kind'') (\<lambda>kind.
            require (kind \<in> {''execute'', ''read'', ''write'', ''network''}) ''invalid permission kind'')))
      | DeTurnCompleted \<Rightarrow> map_sum id (\<lambda>_. ()) (require_active_turn pj e t ''terminal requires active turn'')
      | DeTurnCancelled \<Rightarrow> map_sum id (\<lambda>_. ()) (require_active_turn pj e t ''terminal requires active turn'')
      | DeTurnFailed \<Rightarrow> map_sum id (\<lambda>_. ()) (require_active_turn pj e t ''terminal requires active turn'')
      | DePermissionDecided \<Rightarrow> validate_permission_decided pj e t p
      | _ \<Rightarrow> Okay ())"

definition validate_domain_event ::
  "(string \<Rightarrow> json option) \<Rightarrow> projections \<Rightarrow> domain_event \<Rightarrow> (storage_error, unit) result" where
  "validate_domain_event parse pj e =
     and_then (require_ok (event_kind_try_from_str (event_kind_as_str (de_kind e))) []) (\<lambda>_.
       case parse (de_payload e) of
         Some (JObj o') \<Rightarrow>
           if is_memory_kind (de_kind e) then validate_memory_domain_event pj e (JObj o')
           else if is_other_kind (de_kind e) \<and> de_turn_id e \<noteq> None
           then fail ''custom event cannot have turn scope''
           else if is_other_kind (de_kind e) \<and> de_thread_id e = None then Okay ()
           else (case de_thread_id e of
                   None \<Rightarrow> fail ''thread scope required''
                 | Some t \<Rightarrow>
                     and_then (validate_thread_event pj e t (JObj o')) (\<lambda>_.
                       require (de_kind e = DeThreadCreated \<or> map_of (pj_threads pj) t \<noteq> None) ''thread missing''))
       | _ \<Rightarrow> fail ''payload is not JSON object'')"

section \<open>Digest\<close>

text \<open>The checksum of the projections: FNV-1a over the framed columns of every row, in the order of the keys.\<close>

definition fnv_offset_basis :: u64 where "fnv_offset_basis = 0xcbf29ce484222325"
definition fnv_prime :: u64 where "fnv_prime = 0x100000001b3"

definition write_bytes :: "bytes \<Rightarrow> u64 \<Rightarrow> u64" where
  "write_bytes bs h = foldl (\<lambda>h b. xor h (ucast b) * fnv_prime) h bs"

definition write_tag :: "byte \<Rightarrow> u64 \<Rightarrow> u64" where
  "write_tag t = write_bytes [t]"

definition write_u64 :: "u64 \<Rightarrow> u64 \<Rightarrow> u64" where
  "write_u64 v = write_bytes (be64 v)"

definition write_i64 :: "int \<Rightarrow> u64 \<Rightarrow> u64" where
  "write_i64 v = write_bytes (be64 (word_of_int v))"

definition write_str :: "string \<Rightarrow> u64 \<Rightarrow> u64" where
  "write_str s h = write_bytes (str_bytes s) (write_u64 (of_nat (length s)) h)"

definition write_opt_str :: "string option \<Rightarrow> u64 \<Rightarrow> u64" where
  "write_opt_str x h = (case x of Some v \<Rightarrow> write_str v (write_tag 1 h) | None \<Rightarrow> write_tag 0 h)"

definition write_opt_i64 :: "int option \<Rightarrow> u64 \<Rightarrow> u64" where
  "write_opt_i64 x h = (case x of Some v \<Rightarrow> write_i64 v (write_tag 1 h) | None \<Rightarrow> write_tag 0 h)"

definition finish_hex :: "u64 \<Rightarrow> string" where
  "finish_hex h = hex_of_bytes (be64 h)"

definition write_columns :: "(u64 \<Rightarrow> u64) list \<Rightarrow> u64 \<Rightarrow> u64" where
  "write_columns ws h = foldl (\<lambda>h w. w h) h ws"

definition digest_thread :: "u64 \<Rightarrow> string \<times> thread_row \<Rightarrow> u64" where
  "digest_thread h = (\<lambda>(k, r). write_columns
     [write_tag (of_char (CHR ''T'')), write_str k, write_str (th_agent_profile_id r), write_str (th_title r), write_str (th_state r),
      write_opt_str (th_project_id r), write_i64 (th_event_count r), write_opt_i64 (th_first_event_seq r),
      write_opt_i64 (th_last_event_seq r), write_opt_str (th_last_event_id r), write_opt_str (th_last_event_kind r),
      write_i64 (th_created_at r), write_i64 (th_updated_at r)] h)"

definition digest_turn :: "u64 \<Rightarrow> string \<times> turn_row \<Rightarrow> u64" where
  "digest_turn h = (\<lambda>(k, r). write_columns
     [write_tag (of_char (CHR ''U'')), write_str k, write_str (tr_thread_id r), write_opt_str (tr_operation_id r),
      write_str (tr_state r), write_str (tr_delivery r), write_i64 (tr_event_count r), write_i64 (tr_started_at r),
      write_opt_i64 (tr_ended_at r)] h)"

definition digest_permission :: "u64 \<Rightarrow> string \<times> permission_row \<Rightarrow> u64" where
  "digest_permission h = (\<lambda>(k, r). write_columns
     [write_tag (of_char (CHR ''P'')), write_str k, write_str (pr_turn_id r), write_str (pr_thread_id r), write_str (pr_kind r),
      write_str (pr_description r), write_str (pr_decision r), write_i64 (pr_requested_at r),
      write_opt_i64 (pr_decided_at r)] h)"

definition digest_memory :: "u64 \<Rightarrow> string \<times> memory_row \<Rightarrow> u64" where
  "digest_memory h = (\<lambda>(k, r). write_columns
     [write_tag (of_char (CHR ''M'')), write_str k, write_str (my_content r), write_str (my_scope_kind r),
      write_opt_str (my_scope_target r), write_str (my_kind r), write_str (my_state r), write_i64 (my_confidence r),
      write_str (my_sensitivity r), write_str (my_source r), write_i64 (my_explicit r), write_opt_str (my_thread_id r),
      write_opt_str (my_turn_id r), write_opt_str (my_excerpt r), write_i64 (my_created_at r), write_i64 (my_updated_at r),
      write_opt_i64 (my_expires_at r), write_opt_str (my_superseded_by r)] h)"

definition domain_projection_digest :: "projections \<Rightarrow> string" where
  "domain_projection_digest p = finish_hex
     (foldl digest_memory (foldl digest_permission (foldl digest_turn (foldl digest_thread fnv_offset_basis
        (pj_threads p)) (pj_turns p)) (pj_permissions p)) (pj_memories p))"

section \<open>Append\<close>

definition domain_projection_version :: int where
  "domain_projection_version = 1"

definition existing_domain_event :: "store \<Rightarrow> string \<Rightarrow> domain_journal_row option" where
  "existing_domain_event s k = List.find (\<lambda>r. dj_event_id r = k) (st_domain_journal s)"

text \<open>The row an event is stored as.\<close>

definition durable_row :: "domain_event \<Rightarrow> int \<Rightarrow> int \<Rightarrow> domain_journal_row" where
  "durable_row e seq at =
     \<lparr>dj_seq = seq, dj_event_id = de_event_id e, dj_thread_id = de_thread_id e, dj_turn_id = de_turn_id e,
      dj_operation_id = de_operation_id e, dj_kind = event_kind_as_str (de_kind e), dj_payload = de_payload e,
      dj_occurred_at = at\<rparr>"

definition append_marker :: "store \<Rightarrow> domain_event \<Rightarrow> int \<Rightarrow> int \<Rightarrow> projections \<Rightarrow> domain_projection_state" where
  "append_marker s e seq at p =
     \<lparr>dp_journal_max_seq = seq, dp_version = domain_projection_version, dp_rebuilt_at = at,
      dp_digest = (if de_kind e = DeMessageDelta
                   then (case st_domain_state s of None \<Rightarrow> [] | Some m \<Rightarrow> dp_digest m)
                   else domain_projection_digest p)\<rparr>"

definition append_domain_event ::
  "(string \<Rightarrow> json option) \<Rightarrow> store \<Rightarrow> domain_event \<Rightarrow> (storage_error, append_outcome) result \<times> store" where
  "append_domain_event parse s e =
     (if length (de_payload e) > journal_payload_max
      then (Err (JournalPayloadTooLarge (length (de_payload e)) journal_payload_max), s)
      else case i64_try_from (de_occurred_at e) of
        None \<Rightarrow> (Err (RebuildInvariant ''occurred_at exceeds the i64 column''), s)
      | Some at \<Rightarrow>
          (case existing_domain_event s (de_event_id e) of
             Some r \<Rightarrow>
               (if r = durable_row e (dj_seq r) at then Okay (AppendDuplicate (dj_seq r))
                else Err (EventIdCollision (de_event_id e) (dj_seq r)), s)
           | None \<Rightarrow>
               (let seq = next_seq (map dj_seq (st_domain_journal s)) in
                case and_then (validate_domain_event parse (st_projections s) e)
                       (\<lambda>_. fold_domain_event parse (st_projections s) e seq at) of
                  Inl err \<Rightarrow> (Err err, s)
                | Inr p \<Rightarrow>
                    (Okay (Appended seq),
                     s\<lparr>st_domain_journal := st_domain_journal s @ [durable_row e seq at], st_projections := p,
                       st_domain_state := Some (append_marker s e seq at p)\<rparr>))))"

section \<open>Rebuild\<close>

definition parse_opt :: "string \<Rightarrow> string \<Rightarrow> string option \<Rightarrow> (storage_error, string option) result" where
  "parse_opt prefix detail x =
     (case x of
        None \<Rightarrow> Okay None
      | Some v \<Rightarrow> (case id_from_str prefix v of Inl _ \<Rightarrow> Err (RebuildInvariant detail) | Inr w \<Rightarrow> Okay (Some w)))"

definition invariant_ok :: "('e, 'a) result \<Rightarrow> string \<Rightarrow> (storage_error, 'a) result" where
  "invariant_ok r detail = (case r of Inl _ \<Rightarrow> Err (RebuildInvariant detail) | Inr x \<Rightarrow> Okay x)"

definition event_of_row :: "(string \<Rightarrow> json option) \<Rightarrow> domain_journal_row \<Rightarrow> (storage_error, domain_event) result" where
  "event_of_row parse r =
     and_then (invariant_ok (id_from_str event_prefix (dj_event_id r)) ''invalid event_id in domain journal: '') (\<lambda>event_id.
     and_then (parse_opt thread_prefix ''invalid thread_id in domain journal: '' (dj_thread_id r)) (\<lambda>thread.
     and_then (parse_opt turn_prefix ''invalid turn_id in domain journal: '' (dj_turn_id r)) (\<lambda>turn.
     and_then (parse_opt operation_prefix ''invalid operation_id in domain journal: '' (dj_operation_id r)) (\<lambda>operation.
     and_then (invariant_ok (event_kind_try_from_str (dj_kind r)) ''invalid kind in domain journal: '') (\<lambda>kind.
     and_then (invariant_ok (event_payload_try_from parse (dj_payload r)) ''invalid payload in domain journal: '') (\<lambda>payload.
       case u64_try_from (dj_occurred_at r) of
         None \<Rightarrow> Err (RebuildInvariant ''negative occurred_at in domain journal: '')
       | Some at \<Rightarrow> Okay \<lparr>de_event_id = event_id, de_thread_id = thread, de_turn_id = turn, de_operation_id = operation,
           de_kind = kind, de_payload = payload, de_occurred_at = at\<rparr>))))))"

fun replay_rows :: "(string \<Rightarrow> json option) \<Rightarrow> projections \<Rightarrow> domain_journal_row list \<Rightarrow> (storage_error, projections) result" where
  "replay_rows parse p [] = Okay p"
| "replay_rows parse p (r # rs) =
     and_then (event_of_row parse r) (\<lambda>e.
     and_then (validate_domain_event parse p e) (\<lambda>_.
     and_then (fold_domain_event parse p e (dj_seq r) (dj_occurred_at r)) (\<lambda>p'. replay_rows parse p' rs)))"

text \<open>Deleting the memories fires the trigger that deletes their index entries; an entry of no memory stays.\<close>

definition wiped :: "projections \<Rightarrow> projections" where
  "wiped p = no_projections\<lparr>pj_memory_fts := filter (\<lambda>(i, c). map_of (pj_memories p) i = None) (pj_memory_fts p)\<rparr>"

definition domain_journal_max_seq :: "store \<Rightarrow> int" where
  "domain_journal_max_seq s = (if st_domain_journal s = [] then 0 else Max (set (map dj_seq (st_domain_journal s))))"

definition rebuild_domain_projections :: "(string \<Rightarrow> json option) \<Rightarrow> store \<Rightarrow> (storage_error, int) result \<times> store" where
  "rebuild_domain_projections parse s =
     (let js = st_domain_journal s in
      case replay_rows parse (wiped (st_projections s)) js of
        Inl e \<Rightarrow> (Err e, s)
      | Inr p \<Rightarrow>
          (Okay (int (length js)),
           s\<lparr>st_projections := p,
             st_domain_state := Some \<lparr>dp_journal_max_seq = domain_journal_max_seq s, dp_version = domain_projection_version,
               dp_rebuilt_at = (if js = [] then 0 else Max (set (map dj_occurred_at js))),
               dp_digest = domain_projection_digest p\<rparr>\<rparr>))"

text \<open>SQLite's integrity check of the search indexes is the argument \<open>fts_ok\<close>.\<close>

definition domain_needs_rebuild :: "(projections \<Rightarrow> bool) \<Rightarrow> store \<Rightarrow> (storage_error, bool) result" where
  "domain_needs_rebuild fts_ok s =
     (case st_domain_state s of
        None \<Rightarrow> Okay True
      | Some m \<Rightarrow>
          if dp_version m \<noteq> domain_projection_version then Okay True
          else if dp_journal_max_seq m < domain_journal_max_seq s then Okay True
          else if dp_journal_max_seq m > domain_journal_max_seq s
          then Err (RebuildInvariant ''domain projection marker is ahead of domain journal max'')
          else Okay (dp_digest m = [] \<or> domain_projection_digest (st_projections s) \<noteq> dp_digest m
                     \<or> \<not> fts_ok (st_projections s)))"

definition rebuild_verified :: "(projections \<Rightarrow> bool) \<Rightarrow> int \<Rightarrow> store \<Rightarrow> (storage_error, unit) result" where
  "rebuild_verified fts_ok journal_max s =
     (case st_domain_state s of
        None \<Rightarrow> Err (Sqlite ''ensure_domain_current_verify'' ''query returned no rows'')
      | Some m \<Rightarrow>
          if dp_journal_max_seq m \<noteq> journal_max
          then Err (RebuildInvariant ''domain projection marker seq mismatch after rebuild'')
          else if dp_version m \<noteq> domain_projection_version
          then Err (RebuildInvariant ''domain projection marker version mismatch after rebuild'')
          else if dp_digest m \<noteq> domain_projection_digest (st_projections s) \<or> dp_digest m = []
          then Err (RebuildInvariant ''domain projection digest mismatch after rebuild'')
          else if \<not> fts_ok (st_projections s)
          then Err (RebuildInvariant ''FTS5 external-content index remains inconsistent after rebuild'')
          else Okay ())"

definition ensure_domain_projections_current ::
  "(string \<Rightarrow> json option) \<Rightarrow> (projections \<Rightarrow> bool) \<Rightarrow> store \<Rightarrow> (storage_error, unit) result \<times> store" where
  "ensure_domain_projections_current parse fts_ok s =
     (case domain_needs_rebuild fts_ok s of
        Inl e \<Rightarrow> (Err e, s)
      | Inr False \<Rightarrow> (Okay (), s)
      | Inr True \<Rightarrow>
          (case rebuild_domain_projections parse s of
             (Inl e, s') \<Rightarrow> (Err e, s')
           | (Inr _, s') \<Rightarrow> (rebuild_verified fts_ok (domain_journal_max_seq s) s', s')))"

end
