(* ===== verification/Storage_Journal.thy ===== *)
theory Storage_Journal
  imports Storage_Domain
begin

text \<open>
  What the two journals of the store promise. The projections are always what a rebuild from the journal would give: for
  the protocol journal the incremental fold agrees with the aggregate query, for the domain journal every accepted event
  is accepted again by the rebuild and folds to the same rows. The search index holds exactly the retrievable memories.
\<close>

section \<open>Tables\<close>

lemma map_of_update_row [simp]: "map_of (update_row k f m) = (map_of m)(k := map_option f (map_of m k))"
  unfolding update_row_def by (induction m) (auto simp: fun_eq_iff)

lemma update_row_ok [simp]: "bt_ok (update_row k f m) = bt_ok m"
  by (simp add: update_row_def bt_ok_def comp_def case_prod_beta)

lemma and_then_Okay_iff: "and_then r f = Okay y \<longleftrightarrow> (\<exists>x. r = Okay x \<and> f x = Okay y)"
  by (cases r) (auto simp: and_then_def)

lemma and_then_Okay_simp [simp]: "and_then (Okay x) f = f x"
  by (simp add: and_then_def)

lemma require_Okay_iff [simp]: "require b d = Okay u \<longleftrightarrow> b"
  by (simp add: require_def)

section \<open>Protocol journal\<close>

definition summary_of :: "journal_row list \<Rightarrow> string \<Rightarrow> thread_summary option" where
  "summary_of js t =
     (let rows = filter (\<lambda>r. jr_thread_id r = Some t) js in
      if rows = [] then None
      else Some \<lparr>su_event_count = int (length rows), su_first_seq = jr_seq (hd rows), su_last_seq = jr_seq (last rows),
        su_last_event_id = jr_event_id (last rows), su_last_kind = jr_kind (last rows),
        su_updated_at = jr_occurred_at (last rows)\<rparr>)"

definition seq_sorted :: "journal_row list \<Rightarrow> bool" where
  "seq_sorted js \<longleftrightarrow> sorted_wrt (<) (map jr_seq js)"

lemma seq_sorted_filter: "seq_sorted js \<Longrightarrow> seq_sorted (filter P js)"
  unfolding seq_sorted_def by (induction js) auto

lemma seq_sorted_ends:
  assumes "seq_sorted js" "js \<noteq> []"
  shows "Min (set (map jr_seq js)) = jr_seq (hd js)" "Max (set (map jr_seq js)) = jr_seq (last js)"
    "filter (\<lambda>j. jr_seq j = jr_seq (last js)) js = [last js]"
proof -
  have le: "jr_seq (hd js) \<le> jr_seq j" "j = last js \<or> jr_seq j < jr_seq (last js)" if "j \<in> set js" for j
    using that assms unfolding seq_sorted_def by (induction js) (auto simp: less_imp_le)
  then show "Min (set (map jr_seq js)) = jr_seq (hd js)" using assms(2) by (intro Min_eqI) auto
  show "Max (set (map jr_seq js)) = jr_seq (last js)" using le(2) assms(2) by (intro Max_eqI) fastforce+
  have d: "distinct js" using assms(1) by (metis seq_sorted_def strict_sorted_iff distinct_map)
  have "filter (\<lambda>j. jr_seq j = jr_seq (last js)) js = filter (\<lambda>j. j = last js) js"
    by (intro filter_cong) (use le(2) in fastforce)+
  also have "\<dots> = [last js]"
    using d assms(2) by (cases js rule: rev_cases) (auto simp: filter_empty_conv)
  finally show "filter (\<lambda>j. jr_seq j = jr_seq (last js)) js = [last js]" .
qed

lemma set_map_filter: "set (List.map_filter f xs) = {y. \<exists>x\<in>set xs. f x = Some y}"
  by (induction xs) (auto simp: List.map_filter_def split: option.splits)

lemma summary_rows_eq:
  assumes "seq_sorted js"
  shows "summary_rows js t = (case summary_of js t of None \<Rightarrow> [] | Some u \<Rightarrow> [(t, u)])"
proof (cases "filter (\<lambda>r. jr_thread_id r = Some t) js = []")
  case False
  let ?rows = "filter (\<lambda>r. jr_thread_id r = Some t) js"
  have "seq_sorted ?rows" using assms by (rule seq_sorted_filter)
  then show ?thesis
    using seq_sorted_ends[of ?rows] False unfolding summary_rows_def summary_of_def by (simp add: Let_def)
qed (simp add: summary_rows_def summary_of_def)

definition summaries :: "journal_row list \<Rightarrow> (string \<times> thread_summary) list" where
  "summaries js = concat (map (summary_rows js) (sort (remdups (List.map_filter jr_thread_id js))))"

lemma summaries_table:
  assumes "seq_sorted js"
  shows "bt_ok (summaries js)" "map_of (summaries js) = summary_of js"
proof -
  have one: "concat (map (summary_rows js) ts) = map (\<lambda>t. (t, the (summary_of js t))) ts"
    "map_of (map (\<lambda>t. (t, the (summary_of js t))) ts) = (\<lambda>t. if t \<in> set ts then summary_of js t else None)"
    if "\<forall>t\<in>set ts. summary_of js t \<noteq> None" for ts
    using that by (induction ts) (auto simp: summary_rows_eq[OF assms] split: option.splits)
  have dom: "t \<in> set (List.map_filter jr_thread_id js) \<longleftrightarrow> summary_of js t \<noteq> None" for t
    by (auto simp: set_map_filter summary_of_def Let_def filter_empty_conv)
  let ?ts = "sort (remdups (List.map_filter jr_thread_id js))"
  have s: "summaries js = map (\<lambda>t. (t, the (summary_of js t))) ?ts"
    unfolding summaries_def using dom by (intro one(1)) auto
  show "bt_ok (summaries js)" by (simp add: s bt_ok_def comp_def strict_sorted_iff)
  show "map_of (summaries js) = summary_of js"
    unfolding s using dom by (subst one(2)) (auto simp: fun_eq_iff)
qed

lemma summary_of_snoc:
  "summary_of (js @ [r]) = (case jr_thread_id r of
     None \<Rightarrow> summary_of js
   | Some t \<Rightarrow> (summary_of js)(t \<mapsto> (case summary_of js t of
       None \<Rightarrow> \<lparr>su_event_count = 1, su_first_seq = jr_seq r, su_last_seq = jr_seq r, su_last_event_id = jr_event_id r,
         su_last_kind = jr_kind r, su_updated_at = jr_occurred_at r\<rparr>
     | Some u \<Rightarrow> u\<lparr>su_event_count := su_event_count u + 1, su_last_seq := jr_seq r,
         su_last_event_id := jr_event_id r, su_last_kind := jr_kind r, su_updated_at := jr_occurred_at r\<rparr>)))"
  by (auto simp: summary_of_def fun_eq_iff Let_def split: option.splits)

lemma fold_summary_agrees:
  assumes "seq_sorted (js @ [r])"
  shows "fold_summary r (summaries js) = summaries (js @ [r])"
proof (rule bt_eqI)
  have js: "seq_sorted js" using assms by (simp add: seq_sorted_def sorted_wrt_append)
  show "bt_ok (fold_summary r (summaries js))" "bt_ok (summaries (js @ [r]))"
    using summaries_table[OF js] summaries_table[OF assms] by (auto simp: fold_summary_def bt_insert_ok split: option.splits)
  show "map_of (fold_summary r (summaries js)) = map_of (summaries (js @ [r]))"
    using summaries_table[OF js] summaries_table[OF assms] summary_of_snoc[of js r]
    by (auto simp: fold_summary_def split: option.splits)
qed

text \<open>The keys of a journal of \<open>n\<close> rows.\<close>

definition numbered :: "nat \<Rightarrow> int list" where
  "numbered n = map int [1..<Suc n]"

lemma numbered_simps [simp]:
  "numbered 0 = []" "numbered (Suc n) = numbered n @ [int n + 1]" "length (numbered n) = n"
  "next_seq (numbered n) = int n + 1"
  by (cases n; simp add: numbered_def next_seq_def)+

lemma numbered_sorted: "map jr_seq js = numbered n \<Longrightarrow> seq_sorted js"
  by (simp add: seq_sorted_def numbered_def sorted_wrt_map del: upt_Suc)

lemma numbered_Max: "n \<noteq> 0 \<Longrightarrow> Max (set (numbered n)) = int n"
  unfolding numbered_def by (intro Max_eqI) auto

definition protocol_ok :: "store \<Rightarrow> bool" where
  "protocol_ok s \<longleftrightarrow> map jr_seq (st_journal s) = numbered (length (st_journal s))
     \<and> st_thread_projection s = summaries (st_journal s)
     \<and> (st_projection_state s = None \<and> st_journal s = []
        \<or> (\<exists>m. st_projection_state s = Some m \<and> ps_version m = projection_version
             \<and> ps_journal_max_seq m = int (length (st_journal s))))"

lemma append_event_ok:
  assumes "protocol_ok s"
  shows "protocol_ok (snd (append_event to_json s e))"
proof -
  have grow: "protocol_ok (s\<lparr>st_journal := st_journal s @ [row], st_thread_projection := fold_summary row (st_thread_projection s),
      st_projection_state := Some m\<rparr>)"
    if "jr_seq row = next_seq (map jr_seq (st_journal s))" "ps_journal_max_seq m = jr_seq row" "ps_version m = projection_version"
    for row m
  proof -
    have n: "map jr_seq (st_journal s @ [row]) = numbered (Suc (length (st_journal s)))"
      using assms that(1) by (simp add: protocol_ok_def)
    show ?thesis
      using assms that fold_summary_agrees[OF numbered_sorted[OF n]] n by (simp add: protocol_ok_def)
  qed
  show ?thesis
    using assms grow by (auto simp: append_event_def Let_def split: sum.splits option.splits)
qed

section \<open>Projections\<close>

text \<open>The search index holds exactly the confirmed memories that nothing supersedes, each once with its content.\<close>

definition index_exact :: "projections \<Rightarrow> bool" where
  "index_exact p \<longleftrightarrow> distinct (map fst (pj_memory_fts p))
     \<and> (\<forall>k c. (k, c) \<in> set (pj_memory_fts p) \<longleftrightarrow>
          (\<exists>r. map_of (pj_memories p) k = Some r \<and> retrievable_row r \<and> c = my_content r))"

definition projections_ok :: "projections \<Rightarrow> bool" where
  "projections_ok p \<longleftrightarrow> bt_ok (pj_threads p) \<and> bt_ok (pj_turns p) \<and> bt_ok (pj_permissions p) \<and> bt_ok (pj_memories p)
     \<and> index_exact p"

lemma no_projections_ok: "projections_ok no_projections"
  by (simp add: projections_ok_def no_projections_def index_exact_def)

lemma wiped_exact: "index_exact p \<Longrightarrow> wiped p = no_projections"
proof -
  assume "index_exact p"
  then have "filter (\<lambda>(i, c). map_of (pj_memories p) i = None) (pj_memory_fts p) = []"
    by (auto simp: index_exact_def filter_empty_conv)
  then show ?thesis by (simp add: wiped_def no_projections_def)
qed

lemma insert_memory_ok:
  assumes "projections_ok p" "map_of (pj_memories p) k = None"
  shows "projections_ok (insert_memory k r p)"
proof -
  have "k \<notin> fst ` set (pj_memory_fts p)" using assms by (force simp: projections_ok_def index_exact_def)
  then show ?thesis
    using assms by (auto simp: projections_ok_def index_exact_def insert_memory_def memory_fts_insert_def bt_insert_ok
        split: if_splits)
qed

lemma update_memory_ok:
  assumes "projections_ok p"
  shows "projections_ok (update_memory k f p)"
proof (cases "map_of (pj_memories p) k")
  case (Some r)
  have "distinct (map fst (filter (\<lambda>(i, c). i \<noteq> k) (pj_memory_fts p)))"
    using assms by (simp add: projections_ok_def index_exact_def distinct_map_filter)
  then show ?thesis
    using assms Some
    by (auto simp: projections_ok_def index_exact_def update_memory_def memory_fts_update_def memory_fts_insert_def
        split: if_splits)
qed (simp add: update_memory_def assms)

lemmas quiet_folds = fold_thread_created_def fold_thread_changed_def fold_turn_started_def fold_permission_requested_def
  fold_permission_decided_def update_turn_def

lemma event_activity_ok: "event_activity p e seq at = Okay p' \<Longrightarrow> projections_ok p \<Longrightarrow> projections_ok p'"
  by (auto simp: event_activity_def update_thread_activity_def projections_ok_def index_exact_def
      split: option.splits if_splits)

lemma quiet_fold_ok: "projections_ok p \<Longrightarrow> projections_ok (fold_thread_created parse p e t seq at)"
  "projections_ok p \<Longrightarrow> projections_ok (fold_thread_changed p e t seq at change)"
  "projections_ok p \<Longrightarrow> projections_ok (fold_turn_started p e t at)"
  "projections_ok p \<Longrightarrow> projections_ok (fold_permission_requested parse p e t at)"
  "projections_ok p \<Longrightarrow> projections_ok (fold_permission_decided parse p e at)"
  "projections_ok p \<Longrightarrow> projections_ok (update_turn turn g p)"
  by (auto simp: quiet_folds projections_ok_def index_exact_def Let_def bt_insert_ok split: option.splits)

lemma memory_fold_ok:
  "projections_ok p \<Longrightarrow> fold_memory_proposed parse p e at = Okay p' \<Longrightarrow> projections_ok p'"
  "projections_ok p \<Longrightarrow> fold_memory_confirmed parse p e at = Okay p' \<Longrightarrow> projections_ok p'"
  "projections_ok p \<Longrightarrow> projections_ok (fold_memory_state parse p e at state)"
  "projections_ok p \<Longrightarrow> projections_ok (fold_memory_superseded parse p e at)"
  by (auto simp: fold_memory_proposed_def fold_memory_confirmed_def fold_memory_state_def fold_memory_superseded_def Let_def
      insert_memory_ok update_memory_ok split: option.splits)

lemma fold_domain_event_ok:
  assumes "projections_ok p" "fold_domain_event parse p e seq at = Okay p'"
  shows "projections_ok p'"
  using assms
  by (cases "de_kind e"; cases "de_thread_id e"; simp add: fold_domain_event_def Let_def and_then_Okay_iff)
    (blast intro: event_activity_ok quiet_fold_ok memory_fold_ok)+

section \<open>Rebuild of the domain journal\<close>

text \<open>What the types of an event guarantee: identifiers of their kind and a payload that is the text of a JSON object.
  They do not exclude a custom kind that carries the name of a known one: such a kind is disguised, since its name
  is read back from the journal as the known kind. An event is \<open>ok\<close> if it is typed and its kind reads back.\<close>

definition id_ok :: "string \<Rightarrow> string \<Rightarrow> bool" where
  "id_ok prefix k \<longleftrightarrow> id_from_str prefix k = Okay k"

definition event_typed :: "(string \<Rightarrow> json option) \<Rightarrow> domain_event \<Rightarrow> bool" where
  "event_typed parse e \<longleftrightarrow> id_ok event_prefix (de_event_id e)
     \<and> (case de_thread_id e of None \<Rightarrow> True | Some k \<Rightarrow> id_ok thread_prefix k)
     \<and> (case de_turn_id e of None \<Rightarrow> True | Some k \<Rightarrow> id_ok turn_prefix k)
     \<and> (case de_operation_id e of None \<Rightarrow> True | Some k \<Rightarrow> id_ok operation_prefix k)
     \<and> event_payload_try_from parse (de_payload e) = Okay (de_payload e)"

definition disguised_kind :: "domain_event_kind \<Rightarrow> bool" where
  "disguised_kind k \<longleftrightarrow>
     (case event_kind_try_from_str (event_kind_as_str k) of Inl _ \<Rightarrow> False | Inr k' \<Rightarrow> k' \<noteq> k)"

definition event_ok :: "(string \<Rightarrow> json option) \<Rightarrow> domain_event \<Rightarrow> bool" where
  "event_ok parse e \<longleftrightarrow> id_ok event_prefix (de_event_id e)
     \<and> (case de_thread_id e of None \<Rightarrow> True | Some k \<Rightarrow> id_ok thread_prefix k)
     \<and> (case de_turn_id e of None \<Rightarrow> True | Some k \<Rightarrow> id_ok turn_prefix k)
     \<and> (case de_operation_id e of None \<Rightarrow> True | Some k \<Rightarrow> id_ok operation_prefix k)
     \<and> event_kind_try_from_str (event_kind_as_str (de_kind e)) = Okay (de_kind e)
     \<and> event_payload_try_from parse (de_payload e) = Okay (de_payload e)"

lemma i64_roundtrip: "i64_try_from n = Some i \<Longrightarrow> u64_try_from i = Some n"
  by (auto simp: i64_try_from_def u64_try_from_def split: if_splits)

lemma event_of_durable_row:
  assumes "event_ok parse e" "i64_try_from (de_occurred_at e) = Some at"
  shows "event_of_row parse (durable_row e seq at) = Okay e"
  using assms(1) i64_roundtrip[OF assms(2)]
  by (auto simp: event_ok_def id_ok_def event_of_row_def durable_row_def invariant_ok_def parse_opt_def split: option.splits)

lemma replay_rows_append:
  "replay_rows parse p (rs @ rs') = and_then (replay_rows parse p rs) (\<lambda>p'. replay_rows parse p' rs')"
proof (induction rs arbitrary: p)
  case (Cons r rs)
  then show ?case by (auto simp: and_then_def split: sum.splits)
qed simp

definition marker_ok :: "store \<Rightarrow> bool" where
  "marker_ok s \<longleftrightarrow> (case st_domain_state s of None \<Rightarrow> st_domain_journal s = []
     | Some m \<Rightarrow> dp_version m = domain_projection_version \<and> dp_journal_max_seq m = int (length (st_domain_journal s)))"

definition domain_ok :: "(string \<Rightarrow> json option) \<Rightarrow> store \<Rightarrow> bool" where
  "domain_ok parse s \<longleftrightarrow> map dj_seq (st_domain_journal s) = numbered (length (st_domain_journal s))
     \<and> replay_rows parse no_projections (st_domain_journal s) = Okay (st_projections s)
     \<and> projections_ok (st_projections s) \<and> marker_ok s"

lemma fresh_domain_ok: "domain_ok parse fresh_store"
  by (simp add: domain_ok_def fresh_store_def no_projections_ok marker_ok_def)

text \<open>An append that is neither refused nor a repetition, and one that is.\<close>

abbreviation domain_seq :: "store \<Rightarrow> int" where
  "domain_seq s \<equiv> next_seq (map dj_seq (st_domain_journal s))"

definition grown :: "store \<Rightarrow> domain_event \<Rightarrow> int \<Rightarrow> projections \<Rightarrow> store" where
  "grown s e at p = s\<lparr>st_domain_journal := st_domain_journal s @ [durable_row e (domain_seq s) at], st_projections := p,
     st_domain_state := Some (append_marker s e (domain_seq s) at p)\<rparr>"

lemma append_domain_grown:
  assumes "append_domain_event parse s e = (Okay (Appended seq), s')"
  obtains at p where "seq = domain_seq s" "s' = grown s e at p" "i64_try_from (de_occurred_at e) = Some at"
    "existing_domain_event s (de_event_id e) = None" "validate_domain_event parse (st_projections s) e = Okay ()"
    "fold_domain_event parse (st_projections s) e (domain_seq s) at = Okay p"
    "length (de_payload e) \<le> journal_payload_max"
  using assms
  by (auto simp: append_domain_event_def grown_def Let_def and_then_Okay_iff split: if_splits option.splits sum.splits)

lemma append_domain_same:
  "append_domain_event parse s e = (res, s') \<Longrightarrow> (\<And>seq. res \<noteq> Okay (Appended seq)) \<Longrightarrow> s' = s"
  by (auto simp: append_domain_event_def Let_def split: if_splits option.splits sum.splits)

lemma grown_domain_ok:
  assumes ok: "domain_ok parse s" "event_ok parse e"
    and step: "i64_try_from (de_occurred_at e) = Some at" "validate_domain_event parse (st_projections s) e = Okay ()"
      "fold_domain_event parse (st_projections s) e (domain_seq s) at = Okay p"
  shows "domain_ok parse (grown s e at p)"
proof -
  have n: "domain_seq s = int (length (st_domain_journal s)) + 1" using ok(1) by (simp add: domain_ok_def)
  have row: "dj_seq (durable_row e seq at) = seq" "dj_occurred_at (durable_row e seq at) = at" for seq
    by (simp_all add: durable_row_def)
  have "replay_rows parse no_projections (st_domain_journal s @ [durable_row e (domain_seq s) at]) = Okay p"
    using ok(1) step event_of_durable_row[OF ok(2) step(1)] by (simp add: replay_rows_append domain_ok_def row)
  then show ?thesis
    using ok(1) fold_domain_event_ok[OF _ step(3)] n
    by (simp add: domain_ok_def grown_def row marker_ok_def append_marker_def)
qed

lemma append_domain_ok:
  assumes "domain_ok parse s" "event_ok parse e"
  shows "domain_ok parse (snd (append_domain_event parse s e))"
proof (cases "\<exists>seq. fst (append_domain_event parse s e) = Okay (Appended seq)")
  case True
  then obtain seq where "append_domain_event parse s e = (Okay (Appended seq), snd (append_domain_event parse s e))"
    by (metis prod.collapse)
  then show ?thesis by (rule append_domain_grown) (use assms grown_domain_ok in auto)
next
  case False
  then show ?thesis using append_domain_same[of parse s e] assms(1) by (metis prod.collapse)
qed

lemma rebuild_same:
  assumes "domain_ok parse s"
  obtains m where "rebuild_domain_projections parse s = (Okay (int (length (st_domain_journal s))), s\<lparr>st_domain_state := Some m\<rparr>)"
    "dp_journal_max_seq m = int (length (st_domain_journal s))" "dp_version m = domain_projection_version"
    "dp_digest m = domain_projection_digest (st_projections s)"
proof -
  have "wiped (st_projections s) = no_projections" using assms by (simp add: domain_ok_def projections_ok_def wiped_exact)
  moreover have "domain_journal_max_seq s = int (length (st_domain_journal s))"
    using assms numbered_Max[of "length (st_domain_journal s)"] by (simp add: domain_ok_def domain_journal_max_seq_def)
  ultimately have "rebuild_domain_projections parse s = (Okay (int (length (st_domain_journal s))),
      s\<lparr>st_domain_state := Some \<lparr>dp_journal_max_seq = int (length (st_domain_journal s)),
        dp_version = domain_projection_version,
        dp_rebuilt_at = (if st_domain_journal s = [] then 0 else Max (set (map dj_occurred_at (st_domain_journal s)))),
        dp_digest = domain_projection_digest (st_projections s)\<rparr>\<rparr>)"
    using assms by (simp add: domain_ok_def rebuild_domain_projections_def Let_def)
  then show ?thesis by (rule that) simp_all
qed

end
