(* ===== verification/Storage_Entities.thy ===== *)
theory Storage_Entities
  imports Storage_Journal "HOL-Library.Product_Lexorder"
begin

text \<open>
  The rest of \<open>crates/altior-storage/src/lib.rs\<close>: runtime checkpoints, session bindings, agent profiles, harness bindings,
  project references, the pages read from the projections, and the opening of a store. serde_json's text of a list of
  strings is the pair of arguments \<open>enc\<close> and \<open>dec\<close>.
\<close>

section \<open>Reading rows\<close>

definition entity_ok :: "('e, 'a) result \<Rightarrow> string \<Rightarrow> (storage_error, 'a) result" where
  "entity_ok r detail = (case r of Inl _ \<Rightarrow> Err (InvalidEntityData detail) | Inr x \<Rightarrow> Okay x)"

definition opt_ok :: "('a \<Rightarrow> (storage_error, 'b) result) \<Rightarrow> 'a option \<Rightarrow> (storage_error, 'b option) result" where
  "opt_ok f x = (case x of None \<Rightarrow> Okay None | Some v \<Rightarrow> map_sum id Some (f v))"

definition millis :: "int \<Rightarrow> string \<Rightarrow> (storage_error, u64) result" where
  "millis raw detail = (case u64_try_from raw of None \<Rightarrow> Err (InvalidEntityData detail) | Some t \<Rightarrow> Okay t)"

definition column_millis :: "u64 \<Rightarrow> string \<Rightarrow> (storage_error, int) result" where
  "column_millis t detail = (case i64_try_from t of None \<Rightarrow> Err (InvalidEntityData detail) | Some i \<Rightarrow> Okay i)"

fun collect_rows :: "('a \<Rightarrow> (storage_error, 'b) result) \<Rightarrow> 'a list \<Rightarrow> (storage_error, 'b list) result" where
  "collect_rows f [] = Okay []"
| "collect_rows f (x # xs) = and_then (f x) (\<lambda>y. and_then (collect_rows f xs) (\<lambda>ys. Okay (y # ys)))"

definition query_optional_row ::
  "('k \<times> 'v \<Rightarrow> (storage_error, 'b) result) \<Rightarrow> ('k \<times> 'v) list \<Rightarrow> 'k \<Rightarrow> (storage_error, 'b option) result" where
  "query_optional_row f table k = (case map_of table k of None \<Rightarrow> Okay None | Some v \<Rightarrow> map_sum id Some (f (k, v)))"

text \<open>Pages after a cursor: newest first (\<open>ORDER BY at DESC, id ASC\<close>) and oldest first (\<open>ORDER BY at ASC, id ASC\<close>).\<close>

definition before_cursor :: "(u64 \<times> string) option \<Rightarrow> int \<times> string" where
  "before_cursor c = (case c of None \<Rightarrow> (i64_max, []) | Some (t, k) \<Rightarrow> (unwrap_or (i64_try_from t) i64_max, k))"

definition after_cursor :: "(u64 \<times> string) option \<Rightarrow> int \<times> string" where
  "after_cursor c = (case c of None \<Rightarrow> (-1, []) | Some (t, k) \<Rightarrow> (unwrap_or (i64_try_from t) (-1), k))"

definition page_newest :: "('v \<Rightarrow> int) \<Rightarrow> int \<times> string \<Rightarrow> nat \<Rightarrow> (string \<times> 'v) list \<Rightarrow> (string \<times> 'v) list" where
  "page_newest at c n rows =
     take n (sort_key (\<lambda>(k, r). (- at r, k)) (filter (\<lambda>(k, r). at r < fst c \<or> at r = fst c \<and> k > snd c) rows))"

definition page_oldest :: "('v \<Rightarrow> int) \<Rightarrow> int \<times> string \<Rightarrow> nat \<Rightarrow> (string \<times> 'v) list \<Rightarrow> (string \<times> 'v) list" where
  "page_oldest at c n rows =
     take n (sort_key (\<lambda>(k, r). (at r, k)) (filter (\<lambda>(k, r). at r > fst c \<or> at r = fst c \<and> k > snd c) rows))"

section \<open>Threads, turns, permissions, history\<close>

datatype thread_state = ThOpen | ThPinned | ThArchived

fun thread_state_to_str :: "thread_state \<Rightarrow> string" where
  "thread_state_to_str ThOpen = ''open''"
| "thread_state_to_str ThPinned = ''pinned''"
| "thread_state_to_str ThArchived = ''archived''"

definition thread_list :: "store \<Rightarrow> thread_state option \<Rightarrow> (u64 \<times> string) option \<Rightarrow> u32 \<Rightarrow> (string \<times> thread_row) list" where
  "thread_list s state before limit =
     page_newest th_updated_at (before_cursor before) (unat limit)
       (filter (\<lambda>(k, r). state = None \<or> Some (th_state r) = map_option thread_state_to_str state) (pj_threads (st_projections s)))"

definition thread_by_id :: "store \<Rightarrow> string \<Rightarrow> (string \<times> thread_row) option" where
  "thread_by_id s k = map_option (Pair k) (map_of (pj_threads (st_projections s)) k)"

definition thread_history :: "store \<Rightarrow> string \<Rightarrow> int \<Rightarrow> u32 \<Rightarrow> domain_journal_row list" where
  "thread_history s t after_seq limit =
     take (unat limit) (filter (\<lambda>r. dj_thread_id r = Some t \<and> dj_seq r > after_seq) (st_domain_journal s))"

definition domain_journal_len :: "store \<Rightarrow> int" where
  "domain_journal_len s = int (length (st_domain_journal s))"

definition domain_journal_records :: "store \<Rightarrow> int \<Rightarrow> u32 \<Rightarrow> domain_journal_row list" where
  "domain_journal_records s after_seq limit =
     take (unat limit) (filter (\<lambda>r. dj_seq r > after_seq) (st_domain_journal s))"

text \<open>\<open>MATCH\<close> of the title index is the argument \<open>matches\<close>.\<close>

definition fts5_quoted_literal :: "string \<Rightarrow> string" where
  "fts5_quoted_literal s = [CHR 34] @ concat (map (\<lambda>c. if c = CHR 34 then [CHR 34, CHR 34] else [c]) s) @ [CHR 34]"

definition search_threads ::
  "(string \<Rightarrow> string \<Rightarrow> bool) \<Rightarrow> store \<Rightarrow> string \<Rightarrow> (u64 \<times> string) option \<Rightarrow> u32 \<Rightarrow> (string \<times> thread_row) list" where
  "search_threads matches s query before limit =
     page_newest th_updated_at (before_cursor before) (unat limit)
       (filter (\<lambda>(k, r). matches (fts5_quoted_literal query) (th_title r)) (pj_threads (st_projections s)))"

definition turns_for_thread :: "store \<Rightarrow> string \<Rightarrow> (u64 \<times> string) option \<Rightarrow> u32 \<Rightarrow> (string \<times> turn_row) list" where
  "turns_for_thread s t after limit =
     page_oldest tr_started_at (after_cursor after) (unat limit)
       (filter (\<lambda>(k, r). tr_thread_id r = t) (pj_turns (st_projections s)))"

definition journal_events_for_thread ::
  "store \<Rightarrow> string \<Rightarrow> u64 option \<Rightarrow> int \<Rightarrow> domain_journal_row list \<times> u64 option" where
  "journal_events_for_thread s t before_seq limit =
     (let before = unwrap_or (Option.bind before_seq i64_try_from) i64_max;
          rows = filter (\<lambda>r. dj_thread_id r = Some t) (st_domain_journal s);
          older = rev (filter (\<lambda>r. dj_seq r < before) rows);
          page = (if limit < 0 then older else take (nat limit) older) in
      (rev page, Option.bind (if rows = [] then None else Some (Max (set (map dj_seq rows)))) u64_try_from))"

definition journal_has_older :: "store \<Rightarrow> string \<Rightarrow> u64 \<Rightarrow> bool" where
  "journal_has_older s t before_seq \<longleftrightarrow>
     list_ex (\<lambda>r. dj_thread_id r = Some t \<and> dj_seq r < unwrap_or (i64_try_from before_seq) i64_max) (st_domain_journal s)"

record permission =
  pm_event_id :: string
  pm_turn_id :: string
  pm_thread_id :: string
  pm_kind :: permission_kind
  pm_description :: string
  pm_decision :: permission_decision
  pm_requested_at :: u64
  pm_decided_at :: "u64 option"

definition row_to_permission :: "string \<times> permission_row \<Rightarrow> (storage_error, permission) result" where
  "row_to_permission = (\<lambda>(k, r).
     and_then (entity_ok (id_from_str event_prefix k) (''invalid event_id '' @ k)) (\<lambda>event_id.
     and_then (entity_ok (id_from_str turn_prefix (pr_turn_id r)) (''invalid turn_id '' @ pr_turn_id r)) (\<lambda>turn.
     and_then (entity_ok (id_from_str thread_prefix (pr_thread_id r)) (''invalid thread_id '' @ pr_thread_id r)) (\<lambda>thread.
     and_then (entity_ok (permission_kind_try_from_str (pr_kind r)) (''invalid permission kind '' @ pr_kind r)) (\<lambda>kind.
     and_then (entity_ok (permission_description_try_from (pr_description r)) (''invalid description '' @ pr_description r)) (\<lambda>desc.
     and_then (entity_ok (permission_decision_try_from_str (pr_decision r)) (''invalid decision '' @ pr_decision r)) (\<lambda>decision.
     and_then (millis (pr_requested_at r) ''negative requested_at '') (\<lambda>requested.
     and_then (opt_ok (\<lambda>t. millis t ''negative decided_at '') (pr_decided_at r)) (\<lambda>decided.
       Okay \<lparr>pm_event_id = event_id, pm_turn_id = turn, pm_thread_id = thread, pm_kind = kind, pm_description = desc,
         pm_decision = decision, pm_requested_at = requested, pm_decided_at = decided\<rparr>)))))))))"

definition permission_by_event_id :: "store \<Rightarrow> string \<Rightarrow> (storage_error, permission option) result" where
  "permission_by_event_id s k = query_optional_row row_to_permission (pj_permissions (st_projections s)) k"

definition permissions_for_turn ::
  "store \<Rightarrow> string \<Rightarrow> (u64 \<times> string) option \<Rightarrow> u32 \<Rightarrow> (storage_error, permission list) result" where
  "permissions_for_turn s turn after limit =
     collect_rows row_to_permission (page_oldest pr_requested_at (after_cursor after) (unat limit)
       (filter (\<lambda>(k, r). pr_turn_id r = turn) (pj_permissions (st_projections s))))"

definition permissions_for_thread ::
  "store \<Rightarrow> string \<Rightarrow> (u64 \<times> string) option \<Rightarrow> u32 \<Rightarrow> (storage_error, permission list) result" where
  "permissions_for_thread s t after limit =
     collect_rows row_to_permission (page_oldest pr_requested_at (after_cursor after) (unat limit)
       (filter (\<lambda>(k, r). pr_thread_id r = t) (pj_permissions (st_projections s))))"

section \<open>Agent profiles\<close>

record agent_profile =
  gp_id :: string
  gp_display_name :: string
  gp_preferred_harness :: harness_kind
  gp_memory_mode :: memory_mode
  gp_created_at :: u64
  gp_updated_at :: u64

definition row_to_agent_profile :: "string \<times> profile_row \<Rightarrow> (storage_error, agent_profile) result" where
  "row_to_agent_profile = (\<lambda>(k, r).
     and_then (entity_ok (id_from_str agent_profile_prefix k) (''invalid agent_profile_id '' @ k)) (\<lambda>i.
     and_then (entity_ok (display_name_try_from (ap_display_name r)) (''invalid display_name '' @ ap_display_name r)) (\<lambda>name.
     and_then (entity_ok (harness_kind_try_from_str (ap_preferred_harness r)) (''invalid preferred_harness '' @ ap_preferred_harness r)) (\<lambda>harness.
     and_then (entity_ok (memory_mode_try_from_str (ap_memory_mode r)) (''invalid memory_mode '' @ ap_memory_mode r)) (\<lambda>mode.
     and_then (millis (ap_created_at r) ''negative created_at '') (\<lambda>created.
     and_then (millis (ap_updated_at r) ''negative updated_at '') (\<lambda>updated.
       Okay \<lparr>gp_id = i, gp_display_name = name, gp_preferred_harness = harness, gp_memory_mode = mode,
         gp_created_at = created, gp_updated_at = updated\<rparr>)))))))"

definition profile_to_row :: "agent_profile \<Rightarrow> (storage_error, profile_row) result" where
  "profile_to_row p =
     and_then (column_millis (gp_created_at p) ''created_at exceeds i64'') (\<lambda>created.
     and_then (column_millis (gp_updated_at p) ''updated_at exceeds i64'') (\<lambda>updated.
       Okay \<lparr>ap_display_name = gp_display_name p, ap_preferred_harness = harness_kind_as_str (gp_preferred_harness p),
         ap_memory_mode = memory_mode_as_str (gp_memory_mode p), ap_created_at = created, ap_updated_at = updated\<rparr>))"

definition agent_profile_by_id :: "store \<Rightarrow> string \<Rightarrow> (storage_error, agent_profile option) result" where
  "agent_profile_by_id s k = query_optional_row row_to_agent_profile (st_profiles s) k"

text \<open>An insert that meets an existing row succeeds exactly if that row is the value inserted.\<close>

definition create_agent_profile :: "store \<Rightarrow> agent_profile \<Rightarrow> (storage_error, unit) result \<times> store" where
  "create_agent_profile s p =
     (if gp_updated_at p < gp_created_at p
      then (Err (InvalidEntityData ''updated_at cannot be earlier than created_at''), s)
      else case profile_to_row p of
        Inl e \<Rightarrow> (Err e, s)
      | Inr row \<Rightarrow>
          (case map_of (st_profiles s) (gp_id p) of
             None \<Rightarrow> (Okay (), s\<lparr>st_profiles := bt_insert (gp_id p) row (st_profiles s)\<rparr>)
           | Some old \<Rightarrow>
               (case row_to_agent_profile (gp_id p, old) of
                  Inl e \<Rightarrow> (Err e, s)
                | Inr existing \<Rightarrow>
                    (if existing = p then Okay () else Err (AgentProfileAlreadyExists (gp_id p)), s))))"

definition update_agent_profile :: "store \<Rightarrow> agent_profile \<Rightarrow> (storage_error, unit) result \<times> store" where
  "update_agent_profile s p =
     (case agent_profile_by_id s (gp_id p) of
        Inl e \<Rightarrow> (Err e, s)
      | Inr None \<Rightarrow> (Err (AgentProfileNotFound (gp_id p)), s)
      | Inr (Some existing) \<Rightarrow>
          if gp_created_at existing \<noteq> gp_created_at p
          then (Err (InvalidEntityData (''cannot modify immutable created_at for agent profile '' @ gp_id p)), s)
          else if gp_updated_at p < gp_created_at existing
          then (Err (InvalidEntityData ''updated_at cannot be earlier than created_at''), s)
          else if existing = p then (Okay (), s)
          else (case column_millis (gp_updated_at p) ''updated_at exceeds i64'' of
                  Inl e \<Rightarrow> (Err e, s)
                | Inr updated \<Rightarrow>
                    (Okay (), s\<lparr>st_profiles := update_row (gp_id p) (\<lambda>r. r\<lparr>ap_display_name := gp_display_name p,
                       ap_preferred_harness := harness_kind_as_str (gp_preferred_harness p),
                       ap_memory_mode := memory_mode_as_str (gp_memory_mode p), ap_updated_at := updated\<rparr>) (st_profiles s)\<rparr>)))"

definition upsert_agent_profile :: "store \<Rightarrow> agent_profile \<Rightarrow> (storage_error, unit) result \<times> store" where
  "upsert_agent_profile s p =
     (if gp_updated_at p < gp_created_at p
      then (Err (InvalidEntityData ''updated_at cannot be earlier than created_at''), s)
      else case profile_to_row p of
        Inl e \<Rightarrow> (Err e, s)
      | Inr row \<Rightarrow>
          (case map_of (st_profiles s) (gp_id p) of
             None \<Rightarrow> (Okay (), s\<lparr>st_profiles := bt_insert (gp_id p) row (st_profiles s)\<rparr>)
           | Some old \<Rightarrow>
               if ap_created_at old = ap_created_at row
               then (Okay (), s\<lparr>st_profiles := update_row (gp_id p) (\<lambda>_. row) (st_profiles s)\<rparr>)
               else (Err (InvalidEntityData (''cannot modify immutable created_at for agent profile '' @ gp_id p)), s)))"

definition agent_profiles :: "store \<Rightarrow> (u64 \<times> string) option \<Rightarrow> u32 \<Rightarrow> (storage_error, agent_profile list) result" where
  "agent_profiles s before limit =
     collect_rows row_to_agent_profile (page_newest ap_updated_at (before_cursor before) (unat limit) (st_profiles s))"

section \<open>Harness bindings\<close>

definition read_list ::
  "(string \<Rightarrow> string list option) \<Rightarrow> (string \<Rightarrow> ('e, string) result) \<Rightarrow> string \<Rightarrow> string \<Rightarrow> string
   \<Rightarrow> (storage_error, string list) result" where
  "read_list dec try_from json detail item_detail =
     (case dec json of
        None \<Rightarrow> Err (InvalidEntityData detail)
      | Some xs \<Rightarrow> collect_rows (\<lambda>x. entity_ok (try_from x) (item_detail @ x)) xs)"

definition row_to_harness_binding ::
  "(string \<Rightarrow> string list option) \<Rightarrow> string \<times> binding_row \<Rightarrow> (storage_error, acp_harness_binding) result" where
  "row_to_harness_binding dec = (\<lambda>(k, r).
     and_then (entity_ok (id_from_str harness_binding_prefix k) (''invalid harness_binding_id '' @ k)) (\<lambda>i.
     and_then (entity_ok (id_from_str agent_profile_prefix (br_agent_profile_id r)) (''invalid agent_profile_id '' @ br_agent_profile_id r)) (\<lambda>agent.
     and_then (entity_ok (display_name_try_from (br_label r)) (''invalid label '' @ br_label r)) (\<lambda>label.
     and_then (entity_ok (bounded_path_try_from (br_command r)) (''invalid command '' @ br_command r)) (\<lambda>command.
     and_then (read_list dec harness_arg_try_from (br_args_json r) ''invalid args_json'' ''invalid harness arg '') (\<lambda>args.
     and_then (read_list dec harness_env_key_try_from (br_env_keys_json r) ''invalid env_keys_json'' ''invalid harness env key '') (\<lambda>env_keys.
     and_then (read_list dec harness_secret_ref_try_from (br_secret_refs_json r) ''invalid secret_refs_json'' ''invalid harness secret ref '') (\<lambda>secret_refs.
     and_then (millis (br_created_at r) ''negative created_at '') (\<lambda>created.
       entity_ok (binding_new \<lparr>hb_id = i, hb_agent_profile_id = agent, hb_label = label, hb_command = command, hb_args = args,
         hb_env_keys = env_keys, hb_secret_refs = secret_refs, hb_created_at = created\<rparr>) ''invalid harness binding entity'')))))))))"

definition binding_to_row :: "(string list \<Rightarrow> string) \<Rightarrow> acp_harness_binding \<Rightarrow> (storage_error, binding_row) result" where
  "binding_to_row enc b =
     and_then (column_millis (hb_created_at b) ''created_at exceeds i64'') (\<lambda>created.
       Okay \<lparr>br_agent_profile_id = hb_agent_profile_id b, br_label = hb_label b, br_command = hb_command b,
         br_args_json = enc (hb_args b), br_env_keys_json = enc (hb_env_keys b), br_secret_refs_json = enc (hb_secret_refs b),
         br_created_at = created\<rparr>)"

text \<open>The checks before either kind of write.\<close>

definition binding_checked ::
  "(string list \<Rightarrow> string) \<Rightarrow> store \<Rightarrow> acp_harness_binding \<Rightarrow> (storage_error, binding_row) result" where
  "binding_checked enc s b =
     and_then (entity_ok (binding_validate b) ''invalid harness binding'') (\<lambda>_.
       if map_of (st_profiles s) (hb_agent_profile_id b) = None then Err (AgentProfileNotFound (hb_agent_profile_id b))
       else binding_to_row enc b)"

definition create_harness_binding ::
  "(string list \<Rightarrow> string) \<Rightarrow> (string \<Rightarrow> string list option) \<Rightarrow> store \<Rightarrow> acp_harness_binding
   \<Rightarrow> (storage_error, unit) result \<times> store" where
  "create_harness_binding enc dec s b =
     (case binding_checked enc s b of
        Inl e \<Rightarrow> (Err e, s)
      | Inr row \<Rightarrow>
          (case map_of (st_bindings s) (hb_id b) of
             None \<Rightarrow> (Okay (), s\<lparr>st_bindings := bt_insert (hb_id b) row (st_bindings s)\<rparr>)
           | Some old \<Rightarrow>
               (case row_to_harness_binding dec (hb_id b, old) of
                  Inl e \<Rightarrow> (Err e, s)
                | Inr existing \<Rightarrow>
                    (if existing = b then Okay () else Err (HarnessBindingAlreadyExists (hb_id b)), s))))"

definition upsert_harness_binding ::
  "(string list \<Rightarrow> string) \<Rightarrow> store \<Rightarrow> acp_harness_binding \<Rightarrow> (storage_error, unit) result \<times> store" where
  "upsert_harness_binding enc s b =
     (case binding_checked enc s b of
        Inl e \<Rightarrow> (Err e, s)
      | Inr row \<Rightarrow>
          (case map_of (st_bindings s) (hb_id b) of
             None \<Rightarrow> (Okay (), s\<lparr>st_bindings := bt_insert (hb_id b) row (st_bindings s)\<rparr>)
           | Some old \<Rightarrow>
               if br_agent_profile_id old = br_agent_profile_id row \<and> br_created_at old = br_created_at row
               then (Okay (), s\<lparr>st_bindings := update_row (hb_id b) (\<lambda>_. row) (st_bindings s)\<rparr>)
               else (Err (InvalidEntityData
                      (''cannot modify immutable agent_profile_id or created_at for harness binding '' @ hb_id b)), s)))"

definition harness_binding_by_id ::
  "(string \<Rightarrow> string list option) \<Rightarrow> store \<Rightarrow> string \<Rightarrow> (storage_error, acp_harness_binding option) result" where
  "harness_binding_by_id dec s k = query_optional_row (row_to_harness_binding dec) (st_bindings s) k"

definition harness_bindings_for_agent ::
  "(string \<Rightarrow> string list option) \<Rightarrow> store \<Rightarrow> string \<Rightarrow> (u64 \<times> string) option \<Rightarrow> u32
   \<Rightarrow> (storage_error, acp_harness_binding list) result" where
  "harness_bindings_for_agent dec s agent after limit =
     collect_rows (row_to_harness_binding dec) (page_oldest br_created_at (after_cursor after) (unat limit)
       (filter (\<lambda>(k, r). br_agent_profile_id r = agent) (st_bindings s)))"

definition delete_harness_binding :: "store \<Rightarrow> string \<Rightarrow> bool \<times> store" where
  "delete_harness_binding s k = (map_of (st_bindings s) k \<noteq> None, s\<lparr>st_bindings := bt_remove k (st_bindings s)\<rparr>)"

section \<open>Project references\<close>

record project_ref =
  pf_ref_id :: string
  pf_ref_label :: string
  pf_ref_path :: string
  pf_ref_created_at :: u64

definition row_to_project_ref :: "string \<times> project_row \<Rightarrow> (storage_error, project_ref) result" where
  "row_to_project_ref = (\<lambda>(k, r).
     and_then (entity_ok (id_from_str project_prefix k) (''invalid project_id '' @ k)) (\<lambda>i.
     and_then (entity_ok (bounded_label_try_from (pf_label r)) (''invalid label '' @ pf_label r)) (\<lambda>label.
     and_then (entity_ok (bounded_path_try_from (pf_path r)) (''invalid path '' @ pf_path r)) (\<lambda>path.
     and_then (millis (pf_created_at r) ''negative created_at '') (\<lambda>created.
       Okay \<lparr>pf_ref_id = i, pf_ref_label = label, pf_ref_path = path, pf_ref_created_at = created\<rparr>)))))"

definition project_to_row :: "project_ref \<Rightarrow> (storage_error, project_row) result" where
  "project_to_row p =
     and_then (column_millis (pf_ref_created_at p) ''created_at exceeds i64'') (\<lambda>created.
       Okay \<lparr>pf_label = pf_ref_label p, pf_path = pf_ref_path p, pf_created_at = created\<rparr>)"

definition create_project_ref :: "store \<Rightarrow> project_ref \<Rightarrow> (storage_error, unit) result \<times> store" where
  "create_project_ref s p =
     (case project_to_row p of
        Inl e \<Rightarrow> (Err e, s)
      | Inr row \<Rightarrow>
          (case map_of (st_projects s) (pf_ref_id p) of
             None \<Rightarrow> (Okay (), s\<lparr>st_projects := bt_insert (pf_ref_id p) row (st_projects s)\<rparr>)
           | Some old \<Rightarrow>
               (case row_to_project_ref (pf_ref_id p, old) of
                  Inl e \<Rightarrow> (Err e, s)
                | Inr existing \<Rightarrow>
                    (if existing = p then Okay () else Err (ProjectRefAlreadyExists (pf_ref_id p)), s))))"

definition upsert_project_ref :: "store \<Rightarrow> project_ref \<Rightarrow> (storage_error, unit) result \<times> store" where
  "upsert_project_ref s p =
     (case project_to_row p of
        Inl e \<Rightarrow> (Err e, s)
      | Inr row \<Rightarrow>
          (case map_of (st_projects s) (pf_ref_id p) of
             None \<Rightarrow> (Okay (), s\<lparr>st_projects := bt_insert (pf_ref_id p) row (st_projects s)\<rparr>)
           | Some old \<Rightarrow>
               if pf_created_at old = pf_created_at row
               then (Okay (), s\<lparr>st_projects := update_row (pf_ref_id p) (\<lambda>_. row) (st_projects s)\<rparr>)
               else (Err (InvalidEntityData (''cannot modify immutable created_at for project ref '' @ pf_ref_id p)), s)))"

definition project_ref_by_id :: "store \<Rightarrow> string \<Rightarrow> (storage_error, project_ref option) result" where
  "project_ref_by_id s k = query_optional_row row_to_project_ref (st_projects s) k"

definition project_refs :: "store \<Rightarrow> (u64 \<times> string) option \<Rightarrow> u32 \<Rightarrow> (storage_error, project_ref list) result" where
  "project_refs s after limit =
     collect_rows row_to_project_ref (page_oldest pf_created_at (after_cursor after) (unat limit) (st_projects s))"

definition delete_project_ref :: "store \<Rightarrow> string \<Rightarrow> (storage_error, bool) result \<times> store" where
  "delete_project_ref s k =
     (let n = length (filter (\<lambda>(t, r). th_project_id r = Some k) (pj_threads (st_projections s))) in
      if n > 0 then (Err (ProjectReferencedByThreads k n), s)
      else (Okay (map_of (st_projects s) k \<noteq> None), s\<lparr>st_projects := bt_remove k (st_projects s)\<rparr>))"

section \<open>Runtime checkpoints\<close>

record runtime_checkpoint =
  rc_id :: string
  rc_thread_id :: string
  rc_turn_id :: "string option"
  rc_operation_id :: string
  rc_boundary_kind :: boundary_kind
  rc_state :: checkpoint_state
  rc_remote_request_id :: "string option"
  rc_diagnostic_summary :: "string option"
  rc_created_at :: u64
  rc_settled_at :: "u64 option"

definition row_to_runtime_checkpoint :: "string \<times> checkpoint_row \<Rightarrow> (storage_error, runtime_checkpoint) result" where
  "row_to_runtime_checkpoint = (\<lambda>(k, r).
     and_then (entity_ok (id_from_str runtime_checkpoint_prefix k) (''invalid checkpoint id '' @ k)) (\<lambda>i.
     and_then (entity_ok (id_from_str thread_prefix (cp_thread_id r)) (''invalid thread_id '' @ cp_thread_id r)) (\<lambda>thread.
     and_then (opt_ok (\<lambda>x. entity_ok (id_from_str turn_prefix x) ''invalid turn_id'') (cp_turn_id r)) (\<lambda>turn.
     and_then (entity_ok (id_from_str operation_prefix (cp_operation_id r)) (''invalid operation_id '' @ cp_operation_id r)) (\<lambda>op.
     and_then (entity_ok (boundary_kind_try_from_str (cp_boundary_kind r)) (''invalid boundary_kind '' @ cp_boundary_kind r)) (\<lambda>kind.
     and_then (entity_ok (checkpoint_state_try_from_str (cp_state r)) (''invalid state '' @ cp_state r)) (\<lambda>state.
     and_then (opt_ok (\<lambda>x. entity_ok (remote_request_id_try_from x) ''invalid remote_request_id'') (cp_remote_request_id r)) (\<lambda>remote.
     and_then (opt_ok (\<lambda>x. entity_ok (diagnostic_summary_try_from x) ''invalid diagnostic_summary'') (cp_diagnostic_summary r)) (\<lambda>diag.
     and_then (millis (cp_created_at r) ''negative created_at '') (\<lambda>created.
     and_then (opt_ok (\<lambda>x. millis x ''negative settled_at '') (cp_settled_at r)) (\<lambda>settled.
       Okay \<lparr>rc_id = i, rc_thread_id = thread, rc_turn_id = turn, rc_operation_id = op, rc_boundary_kind = kind,
         rc_state = state, rc_remote_request_id = remote, rc_diagnostic_summary = diag, rc_created_at = created,
         rc_settled_at = settled\<rparr>)))))))))))"

definition checkpoint_to_row :: "runtime_checkpoint \<Rightarrow> (storage_error, checkpoint_row) result" where
  "checkpoint_to_row c =
     and_then (column_millis (rc_created_at c) ''created_at exceeds i64 column'') (\<lambda>created.
     and_then (opt_ok (\<lambda>t. column_millis t ''settled_at exceeds i64 column'') (rc_settled_at c)) (\<lambda>settled.
       Okay \<lparr>cp_thread_id = rc_thread_id c, cp_turn_id = rc_turn_id c, cp_operation_id = rc_operation_id c,
         cp_boundary_kind = boundary_kind_as_str (rc_boundary_kind c), cp_state = checkpoint_state_as_str (rc_state c),
         cp_remote_request_id = rc_remote_request_id c, cp_diagnostic_summary = rc_diagnostic_summary c,
         cp_created_at = created, cp_settled_at = settled\<rparr>))"

definition checkpoint_turn_ok :: "store \<Rightarrow> runtime_checkpoint \<Rightarrow> (storage_error, unit) result" where
  "checkpoint_turn_ok s c =
     (case rc_turn_id c of
        None \<Rightarrow> Okay ()
      | Some turn \<Rightarrow>
          (case map_of (pj_turns (st_projections s)) turn of
             None \<Rightarrow> Err (TurnNotFound turn)
           | Some r \<Rightarrow> if tr_thread_id r \<noteq> rc_thread_id c
                       then Err (TurnThreadMismatch turn (rc_thread_id c) (tr_thread_id r)) else Okay ()))"

definition record_runtime_intent :: "store \<Rightarrow> runtime_checkpoint \<Rightarrow> (storage_error, unit) result \<times> store" where
  "record_runtime_intent s c =
     (if rc_state c \<noteq> CkIntent
      then (Err (InvalidCheckpointTransition (rc_id c) ''record_runtime_intent requires state to be intent''), s)
      else case and_then (checkpoint_turn_ok s c)
                  (\<lambda>_. query_optional_row row_to_runtime_checkpoint (st_checkpoints s) (rc_id c)) of
        Inl e \<Rightarrow> (Err e, s)
      | Inr (Some x) \<Rightarrow>
          (if rc_thread_id x = rc_thread_id c \<and> rc_turn_id x = rc_turn_id c \<and> rc_operation_id x = rc_operation_id c
              \<and> rc_boundary_kind x = rc_boundary_kind c \<and> rc_created_at x = rc_created_at c then Okay ()
           else Err (CheckpointCollision (rc_id c) ''existing checkpoint has conflicting intent parameters''), s)
      | Inr None \<Rightarrow>
          (case checkpoint_to_row c of
             Inl e \<Rightarrow> (Err e, s)
           | Inr row \<Rightarrow> (Okay (), s\<lparr>st_checkpoints := bt_insert (rc_id c) row (st_checkpoints s)\<rparr>)))"

definition settle_runtime_checkpoint ::
  "store \<Rightarrow> string \<Rightarrow> checkpoint_state \<Rightarrow> string option \<Rightarrow> string option \<Rightarrow> u64 \<Rightarrow> (storage_error, unit) result \<times> store" where
  "settle_runtime_checkpoint s k state remote diag settled_at =
     (if \<not> checkpoint_is_terminal state
      then (Err (InvalidCheckpointTransition k ''cannot settle to non-terminal state''), s)
      else case map_of (st_checkpoints s) k of
        None \<Rightarrow> (Err (CheckpointNotFound k), s)
      | Some row \<Rightarrow>
          (case checkpoint_state_try_from_str (cp_state row) of
             Inl _ \<Rightarrow> (Err (InvalidEntityData (''invalid existing checkpoint state '' @ cp_state row)), s)
           | Inr existing \<Rightarrow>
               if existing = CkIntent then
                 (case column_millis settled_at ''settled_at exceeds i64 column'' of
                    Inl e \<Rightarrow> (Err e, s)
                  | Inr at \<Rightarrow>
                      (Okay (), s\<lparr>st_checkpoints := update_row k (\<lambda>r. r\<lparr>cp_state := checkpoint_state_as_str state,
                         cp_remote_request_id := remote, cp_diagnostic_summary := diag, cp_settled_at := Some at\<rparr>)
                         (st_checkpoints s)\<rparr>))
               else if existing = state then (Okay (), s)
               else (Err (CheckpointSettlementConflict k (checkpoint_state_as_str existing) (checkpoint_state_as_str state)), s)))"

definition recover_unsettled_checkpoints :: "store \<Rightarrow> nat \<times> store" where
  "recover_unsettled_checkpoints s =
     (length (filter (\<lambda>(k, r). cp_state r = ''intent'') (st_checkpoints s)),
      s\<lparr>st_checkpoints := map (\<lambda>(k, r). (k, if cp_state r = ''intent''
          then r\<lparr>cp_state := ''indeterminate'', cp_settled_at := Some (unwrap_or (cp_settled_at r) (cp_created_at r))\<rparr>
          else r)) (st_checkpoints s)\<rparr>)"

definition runtime_checkpoint_by_id :: "store \<Rightarrow> string \<Rightarrow> (storage_error, runtime_checkpoint option) result" where
  "runtime_checkpoint_by_id s k = query_optional_row row_to_runtime_checkpoint (st_checkpoints s) k"

text \<open>The first row of an operation; which one of several it is, the query leaves open and the argument \<open>pick\<close> says.\<close>

definition runtime_checkpoint_by_operation ::
  "((string \<times> checkpoint_row) list \<Rightarrow> string \<times> checkpoint_row) \<Rightarrow> store \<Rightarrow> string
   \<Rightarrow> (storage_error, runtime_checkpoint option) result" where
  "runtime_checkpoint_by_operation pick s op =
     (case filter (\<lambda>(k, r). cp_operation_id r = op) (st_checkpoints s) of
        [] \<Rightarrow> Okay None
      | rows \<Rightarrow> map_sum id Some (row_to_runtime_checkpoint (pick rows)))"

definition runtime_checkpoints ::
  "store \<Rightarrow> string option \<Rightarrow> (u64 \<times> string) option \<Rightarrow> u32 \<Rightarrow> (storage_error, runtime_checkpoint list) result" where
  "runtime_checkpoints s t before limit =
     collect_rows row_to_runtime_checkpoint (page_newest cp_created_at (before_cursor before) (unat limit)
       (filter (\<lambda>(k, r). t = None \<or> Some (cp_thread_id r) = t) (st_checkpoints s)))"

definition checkpoints_by_state ::
  "store \<Rightarrow> checkpoint_state \<Rightarrow> string option \<Rightarrow> (u64 \<times> string) option \<Rightarrow> u32
   \<Rightarrow> (storage_error, runtime_checkpoint list) result" where
  "checkpoints_by_state s state t before limit =
     collect_rows row_to_runtime_checkpoint (page_newest cp_created_at (before_cursor before) (unat limit)
       (filter (\<lambda>(k, r). cp_state r = checkpoint_state_as_str state \<and> (t = None \<or> Some (cp_thread_id r) = t)) (st_checkpoints s)))"

definition active_checkpoints :: "store \<Rightarrow> string option \<Rightarrow> (storage_error, runtime_checkpoint list) result" where
  "active_checkpoints s t = checkpoints_by_state s CkIntent t None (list_limit_max CheckpointList)"

definition indeterminate_checkpoints ::
  "store \<Rightarrow> string option \<Rightarrow> (u64 \<times> string) option \<Rightarrow> u32 \<Rightarrow> (storage_error, runtime_checkpoint list) result" where
  "indeterminate_checkpoints s t before limit = checkpoints_by_state s CkIndeterminate t before limit"

section \<open>Session bindings\<close>

record session_binding =
  sn_thread :: string
  sn_harness_binding :: string
  sn_opaque_session :: string
  sn_updated :: u64

definition row_to_session_binding :: "string \<times> session_row \<Rightarrow> (storage_error, session_binding) result" where
  "row_to_session_binding = (\<lambda>(k, r).
     and_then (entity_ok (id_from_str thread_prefix k) (''invalid thread_id '' @ k)) (\<lambda>thread.
     and_then (entity_ok (id_from_str harness_binding_prefix (sb_harness_binding_id r)) (''invalid harness_binding_id '' @ sb_harness_binding_id r)) (\<lambda>binding.
     and_then (entity_ok (opaque_session_id_try_from (sb_opaque_session_id r)) (''invalid opaque_session_id '' @ sb_opaque_session_id r)) (\<lambda>session.
     and_then (millis (sb_updated_at r) ''negative updated_at '') (\<lambda>updated.
       Okay \<lparr>sn_thread = thread, sn_harness_binding = binding, sn_opaque_session = session, sn_updated = updated\<rparr>)))))"

definition replace_session_binding :: "store \<Rightarrow> session_binding \<Rightarrow> (storage_error, unit) result \<times> store" where
  "replace_session_binding s b =
     (case column_millis (sn_updated b) ''updated_at exceeds i64 column'' of
        Inl e \<Rightarrow> (Err e, s)
      | Inr at \<Rightarrow>
          (Okay (), s\<lparr>st_sessions := bt_insert (sn_thread b) \<lparr>sb_harness_binding_id = sn_harness_binding b,
             sb_opaque_session_id = sn_opaque_session b, sb_updated_at = at\<rparr> (st_sessions s)\<rparr>))"

definition get_session_binding :: "store \<Rightarrow> string \<Rightarrow> (storage_error, session_binding option) result" where
  "get_session_binding s t = query_optional_row row_to_session_binding (st_sessions s) t"

definition remove_session_binding :: "store \<Rightarrow> string \<Rightarrow> bool \<times> store" where
  "remove_session_binding s t = (map_of (st_sessions s) t \<noteq> None, s\<lparr>st_sessions := bt_remove t (st_sessions s)\<rparr>)"

section \<open>Opening\<close>

text \<open>\<open>open_inner\<close> after the migrations.\<close>

definition open_inner ::
  "(string \<Rightarrow> json option) \<Rightarrow> (projections \<Rightarrow> bool) \<Rightarrow> store \<Rightarrow> (storage_error, unit) result \<times> store" where
  "open_inner parse fts_ok s =
     (case ensure_projections_current s of
        (Inl e, s1) \<Rightarrow> (Err e, s1)
      | (Inr _, s1) \<Rightarrow>
          (case ensure_domain_projections_current parse fts_ok s1 of
             (Inl e, s2) \<Rightarrow> (Err e, s2)
           | (Inr _, s2) \<Rightarrow> (Okay (), snd (recover_unsettled_checkpoints s2))))"

end
