(* ===== verification/Storage_Memory.thy ===== *)
theory Storage_Memory
  imports Storage_Entities
begin

text \<open>
  The memory repository, \<open>crates/altior-storage/src/memory.rs\<close>: every change of a memory is an event of the domain
  journal. serde_json is the pair of arguments \<open>print\<close> and \<open>parse\<close>; the order in which SQLite returns the rows of a query
  without \<open>ORDER BY\<close> is the argument \<open>order\<close>.
\<close>

section \<open>Reading\<close>

definition row_to_memory_record :: "string \<times> memory_row \<Rightarrow> (storage_error, memory_record) result" where
  "row_to_memory_record = (\<lambda>(k, r).
     and_then (if 0 \<le> my_confidence r \<and> my_confidence r \<le> 255 then Okay (word_of_int (my_confidence r) :: 8 word)
               else Err (Sqlite ''confidence'' ''integral value out of range'')) (\<lambda>confidence.
     and_then (entity_ok (id_from_str memory_prefix k) (''invalid memory_id '' @ k)) (\<lambda>i.
     and_then (entity_ok (memory_content_try_from (my_content r)) ''invalid memory content: '') (\<lambda>content.
     and_then (entity_ok (scope_try_from_parts (my_scope_kind r) (my_scope_target r)) ''invalid memory scope: '') (\<lambda>scope.
     and_then (entity_ok (memory_kind_try_from_str (my_kind r)) (''invalid memory kind '' @ my_kind r)) (\<lambda>kind.
     and_then (entity_ok (memory_state_try_from_str (my_state r)) (''invalid memory state '' @ my_state r)) (\<lambda>state.
     and_then (entity_ok (memory_sensitivity_try_from_str (my_sensitivity r)) (''invalid memory sensitivity '' @ my_sensitivity r)) (\<lambda>sensitivity.
     and_then (entity_ok (memory_source_try_from_str (my_source r)) (''invalid memory source '' @ my_source r)) (\<lambda>source.
     and_then (opt_ok (\<lambda>x. entity_ok (id_from_str thread_prefix x) ''invalid provenance thread_id: '') (my_thread_id r)) (\<lambda>thread.
     and_then (opt_ok (\<lambda>x. entity_ok (id_from_str turn_prefix x) ''invalid provenance turn_id: '') (my_turn_id r)) (\<lambda>turn.
     and_then (opt_ok (\<lambda>x. entity_ok (memory_excerpt_try_from x) ''invalid provenance excerpt: '') (my_excerpt r)) (\<lambda>excerpt.
     and_then (millis (my_created_at r) ''negative created_at'') (\<lambda>created.
     and_then (millis (my_updated_at r) ''negative updated_at'') (\<lambda>updated.
     and_then (opt_ok (\<lambda>x. millis x ''negative expires_at'') (my_expires_at r)) (\<lambda>expires.
     and_then (opt_ok (\<lambda>x. entity_ok (id_from_str memory_prefix x) ''invalid superseded_by memory_id: '') (my_superseded_by r)) (\<lambda>superseded.
       Okay \<lparr>mr_memory_id = i, mr_content = content, mr_scope = scope, mr_kind = kind, mr_state = state,
         mr_confidence = confidence, mr_sensitivity = sensitivity, mr_source = source,
         mr_provenance = \<lparr>mp_thread_id = thread, mp_turn_id = turn, mp_excerpt = excerpt\<rparr>,
         mr_created_at = created, mr_updated_at = updated, mr_expires_at = expires,
         mr_superseded_by = superseded\<rparr>))))))))))))))))"

definition get_memory :: "store \<Rightarrow> string \<Rightarrow> (storage_error, memory_record option) result" where
  "get_memory s k = query_optional_row row_to_memory_record (pj_memories (st_projections s)) k"

definition found_memory :: "store \<Rightarrow> string \<Rightarrow> (storage_error, memory_record) result" where
  "found_memory s k =
     and_then (get_memory s k) (\<lambda>x. case x of None \<Rightarrow> Err (MemoryNotFound k) | Some r \<Rightarrow> Okay r)"

text \<open>\<open>ORDER BY updated_at DESC, memory_id DESC\<close> before a cursor.\<close>

definition list_memories ::
  "store \<Rightarrow> memory_scope option \<Rightarrow> memory_state option \<Rightarrow> u32 \<Rightarrow> (u64 \<times> string) option
   \<Rightarrow> (storage_error, memory_record list) result" where
  "list_memories s scope state limit cursor =
     (let (at, key) = before_cursor cursor;
          kind = map_option scope_kind_str scope;
          target = Option.bind scope scope_target_str;
          st = map_option memory_state_as_str state;
          rows = filter (\<lambda>(k, r). (kind = None \<or> Some (my_scope_kind r) = kind)
                   \<and> (target = None \<or> my_scope_target r = target) \<and> (st = None \<or> Some (my_state r) = st)
                   \<and> (my_updated_at r < at \<or> my_updated_at r = at \<and> k < key)) (pj_memories (st_projections s)) in
      collect_rows row_to_memory_record (take (unat limit) (rev (sort_key (\<lambda>(k, r). (my_updated_at r, k)) rows))))"

section \<open>Events\<close>

definition generate_event_id :: "u64 \<Rightarrow> u32 \<Rightarrow> string" where
  "generate_event_id at n = ''evt_'' @ hex_of_bytes (be64 at) @ hex_of_bytes (be32 n)"

definition generate_memory_id :: "u64 \<Rightarrow> u32 \<Rightarrow> string" where
  "generate_memory_id at n = ''mem_'' @ hex_of_bytes (be64 at) @ hex_of_bytes (be32 n)"

definition validate_draft_before_append :: "memory_draft \<Rightarrow> (storage_error, unit) result" where
  "validate_draft_before_append d =
     (if is_secret_shaped (md_content d) then Err SecretShapedContent
      else if (case mp_excerpt (md_provenance d) of None \<Rightarrow> False | Some x \<Rightarrow> is_secret_shaped x) then Err SecretShapedContent
      else if md_confidence d > 100 then fail ''confidence exceeds 100''
      else Okay ())"

abbreviation json_opt :: "string option \<Rightarrow> json" where
  "json_opt x \<equiv> (case x of None \<Rightarrow> JNull | Some v \<Rightarrow> JStr v)"

definition draft_payload :: "string \<Rightarrow> memory_draft \<Rightarrow> string \<Rightarrow> json" where
  "draft_payload mem_id d state = JObj
     [(''confidence'', JPosInt (ucast (md_confidence d))),
      (''content'', JStr (md_content d)),
      (''excerpt'', json_opt (mp_excerpt (md_provenance d))),
      (''expires_at'', case md_expires_at d of None \<Rightarrow> JNull | Some t \<Rightarrow> JPosInt t),
      (''explicit'', JBool (is_explicit (md_source d))),
      (''kind'', JStr (memory_kind_as_str (md_kind d))),
      (''memory_id'', JStr mem_id),
      (''provenance_thread_id'', json_opt (mp_thread_id (md_provenance d))),
      (''provenance_turn_id'', json_opt (mp_turn_id (md_provenance d))),
      (''scope_kind'', JStr (scope_kind_str (md_scope d))),
      (''scope_target'', json_opt (scope_target_str (md_scope d))),
      (''sensitivity'', JStr (memory_sensitivity_as_str (md_sensitivity d))),
      (''source'', JStr (memory_source_as_str (md_source d))),
      (''state'', JStr state)]"

type_synonym json_text = "(json \<Rightarrow> string) \<times> (string \<Rightarrow> json option)"

text \<open>An event of the repository is appended with its payload as text.\<close>

definition append_memory_event ::
  "json_text \<Rightarrow> store \<Rightarrow> string \<Rightarrow> memory_provenance \<Rightarrow> domain_event_kind \<Rightarrow> json \<Rightarrow> u64
   \<Rightarrow> (storage_error, append_outcome) result \<times> store" where
  "append_memory_event J s event_id prov kind payload at =
     (case event_payload_try_from (snd J) (fst J payload) of
        Inl _ \<Rightarrow> (fail [], s)
      | Inr text \<Rightarrow>
          append_domain_event (snd J) s
            \<lparr>de_event_id = event_id, de_thread_id = mp_thread_id prov, de_turn_id = mp_turn_id prov, de_operation_id = None,
             de_kind = kind, de_payload = text, de_occurred_at = at\<rparr>)"

definition create_memory_with_kind ::
  "json_text \<Rightarrow> store \<Rightarrow> memory_draft \<Rightarrow> domain_event_kind \<Rightarrow> u64 \<Rightarrow> (storage_error, memory_record) result \<times> store" where
  "create_memory_with_kind J s d kind at =
     (case validate_draft_before_append d of
        Inl e \<Rightarrow> (Err e, s)
      | Inr _ \<Rightarrow>
          let mem_id = unwrap_or (md_id d) (generate_memory_id at 1);
              state = memory_state_as_str (unwrap_or (md_state d) (if kind = DeMemoryProposed then MsCandidate else MsConfirmed)) in
          (case append_memory_event J s (generate_event_id at 1) (md_provenance d) kind (draft_payload mem_id d state) at of
             (Inl e, s') \<Rightarrow> (Err e, s')
           | (Inr _, s') \<Rightarrow> (found_memory s' mem_id, s')))"

definition propose_memory :: "json_text \<Rightarrow> store \<Rightarrow> memory_draft \<Rightarrow> u64 \<Rightarrow> (storage_error, memory_record) result \<times> store" where
  "propose_memory J s d at =
     create_memory_with_kind J s (d\<lparr>md_state := Some MsCandidate, md_source := Inferred\<rparr>) DeMemoryProposed at"

definition create_memory :: "json_text \<Rightarrow> store \<Rightarrow> memory_draft \<Rightarrow> u64 \<Rightarrow> (storage_error, memory_record) result \<times> store" where
  "create_memory J s d at =
     create_memory_with_kind J s d (if md_state d = Some MsCandidate then DeMemoryProposed else DeMemoryConfirmed) at"

text \<open>The events that need an existing memory in one state.\<close>

definition change_memory ::
  "json_text \<Rightarrow> store \<Rightarrow> string \<Rightarrow> memory_state \<Rightarrow> string \<Rightarrow> u32 \<Rightarrow> domain_event_kind \<Rightarrow> json \<Rightarrow> u64
   \<Rightarrow> (storage_error, memory_record) result \<times> store" where
  "change_memory J s k needed verb n kind payload at =
     (case found_memory s k of
        Inl e \<Rightarrow> (Err e, s)
      | Inr existing \<Rightarrow>
          if mr_state existing \<noteq> needed
          then (fail (''cannot '' @ verb @ '' memory in '' @ [CHR 39] @ memory_state_as_str (mr_state existing) @ [CHR 39]
                      @ '' state; '' @ memory_state_as_str needed @ '' required''), s)
          else (case append_memory_event J s (generate_event_id at n) (mr_provenance existing) kind payload at of
                  (Inl e, s') \<Rightarrow> (Err e, s')
                | (Inr _, s') \<Rightarrow> (found_memory s' k, s')))"

definition confirm_memory :: "json_text \<Rightarrow> store \<Rightarrow> string \<Rightarrow> u64 \<Rightarrow> (storage_error, memory_record) result \<times> store" where
  "confirm_memory J s k at =
     change_memory J s k MsCandidate ''confirm'' 2 DeMemoryConfirmed
       (JObj [(''memory_id'', JStr k)]) at"

definition reject_memory ::
  "json_text \<Rightarrow> store \<Rightarrow> string \<Rightarrow> string option \<Rightarrow> u64 \<Rightarrow> (storage_error, memory_record) result \<times> store" where
  "reject_memory J s k reason at =
     change_memory J s k MsCandidate ''reject'' 3 DeMemoryRejected
       (JObj [(''memory_id'', JStr k), (''reason'', json_opt reason)]) at"

definition forget_memory :: "json_text \<Rightarrow> store \<Rightarrow> string \<Rightarrow> u64 \<Rightarrow> (storage_error, memory_record) result \<times> store" where
  "forget_memory J s k at =
     change_memory J s k MsConfirmed ''forget'' 7 DeMemoryForgotten
       (JObj [(''memory_id'', JStr k)]) at"

definition correct_memory ::
  "json_text \<Rightarrow> store \<Rightarrow> string \<Rightarrow> memory_draft \<Rightarrow> u64 \<Rightarrow> (storage_error, memory_record) result \<times> store" where
  "correct_memory J s k d at =
     (case validate_draft_before_append d of
        Inl e \<Rightarrow> (Err e, s)
      | Inr _ \<Rightarrow>
          (case found_memory s k of
             Inl e \<Rightarrow> (Err e, s)
           | Inr existing \<Rightarrow>
               if mr_state existing \<noteq> MsConfirmed \<or> mr_superseded_by existing \<noteq> None
               then (fail ''cannot correct non-confirmed or already-superseded memory'', s)
               else let new_id = unwrap_or (md_id d) (generate_memory_id at 4) in
                 (case append_memory_event J s (generate_event_id at 5) (md_provenance d) DeMemoryConfirmed
                         (draft_payload new_id d ''confirmed'') at of
                    (Inl e, s1) \<Rightarrow> (Err e, s1)
                  | (Inr _, s1) \<Rightarrow>
                      (case append_memory_event J s1 (generate_event_id at 6) (mr_provenance existing) DeMemorySuperseded
                              (JObj [(''memory_id'', JStr k), (''superseded_by'', JStr new_id)]) at of
                         (Inl e, s2) \<Rightarrow> (Err e, s2)
                       | (Inr _, s2) \<Rightarrow> (found_memory s2 new_id, s2)))))"

text \<open>The disambiguator of the sweep counts from 100 and stays at the maximum of a \<open>u32\<close>.\<close>

fun sweep_loop :: "json_text \<Rightarrow> u64 \<Rightarrow> u32 \<Rightarrow> string list \<Rightarrow> store \<Rightarrow> (storage_error, unit) result \<times> store" where
  "sweep_loop J now n [] s = (Okay (), s)"
| "sweep_loop J now n (k # ks) s =
     (case append_memory_event J s (generate_event_id now n) \<lparr>mp_thread_id = None, mp_turn_id = None, mp_excerpt = None\<rparr>
             DeMemoryExpired (JObj [(''memory_id'', JStr k)]) now of
        (Inl e, s') \<Rightarrow> (Err e, s')
      | (Inr _, s') \<Rightarrow> sweep_loop J now (if n = - 1 then n else n + 1) ks s')"

definition due_memories :: "store \<Rightarrow> u64 \<Rightarrow> string list" where
  "due_memories s now =
     (let now_i64 = unwrap_or (i64_try_from now) i64_max in
      map fst (filter (\<lambda>(k, r). my_state r = ''confirmed'' \<and> (case my_expires_at r of None \<Rightarrow> False | Some t \<Rightarrow> t \<le> now_i64))
        (pj_memories (st_projections s))))"

definition sweep_expired_memories ::
  "json_text \<Rightarrow> (string list \<Rightarrow> string list) \<Rightarrow> store \<Rightarrow> u64 \<Rightarrow> (storage_error, string list) result \<times> store" where
  "sweep_expired_memories J order s now =
     (let due = filter (\<lambda>k. id_from_str memory_prefix k = Okay k) (order (due_memories s now)) in
      case sweep_loop J now 100 due s of
        (Inl e, s') \<Rightarrow> (Err e, s')
      | (Inr _, s') \<Rightarrow> (Okay due, s'))"

end
