(* ===== verification/Storage_Facts.thy ===== *)
theory Storage_Facts
  imports Storage_Memory
begin

text \<open>
  What an accepted event keeps of the projections: turns that have ended, permissions that are decided, and memories, whose
  rows only move along the life cycle of the domain.
\<close>

section \<open>What one event changes\<close>

lemma require_ok_iff [simp]: "require_ok r d = Okay x \<longleftrightarrow> r = Okay x"
  by (cases r) (auto simp: require_ok_def)

lemma req_iff: "req p k = Okay v \<longleftrightarrow> json_str p k = Some v \<and> v \<noteq> []"
  by (auto simp: req_def split: option.splits)

lemma map_sum_Okay_iff: "map_sum id f r = Okay y \<longleftrightarrow> (\<exists>x. r = Okay x \<and> y = f x)"
  by (cases r) auto

lemma active_turn_iff: "require_active_turn p e t d = Okay turn \<longleftrightarrow>
   de_turn_id e = Some turn \<and> (\<exists>r. map_of (pj_turns p) turn = Some r \<and> tr_thread_id r = t \<and> tr_state r = ''active'')"
  by (auto simp: require_active_turn_def split: option.splits if_splits)

lemma activity_E:
  assumes "event_activity p e seq at = Okay p'"
  obtains ths where "p' = p\<lparr>pj_threads := ths\<rparr>"
  using assms by (cases p) (auto simp: event_activity_def update_thread_activity_def split: option.splits if_splits)

text \<open>The part of a fold that is not about threads.\<close>

definition fold_core :: "(string \<Rightarrow> json option) \<Rightarrow> projections \<Rightarrow> domain_event \<Rightarrow> int \<Rightarrow> projections" where
  "fold_core parse p e at =
     (case de_kind e of
        DeMemoryProposed \<Rightarrow> (case fold_memory_proposed parse p e at of Inl _ \<Rightarrow> p | Inr q \<Rightarrow> q)
      | DeMemoryConfirmed \<Rightarrow> (case fold_memory_confirmed parse p e at of Inl _ \<Rightarrow> p | Inr q \<Rightarrow> q)
      | DeMemoryRejected \<Rightarrow> fold_memory_state parse p e at ''rejected''
      | DeMemorySuperseded \<Rightarrow> fold_memory_superseded parse p e at
      | DeMemoryForgotten \<Rightarrow> fold_memory_state parse p e at ''forgotten''
      | DeMemoryExpired \<Rightarrow> fold_memory_state parse p e at ''expired''
      | DeTurnStarted \<Rightarrow> (case de_thread_id e of None \<Rightarrow> p | Some t \<Rightarrow> fold_turn_started p e t at)
      | DeTurnCompleted \<Rightarrow> (case de_thread_id e of None \<Rightarrow> p | Some t \<Rightarrow> update_turn (de_turn_id e)
          (\<lambda>r. (end_turn ''completed'' at r)\<lparr>tr_delivery := ''confirmed''\<rparr>) p)
      | DeTurnCancelled \<Rightarrow> (case de_thread_id e of None \<Rightarrow> p | Some t \<Rightarrow> update_turn (de_turn_id e) (end_turn ''cancelled'' at) p)
      | DeTurnFailed \<Rightarrow> (case de_thread_id e of None \<Rightarrow> p | Some t \<Rightarrow> update_turn (de_turn_id e) (end_turn ''failed'' at) p)
      | DeMessageDelta \<Rightarrow> (case de_thread_id e of None \<Rightarrow> p | Some t \<Rightarrow> update_turn (de_turn_id e)
          (\<lambda>r. r\<lparr>tr_event_count := tr_event_count r + 1\<rparr>) p)
      | DePermissionRequested \<Rightarrow> (case de_thread_id e of None \<Rightarrow> p | Some t \<Rightarrow> fold_permission_requested parse p e t at)
      | DePermissionDecided \<Rightarrow> (case de_thread_id e of None \<Rightarrow> p | Some t \<Rightarrow> fold_permission_decided parse p e at)
      | _ \<Rightarrow> p)"

lemma fold_core_E:
  assumes "fold_domain_event parse p e seq at = Okay p'"
  obtains ths where "p' = (fold_core parse p e at)\<lparr>pj_threads := ths\<rparr>"
proof -
  have "\<exists>ths. p' = (fold_core parse p e at)\<lparr>pj_threads := ths\<rparr>"
    using assms
    by (cases "de_kind e"; cases "de_thread_id e"; simp add: fold_domain_event_def fold_core_def Let_def and_then_Okay_iff)
      (auto simp: fold_thread_created_def fold_thread_changed_def Let_def elim!: activity_E intro: exI[of _ "pj_threads p"])
  then show thesis using that by blast
qed

text \<open>A validated event changes no turn that has ended and no permission that is decided.\<close>

definition turns_kept :: "projections \<Rightarrow> projections \<Rightarrow> bool" where
  "turns_kept p p' \<longleftrightarrow> (\<forall>k r. map_of (pj_turns p) k = Some r \<longrightarrow>
     (\<exists>r'. map_of (pj_turns p') k = Some r' \<and> tr_thread_id r' = tr_thread_id r \<and> (tr_state r \<noteq> ''active'' \<longrightarrow> r' = r)))"

definition permissions_kept :: "projections \<Rightarrow> projections \<Rightarrow> bool" where
  "permissions_kept p p' \<longleftrightarrow> (\<forall>k r. map_of (pj_permissions p) k = Some r \<longrightarrow>
     (\<exists>r'. map_of (pj_permissions p') k = Some r' \<and> (pr_decision r \<noteq> ''pending'' \<longrightarrow> r' = r)))"

lemma kept_refl: "turns_kept p p" "permissions_kept p p"
  by (auto simp: turns_kept_def permissions_kept_def)

lemma kept_same: "pj_turns p' = pj_turns p \<Longrightarrow> turns_kept p p'" "pj_permissions p' = pj_permissions p \<Longrightarrow> permissions_kept p p'"
  by (auto simp: turns_kept_def permissions_kept_def)

lemma validated_object:
  assumes "validate_domain_event parse p e = Okay ()"
  obtains js where "parse (de_payload e) = Some (JObj js)"
    "is_memory_kind (de_kind e) \<Longrightarrow> validate_memory_domain_event p e (JObj js) = Okay ()"
    "\<And>t. \<not> is_memory_kind (de_kind e) \<Longrightarrow> \<not> is_other_kind (de_kind e) \<Longrightarrow> de_thread_id e = Some t
       \<Longrightarrow> validate_thread_event p e t (JObj js) = Okay ()"
  using assms by (auto simp: validate_domain_event_def and_then_Okay_iff split: option.splits json.splits if_splits)

lemma memory_frames [simp]:
  "pj_turns (insert_memory k r p) = pj_turns p" "pj_permissions (insert_memory k r p) = pj_permissions p"
  "pj_turns (update_memory k f p) = pj_turns p" "pj_permissions (update_memory k f p) = pj_permissions p"
  by (auto simp: insert_memory_def update_memory_def split: option.splits)

lemma memory_core_frame:
  "is_memory_kind (de_kind e) \<Longrightarrow> pj_turns (fold_core parse p e at) = pj_turns p
     \<and> pj_permissions (fold_core parse p e at) = pj_permissions p"
  by (auto simp: is_memory_kind_def fold_core_def fold_memory_proposed_def fold_memory_confirmed_def fold_memory_state_def
      fold_memory_superseded_def Let_def split: option.splits)

lemma no_thread_core: "\<not> is_memory_kind (de_kind e) \<Longrightarrow> de_thread_id e = None \<Longrightarrow> fold_core parse p e at = p"
  by (cases "de_kind e") (auto simp: fold_core_def is_memory_kind_def)

lemma core_history_kept:
  assumes "validate_domain_event parse p e = Okay ()" "bt_ok (pj_turns p)" "bt_ok (pj_permissions p)"
  shows "turns_kept p (fold_core parse p e at) \<and> permissions_kept p (fold_core parse p e at)"
proof -
  obtain js where js: "parse (de_payload e) = Some (JObj js)"
    "\<And>t. \<not> is_memory_kind (de_kind e) \<Longrightarrow> \<not> is_other_kind (de_kind e) \<Longrightarrow> de_thread_id e = Some t
       \<Longrightarrow> validate_thread_event p e t (JObj js) = Okay ()"
    using validated_object[OF assms(1)] by metis
  consider "is_memory_kind (de_kind e)" | "\<not> is_memory_kind (de_kind e)" "de_thread_id e = None"
    | t where "\<not> is_memory_kind (de_kind e)" "de_thread_id e = Some t" by fastforce
  then show ?thesis
  proof cases
    case 1
    then show ?thesis using kept_same memory_core_frame by blast
  next
    case 2
    then show ?thesis by (simp add: no_thread_core kept_refl)
  next
    case 3
    then show ?thesis
      using js(2)[of t] js(1) assms(2,3)
      by (cases "de_kind e")
        (auto simp: turns_kept_def permissions_kept_def fold_core_def Let_def is_memory_kind_def is_other_kind_def
          validate_thread_event_def active_turn_iff map_sum_Okay_iff and_then_Okay_iff end_turn_def update_turn_def
          fold_turn_started_def fold_permission_requested_def fold_permission_decided_def validate_permission_decided_def
          extract_json_string_def req_iff split: option.splits)
  qed
qed

text \<open>A memory row only moves along the life cycle of the domain, keeps what was remembered and its successor.\<close>

definition row_move :: "memory_row \<Rightarrow> memory_row \<Rightarrow> bool" where
  "row_move r r' \<longleftrightarrow> r' = r\<lparr>my_state := my_state r', my_updated_at := my_updated_at r', my_superseded_by := my_superseded_by r'\<rparr>
     \<and> (\<exists>a b. my_state r = memory_state_as_str a \<and> my_state r' = memory_state_as_str b \<and> memory_move a b)
     \<and> (my_superseded_by r' = my_superseded_by r \<or> my_state r = ''confirmed'' \<and> my_superseded_by r = None)
     \<and> my_state r \<in> {''candidate'', ''confirmed''}"

definition memories_kept :: "projections \<Rightarrow> projections \<Rightarrow> bool" where
  "memories_kept p p' \<longleftrightarrow> (\<forall>k.
     (case map_of (pj_memories p) k of
        None \<Rightarrow> (case map_of (pj_memories p') k of None \<Rightarrow> True
                 | Some r' \<Rightarrow> my_state r' \<in> {''candidate'', ''confirmed''} \<and> my_superseded_by r' = None)
      | Some r \<Rightarrow> \<exists>r'. map_of (pj_memories p') k = Some r' \<and> (r' = r \<or> row_move r r')))"

lemma memories_kept_same: "pj_memories p' = pj_memories p \<Longrightarrow> memories_kept p p'"
  by (auto simp: memories_kept_def split: option.splits)

lemma memories_kept_insert:
  assumes "map_of (pj_memories p) k = None" "my_state r \<in> {''candidate'', ''confirmed''}" "my_superseded_by r = None"
    "bt_ok (pj_memories p)"
  shows "memories_kept p (insert_memory k r p)"
  using assms by (auto simp: memories_kept_def insert_memory_def split: option.splits)

lemma memories_kept_update:
  assumes "map_of (pj_memories p) k = Some r" "row_move r (f r)"
  shows "memories_kept p (update_memory k f p)"
  using assms by (auto simp: memories_kept_def update_memory_def split: option.splits)

lemma state_move:
  assumes "memory_move a b" "my_state r = memory_state_as_str a" "st = memory_state_as_str b"
    "my_state r \<in> {''candidate'', ''confirmed''}"
  shows "row_move r (r\<lparr>my_state := st, my_updated_at := at\<rparr>)"
proof -
  have "r\<lparr>my_state := st, my_updated_at := at\<rparr> = r\<lparr>my_state := st, my_updated_at := at, my_superseded_by := my_superseded_by r\<rparr>"
    by (cases r) simp
  then show ?thesis using assms unfolding row_move_def by (intro conjI exI[of _ a] exI[of _ b]) simp_all
qed

lemma candidate_confirmed: "my_state r = ''candidate'' \<Longrightarrow> row_move r (r\<lparr>my_state := ''confirmed'', my_updated_at := at\<rparr>)"
  by (rule state_move[of MsCandidate MsConfirmed]) (simp_all add: memory_move_iff)

lemma candidate_rejected: "my_state r = ''candidate'' \<Longrightarrow> row_move r (r\<lparr>my_state := ''rejected'', my_updated_at := at\<rparr>)"
  by (rule state_move[of MsCandidate MsRejected]) (simp_all add: memory_move_iff)

lemma confirmed_forgotten: "my_state r = ''confirmed'' \<Longrightarrow> row_move r (r\<lparr>my_state := ''forgotten'', my_updated_at := at\<rparr>)"
  by (rule state_move[of MsConfirmed MsForgotten]) (simp_all add: memory_move_iff)

lemma confirmed_expired: "my_state r = ''confirmed'' \<Longrightarrow> row_move r (r\<lparr>my_state := ''expired'', my_updated_at := at\<rparr>)"
  by (rule state_move[of MsConfirmed MsExpired]) (simp_all add: memory_move_iff)

lemma confirmed_superseded:
  assumes "my_state r = ''confirmed''" "my_superseded_by r = None"
  shows "row_move r (r\<lparr>my_superseded_by := x, my_updated_at := at\<rparr>)"
proof -
  have "r\<lparr>my_superseded_by := x, my_updated_at := at\<rparr> = r\<lparr>my_state := my_state r, my_updated_at := at, my_superseded_by := x\<rparr>"
    by (cases r) simp
  then show ?thesis
    using assms unfolding row_move_def
    by (intro conjI exI[of _ MsConfirmed]) (simp_all add: memory_move_iff)
qed

lemmas life_cycle_moves = candidate_confirmed candidate_rejected confirmed_forgotten confirmed_expired confirmed_superseded

lemma require_state_iff: "require_state p k st d = Okay () \<longleftrightarrow> (\<exists>r. map_of (pj_memories p) k = Some r \<and> my_state r = st)"
  by (auto simp: require_state_def memory_state_in_def split: option.splits)

lemma draft_row_state [simp]:
  "my_state (draft_row p st src ex at) = st" "my_superseded_by (draft_row p st src ex at) = None"
  by (simp_all add: draft_row_def)

lemma core_memories_kept:
  assumes "validate_domain_event parse p e = Okay ()" "bt_ok (pj_memories p)"
  shows "memories_kept p (fold_core parse p e at)"
proof (cases "is_memory_kind (de_kind e)")
  case True
  obtain js where js: "parse (de_payload e) = Some (JObj js)" "validate_memory_domain_event p e (JObj js) = Okay ()"
    using validated_object[OF assms(1)] True by metis
  then obtain k where k: "json_str (JObj js) ''memory_id'' = Some k"
    "validate_memory_kind_transition p (de_kind e) k (JObj js) = Okay ()"
    by (auto simp: validate_memory_domain_event_def and_then_Okay_iff req_iff)
  have key: "extract_json_string parse (de_payload e) ''memory_id'' = Some k" using js(1) k(1) by (simp add: extract_json_string_def)
  note folds = fold_core_def fold_memory_proposed_def fold_memory_confirmed_def fold_memory_state_def fold_memory_superseded_def
    validate_memory_kind_transition_def Let_def
  consider "de_kind e = DeMemoryProposed" | "de_kind e = DeMemoryConfirmed" | "de_kind e = DeMemorySuperseded"
    | st where "fold_core parse p e at = fold_memory_state parse p e at st" "st = ''rejected''"
        "\<exists>r. map_of (pj_memories p) k = Some r \<and> my_state r = ''candidate''"
    | st where "fold_core parse p e at = fold_memory_state parse p e at st" "st \<in> {''forgotten'', ''expired''}"
        "\<exists>r. map_of (pj_memories p) k = Some r \<and> my_state r = ''confirmed''"
    using True k(2) by (fastforce simp: is_memory_kind_def folds require_state_iff)
  then show ?thesis
  proof cases
    case 1
    then show ?thesis
      using js(1) k assms(2) by (simp add: folds and_then_Okay_iff) (auto intro!: memories_kept_insert)
  next
    case 2
    then show ?thesis
      using js(1) k assms(2)
      by (cases "map_of (pj_memories p) k")
        (simp_all add: folds memory_state_in_def memories_kept_insert memories_kept_update candidate_confirmed)
  next
    case 3
    then show ?thesis
      using key k(2) by (auto simp: folds and_then_Okay_iff intro!: memories_kept_update confirmed_superseded split: option.splits)
  next
    case 4
    then show ?thesis
      using key by (auto simp: fold_memory_state_def intro!: memories_kept_update candidate_rejected)
  next
    case 5
    then show ?thesis
      using key by (auto simp: fold_memory_state_def intro!: memories_kept_update confirmed_forgotten confirmed_expired)
  qed
next
  case False
  then have "pj_memories (fold_core parse p e at) = pj_memories p"
    by (cases "de_kind e") (auto simp: is_memory_kind_def fold_core_def Let_def quiet_folds split: option.splits)
  then show ?thesis by (rule memories_kept_same)
qed

text \<open>A row that was rejected, forgotten or has expired does not move at all.\<close>

lemma ended_row_stays:
  assumes "row_move\<^sup>*\<^sup>* r r'" "my_state r \<notin> {''candidate'', ''confirmed''}"
  shows "r' = r"
  using assms by (cases rule: converse_rtranclpE) (auto simp: row_move_def)

lemma row_move_same:
  assumes "row_move\<^sup>*\<^sup>* r r'"
  shows "r' = r\<lparr>my_state := my_state r', my_updated_at := my_updated_at r', my_superseded_by := my_superseded_by r'\<rparr>
    \<and> (my_superseded_by r \<noteq> None \<longrightarrow> my_superseded_by r' = my_superseded_by r)"
  using assms
proof (induction rule: rtranclp_induct)
  case (step t u)
  obtain st at sby where "t = r\<lparr>my_state := st, my_updated_at := at, my_superseded_by := sby\<rparr>" using step.IH by blast
  moreover obtain st' at' sby' where "u = t\<lparr>my_state := st', my_updated_at := at', my_superseded_by := sby'\<rparr>"
    using step.hyps(2) unfolding row_move_def by blast
  moreover have "my_superseded_by t \<noteq> None \<longrightarrow> my_superseded_by u = my_superseded_by t"
    using step.hyps(2) unfolding row_move_def by auto
  ultimately show ?case using step.IH by simp
qed simp

lemma row_move_states:
  assumes "row_move\<^sup>*\<^sup>* r r'" "my_state r = memory_state_as_str a"
  shows "\<exists>b. my_state r' = memory_state_as_str b \<and> memory_move\<^sup>*\<^sup>* a b"
  using assms
proof (induction rule: rtranclp_induct)
  case (step t u)
  then obtain b where b: "my_state t = memory_state_as_str b" "memory_move\<^sup>*\<^sup>* a b" by blast
  moreover obtain c d where "my_state t = memory_state_as_str c" "my_state u = memory_state_as_str d" "memory_move c d"
    using step.hyps(2) unfolding row_move_def by blast
  moreover have "c = b" if "memory_state_as_str c = memory_state_as_str b" for c
    using that by (cases c; cases b) simp_all
  ultimately show ?case by (metis rtranclp.rtrancl_into_rtrancl)
qed blast

section \<open>What a sequence of events keeps\<close>

definition memories_moved :: "projections \<Rightarrow> projections \<Rightarrow> bool" where
  "memories_moved p p' \<longleftrightarrow> (\<forall>k r. map_of (pj_memories p) k = Some r \<longrightarrow>
     (\<exists>r'. map_of (pj_memories p') k = Some r' \<and> row_move\<^sup>*\<^sup>* r r'))"

definition facts_kept :: "projections \<Rightarrow> projections \<Rightarrow> bool" where
  "facts_kept p p' \<longleftrightarrow> turns_kept p p' \<and> permissions_kept p p' \<and> memories_moved p p'"

lemma facts_kept_refl: "facts_kept p p"
  by (auto simp: facts_kept_def kept_refl memories_moved_def)

lemma facts_kept_trans:
  assumes "facts_kept p q" "facts_kept q r"
  shows "facts_kept p r"
proof -
  have "turns_kept p r"
    using assms unfolding facts_kept_def turns_kept_def by (metis (no_types, lifting))
  moreover have "permissions_kept p r"
    using assms unfolding facts_kept_def permissions_kept_def by (metis (no_types, lifting))
  moreover have "memories_moved p r"
    using assms unfolding facts_kept_def memories_moved_def by (metis (no_types, lifting) rtranclp_trans)
  ultimately show ?thesis by (simp add: facts_kept_def)
qed

lemma memories_kept_moved: "memories_kept p p' \<Longrightarrow> memories_moved p p'"
  unfolding memories_moved_def
proof (intro allI impI)
  fix k r
  assume "memories_kept p p'" "map_of (pj_memories p) k = Some r"
  then obtain r' where "map_of (pj_memories p') k = Some r'" "r' = r \<or> row_move r r'"
    unfolding memories_kept_def by (auto dest!: spec[of _ k])
  then show "\<exists>r'. map_of (pj_memories p') k = Some r' \<and> row_move\<^sup>*\<^sup>* r r'" by auto
qed

lemma fold_facts_kept:
  assumes "validate_domain_event parse p e = Okay ()" "fold_domain_event parse p e seq at = Okay p'" "projections_ok p"
  shows "facts_kept p p'"
proof -
  obtain ths where p': "p' = (fold_core parse p e at)\<lparr>pj_threads := ths\<rparr>" using fold_core_E[OF assms(2)] .
  have "facts_kept p (fold_core parse p e at)"
    using core_history_kept[OF assms(1)] core_memories_kept[OF assms(1)] memories_kept_moved assms(3)
    by (simp add: facts_kept_def projections_ok_def)
  then show ?thesis by (simp add: p' facts_kept_def turns_kept_def permissions_kept_def memories_moved_def)
qed

end
