(* ===== verification/Storage_Safety.thy ===== *)
theory Storage_Safety
  imports Storage_Facts "HOL-Library.Sublist"
begin

text \<open>
  The operations of a store and what they promise over any sequence of them: the projections are what the journals say, and
  what was recorded is kept.
\<close>

section \<open>Operations\<close>

record storage_env =
  se_print :: "json \<Rightarrow> string"
  se_parse :: "string \<Rightarrow> json option"
  se_to_json :: "event_envelope \<Rightarrow> (protocol_error, string) result"
  se_enc :: "string list \<Rightarrow> string"
  se_dec :: "string \<Rightarrow> string list option"
  se_order :: "string list \<Rightarrow> string list"
  se_fts_ok :: "projections \<Rightarrow> bool"

abbreviation se_json :: "storage_env \<Rightarrow> json_text" where
  "se_json E \<equiv> (se_print E, se_parse E)"

datatype store_op =
    AppendEvent event_envelope
  | AppendDomainEvent domain_event
  | RebuildProjections
  | RebuildDomainProjections
  | OpenStore
  | CreateProfile agent_profile
  | UpdateProfile agent_profile
  | UpsertProfile agent_profile
  | CreateBinding acp_harness_binding
  | UpsertBinding acp_harness_binding
  | DeleteBinding string
  | CreateProject project_ref
  | UpsertProject project_ref
  | DeleteProject string
  | RecordIntent runtime_checkpoint
  | SettleCheckpoint string checkpoint_state "string option" "string option" u64
  | RecoverCheckpoints
  | ReplaceSession session_binding
  | RemoveSession string
  | ProposeMemory memory_draft u64
  | CreateMemory memory_draft u64
  | ConfirmMemory string u64
  | RejectMemory string "string option" u64
  | CorrectMemory string memory_draft u64
  | ForgetMemory string u64
  | SweepMemories u64

fun store_run :: "storage_env \<Rightarrow> store \<Rightarrow> store_op \<Rightarrow> store" where
  "store_run E s (AppendEvent e) = snd (append_event (se_to_json E) s e)"
| "store_run E s (AppendDomainEvent e) = snd (append_domain_event (se_parse E) s e)"
| "store_run E s RebuildProjections = snd (rebuild_projections s)"
| "store_run E s RebuildDomainProjections = snd (rebuild_domain_projections (se_parse E) s)"
| "store_run E s OpenStore = snd (open_inner (se_parse E) (se_fts_ok E) s)"
| "store_run E s (CreateProfile p) = snd (create_agent_profile s p)"
| "store_run E s (UpdateProfile p) = snd (update_agent_profile s p)"
| "store_run E s (UpsertProfile p) = snd (upsert_agent_profile s p)"
| "store_run E s (CreateBinding b) = snd (create_harness_binding (se_enc E) (se_dec E) s b)"
| "store_run E s (UpsertBinding b) = snd (upsert_harness_binding (se_enc E) s b)"
| "store_run E s (DeleteBinding k) = snd (delete_harness_binding s k)"
| "store_run E s (CreateProject p) = snd (create_project_ref s p)"
| "store_run E s (UpsertProject p) = snd (upsert_project_ref s p)"
| "store_run E s (DeleteProject k) = snd (delete_project_ref s k)"
| "store_run E s (RecordIntent c) = snd (record_runtime_intent s c)"
| "store_run E s (SettleCheckpoint k st remote diag at) = snd (settle_runtime_checkpoint s k st remote diag at)"
| "store_run E s RecoverCheckpoints = snd (recover_unsettled_checkpoints s)"
| "store_run E s (ReplaceSession b) = snd (replace_session_binding s b)"
| "store_run E s (RemoveSession t) = snd (remove_session_binding s t)"
| "store_run E s (ProposeMemory d at) = snd (propose_memory (se_json E) s d at)"
| "store_run E s (CreateMemory d at) = snd (create_memory (se_json E) s d at)"
| "store_run E s (ConfirmMemory k at) = snd (confirm_memory (se_json E) s k at)"
| "store_run E s (RejectMemory k reason at) = snd (reject_memory (se_json E) s k reason at)"
| "store_run E s (CorrectMemory k d at) = snd (correct_memory (se_json E) s k d at)"
| "store_run E s (ForgetMemory k at) = snd (forget_memory (se_json E) s k at)"
| "store_run E s (SweepMemories now) = snd (sweep_expired_memories (se_json E) (se_order E) s now)"

text \<open>What the types of the arguments guarantee. The steps of a store are the operations on such arguments, except that an
  event of a disguised kind is not appended: \<open>AppendDomainEvent\<close> asks for more than its types, that the kind of the event
  reads back.\<close>

definition provenance_ok :: "memory_provenance \<Rightarrow> bool" where
  "provenance_ok p \<longleftrightarrow> (case mp_thread_id p of None \<Rightarrow> True | Some k \<Rightarrow> id_ok thread_prefix k)
     \<and> (case mp_turn_id p of None \<Rightarrow> True | Some k \<Rightarrow> id_ok turn_prefix k)"

fun op_ok :: "storage_env \<Rightarrow> store_op \<Rightarrow> bool" where
  "op_ok E (AppendDomainEvent e) = event_ok (se_parse E) e"
| "op_ok E (ProposeMemory d at) = provenance_ok (md_provenance d)"
| "op_ok E (CreateMemory d at) = provenance_ok (md_provenance d)"
| "op_ok E (CorrectMemory k d at) = provenance_ok (md_provenance d)"
| "op_ok E _ = True"

definition store_move :: "storage_env \<Rightarrow> store \<Rightarrow> store \<Rightarrow> bool" where
  "store_move E s s' \<longleftrightarrow> (\<exists>op. op_ok E op \<and> s' = store_run E s op)"

fun op_typed :: "storage_env \<Rightarrow> store_op \<Rightarrow> bool" where
  "op_typed E (AppendDomainEvent e) = event_typed (se_parse E) e"
| "op_typed E (ProposeMemory d at) = provenance_ok (md_provenance d)"
| "op_typed E (CreateMemory d at) = provenance_ok (md_provenance d)"
| "op_typed E (CorrectMemory k d at) = provenance_ok (md_provenance d)"
| "op_typed E _ = True"

fun appends_disguised :: "store_op \<Rightarrow> bool" where
  "appends_disguised (AppendDomainEvent e) = disguised_kind (de_kind e)"
| "appends_disguised _ = False"

definition store_after :: "storage_env \<Rightarrow> store \<Rightarrow> store_op list \<Rightarrow> store" where
  "store_after E s ops = foldl (store_run E) s ops"

lemma unreadable_kind_refused:
  assumes "event_kind_try_from_str (event_kind_as_str (de_kind e)) = Err x"
  shows "snd (append_domain_event parse s e) = s"
proof -
  obtain err where "validate_domain_event parse (st_projections s) e = Err err"
    using assms by (auto simp: validate_domain_event_def and_then_def require_ok_def)
  then show ?thesis by (auto simp: append_domain_event_def and_then_def Let_def split: option.splits)
qed

lemma typed_move:
  assumes "op_typed E op" "\<not> appends_disguised op"
  shows "store_run E s op = s \<or> store_move E s (store_run E s op)"
proof (cases "\<exists>e x. op = AppendDomainEvent e \<and> event_kind_try_from_str (event_kind_as_str (de_kind e)) = Err x")
  case True
  then show ?thesis using unreadable_kind_refused by auto
next
  case False
  then have "op_ok E op"
    using assms by (cases op) (auto simp: event_typed_def event_ok_def disguised_kind_def split: sum.splits)
  then show ?thesis unfolding store_move_def by blast
qed

lemma store_after_moves:
  assumes "list_all (op_typed E) ops" "\<not> list_ex appends_disguised ops"
  shows "(store_move E)\<^sup>*\<^sup>* s (store_after E s ops)"
  using assms
proof (induction ops arbitrary: s)
  case (Cons op ops)
  have "(store_move E)\<^sup>*\<^sup>* s (store_run E s op)" using typed_move[of E op s] Cons.prems by auto
  then show ?case using Cons.IH[of "store_run E s op"] Cons.prems by (simp add: store_after_def)
qed (simp add: store_after_def)

lemma star_reach: "move\<^sup>*\<^sup>* s t \<Longrightarrow> reach start move s \<Longrightarrow> reach start move t"
  by (induction rule: rtranclp_induct) (auto intro: reach_move)

lemma store_after_reach:
  assumes "list_all (op_typed E) ops" "\<not> list_ex appends_disguised ops"
  shows "reach (\<lambda>s. s = fresh_store) (store_move E) (store_after E fresh_store ops)"
  using star_reach[OF store_after_moves[OF assms]] reach_start by metis

section \<open>Repository operations are appends\<close>

definition append_step :: "(string \<Rightarrow> json option) \<Rightarrow> store \<Rightarrow> store \<Rightarrow> bool" where
  "append_step parse s s' \<longleftrightarrow> (\<exists>e. event_ok parse e \<and> s' = snd (append_domain_event parse s e))"

lemma hex_chars: "list_all is_body_char (hex_of_bytes bs)" and length_hex_of_bytes: "length (hex_of_bytes bs) = 2 * length bs"
proof -
  have "is_body_char (''0123456789abcdef'' ! n)" if "n < 16" for n
  proof -
    have "list_all is_body_char ''0123456789abcdef''" by code_simp
    then show ?thesis using that by (simp add: list_all_length)
  qed
  moreover have "unat (b::byte) div 16 < 16" for b
  proof -
    have "unat b < 2 ^ LENGTH(8)" by (rule unsigned_less)
    then show ?thesis by simp
  qed
  ultimately show "list_all is_body_char (hex_of_bytes bs)" "length (hex_of_bytes bs) = 2 * length bs"
    by (induction bs) (simp_all add: hex_of_bytes_def)
qed

lemma generated_ids: "id_ok event_prefix (generate_event_id at n)" "id_ok memory_prefix (generate_memory_id at n)"
proof -
  have "id_ok (p @ ''_'') (p @ ''_'' @ hex_of_bytes (be64 at) @ hex_of_bytes (be32 n))" if "CHR ''_'' \<notin> set p" for p
  proof -
    have "id_validate (p @ ''_'' @ hex_of_bytes (be64 at) @ hex_of_bytes (be32 n)) (p @ ''_'') = Okay ()"
      unfolding id_validate_iff[OF that]
      by (intro exI[of _ "hex_of_bytes (be64 at) @ hex_of_bytes (be32 n)"]) (simp add: hex_chars length_hex_of_bytes)
    then show ?thesis by (simp add: id_ok_def id_from_str_def)
  qed
  from this[of "''evt''"] this[of "''mem''"] show "id_ok event_prefix (generate_event_id at n)"
    "id_ok memory_prefix (generate_memory_id at n)"
    by (simp_all add: event_prefix_def memory_prefix_def generate_event_id_def generate_memory_id_def)
qed

lemma known_kind_ok: "event_kind_try_from_str (event_kind_as_str k) = Okay k" if "is_memory_kind k"
  using that known_kinds_parse[of k] by (auto simp: is_memory_kind_def known_event_kinds_def)

lemma event_payload_same: "event_payload_try_from parse v = Okay w \<Longrightarrow> w = v"
  by (auto simp: event_payload_try_from_def split: if_splits option.splits json.splits)

lemma append_memory_step:
  assumes "is_memory_kind kind" "provenance_ok prov"
  shows "(append_step (snd J))\<^sup>*\<^sup>* s (snd (append_memory_event J s (generate_event_id at n) prov kind payload at))"
proof (cases "event_payload_try_from (snd J) (fst J payload)")
  case (Inr pl)
  let ?e = "\<lparr>de_event_id = generate_event_id at n, de_thread_id = mp_thread_id prov, de_turn_id = mp_turn_id prov,
    de_operation_id = None, de_kind = kind, de_payload = pl, de_occurred_at = at\<rparr>"
  have "event_ok (snd J) ?e"
    using assms generated_ids known_kind_ok Inr event_payload_same[OF Inr]
    by (simp add: event_ok_def provenance_ok_def)
  then have "append_step (snd J) s (snd (append_domain_event (snd J) s ?e))" unfolding append_step_def by blast
  then show ?thesis using Inr by (simp add: append_memory_event_def)
qed (simp add: append_memory_event_def)

lemma opt_ok_id: "opt_ok (\<lambda>x. entity_ok (id_from_str pre x) d) v = Okay w \<Longrightarrow> w = v \<and> (case w of None \<Rightarrow> True | Some k \<Rightarrow> id_ok pre k)"
  by (auto simp: opt_ok_def entity_ok_def id_ok_def id_from_str_def map_sum_Okay_iff split: option.splits sum.splits)

lemma read_provenance: "row_to_memory_record kr = Okay r \<Longrightarrow> provenance_ok (mr_provenance r)"
  by (cases kr) (auto simp: row_to_memory_record_def and_then_Okay_iff provenance_ok_def dest!: opt_ok_id)

lemma found_provenance: "found_memory s k = Okay r \<Longrightarrow> provenance_ok (mr_provenance r)"
  by (auto simp: found_memory_def get_memory_def query_optional_row_def and_then_Okay_iff map_sum_Okay_iff dest: read_provenance
      split: option.splits)

lemma create_kind_steps:
  assumes "is_memory_kind kind" "provenance_ok (md_provenance d)"
  shows "(append_step (snd J))\<^sup>*\<^sup>* s (snd (create_memory_with_kind J s d kind at))"
  using append_memory_step[OF assms, of J s at 1]
  by (auto simp: create_memory_with_kind_def Let_def split: sum.splits prod.splits) (metis snd_conv)+

lemma change_memory_steps:
  assumes "is_memory_kind kind"
  shows "(append_step (snd J))\<^sup>*\<^sup>* s (snd (change_memory J s k needed verb n kind payload at))"
proof (cases "found_memory s k")
  case (Inr r)
  then show ?thesis
    using append_memory_step[OF assms found_provenance[OF Inr], of J s at n payload]
    by (auto simp: change_memory_def split: sum.splits prod.splits)
qed (simp add: change_memory_def)

lemma correct_memory_steps:
  assumes "provenance_ok (md_provenance d)"
  shows "(append_step (snd J))\<^sup>*\<^sup>* s (snd (correct_memory J s k d at))"
proof (cases "found_memory s k")
  case (Inr r)
  have one: "(append_step (snd J))\<^sup>*\<^sup>* s s1"
    if "append_memory_event J s (generate_event_id at 5) (md_provenance d) DeMemoryConfirmed pl at = (x, s1)" for pl x s1
    using append_memory_step[OF _ assms, of DeMemoryConfirmed J s at 5 pl] that by (simp add: is_memory_kind_def)
  have two: "(append_step (snd J))\<^sup>*\<^sup>* s1 s2"
    if "append_memory_event J s1 (generate_event_id at 6) (mr_provenance r) DeMemorySuperseded pl at = (x, s2)" for pl x s1 s2
    using append_memory_step[OF _ found_provenance[OF Inr], of DeMemorySuperseded J s1 at 6 pl] that by (simp add: is_memory_kind_def)
  show ?thesis
    by (auto simp: correct_memory_def Inr Let_def split: sum.splits prod.splits intro: rtranclp_trans dest!: one two)
qed (auto simp: correct_memory_def split: sum.splits)

lemma sweep_loop_steps: "(append_step (snd J))\<^sup>*\<^sup>* s (snd (sweep_loop J now n ks s))"
proof (induction ks arbitrary: n s)
  case (Cons k ks)
  let ?prov = "\<lparr>mp_thread_id = None, mp_turn_id = None, mp_excerpt = None\<rparr>"
  let ?out = "append_memory_event J s (generate_event_id now n) ?prov DeMemoryExpired (JObj [(''memory_id'', JStr k)]) now"
  have one: "(append_step (snd J))\<^sup>*\<^sup>* s (snd ?out)"
    by (rule append_memory_step) (simp_all add: is_memory_kind_def provenance_ok_def)
  obtain res s1 where out: "?out = (res, s1)" by fastforce
  show ?case
  proof (cases res)
    case (Inr x)
    then show ?thesis using one Cons.IH[of s1] out by (auto intro: rtranclp_trans)
  qed (use one out in simp)
qed simp

lemma sweep_steps: "(append_step (snd J))\<^sup>*\<^sup>* s (snd (sweep_expired_memories J order s now))"
  using sweep_loop_steps[of J s now 100]
  by (auto simp: sweep_expired_memories_def Let_def split: sum.splits prod.splits) (metis snd_conv)+

lemma append_step_once: "event_ok parse e \<Longrightarrow> (append_step parse)\<^sup>*\<^sup>* s (snd (append_domain_event parse s e))"
  unfolding append_step_def by blast

text \<open>The operations that only append to the domain journal, and those that leave both journals and their projections.\<close>

fun appends_domain :: "store_op \<Rightarrow> bool" where
  "appends_domain (AppendDomainEvent _) = True"
| "appends_domain (ProposeMemory _ _) = True"
| "appends_domain (CreateMemory _ _) = True"
| "appends_domain (ConfirmMemory _ _) = True"
| "appends_domain (RejectMemory _ _ _) = True"
| "appends_domain (CorrectMemory _ _ _) = True"
| "appends_domain (ForgetMemory _ _) = True"
| "appends_domain (SweepMemories _) = True"
| "appends_domain _ = False"

lemma appends_domain_steps:
  assumes "appends_domain op" "op_ok E op"
  shows "(append_step (se_parse E))\<^sup>*\<^sup>* s (store_run E s op)"
  using assms create_kind_steps[where J = "se_json E"] change_memory_steps[where J = "se_json E"]
    correct_memory_steps[where J = "se_json E"] sweep_steps[of "se_json E"]
  by (cases op) (auto intro: append_step_once simp: propose_memory_def create_memory_def confirm_memory_def reject_memory_def
      forget_memory_def is_memory_kind_def)

definition journals :: "store \<Rightarrow> (journal_row list \<times> (string \<times> thread_summary) list \<times> projection_state option)
    \<times> domain_journal_row list \<times> projections \<times> domain_projection_state option" where
  "journals s = ((st_journal s, st_thread_projection s, st_projection_state s),
     st_domain_journal s, st_projections s, st_domain_state s)"

lemma journals_iff: "journals s' = journals s \<longleftrightarrow> st_journal s' = st_journal s \<and> st_thread_projection s' = st_thread_projection s
    \<and> st_projection_state s' = st_projection_state s \<and> st_domain_journal s' = st_domain_journal s
    \<and> st_projections s' = st_projections s \<and> st_domain_state s' = st_domain_state s"
  by (auto simp: journals_def)

lemma entity_ops_quiet:
  "journals (snd (create_agent_profile s p)) = journals s"
  "journals (snd (update_agent_profile s p)) = journals s"
  "journals (snd (upsert_agent_profile s p)) = journals s"
  "journals (snd (create_harness_binding enc dec s b)) = journals s"
  "journals (snd (upsert_harness_binding enc s b)) = journals s"
  "journals (snd (delete_harness_binding s k)) = journals s"
  "journals (snd (create_project_ref s q)) = journals s"
  "journals (snd (upsert_project_ref s q)) = journals s"
  "journals (snd (delete_project_ref s k)) = journals s"
  by (auto simp: journals_def create_agent_profile_def update_agent_profile_def upsert_agent_profile_def create_harness_binding_def
      upsert_harness_binding_def delete_harness_binding_def create_project_ref_def upsert_project_ref_def delete_project_ref_def
      Let_def split: sum.splits option.splits)

lemma checkpoint_ops_quiet:
  "journals (snd (record_runtime_intent s c)) = journals s"
  "journals (snd (settle_runtime_checkpoint s k st remote diag at)) = journals s"
  "journals (snd (recover_unsettled_checkpoints s)) = journals s"
  "journals (snd (replace_session_binding s b)) = journals s"
  "journals (snd (remove_session_binding s k)) = journals s"
  by (auto simp: journals_def record_runtime_intent_def settle_runtime_checkpoint_def recover_unsettled_checkpoints_def
      replace_session_binding_def remove_session_binding_def split: sum.splits option.splits)

section \<open>Event sourcing\<close>

text \<open>A store whose \<open>view\<close> is derived from an append-only \<open>journal\<close>: a rebuild gives the view again, and what the view
  has recorded is \<open>kept\<close>.\<close>

locale event_sourced = guarded_machine start move good
  for start :: "'s \<Rightarrow> bool" and move :: "'s \<Rightarrow> 's \<Rightarrow> bool" and good :: "'s \<Rightarrow> bool" +
  fixes journal :: "'s \<Rightarrow> 'r list"
    and view :: "'s \<Rightarrow> 'v"
    and rebuild :: "'s \<Rightarrow> 's"
    and kept :: "'v \<Rightarrow> 'v \<Rightarrow> bool"
  assumes journal_grows: "good s \<Longrightarrow> move s t \<Longrightarrow> prefix (journal s) (journal t)"
    and rebuild_view: "good s \<Longrightarrow> view (rebuild s) = view s"
    and kept_self: "kept v v"
    and kept_trans: "kept u v \<Longrightarrow> kept v w \<Longrightarrow> kept u w"
    and kept_move: "good s \<Longrightarrow> move s t \<Longrightarrow> kept (view s) (view t)"
begin

lemma star_kept: "move\<^sup>*\<^sup>* s t \<Longrightarrow> good s \<Longrightarrow> prefix (journal s) (journal t) \<and> kept (view s) (view t)"
proof (induction rule: rtranclp_induct)
  case (step t u)
  then have "good t" using star_good by blast
  then show ?case
    using step journal_grows[of t u] kept_move[of t u] kept_trans[of "view s" "view t" "view u"] prefix_order.trans by blast
qed (simp add: kept_self)

lemma reach_rebuild: "reach start move s \<Longrightarrow> view (rebuild s) = view s"
  by (rule rebuild_view) (rule reach_good)

end

lemma append_step_E:
  assumes "append_step parse s s'" "domain_ok parse s"
  obtains "s' = s" | e at p where "s' = grown s e at p" "event_ok parse e" "facts_kept (st_projections s) p"
proof -
  obtain e where e: "event_ok parse e" "s' = snd (append_domain_event parse s e)" using assms(1) by (auto simp: append_step_def)
  show thesis
  proof (cases "\<exists>seq. fst (append_domain_event parse s e) = Okay (Appended seq)")
    case True
    then obtain seq where "append_domain_event parse s e = (Okay (Appended seq), s')" using e(2) by (metis prod.collapse)
    then show thesis
      by (rule append_domain_grown) (use that(2) e(1) assms(2) fold_facts_kept in \<open>auto simp: domain_ok_def\<close>)
  next
    case False
    then show thesis using append_domain_same[of parse s e "fst (append_domain_event parse s e)" s'] e(2) that(1) by auto
  qed
qed

text \<open>The domain journal as an event-sourced store of its own.\<close>

interpretation domain_events: event_sourced
  "\<lambda>s. s = fresh_store" "append_step parse" "domain_ok parse" st_domain_journal st_projections
  "\<lambda>s. snd (rebuild_domain_projections parse s)" facts_kept for parse
proof unfold_locales
  show "s = fresh_store \<Longrightarrow> domain_ok parse s" for s by (simp add: fresh_domain_ok)
  show "domain_ok parse s \<Longrightarrow> append_step parse s t \<Longrightarrow> domain_ok parse t" for s t
    using append_domain_ok by (auto simp: append_step_def)
  show "domain_ok parse s \<Longrightarrow> append_step parse s t \<Longrightarrow> prefix (st_domain_journal s) (st_domain_journal t)" for s t
    by (erule append_step_E) (auto simp: grown_def)
  show "domain_ok parse s \<Longrightarrow> st_projections (snd (rebuild_domain_projections parse s)) = st_projections s" for s
    by (erule rebuild_same) simp
  show "facts_kept v v" for v by (rule facts_kept_refl)
  show "facts_kept u v \<Longrightarrow> facts_kept v w \<Longrightarrow> facts_kept u w" for u v w by (rule facts_kept_trans)
  show "domain_ok parse s \<Longrightarrow> append_step parse s t \<Longrightarrow> facts_kept (st_projections s) (st_projections t)" for s t
    by (erule append_step_E) (auto simp: grown_def facts_kept_refl)
qed

section \<open>The whole store\<close>

definition store_ok :: "storage_env \<Rightarrow> store \<Rightarrow> bool" where
  "store_ok E s \<longleftrightarrow> protocol_ok s \<and> domain_ok (se_parse E) s"

text \<open>What one operation does to the journals.\<close>

definition journals_grow :: "store \<Rightarrow> store \<Rightarrow> bool" where
  "journals_grow s s' \<longleftrightarrow> prefix (st_journal s) (st_journal s') \<and> prefix (st_domain_journal s) (st_domain_journal s')
     \<and> facts_kept (st_projections s) (st_projections s')"

lemma domain_ok_cong:
  assumes "st_domain_journal s' = st_domain_journal s" "st_projections s' = st_projections s" "st_domain_state s' = st_domain_state s"
  shows "domain_ok parse s' = domain_ok parse s"
  unfolding domain_ok_def marker_ok_def assms ..

lemma quiet_ok: "journals s' = journals s \<Longrightarrow> store_ok E s \<Longrightarrow> store_ok E s' \<and> journals_grow s s'"
  using domain_ok_cong[of s' s "se_parse E"]
  by (auto simp: journals_iff store_ok_def protocol_ok_def journals_grow_def facts_kept_refl)

lemma protocol_max_seq: "protocol_ok s \<Longrightarrow> journal_max_seq s = int (length (st_journal s))"
  using numbered_Max[of "length (st_journal s)"] by (auto simp: protocol_ok_def journal_max_seq_def)

lemma rebuild_projections_same:
  assumes "protocol_ok s"
  obtains m where "rebuild_projections s = (int (length (st_journal s)), s\<lparr>st_projection_state := Some m\<rparr>)"
    "protocol_ok (s\<lparr>st_projection_state := Some m\<rparr>)"
proof -
  let ?m = "\<lparr>ps_journal_max_seq = journal_max_seq s, ps_version = projection_version,
    ps_rebuilt_at = (if st_journal s = [] then 0 else Max (set (map jr_occurred_at (st_journal s))))\<rparr>"
  have same: "s\<lparr>st_thread_projection := summaries (st_journal s), st_projection_state := Some ?m\<rparr> = s\<lparr>st_projection_state := Some ?m\<rparr>"
    using assms by (cases s) (simp add: protocol_ok_def)
  show thesis
  proof (rule that[of ?m])
    show "rebuild_projections s = (int (length (st_journal s)), s\<lparr>st_projection_state := Some ?m\<rparr>)"
      unfolding same[symmetric] by (simp add: rebuild_projections_def Let_def summaries_def)
    show "protocol_ok (s\<lparr>st_projection_state := Some ?m\<rparr>)"
      using assms protocol_max_seq[OF assms] by (auto simp: protocol_ok_def)
  qed
qed

lemma ensure_projections_same: "protocol_ok s \<Longrightarrow> ensure_projections_current s = (Okay (), s)"
  using protocol_max_seq[of s] by (auto simp: ensure_projections_current_def protocol_ok_def)

lemma hex_digest_nonempty: "domain_projection_digest p \<noteq> []"
  by (simp add: domain_projection_digest_def finish_hex_def flip: length_greater_0_conv del: length_greater_0_conv)
    (simp add: length_hex_of_bytes)

lemma domain_max_seq: "domain_ok parse s \<Longrightarrow> domain_journal_max_seq s = int (length (st_domain_journal s))"
  using numbered_Max[of "length (st_domain_journal s)"] by (auto simp: domain_ok_def domain_journal_max_seq_def)

lemma ensure_domain_same:
  assumes "domain_ok parse s"
  obtains m where "snd (ensure_domain_projections_current parse fts_ok s) = s\<lparr>st_domain_state := m\<rparr>"
    "domain_ok parse (s\<lparr>st_domain_state := m\<rparr>)"
    "fst (ensure_domain_projections_current parse fts_ok s) = Okay () \<longleftrightarrow> fts_ok (st_projections s)"
proof -
  obtain m where m: "rebuild_domain_projections parse s = (Okay (int (length (st_domain_journal s))), s\<lparr>st_domain_state := Some m\<rparr>)"
    "dp_journal_max_seq m = int (length (st_domain_journal s))" "dp_version m = domain_projection_version"
    "dp_digest m = domain_projection_digest (st_projections s)"
    by (rule rebuild_same[OF assms])
  have ok: "domain_ok parse (s\<lparr>st_domain_state := Some m\<rparr>)" using assms m by (simp add: domain_ok_def marker_ok_def)
  have verified: "rebuild_verified fts_ok (domain_journal_max_seq s) (s\<lparr>st_domain_state := Some m\<rparr>) = Okay ()
      \<longleftrightarrow> fts_ok (st_projections s)"
    by (simp add: rebuild_verified_def m domain_max_seq[OF assms] hex_digest_nonempty)
  have needs: "\<exists>b. domain_needs_rebuild fts_ok s = Okay b \<and> (b \<or> fts_ok (st_projections s))"
    using assms domain_max_seq[OF assms]
    by (auto simp: domain_needs_rebuild_def domain_ok_def marker_ok_def split: option.splits)
  then obtain b where b: "domain_needs_rebuild fts_ok s = Okay b" "b \<or> fts_ok (st_projections s)" by blast
  show thesis
  proof (cases b)
    case True
    then show thesis using that[of "Some m"] ok m(1) b verified by (simp add: ensure_domain_projections_current_def)
  next
    case False
    then show thesis using that[of "st_domain_state s"] assms b by (simp add: ensure_domain_projections_current_def)
  qed
qed

lemma open_same:
  assumes "store_ok E s"
  obtains n where "journals (snd (open_inner (se_parse E) fts_ok s)) = journals (s\<lparr>st_domain_state := n\<rparr>)"
    "store_ok E (s\<lparr>st_domain_state := n\<rparr>)"
    "fst (open_inner (se_parse E) fts_ok s) = Okay () \<longleftrightarrow> fts_ok (st_projections s)"
    "fts_ok (st_projections s) \<Longrightarrow> st_checkpoints (snd (open_inner (se_parse E) fts_ok s))
       = st_checkpoints (snd (recover_unsettled_checkpoints s))"
proof -
  have cur: "ensure_projections_current s = (Okay (), s)"
    using assms ensure_projections_same by (simp add: store_ok_def)
  obtain n where n: "snd (ensure_domain_projections_current (se_parse E) fts_ok s) = s\<lparr>st_domain_state := n\<rparr>"
    "domain_ok (se_parse E) (s\<lparr>st_domain_state := n\<rparr>)"
    "fst (ensure_domain_projections_current (se_parse E) fts_ok s) = Okay () \<longleftrightarrow> fts_ok (st_projections s)"
    using assms by (metis ensure_domain_same store_ok_def)
  obtain res where out: "ensure_domain_projections_current (se_parse E) fts_ok s = (res, s\<lparr>st_domain_state := n\<rparr>)"
    using n(1) by (metis prod.collapse)
  have op: "open_inner (se_parse E) fts_ok s
      = (case res of Inl e \<Rightarrow> (Err e, s\<lparr>st_domain_state := n\<rparr>)
         | Inr _ \<Rightarrow> (Okay (), snd (recover_unsettled_checkpoints (s\<lparr>st_domain_state := n\<rparr>))))"
    by (simp add: open_inner_def cur out split: sum.splits)
  show thesis
  proof (rule that[of n])
    show "journals (snd (open_inner (se_parse E) fts_ok s)) = journals (s\<lparr>st_domain_state := n\<rparr>)"
      by (simp add: op checkpoint_ops_quiet split: sum.splits)
    show "store_ok E (s\<lparr>st_domain_state := n\<rparr>)" using n(2) assms by (simp add: store_ok_def protocol_ok_def)
  qed (use n(3) out op in \<open>auto simp: recover_unsettled_checkpoints_def split: sum.splits\<close>)
qed

lemma append_steps_ok:
  assumes "(append_step (se_parse E))\<^sup>*\<^sup>* s s'" "store_ok E s"
  shows "store_ok E s' \<and> journals_grow s s'"
proof -
  have same: "st_journal s' = st_journal s \<and> st_thread_projection s' = st_thread_projection s
      \<and> st_projection_state s' = st_projection_state s"
    using assms(1)
  proof (induction rule: rtranclp_induct)
    case (step t u)
    then show ?case
      by (auto simp: append_step_def append_domain_event_def Let_def split: if_splits option.splits sum.splits)
  qed simp
  moreover have "domain_ok (se_parse E) s" using assms(2) by (simp add: store_ok_def)
  ultimately show ?thesis
    using domain_events.star_good[OF assms(1)] domain_events.star_kept[OF assms(1)] assms(2)
    by (simp add: store_ok_def protocol_ok_def journals_grow_def)
qed

lemma append_event_grow: "prefix (st_journal s) (st_journal (snd (append_event to_json s e)))
    \<and> st_domain_journal (snd (append_event to_json s e)) = st_domain_journal s
    \<and> st_projections (snd (append_event to_json s e)) = st_projections s
    \<and> st_domain_state (snd (append_event to_json s e)) = st_domain_state s"
  by (auto simp: append_event_def Let_def split: sum.splits option.splits)

lemma store_run_ok:
  assumes "store_ok E s" "op_ok E op"
  shows "store_ok E (store_run E s op) \<and> journals_grow s (store_run E s op)"
proof (cases "appends_domain op")
  case True
  then show ?thesis using append_steps_ok[OF appends_domain_steps[OF True assms(2)] assms(1)] by blast
next
  case False
  have dom: "domain_ok (se_parse E) s" and pro: "protocol_ok s" using assms(1) by (simp_all add: store_ok_def)
  consider e where "op = AppendEvent e" | "op = RebuildProjections" | "op = RebuildDomainProjections" | "op = OpenStore"
    | "journals (store_run E s op) = journals s"
    using False by (cases op) (simp_all add: entity_ops_quiet checkpoint_ops_quiet)
  then show ?thesis
  proof cases
    case (1 e)
    then show ?thesis
      using append_event_ok[OF pro, of "se_to_json E" e] append_event_grow[of s "se_to_json E" e] dom
        domain_ok_cong[of "snd (append_event (se_to_json E) s e)" s]
      by (simp add: store_ok_def journals_grow_def facts_kept_refl)
  next
    case 2
    obtain m where "rebuild_projections s = (int (length (st_journal s)), s\<lparr>st_projection_state := Some m\<rparr>)"
      "protocol_ok (s\<lparr>st_projection_state := Some m\<rparr>)"
      using rebuild_projections_same[OF pro] by metis
    then show ?thesis
      using 2 dom domain_ok_cong[of "s\<lparr>st_projection_state := Some m\<rparr>" s] by (simp add: store_ok_def journals_grow_def facts_kept_refl)
  next
    case 3
    obtain m where "rebuild_domain_projections (se_parse E) s
        = (Okay (int (length (st_domain_journal s))), s\<lparr>st_domain_state := Some m\<rparr>)"
      "dp_journal_max_seq m = int (length (st_domain_journal s))" "dp_version m = domain_projection_version"
      using rebuild_same[OF dom] by metis
    then show ?thesis
      using 3 dom pro by (simp add: store_ok_def domain_ok_def marker_ok_def journals_grow_def facts_kept_refl protocol_ok_def)
  next
    case 4
    obtain n where "journals (snd (open_inner (se_parse E) (se_fts_ok E) s)) = journals (s\<lparr>st_domain_state := n\<rparr>)"
      "store_ok E (s\<lparr>st_domain_state := n\<rparr>)"
      using open_same[OF assms(1), of "se_fts_ok E"] by metis
    then show ?thesis
      using 4 quiet_ok[of "snd (open_inner (se_parse E) (se_fts_ok E) s)" "s\<lparr>st_domain_state := n\<rparr>" E]
      by (simp add: journals_grow_def)
  next
    case 5
    then show ?thesis using quiet_ok assms(1) by blast
  qed
qed

text \<open>Both journals of the store under all its operations.\<close>

lemma fresh_ok: "store_ok E fresh_store"
  using fresh_domain_ok[of "se_parse E"]
  by (simp add: store_ok_def protocol_ok_def) (simp add: fresh_store_def summaries_def List.map_filter_def)

interpretation stored_history: event_sourced
  "\<lambda>s. s = fresh_store" "store_move E" "store_ok E" st_domain_journal st_projections
  "\<lambda>s. snd (rebuild_domain_projections (se_parse E) s)" facts_kept for E
proof unfold_locales
  show "s = fresh_store \<Longrightarrow> store_ok E s" for s by (simp add: fresh_ok)
  fix s t
  assume ok: "store_ok E s"
  show "store_move E s t \<Longrightarrow> store_ok E t" "store_move E s t \<Longrightarrow> prefix (st_domain_journal s) (st_domain_journal t)"
    "store_move E s t \<Longrightarrow> facts_kept (st_projections s) (st_projections t)"
    using store_run_ok[OF ok] by (auto simp: store_move_def journals_grow_def)
  show "st_projections (snd (rebuild_domain_projections (se_parse E) s)) = st_projections s"
    using ok domain_events.rebuild_view by (simp add: store_ok_def)
qed (use facts_kept_refl facts_kept_trans in blast)+

interpretation stored_protocol: event_sourced
  "\<lambda>s. s = fresh_store" "store_move E" "store_ok E" st_journal st_thread_projection
  "\<lambda>s. snd (rebuild_projections s)" "\<lambda>_ _. True" for E
proof unfold_locales
  fix s t
  assume ok: "store_ok E s"
  show "store_move E s t \<Longrightarrow> prefix (st_journal s) (st_journal t)"
    using store_run_ok[OF ok] by (auto simp: store_move_def journals_grow_def)
  have "protocol_ok s" using ok by (simp add: store_ok_def)
  then show "st_thread_projection (snd (rebuild_projections s)) = st_thread_projection s"
    by (rule rebuild_projections_same) simp
qed auto

end
