(* ===== verification/Storage_Properties.thy ===== *)
theory Storage_Properties
  imports Storage_Safety
begin

text \<open>
  The properties of the store over all sequences of its operations, and the behaviour of its runtime checkpoints.
\<close>

section \<open>Journal entries\<close>

lemma find_append: "List.find P (xs @ ys) = (case List.find P xs of None \<Rightarrow> List.find P ys | Some x \<Rightarrow> Some x)"
  by (induction xs) auto

lemma grown_entry:
  assumes "existing_domain_event s (de_event_id e) = None" "prefix (st_domain_journal (grown s e at p)) (st_domain_journal t)"
  shows "existing_domain_event t (de_event_id e) = Some (durable_row e (domain_seq s) at)"
proof -
  obtain zs where "st_domain_journal t = st_domain_journal s @ durable_row e (domain_seq s) at # zs"
    using assms(2) by (auto simp: prefix_def grown_def)
  then show ?thesis using assms(1) by (simp add: existing_domain_event_def find_append durable_row_def)
qed

section \<open>Checkpoints\<close>

text \<open>A checkpoint keeps what it was recorded with, and once it is not an intent it does not change.\<close>

definition checkpoints_kept :: "(string \<times> checkpoint_row) list \<Rightarrow> (string \<times> checkpoint_row) list \<Rightarrow> bool" where
  "checkpoints_kept cs cs' \<longleftrightarrow> (\<forall>k r. map_of cs k = Some r \<longrightarrow>
     (\<exists>r'. map_of cs' k = Some r' \<and> (cp_state r \<noteq> ''intent'' \<longrightarrow> r' = r)
        \<and> (cp_thread_id r', cp_turn_id r', cp_operation_id r', cp_boundary_kind r', cp_created_at r')
          = (cp_thread_id r, cp_turn_id r, cp_operation_id r, cp_boundary_kind r, cp_created_at r)))"

lemma checkpoints_kept_refl: "checkpoints_kept cs cs"
  by (auto simp: checkpoints_kept_def)

lemma checkpoints_kept_trans: "checkpoints_kept a b \<Longrightarrow> checkpoints_kept b c \<Longrightarrow> checkpoints_kept a c"
  unfolding checkpoints_kept_def by (metis (no_types, lifting))

lemma map_of_recovered: "map_of (map (\<lambda>(k, r). (k, f r)) cs) k = map_option f (map_of cs k)"
  by (induction cs) auto

lemma recover_kept: "checkpoints_kept (st_checkpoints s) (st_checkpoints (snd (recover_unsettled_checkpoints s)))"
  by (auto simp: checkpoints_kept_def recover_unsettled_checkpoints_def map_of_recovered)

lemma intent_state [simp]: "checkpoint_state_as_str st = ''intent'' \<longleftrightarrow> st = CkIntent"
  by (cases st) simp_all

lemma checkpoint_parse: "checkpoint_state_try_from_str v = Okay st \<Longrightarrow> v = checkpoint_state_as_str st"
  by (auto simp: checkpoint_state_try_from_str_def split: if_splits)

lemma settle_kept: "checkpoints_kept (st_checkpoints s) (st_checkpoints (snd (settle_runtime_checkpoint s k st remote diag at)))"
  by (auto simp: checkpoints_kept_def settle_runtime_checkpoint_def split: option.splits sum.splits dest!: checkpoint_parse)

lemma record_kept: "bt_ok (st_checkpoints s) \<Longrightarrow>
   checkpoints_kept (st_checkpoints s) (st_checkpoints (snd (record_runtime_intent s c)))"
  by (auto simp: checkpoints_kept_def record_runtime_intent_def query_optional_row_def and_then_Okay_iff map_sum_Okay_iff
      split: option.splits sum.splits)

lemma append_steps_checkpoints: "(append_step parse)\<^sup>*\<^sup>* s s' \<Longrightarrow> st_checkpoints s' = st_checkpoints s"
  by (induction rule: rtranclp_induct)
    (auto simp: append_step_def append_domain_event_def Let_def split: if_splits option.splits sum.splits)

lemma ensure_checkpoints:
  "st_checkpoints (snd (ensure_projections_current s)) = st_checkpoints s"
  "st_checkpoints (snd (ensure_domain_projections_current parse fts_ok s)) = st_checkpoints s"
  by (auto simp: ensure_projections_current_def ensure_domain_projections_current_def rebuild_projections_def
      rebuild_domain_projections_def Let_def split: option.splits sum.splits bool.splits)

lemma open_checkpoints: "st_checkpoints (snd (open_inner parse fts_ok s)) = st_checkpoints s
    \<or> st_checkpoints (snd (open_inner parse fts_ok s)) = st_checkpoints (snd (recover_unsettled_checkpoints s))"
  using ensure_checkpoints(1)[of s] ensure_checkpoints(2)[of parse fts_ok "snd (ensure_projections_current s)"]
  by (auto simp: open_inner_def recover_unsettled_checkpoints_def split: sum.splits prod.splits)

lemma entity_ops_checkpoints:
  "st_checkpoints (snd (create_agent_profile s p)) = st_checkpoints s"
  "st_checkpoints (snd (update_agent_profile s p)) = st_checkpoints s"
  "st_checkpoints (snd (upsert_agent_profile s p)) = st_checkpoints s"
  "st_checkpoints (snd (create_harness_binding enc dec s b)) = st_checkpoints s"
  "st_checkpoints (snd (upsert_harness_binding enc s b)) = st_checkpoints s"
  "st_checkpoints (snd (delete_harness_binding s k)) = st_checkpoints s"
  "st_checkpoints (snd (create_project_ref s q)) = st_checkpoints s"
  "st_checkpoints (snd (upsert_project_ref s q)) = st_checkpoints s"
  "st_checkpoints (snd (delete_project_ref s k)) = st_checkpoints s"
  "st_checkpoints (snd (replace_session_binding s n)) = st_checkpoints s"
  "st_checkpoints (snd (remove_session_binding s k)) = st_checkpoints s"
  "st_checkpoints (snd (append_event to_json s e)) = st_checkpoints s"
  "st_checkpoints (snd (rebuild_projections s)) = st_checkpoints s"
  "st_checkpoints (snd (rebuild_domain_projections parse s)) = st_checkpoints s"
  by (auto simp: create_agent_profile_def update_agent_profile_def upsert_agent_profile_def create_harness_binding_def
      upsert_harness_binding_def delete_harness_binding_def create_project_ref_def upsert_project_ref_def delete_project_ref_def
      replace_session_binding_def remove_session_binding_def append_event_def rebuild_projections_def rebuild_domain_projections_def
      Let_def split: sum.splits option.splits)

lemma recover_ok: "bt_ok (st_checkpoints (snd (recover_unsettled_checkpoints s))) = bt_ok (st_checkpoints s)"
  by (simp add: recover_unsettled_checkpoints_def bt_ok_def comp_def case_prod_beta)

lemma store_run_checkpoints:
  assumes "bt_ok (st_checkpoints s)" "op_ok E op"
  shows "bt_ok (st_checkpoints (store_run E s op)) \<and> checkpoints_kept (st_checkpoints s) (st_checkpoints (store_run E s op))"
proof (cases "appends_domain op")
  case True
  then have "st_checkpoints (store_run E s op) = st_checkpoints s"
    using append_steps_checkpoints appends_domain_steps assms(2) by blast
  then show ?thesis using assms(1) by (simp add: checkpoints_kept_refl)
next
  case False
  consider c where "op = RecordIntent c" | k st remote diag at where "op = SettleCheckpoint k st remote diag at"
    | "st_checkpoints (store_run E s op) = st_checkpoints (snd (recover_unsettled_checkpoints s))"
    | "st_checkpoints (store_run E s op) = st_checkpoints s"
    using False open_checkpoints[of "se_parse E" "se_fts_ok E" s] by (cases op) (auto simp: entity_ops_checkpoints)
  then show ?thesis
  proof cases
    case 1
    then show ?thesis
      using assms(1) record_kept[OF assms(1)]
      by (auto simp: record_runtime_intent_def bt_insert_ok split: option.splits sum.splits)
  next
    case 2
    then show ?thesis
      using assms(1) settle_kept by (auto simp: settle_runtime_checkpoint_def split: option.splits sum.splits)
  qed (use assms(1) recover_kept recover_ok in \<open>auto simp: checkpoints_kept_refl\<close>)
qed

interpretation checkpoint_table: guarded_machine "\<lambda>s. s = fresh_store" "store_move E" "\<lambda>s. bt_ok (st_checkpoints s)" for E
  by unfold_locales (auto simp: fresh_store_def store_move_def store_run_checkpoints)

lemma checkpoints_kept_star:
  assumes "(store_move E)\<^sup>*\<^sup>* s t" "bt_ok (st_checkpoints s)"
  shows "checkpoints_kept (st_checkpoints s) (st_checkpoints t)"
  using assms
proof (induction rule: rtranclp_induct)
  case (step t u)
  moreover have "bt_ok (st_checkpoints t)" using checkpoint_table.star_good step by blast
  ultimately show ?case
    using store_run_checkpoints checkpoints_kept_trans unfolding store_move_def by blast
qed (simp add: checkpoints_kept_refl)

section \<open>An example store\<close>

text \<open>A memory is proposed and then rejected.\<close>

definition example_draft :: json where
  "example_draft = JObj [(''content'', JStr ''likes tea''), (''memory_id'', JStr ''mem_0000000000000001'')]"

definition example_parse :: "string \<Rightarrow> json option" where
  "example_parse t = (if t = ''{draft}'' then Some example_draft else Some (JObj [(''memory_id'', JStr ''mem_0000000000000001'')]))"

definition example_event :: "string \<Rightarrow> domain_event_kind \<Rightarrow> string \<Rightarrow> domain_event" where
  "example_event i kind payload = \<lparr>de_event_id = i, de_thread_id = None, de_turn_id = None, de_operation_id = None,
     de_kind = kind, de_payload = payload, de_occurred_at = 7\<rparr>"

definition proposal :: domain_event where
  "proposal = example_event ''evt_0000000000000001'' DeMemoryProposed ''{draft}''"

definition rejection :: domain_event where
  "rejection = example_event ''evt_0000000000000002'' DeMemoryRejected ''{id}''"

definition example_env :: storage_env where
  "example_env = \<lparr>se_print = (\<lambda>_. ''{draft}''), se_parse = example_parse, se_to_json = (\<lambda>_. Okay ''{}''), se_enc = (\<lambda>_. ''[]''),
     se_dec = (\<lambda>_. Some []), se_order = id, se_fts_ok = (\<lambda>_. True)\<rparr>"

definition proposed_projections :: projections where
  "proposed_projections = (case fold_domain_event example_parse no_projections proposal 1 7 of Inl _ \<Rightarrow> no_projections | Inr p \<Rightarrow> p)"

definition rejected_projections :: projections where
  "rejected_projections = fold_memory_state example_parse proposed_projections rejection 7 ''rejected''"

lemma example_events_ok: "event_ok example_parse proposal" "event_ok example_parse rejection"
proof -
  have "id_ok event_prefix ''evt_0000000000000001''" "id_ok event_prefix ''evt_0000000000000002''"
    "utf8_valid ''{draft}''" "utf8_valid ''{id}''" by code_simp+
  then show "event_ok example_parse proposal" "event_ok example_parse rejection"
    using known_kinds_parse[of DeMemoryProposed] known_kinds_parse[of DeMemoryRejected]
    by (simp_all add: event_ok_def proposal_def rejection_def example_event_def event_payload_try_from_def
        max_event_payload_bytes_def example_parse_def example_draft_def known_event_kinds_def)
qed

lemma example_folds:
  "validate_domain_event example_parse no_projections proposal = Okay ()"
  "fold_domain_event example_parse no_projections proposal 1 7 = Okay proposed_projections"
  "validate_domain_event example_parse proposed_projections rejection = Okay ()"
  "map_of (pj_memories rejected_projections) ''mem_0000000000000001'' = Some (draft_row example_draft ''rejected'' ''inferred'' False 7)"
  by code_simp+

definition proposed_store :: store where
  "proposed_store = grown fresh_store proposal 7 proposed_projections"

definition rejected_store :: store where
  "rejected_store = grown proposed_store rejection 7 rejected_projections"

lemma example_fields:
  "de_event_id proposal = ''evt_0000000000000001''" "de_event_id rejection = ''evt_0000000000000002''"
  "length (de_payload proposal) = 7" "length (de_payload rejection) = 4" "de_kind rejection = DeMemoryRejected"
  "de_thread_id rejection = None" "de_occurred_at proposal = 7" "de_occurred_at rejection = 7"
  by (simp_all add: proposal_def rejection_def example_event_def)

lemma example_appends:
  "append_domain_event example_parse fresh_store proposal = (Okay (Appended 1), proposed_store)"
  "append_domain_event example_parse proposed_store rejection = (Okay (Appended 2), rejected_store)"
proof -
  have fold2: "fold_domain_event example_parse proposed_projections rejection 2 7 = Okay rejected_projections"
    by (simp add: fold_domain_event_def rejected_projections_def event_activity_def example_fields)
  have at: "i64_try_from 7 = Some 7" by (simp add: i64_try_from_def)
  have fresh: "st_domain_journal fresh_store = []" "st_projections fresh_store = no_projections" by (simp_all add: fresh_store_def)
  have first: "st_domain_journal proposed_store = [durable_row proposal 1 7]" "st_projections proposed_store = proposed_projections"
    by (simp_all add: proposed_store_def grown_def fresh next_seq_def)
  have none: "existing_domain_event proposed_store (de_event_id rejection) = None" and seq: "domain_seq proposed_store = 2"
    by (simp_all add: existing_domain_event_def first durable_row_def example_fields next_seq_def)
  show "append_domain_event example_parse fresh_store proposal = (Okay (Appended 1), proposed_store)"
    by (simp add: append_domain_event_def example_fields journal_payload_max_def at existing_domain_event_def fresh next_seq_def
        example_folds proposed_store_def grown_def)
  show "append_domain_event example_parse proposed_store rejection = (Okay (Appended 2), rejected_store)"
    using none by (simp add: append_domain_event_def example_fields journal_payload_max_def at seq first(2)
        example_folds fold2 rejected_store_def grown_def)
qed

lemma example_moves: "store_move example_env fresh_store proposed_store" "store_move example_env proposed_store rejected_store"
proof -
  show "store_move example_env fresh_store proposed_store"
    unfolding store_move_def by (rule exI[of _ "AppendDomainEvent proposal"]) (simp add: example_env_def example_events_ok example_appends)
  show "store_move example_env proposed_store rejected_store"
    unfolding store_move_def by (rule exI[of _ "AppendDomainEvent rejection"]) (simp add: example_env_def example_events_ok example_appends)
qed

lemma example_reach: "reach (\<lambda>s. s = fresh_store) (store_move example_env) fresh_store"
  "reach (\<lambda>s. s = fresh_store) (store_move example_env) proposed_store"
  "reach (\<lambda>s. s = fresh_store) (store_move example_env) rejected_store"
  using reach_start[of "\<lambda>s. s = fresh_store" fresh_store "store_move example_env"] reach_move example_moves by metis+

definition example_op_list :: "store_op list" where
  "example_op_list = [AppendDomainEvent proposal, AppendDomainEvent rejection]"

lemma example_ops:
  "list_all (op_typed example_env) example_op_list" "\<not> list_ex appends_disguised example_op_list"
  "rejected_store = store_after example_env fresh_store example_op_list"
proof -
  have ok: "event_ok (se_parse example_env) proposal" "event_ok (se_parse example_env) rejection"
    using example_events_ok by (simp_all add: example_env_def)
  then show "list_all (op_typed example_env) example_op_list" "\<not> list_ex appends_disguised example_op_list"
    by (simp_all add: example_op_list_def event_ok_def event_typed_def disguised_kind_def)
  show "rejected_store = store_after example_env fresh_store example_op_list"
    using example_appends by (simp add: example_op_list_def store_after_def example_env_def)
qed

text \<open>The proposal again, under a custom kind of the same name.\<close>

definition disguised_proposal :: domain_event where
  "disguised_proposal = example_event ''evt_0000000000000001'' (DeOther ''memory.proposed'') ''{draft}''"

definition disguised_store :: store where
  "disguised_store = grown fresh_store disguised_proposal 7 no_projections"

lemma disguised_append: "append_domain_event example_parse fresh_store disguised_proposal = (Okay (Appended 1), disguised_store)"
proof -
  have "validate_domain_event example_parse no_projections disguised_proposal = Okay ()"
    "fold_domain_event example_parse no_projections disguised_proposal 1 7 = Okay no_projections"
    by code_simp+
  then show ?thesis
    by (simp add: append_domain_event_def disguised_proposal_def example_event_def journal_payload_max_def i64_try_from_def
        existing_domain_event_def fresh_store_def next_seq_def disguised_store_def grown_def)
qed

lemma disguised_rebuild:
  "map fst (pj_memories (st_projections (snd (rebuild_domain_projections example_parse disguised_store)))) = [''mem_0000000000000001'']"
proof -
  have "domain_ok example_parse proposed_store"
    using stored_history.reach_good[OF example_reach(2)] by (simp add: store_ok_def example_env_def)
  moreover have "durable_row disguised_proposal 1 7 = durable_row proposal 1 7"
    by (simp add: durable_row_def disguised_proposal_def proposal_def example_event_def)
  then have "st_domain_journal disguised_store = st_domain_journal proposed_store" "st_projections proposed_store = proposed_projections"
    by (simp_all add: proposed_store_def disguised_store_def grown_def fresh_store_def next_seq_def)
  ultimately have "replay_rows example_parse no_projections (st_domain_journal disguised_store) = Okay proposed_projections"
    by (simp only: domain_ok_def)
  moreover have "wiped (st_projections disguised_store) = no_projections"
    by (simp add: disguised_store_def grown_def wiped_def no_projections_def)
  moreover have "map fst (pj_memories proposed_projections) = [''mem_0000000000000001'']" by code_simp
  ultimately show ?thesis by (simp add: rebuild_domain_projections_def Let_def)
qed

text \<open>A prompt is recorded as an intent and then confirmed.\<close>

definition example_checkpoint :: runtime_checkpoint where
  "example_checkpoint = \<lparr>rc_id = ''chk_0000000000000001'', rc_thread_id = ''thr_0000000000000001'', rc_turn_id = None,
     rc_operation_id = ''op_0000000000000001'', rc_boundary_kind = BkPrompt, rc_state = CkIntent,
     rc_remote_request_id = None, rc_diagnostic_summary = None, rc_created_at = 5, rc_settled_at = None\<rparr>"

definition intent_row :: checkpoint_row where
  "intent_row = \<lparr>cp_thread_id = ''thr_0000000000000001'', cp_turn_id = None, cp_operation_id = ''op_0000000000000001'',
     cp_boundary_kind = boundary_kind_as_str BkPrompt, cp_state = ''intent'', cp_remote_request_id = None,
     cp_diagnostic_summary = None, cp_created_at = 5, cp_settled_at = None\<rparr>"

definition intent_store :: store where
  "intent_store = fresh_store\<lparr>st_checkpoints := [(''chk_0000000000000001'', intent_row)]\<rparr>"

definition settled_store :: store where
  "settled_store = fresh_store\<lparr>st_checkpoints := [(''chk_0000000000000001'',
     intent_row\<lparr>cp_state := ''confirmed'', cp_settled_at := Some 6\<rparr>)]\<rparr>"

lemma intent_recorded: "store_run example_env fresh_store (RecordIntent example_checkpoint) = intent_store"
proof -
  have "i64_try_from 5 = Some 5" by (simp add: i64_try_from_def)
  then show ?thesis
    by (simp add: record_runtime_intent_def example_checkpoint_def checkpoint_turn_ok_def query_optional_row_def fresh_store_def
        checkpoint_to_row_def column_millis_def opt_ok_def intent_store_def intent_row_def)
qed

lemma checkpoint_reach:
  "reach (\<lambda>s. s = fresh_store) (store_move example_env) intent_store"
  "reach (\<lambda>s. s = fresh_store) (store_move example_env) settled_store"
proof -
  have times: "i64_try_from 5 = Some 5" "i64_try_from 6 = Some 6" by (simp_all add: i64_try_from_def)
  have "store_move example_env fresh_store intent_store" unfolding store_move_def
    by (intro exI[of _ "RecordIntent example_checkpoint"]) (simp only: intent_recorded op_ok.simps simp_thms)
  then show first: "reach (\<lambda>s. s = fresh_store) (store_move example_env) intent_store"
    using reach_move[OF example_reach(1)] by blast
  have "checkpoint_state_try_from_str ''intent'' = Okay CkIntent" using checkpoint_state.roundtrip[of CkIntent] by simp
  then have "store_run example_env intent_store (SettleCheckpoint ''chk_0000000000000001'' CkConfirmed None None 6) = settled_store"
    by (simp add: settle_runtime_checkpoint_def checkpoint_is_terminal_def intent_store_def settled_store_def intent_row_def
        column_millis_def times update_row_def)
  then have "store_move example_env intent_store settled_store" unfolding store_move_def
    by (intro exI[of _ "SettleCheckpoint ''chk_0000000000000001'' CkConfirmed None None 6"]) simp
  then show "reach (\<lambda>s. s = fresh_store) (store_move example_env) settled_store" using reach_move[OF first] by blast
qed

section \<open>Properties\<close>

text \<open>C3: After any sequence of operations in which no event of a disguised kind is appended (a custom kind under the name of
  a known one), rebuilding the projections from the journals succeeds, counts every journal entry, and gives exactly the
  projections that the appends have built up one by one: threads, turns, permissions, memories, the search index, and the
  thread summaries of the protocol journal.\<close>

theorem projections_rebuildable:
  assumes "list_all (op_typed E) ops" "\<not> list_ex appends_disguised ops" "s = store_after E fresh_store ops"
  shows "fst (rebuild_domain_projections (se_parse E) s) = Okay (int (length (st_domain_journal s)))
    \<and> st_projections (snd (rebuild_domain_projections (se_parse E) s)) = st_projections s
    \<and> fst (rebuild_projections s) = int (length (st_journal s))
    \<and> st_thread_projection (snd (rebuild_projections s)) = st_thread_projection s"
proof -
  have reach: "reach (\<lambda>s. s = fresh_store) (store_move E) s" using store_after_reach[OF assms(1,2)] assms(3) by simp
  have "domain_ok (se_parse E) s" using stored_history.reach_good[OF reach] by (simp add: store_ok_def)
  then have "fst (rebuild_domain_projections (se_parse E) s) = Okay (int (length (st_domain_journal s)))"
    by (rule rebuild_same) simp
  moreover have "fst (rebuild_projections s) = int (length (st_journal s))" by (simp add: rebuild_projections_def Let_def)
  ultimately show ?thesis using stored_history.reach_rebuild[OF reach] stored_protocol.reach_rebuild[OF reach] by blast
qed

theorem projections_rebuildable_witness:
  "st_projections (snd (rebuild_domain_projections example_parse rejected_store)) = rejected_projections
   \<and> st_thread_projection (snd (rebuild_projections rejected_store)) = []"
proof -
  have "st_projections rejected_store = rejected_projections" "st_thread_projection rejected_store = []" "se_parse example_env = example_parse"
    by (simp_all add: example_env_def rejected_store_def proposed_store_def grown_def fresh_store_def)
  then show ?thesis using projections_rebuildable[OF example_ops] by simp
qed

text \<open>Without the restriction it fails. A custom event under the name of a proposal is accepted and changes no projection; a
  rebuild reads it back as the proposal and has a memory that was not there before.\<close>

theorem disguised_kind_breaks_rebuild:
  "fst (append_domain_event example_parse fresh_store disguised_proposal) = Okay (Appended 1)
   \<and> pj_memories (st_projections disguised_store) = []
   \<and> map fst (pj_memories (st_projections (snd (rebuild_domain_projections example_parse disguised_store))))
       = [''mem_0000000000000001'']"
  using disguised_append disguised_rebuild by (simp add: disguised_store_def grown_def no_projections_def)

text \<open>C4: Recorded facts are final. Whatever operations follow, as long as no event of a disguised kind is appended before
  or after, both journals only grow at their end, a turn that has ended keeps its row, so does a permission that is decided,
  and a memory keeps its content, origin and times of creation and expiry, moves only along the life cycle of the domain,
  keeps its successor, and does not change any more once it was rejected, forgotten or has expired.\<close>

theorem recorded_facts_final:
  assumes "list_all (op_typed E) (ops @ later)" "\<not> list_ex appends_disguised (ops @ later)"
    and "s = store_after E fresh_store ops" "t = store_after E s later"
  shows "prefix (st_journal s) (st_journal t) \<and> prefix (st_domain_journal s) (st_domain_journal t)
    \<and> (\<forall>k r. map_of (pj_turns (st_projections s)) k = Some r \<and> tr_state r \<noteq> ''active''
           \<longrightarrow> map_of (pj_turns (st_projections t)) k = Some r)
    \<and> (\<forall>k r. map_of (pj_permissions (st_projections s)) k = Some r \<and> pr_decision r \<noteq> ''pending''
           \<longrightarrow> map_of (pj_permissions (st_projections t)) k = Some r)
    \<and> (\<forall>k r a. map_of (pj_memories (st_projections s)) k = Some r \<and> my_state r = memory_state_as_str a
           \<longrightarrow> (\<exists>r' b. map_of (pj_memories (st_projections t)) k = Some r' \<and> my_state r' = memory_state_as_str b
             \<and> memory_move\<^sup>*\<^sup>* a b
             \<and> r' = r\<lparr>my_state := my_state r', my_updated_at := my_updated_at r', my_superseded_by := my_superseded_by r'\<rparr>
             \<and> (my_superseded_by r \<noteq> None \<longrightarrow> my_superseded_by r' = my_superseded_by r)
             \<and> (a \<in> {MsRejected, MsForgotten, MsExpired} \<longrightarrow> r' = r)))"
proof (intro conjI allI impI)
  have ok: "store_ok E s"
    using stored_history.reach_good[OF store_after_reach[of E ops]] assms(1-3) by simp
  have star: "(store_move E)\<^sup>*\<^sup>* s t" using store_after_moves[of E later s] assms(1,2,4) by simp
  note kept = stored_history.star_kept[OF star ok]
  show "prefix (st_journal s) (st_journal t)" "prefix (st_domain_journal s) (st_domain_journal t)"
    using stored_protocol.star_kept[OF star ok] kept by simp_all
  show "map_of (pj_turns (st_projections t)) k = Some r"
    if "map_of (pj_turns (st_projections s)) k = Some r \<and> tr_state r \<noteq> ''active''" for k r
    using kept that unfolding facts_kept_def turns_kept_def by fastforce
  show "map_of (pj_permissions (st_projections t)) k = Some r"
    if "map_of (pj_permissions (st_projections s)) k = Some r \<and> pr_decision r \<noteq> ''pending''" for k r
    using kept that unfolding facts_kept_def permissions_kept_def by fastforce
  fix k r a
  assume row: "map_of (pj_memories (st_projections s)) k = Some r \<and> my_state r = memory_state_as_str a"
  then obtain r' where r': "map_of (pj_memories (st_projections t)) k = Some r'" "row_move\<^sup>*\<^sup>* r r'"
    using kept unfolding facts_kept_def memories_moved_def by blast
  obtain b where "my_state r' = memory_state_as_str b" "memory_move\<^sup>*\<^sup>* a b" using row_move_states[OF r'(2)] row by blast
  moreover have "a \<in> {MsRejected, MsForgotten, MsExpired} \<longrightarrow> r' = r" using ended_row_stays[OF r'(2)] row by auto
  ultimately show "\<exists>r' b. map_of (pj_memories (st_projections t)) k = Some r' \<and> my_state r' = memory_state_as_str b
      \<and> memory_move\<^sup>*\<^sup>* a b
      \<and> r' = r\<lparr>my_state := my_state r', my_updated_at := my_updated_at r', my_superseded_by := my_superseded_by r'\<rparr>
      \<and> (my_superseded_by r \<noteq> None \<longrightarrow> my_superseded_by r' = my_superseded_by r)
      \<and> (a \<in> {MsRejected, MsForgotten, MsExpired} \<longrightarrow> r' = r)"
    using r'(1) row_move_same[OF r'(2)] by blast
qed

theorem recorded_facts_final_witness:
  "map_of (pj_memories (st_projections (store_run example_env rejected_store (ConfirmMemory ''mem_0000000000000001'' 9))))
     ''mem_0000000000000001'' = Some (draft_row example_draft ''rejected'' ''inferred'' False 7)"
proof -
  let ?t = "store_run example_env rejected_store (ConfirmMemory ''mem_0000000000000001'' 9)"
  have later: "list_all (op_typed example_env) (example_op_list @ [ConfirmMemory ''mem_0000000000000001'' 9])"
    "\<not> list_ex appends_disguised (example_op_list @ [ConfirmMemory ''mem_0000000000000001'' 9])"
    using example_ops(1,2) by simp_all
  have t: "?t = store_after example_env rejected_store [ConfirmMemory ''mem_0000000000000001'' 9]"
    by (simp only: store_after_def foldl_Cons foldl_Nil)
  have "map_of (pj_memories (st_projections rejected_store)) ''mem_0000000000000001''
      = Some (draft_row example_draft ''rejected'' ''inferred'' False 7)"
    using example_folds(4) by (simp add: rejected_store_def grown_def)
  moreover have "my_state (draft_row example_draft ''rejected'' ''inferred'' False 7) = memory_state_as_str MsRejected" by simp
  ultimately show ?thesis
    using recorded_facts_final[OF later example_ops(3) t] by blast
qed

text \<open>C9: The search index is exact in every state a store can reach: a memory is in the index, once and with its
  content, exactly if it is confirmed and nothing supersedes it.\<close>

theorem search_index_exact:
  assumes "reach (\<lambda>s. s = fresh_store) (store_move E) s"
  shows "distinct (map fst (pj_memory_fts (st_projections s)))
    \<and> ((k, c) \<in> set (pj_memory_fts (st_projections s)) \<longleftrightarrow>
        (\<exists>r. map_of (pj_memories (st_projections s)) k = Some r \<and> my_state r = ''confirmed'' \<and> my_superseded_by r = None
           \<and> my_content r = c))"
  using stored_history.reach_good[OF assms]
  by (auto simp: store_ok_def domain_ok_def projections_ok_def index_exact_def retrievable_row_def)

theorem search_index_exact_witness:
  "(''mem_0000000000000001'', ''likes tea'') \<notin> set (pj_memory_fts (st_projections rejected_store))"
proof -
  have "map_of (pj_memories (st_projections rejected_store)) ''mem_0000000000000001''
      = Some (draft_row example_draft ''rejected'' ''inferred'' False 7)"
    using example_folds(4) by (simp add: rejected_store_def grown_def)
  then show ?thesis using search_index_exact[OF example_reach(3), of "''mem_0000000000000001''" "''likes tea''"] by simp
qed

text \<open>C8: A domain event is recorded exactly once. An append that reports success has put one row at the end of the
  journal under the next number; whatever operations follow, appending the same event again reports a duplicate with that
  number and changes nothing, and a different event under the same identifier is refused and changes nothing.\<close>

theorem append_exactly_once:
  assumes "reach (\<lambda>s. s = fresh_store) (store_move E) s" "event_ok (se_parse E) e"
    and "append_domain_event (se_parse E) s e = (Okay (Appended n), s')" "(store_move E)\<^sup>*\<^sup>* s' t"
  shows "n = int (length (st_domain_journal s)) + 1
    \<and> (\<exists>at. st_domain_journal s' = st_domain_journal s @ [durable_row e n at])
    \<and> append_domain_event (se_parse E) t e = (Okay (AppendDuplicate n), t)
    \<and> (de_event_id e' = de_event_id e \<and> e' \<noteq> e \<and> event_ok (se_parse E) e'
         \<and> length (de_payload e') \<le> journal_payload_max \<and> unat (de_occurred_at e') < 2 ^ 63
       \<longrightarrow> append_domain_event (se_parse E) t e' = (Err (EventIdCollision (de_event_id e) n), t))"
proof -
  obtain at p where g: "n = domain_seq s" "s' = grown s e at p" "i64_try_from (de_occurred_at e) = Some at"
    "existing_domain_event s (de_event_id e) = None" "length (de_payload e) \<le> journal_payload_max"
    by (rule append_domain_grown[OF assms(3)])
  have ok: "store_ok E s" using stored_history.reach_good[OF assms(1)] .
  have "store_ok E s'" using store_run_ok[OF ok, of "AppendDomainEvent e"] assms(2,3) by simp
  then have row: "existing_domain_event t (de_event_id e) = Some (durable_row e n at)"
    using stored_history.star_kept[OF assms(4)] grown_entry[OF g(4), of at p t] g(1,2) by simp
  have seq: "dj_seq (durable_row e n at) = n" by (simp add: durable_row_def)
  have other: "durable_row e n at \<noteq> durable_row e' n at'"
    if "e' \<noteq> e" "event_ok (se_parse E) e'" "i64_try_from (de_occurred_at e') = Some at'" for at'
  proof
    assume "durable_row e n at = durable_row e' n at'"
    then show False
      using event_of_durable_row[OF assms(2) g(3), of n] event_of_durable_row[OF that(2,3), of n] that(1) by simp
  qed
  have "append_domain_event (se_parse E) t e = (Okay (AppendDuplicate n), t)"
    using row g(3,5) by (simp add: append_domain_event_def seq)
  moreover have "append_domain_event (se_parse E) t e' = (Err (EventIdCollision (de_event_id e) n), t)"
    if h: "de_event_id e' = de_event_id e" "e' \<noteq> e" "event_ok (se_parse E) e'"
      "length (de_payload e') \<le> journal_payload_max" "unat (de_occurred_at e') < 2 ^ 63"
  proof -
    have "i64_try_from (de_occurred_at e') = Some (uint (de_occurred_at e'))" using h(5) by (simp add: i64_try_from_def)
    then show ?thesis using row h(1,4) other[OF h(2,3)] by (simp add: append_domain_event_def seq)
  qed
  moreover have "n = int (length (st_domain_journal s)) + 1" using g(1) ok by (simp add: store_ok_def domain_ok_def)
  moreover have "\<exists>at. st_domain_journal s' = st_domain_journal s @ [durable_row e n at]" using g(1,2) by (auto simp: grown_def)
  ultimately show ?thesis by blast
qed

theorem append_exactly_once_witness:
  "append_domain_event example_parse rejected_store proposal = (Okay (AppendDuplicate 1), rejected_store)"
proof -
  have "se_parse example_env = example_parse" by (simp add: example_env_def)
  moreover have "(store_move example_env)\<^sup>*\<^sup>* proposed_store rejected_store" using example_moves(2) by blast
  ultimately show ?thesis
    using append_exactly_once[OF example_reach(1), of proposal 1 proposed_store rejected_store] example_events_ok(1)
      example_appends(1) by auto
qed

text \<open>C10: A checkpoint settles once. A checkpoint that is no longer an intent keeps its row whatever operations follow,
  restarts included; settling it again with its state succeeds without a change, and with another final state it is refused
  without a change.\<close>

theorem checkpoint_settles_once:
  assumes "reach (\<lambda>s. s = fresh_store) (store_move E) s" "(store_move E)\<^sup>*\<^sup>* s t"
    and "map_of (st_checkpoints s) k = Some r" "cp_state r = checkpoint_state_as_str st" "st \<noteq> CkIntent"
  shows "map_of (st_checkpoints t) k = Some r
    \<and> (\<forall>new remote diag at. checkpoint_is_terminal new \<longrightarrow> settle_runtime_checkpoint t k new remote diag at
         = (if new = st then Okay ()
            else Err (CheckpointSettlementConflict k (checkpoint_state_as_str st) (checkpoint_state_as_str new)), t))"
proof -
  have "cp_state r \<noteq> ''intent''" using assms(4,5) by simp
  then have "map_of (st_checkpoints t) k = Some r"
    using checkpoints_kept_star[OF assms(2) checkpoint_table.reach_good[OF assms(1)]] assms(3)
    unfolding checkpoints_kept_def by blast
  then show ?thesis
    using assms(4,5) by (auto simp: settle_runtime_checkpoint_def checkpoint_state.roundtrip)
qed

theorem checkpoint_settles_once_witness:
  "settle_runtime_checkpoint settled_store ''chk_0000000000000001'' CkRejected None None 9
     = (Err (CheckpointSettlementConflict ''chk_0000000000000001'' ''confirmed'' ''rejected''), settled_store)"
proof -
  have "map_of (st_checkpoints settled_store) ''chk_0000000000000001'' = Some (intent_row\<lparr>cp_state := ''confirmed'', cp_settled_at := Some 6\<rparr>)"
    by (simp add: settled_store_def)
  then show ?thesis
    using checkpoint_settles_once[OF checkpoint_reach(2) rtranclp.rtrancl_refl, of "''chk_0000000000000001''" _ CkConfirmed]
    by (simp add: checkpoint_is_terminal_def)
qed

text \<open>C11: Opening a store again loses nothing and leaves no operation pending. After any sequence of operations in which
  no event of a disguised kind is appended it succeeds, both journals and all
  projections are what they were, every checkpoint that was still an intent is now indeterminate, every other one is
  unchanged, and a second opening changes no checkpoint. The hypothesis is SQLite's integrity check of the search
  index, which accepts an exact index.\<close>

theorem reopening_keeps_everything:
  assumes "list_all (op_typed E) ops" "\<not> list_ex appends_disguised ops" "s = store_after E fresh_store ops"
    and "\<And>p. index_exact p \<Longrightarrow> se_fts_ok E p"
    and "open_inner (se_parse E) (se_fts_ok E) s = (res, s')"
  shows "res = Okay () \<and> st_journal s' = st_journal s \<and> st_domain_journal s' = st_domain_journal s
    \<and> st_projections s' = st_projections s \<and> st_thread_projection s' = st_thread_projection s
    \<and> (\<forall>k. map_of (st_checkpoints s') k = map_option (\<lambda>r. if cp_state r = ''intent''
          then r\<lparr>cp_state := ''indeterminate'', cp_settled_at := Some (unwrap_or (cp_settled_at r) (cp_created_at r))\<rparr> else r)
          (map_of (st_checkpoints s) k))
    \<and> (\<forall>k r. map_of (st_checkpoints s') k = Some r \<longrightarrow> cp_state r \<noteq> ''intent'')
    \<and> st_checkpoints (snd (open_inner (se_parse E) (se_fts_ok E) s')) = st_checkpoints s'"
proof -
  have ok: "store_ok E s" using stored_history.reach_good[OF store_after_reach[OF assms(1,2)]] assms(3) by simp
  then have fts: "se_fts_ok E (st_projections s)" using assms(4) by (simp add: store_ok_def domain_ok_def projections_ok_def)
  have s': "s' = snd (open_inner (se_parse E) (se_fts_ok E) s)" "res = fst (open_inner (se_parse E) (se_fts_ok E) s)"
    using assms(5) by simp_all
  obtain n where n: "journals s' = journals (s\<lparr>st_domain_state := n\<rparr>)" "res = Okay ()"
    "st_checkpoints s' = st_checkpoints (snd (recover_unsettled_checkpoints s))"
    using open_same[OF ok, of "se_fts_ok E"] fts unfolding s' by metis
  have none: "st_checkpoints (snd (recover_unsettled_checkpoints s')) = st_checkpoints s'"
    unfolding n(3) by (simp add: recover_unsettled_checkpoints_def n(3) comp_def case_prod_beta cong: map_cong)
  then have again: "st_checkpoints (snd (open_inner (se_parse E) (se_fts_ok E) s')) = st_checkpoints s'"
    using open_checkpoints[of "se_parse E" "se_fts_ok E" s'] by simp
  have look: "map_of (st_checkpoints s') k = map_option (\<lambda>r. if cp_state r = ''intent''
      then r\<lparr>cp_state := ''indeterminate'', cp_settled_at := Some (unwrap_or (cp_settled_at r) (cp_created_at r))\<rparr> else r)
      (map_of (st_checkpoints s) k)" for k
    unfolding n(3) by (simp add: recover_unsettled_checkpoints_def map_of_recovered)
  have "cp_state r \<noteq> ''intent''" if row: "map_of (st_checkpoints s') k = Some r" for k r
  proof -
    obtain r0 where "map_of (st_checkpoints s) k = Some r0" using look[of k] row by (cases "map_of (st_checkpoints s) k") simp_all
    then show ?thesis using look[of k] row by (cases "cp_state r0 = ''intent''") auto
  qed
  moreover have "st_journal s' = st_journal s \<and> st_domain_journal s' = st_domain_journal s
      \<and> st_projections s' = st_projections s \<and> st_thread_projection s' = st_thread_projection s"
    using n(1) by (simp add: journals_iff)
  ultimately show ?thesis using n(2) again look by blast
qed

theorem reopening_keeps_everything_witness:
  "fst (open_inner example_parse (\<lambda>_. True) intent_store) = Okay ()
   \<and> map_of (st_checkpoints (snd (open_inner example_parse (\<lambda>_. True) intent_store))) ''chk_0000000000000001''
     = Some (intent_row\<lparr>cp_state := ''indeterminate'', cp_settled_at := Some 5\<rparr>)"
proof -
  let ?out = "open_inner (se_parse example_env) (se_fts_ok example_env) intent_store"
  have fts: "se_fts_ok example_env p" for p by (simp add: example_env_def)
  have out: "?out = (fst ?out, snd ?out)" by simp
  have env: "open_inner example_parse (\<lambda>_. True) intent_store = ?out" by (simp add: example_env_def)
  have row: "map_of (st_checkpoints intent_store) ''chk_0000000000000001'' = Some intent_row" "cp_state intent_row = ''intent''"
    "cp_settled_at intent_row = None" "cp_created_at intent_row = 5"
    by (simp_all add: intent_store_def intent_row_def)
  have op: "list_all (op_typed example_env) [RecordIntent example_checkpoint]"
    "\<not> list_ex appends_disguised [RecordIntent example_checkpoint]"
    "intent_store = store_after example_env fresh_store [RecordIntent example_checkpoint]"
    using intent_recorded by (simp_all add: store_after_def)
  note all = reopening_keeps_everything[OF op fts out]
  have "fst ?out = Okay ()" using all by blast
  moreover have "map_of (st_checkpoints (snd ?out)) ''chk_0000000000000001'' = map_option (\<lambda>r. if cp_state r = ''intent''
      then r\<lparr>cp_state := ''indeterminate'', cp_settled_at := Some (unwrap_or (cp_settled_at r) (cp_created_at r))\<rparr> else r)
      (map_of (st_checkpoints intent_store) ''chk_0000000000000001'')"
    using all by blast
  ultimately show ?thesis unfolding env by (simp add: row)
qed

end
