(* ===== verification/Storage_Identity.thy ===== *)
theory Storage_Identity
  imports Storage_Entities Context_Assembly
begin

text \<open>
  The device-local tables of \<open>crates/altior-storage/src/identity.rs\<close>: identity documents and the context snapshots of
  turns. serde_json's text of a snapshot is the pair of arguments \<open>to_json\<close> and \<open>from_json\<close>.
\<close>

section \<open>Tables\<close>

record identity_row =
  ir_kind :: string
  ir_content :: string
  ir_created_at :: int
  ir_updated_at :: int

record snapshot_row =
  sr_thread_id :: string
  sr_memory_mode :: string
  sr_passthrough :: int
  sr_created_at :: int
  sr_payload_json :: string

record identity_tables =
  it_documents :: "(string \<times> identity_row) list"
  it_snapshots :: "(string \<times> snapshot_row) list"

definition no_identity_tables :: identity_tables where
  "no_identity_tables = \<lparr>it_documents = [], it_snapshots = []\<rparr>"

section \<open>Identity documents\<close>

definition identity_document_count_max :: nat where
  "identity_document_count_max = 32"

definition row_to_identity_document :: "string \<times> identity_row \<Rightarrow> (storage_error, identity_document) result" where
  "row_to_identity_document = (\<lambda>(k, r).
     and_then (entity_ok (id_from_str identity_document_prefix k) (''invalid identity_document_id '' @ k)) (\<lambda>i.
     and_then (entity_ok (identity_kind_try_from_str (ir_kind r)) (''invalid identity kind '' @ ir_kind r)) (\<lambda>kind.
     and_then (entity_ok (identity_content_try_from (ir_content r)) ''invalid identity content: '') (\<lambda>content.
     and_then (millis (ir_created_at r) ''negative created_at '') (\<lambda>created.
     and_then (millis (ir_updated_at r) ''negative updated_at '') (\<lambda>updated.
       let doc = \<lparr>id_doc_id = i, id_doc_kind = kind, id_doc_content = content, id_doc_created_at = created,
         id_doc_updated_at = updated\<rparr> in
       and_then (entity_ok (identity_validate doc) ''identity document invariant violated: '') (\<lambda>_. Okay doc)))))))"

definition put_identity_document :: "identity_tables \<Rightarrow> identity_document \<Rightarrow> (storage_error, unit) result \<times> identity_tables" where
  "put_identity_document s d =
     (if is_secret_shaped (id_doc_content d) then (Err SecretShapedContent, s)
      else case and_then (entity_ok (identity_validate d) []) (\<lambda>_.
                and_then (column_millis (id_doc_created_at d) ''created_at exceeds i64'') (\<lambda>created.
                and_then (column_millis (id_doc_updated_at d) ''updated_at exceeds i64'') (\<lambda>updated. Okay (created, updated)))) of
        Inl e \<Rightarrow> (Err e, s)
      | Inr (created, updated) \<Rightarrow>
          (case map_of (it_documents s) (id_doc_id d) of
             Some r \<Rightarrow>
               (if ir_kind r = identity_kind_as_str (id_doc_kind d) \<and> ir_content r = id_doc_content d then Okay ()
                else Err (IdentityDocumentConflict (id_doc_id d)), s)
           | None \<Rightarrow>
               if length (it_documents s) \<ge> identity_document_count_max
               then (Err (IdentityDocumentCountExceeded (length (it_documents s)) identity_document_count_max), s)
               else (Okay (), s\<lparr>it_documents := bt_insert (id_doc_id d)
                      \<lparr>ir_kind = identity_kind_as_str (id_doc_kind d), ir_content = id_doc_content d, ir_created_at = created,
                       ir_updated_at = updated\<rparr> (it_documents s)\<rparr>)))"

definition create_identity_document :: "identity_tables \<Rightarrow> identity_document \<Rightarrow> (storage_error, unit) result \<times> identity_tables" where
  "create_identity_document s d = put_identity_document s d"

definition get_identity_document :: "identity_tables \<Rightarrow> string \<Rightarrow> (storage_error, identity_document option) result" where
  "get_identity_document s k = query_optional_row row_to_identity_document (it_documents s) k"

definition update_identity_document :: "identity_tables \<Rightarrow> identity_document \<Rightarrow> (storage_error, unit) result \<times> identity_tables" where
  "update_identity_document s d =
     (case entity_ok (identity_validate d) [] of
        Inl e \<Rightarrow> (Err e, s)
      | Inr _ \<Rightarrow>
          if is_secret_shaped (id_doc_content d) then (Err SecretShapedContent, s)
          else (case column_millis (id_doc_updated_at d) ''updated_at exceeds i64'' of
                  Inl e \<Rightarrow> (Err e, s)
                | Inr updated \<Rightarrow>
                    if map_of (it_documents s) (id_doc_id d) = None then (Err (IdentityDocumentNotFound (id_doc_id d)), s)
                    else (Okay (), s\<lparr>it_documents := update_row (id_doc_id d) (\<lambda>r. r\<lparr>ir_kind := identity_kind_as_str (id_doc_kind d),
                           ir_content := id_doc_content d, ir_updated_at := updated\<rparr>) (it_documents s)\<rparr>)))"

definition delete_identity_document :: "identity_tables \<Rightarrow> string \<Rightarrow> (storage_error, unit) result \<times> identity_tables" where
  "delete_identity_document s k =
     (if map_of (it_documents s) k = None then (Err (IdentityDocumentNotFound k), s)
      else (Okay (), s\<lparr>it_documents := bt_remove k (it_documents s)\<rparr>))"

text \<open>The \<open>CASE\<close> expression of the listing's order.\<close>

definition kind_rank :: "string \<Rightarrow> int" where
  "kind_rank k = (if k = ''name'' then 0 else if k = ''about'' then 1 else if k = ''instruction'' then 2
     else if k = ''preference'' then 3 else 4)"

definition list_identity_documents :: "identity_tables \<Rightarrow> u32 \<Rightarrow> (storage_error, identity_document list) result" where
  "list_identity_documents s limit =
     collect_rows row_to_identity_document
       (take (unat limit) (sort_key (\<lambda>(k, r). (kind_rank (ir_kind r), ir_created_at r, k)) (it_documents s)))"

definition count_identity_documents :: "identity_tables \<Rightarrow> nat" where
  "count_identity_documents s = length (it_documents s)"

section \<open>Context snapshots\<close>

definition validate_snapshot_secrets :: "context_snapshot \<Rightarrow> (storage_error, unit) result" where
  "validate_snapshot_secrets c =
     (if list_ex (\<lambda>m. is_secret_shaped (cm_why_selected m)) (cs_memories c) then Err SecretShapedContent
      else if (case cs_degraded c of None \<Rightarrow> False | Some d \<Rightarrow> is_secret_shaped (cd_code d) \<or> is_secret_shaped (cd_detail d))
      then Err SecretShapedContent
      else if (case cs_rendered_prompt c of None \<Rightarrow> False | Some p \<Rightarrow> is_secret_shaped p) then Err SecretShapedContent
      else Okay ())"

definition record_context_snapshot ::
  "(context_snapshot \<Rightarrow> string option) \<Rightarrow> (string \<Rightarrow> context_snapshot option) \<Rightarrow> identity_tables \<Rightarrow> context_snapshot
   \<Rightarrow> (storage_error, unit) result \<times> identity_tables" where
  "record_context_snapshot to_json from_json s c =
     (case validate_snapshot_secrets c of
        Inl e \<Rightarrow> (Err e, s)
      | Inr _ \<Rightarrow>
          (case to_json c of
             None \<Rightarrow> (Err (InvalidEntityData ''failed to serialize ContextSnapshot to JSON: ''), s)
           | Some payload \<Rightarrow>
               if is_secret_shaped payload then (Err SecretShapedContent, s)
               else if length payload > context_snapshot_payload_max_bytes
               then (Err (JournalPayloadTooLarge (length payload) context_snapshot_payload_max_bytes), s)
               else (case column_millis (cs_created_at c) ''created_at exceeds i64'' of
                       Inl e \<Rightarrow> (Err e, s)
                     | Inr created \<Rightarrow>
                         (case map_of (it_snapshots s) (cs_turn_id c) of
                            Some r \<Rightarrow>
                              (if sr_payload_json r = payload \<or> from_json (sr_payload_json r) = Some c then Okay ()
                               else Err (ContextSnapshotConflict (cs_turn_id c)), s)
                          | None \<Rightarrow>
                              (Okay (), s\<lparr>it_snapshots := bt_insert (cs_turn_id c)
                                 \<lparr>sr_thread_id = cs_thread_id c, sr_memory_mode = cs_memory_mode c,
                                  sr_passthrough = of_bool (cs_passthrough c), sr_created_at = created,
                                  sr_payload_json = payload\<rparr> (it_snapshots s)\<rparr>)))))"

definition snapshot_of_row :: "(string \<Rightarrow> context_snapshot option) \<Rightarrow> string \<times> snapshot_row \<Rightarrow> (storage_error, context_snapshot) result" where
  "snapshot_of_row from_json = (\<lambda>(k, r).
     case from_json (sr_payload_json r) of None \<Rightarrow> Err (ContextSnapshotCorrupt k []) | Some c \<Rightarrow> Okay c)"

definition get_context_snapshot ::
  "(string \<Rightarrow> context_snapshot option) \<Rightarrow> identity_tables \<Rightarrow> string \<Rightarrow> (storage_error, context_snapshot option) result" where
  "get_context_snapshot from_json s turn = query_optional_row (snapshot_of_row from_json) (it_snapshots s) turn"

text \<open>\<open>ORDER BY created_at DESC, turn_id DESC\<close>.\<close>

definition list_context_snapshots_for_thread ::
  "(string \<Rightarrow> context_snapshot option) \<Rightarrow> identity_tables \<Rightarrow> string \<Rightarrow> u32 \<Rightarrow> (storage_error, context_snapshot list) result" where
  "list_context_snapshots_for_thread from_json s t limit =
     collect_rows (snapshot_of_row from_json)
       (take (unat limit) (rev (sort_key (\<lambda>(k, r). (sr_created_at r, k)) (filter (\<lambda>(k, r). sr_thread_id r = t) (it_snapshots s)))))"

section \<open>Reachable tables\<close>

datatype identity_op =
    PutDocument identity_document
  | UpdateDocument identity_document
  | DeleteDocument string
  | RecordSnapshot context_snapshot

fun identity_run ::
  "(context_snapshot \<Rightarrow> string option) \<Rightarrow> (string \<Rightarrow> context_snapshot option) \<Rightarrow> identity_tables \<Rightarrow> identity_op \<Rightarrow> identity_tables" where
  "identity_run to_json from_json s (PutDocument d) = snd (put_identity_document s d)"
| "identity_run to_json from_json s (UpdateDocument d) = snd (update_identity_document s d)"
| "identity_run to_json from_json s (DeleteDocument k) = snd (delete_identity_document s k)"
| "identity_run to_json from_json s (RecordSnapshot c) = snd (record_context_snapshot to_json from_json s c)"

definition identity_move where
  "identity_move to_json from_json s s' \<longleftrightarrow> (\<exists>op. s' = identity_run to_json from_json s op)"

definition document_row_ok :: "identity_row \<Rightarrow> bool" where
  "document_row_ok r \<longleftrightarrow> \<not> is_secret_shaped (ir_content r) \<and> 0 \<le> ir_created_at r \<and> ir_created_at r < 2 ^ 63"

text \<open>The free texts of a snapshot.\<close>

definition snapshot_texts :: "context_snapshot \<Rightarrow> string list" where
  "snapshot_texts c = map cm_why_selected (cs_memories c)
     @ (case cs_degraded c of None \<Rightarrow> [] | Some d \<Rightarrow> [cd_code d, cd_detail d])
     @ (case cs_rendered_prompt c of None \<Rightarrow> [] | Some p \<Rightarrow> [p])"

text \<open>A row written for a snapshot.\<close>

definition row_of_snapshot :: "(context_snapshot \<Rightarrow> string option) \<Rightarrow> context_snapshot \<Rightarrow> string \<Rightarrow> snapshot_row \<Rightarrow> bool" where
  "row_of_snapshot to_json c k r \<longleftrightarrow> cs_turn_id c = k \<and> to_json c = Some (sr_payload_json r)
     \<and> sr_thread_id r = cs_thread_id c \<and> sr_memory_mode r = cs_memory_mode c
     \<and> sr_passthrough r = of_bool (cs_passthrough c) \<and> sr_created_at r = uint (cs_created_at c)"

definition snapshot_row_ok :: "(context_snapshot \<Rightarrow> string option) \<Rightarrow> string \<Rightarrow> snapshot_row \<Rightarrow> bool" where
  "snapshot_row_ok to_json k r \<longleftrightarrow> \<not> is_secret_shaped (sr_payload_json r)
     \<and> length (sr_payload_json r) \<le> context_snapshot_payload_max_bytes
     \<and> (\<exists>c. row_of_snapshot to_json c k r \<and> list_all (\<lambda>t. \<not> is_secret_shaped t) (snapshot_texts c))"

definition identity_ok :: "(context_snapshot \<Rightarrow> string option) \<Rightarrow> identity_tables \<Rightarrow> bool" where
  "identity_ok to_json s \<longleftrightarrow> bt_ok (it_documents s) \<and> length (it_documents s) \<le> identity_document_count_max
     \<and> (\<forall>k r. map_of (it_documents s) k = Some r \<longrightarrow> document_row_ok r)
     \<and> bt_ok (it_snapshots s) \<and> (\<forall>k r. map_of (it_snapshots s) k = Some r \<longrightarrow> snapshot_row_ok to_json k r)"

lemma snapshot_texts_clean:
  "validate_snapshot_secrets c = Okay () \<longleftrightarrow> list_all (\<lambda>t. \<not> is_secret_shaped t) (snapshot_texts c)"
  by (auto simp: validate_snapshot_secrets_def snapshot_texts_def list_all_iff list_ex_iff split: option.split)

lemma column_millis_iff: "column_millis t d = Okay i \<longleftrightarrow> unat t < 2 ^ 63 \<and> i = uint t"
  by (auto simp: column_millis_def i64_try_from_def)

lemma uint_small: "unat t < 9223372036854775808 \<Longrightarrow> uint (t :: u64) < 9223372036854775808"
proof -
  assume "unat t < 9223372036854775808"
  then have "int (unat t) < int 9223372036854775808" by (simp only: of_nat_less_iff)
  then show ?thesis by simp
qed

lemma put_document_ok: "identity_ok to_json s \<Longrightarrow> identity_ok to_json (snd (put_identity_document s d))"
  by (auto simp: put_identity_document_def identity_ok_def document_row_ok_def bt_insert_ok bt_insert_length_new
      and_then_Okay_iff column_millis_iff uint_small split: sum.splits option.splits)

lemma length_update_row: "length (update_row k f m) = length m"
  by (simp add: update_row_def)

lemma update_document_ok: "identity_ok to_json s \<Longrightarrow> identity_ok to_json (snd (update_identity_document s d))"
  by (auto simp: update_identity_document_def identity_ok_def document_row_ok_def length_update_row split: sum.splits option.splits)

lemma length_bt_remove: "length (bt_remove k m) \<le> length m"
  by (simp add: bt_remove_def)

lemma delete_document_ok: "identity_ok to_json s \<Longrightarrow> identity_ok to_json (snd (delete_identity_document s k))"
  by (auto simp: delete_identity_document_def identity_ok_def bt_remove_ok intro: order_trans[OF length_bt_remove] split: if_splits)

lemma record_snapshot_cases:
  obtains "snd (record_context_snapshot to_json from_json s c) = s"
  | r where "snapshot_row_ok to_json (cs_turn_id c) r"
      "snd (record_context_snapshot to_json from_json s c) = s\<lparr>it_snapshots := bt_insert (cs_turn_id c) r (it_snapshots s)\<rparr>"
proof (cases "\<exists>payload. validate_snapshot_secrets c = Okay () \<and> to_json c = Some payload \<and> \<not> is_secret_shaped payload
    \<and> length payload \<le> context_snapshot_payload_max_bytes \<and> unat (cs_created_at c) < 2 ^ 63
    \<and> map_of (it_snapshots s) (cs_turn_id c) = None")
  case True
  then obtain payload where p: "validate_snapshot_secrets c = Okay ()" "to_json c = Some payload" "\<not> is_secret_shaped payload"
    "length payload \<le> context_snapshot_payload_max_bytes" "map_of (it_snapshots s) (cs_turn_id c) = None"
    and m: "column_millis (cs_created_at c) ''created_at exceeds i64'' = Okay (uint (cs_created_at c))"
    using column_millis_iff by blast
  let ?r = "\<lparr>sr_thread_id = cs_thread_id c, sr_memory_mode = cs_memory_mode c, sr_passthrough = of_bool (cs_passthrough c),
     sr_created_at = uint (cs_created_at c), sr_payload_json = payload\<rparr>"
  have "row_of_snapshot to_json c (cs_turn_id c) ?r" using p(2) by (simp add: row_of_snapshot_def)
  then have "snapshot_row_ok to_json (cs_turn_id c) ?r"
    using p(1,3,4) snapshot_texts_clean unfolding snapshot_row_ok_def by auto
  then show thesis using that(2) p m by (simp add: record_context_snapshot_def)
next
  case False
  then have "snd (record_context_snapshot to_json from_json s c) = s"
    by (auto simp: record_context_snapshot_def column_millis_iff split: sum.splits option.splits)
  then show thesis by (rule that(1))
qed

lemma record_snapshot_ok: "identity_ok to_json s \<Longrightarrow> identity_ok to_json (snd (record_context_snapshot to_json from_json s c))"
  by (rule record_snapshot_cases[of to_json from_json s c]) (auto simp: identity_ok_def bt_insert_ok)

interpretation identity_store: guarded_machine "\<lambda>s. s = no_identity_tables" "identity_move to_json from_json" "identity_ok to_json" for to_json from_json
proof unfold_locales
  show "s = no_identity_tables \<Longrightarrow> identity_ok to_json s" for s by (simp add: no_identity_tables_def identity_ok_def)
  fix s t
  assume s: "identity_ok to_json s" "identity_move to_json from_json s t"
  then obtain op where "t = identity_run to_json from_json s op" by (auto simp: identity_move_def)
  then show "identity_ok to_json t"
    using s(1) by (cases op) (auto simp: put_document_ok update_document_ok delete_document_ok record_snapshot_ok)
qed

text \<open>A recorded snapshot stays as it is.\<close>

lemma snapshot_kept:
  assumes "identity_ok to_json s" "identity_move to_json from_json s t" "map_of (it_snapshots s) k = Some r"
  shows "map_of (it_snapshots t) k = Some r"
proof -
  obtain op where "t = identity_run to_json from_json s op" using assms(2) by (auto simp: identity_move_def)
  then show ?thesis
    using assms(1,3)
    by (cases op) (auto simp: put_identity_document_def update_identity_document_def delete_identity_document_def
        record_context_snapshot_def identity_ok_def split: sum.splits option.splits)
qed

lemma snapshots_kept:
  assumes "(identity_move to_json from_json)\<^sup>*\<^sup>* s t" "identity_ok to_json s" "map_of (it_snapshots s) k = Some r"
  shows "map_of (it_snapshots t) k = Some r"
  using assms(1)
proof (induction rule: rtranclp_induct)
  case (step t u)
  then show ?case using snapshot_kept identity_store.star_good[OF step.hyps(1) assms(2)] by blast
qed (rule assms(3))

section \<open>Listing\<close>

lemma collect_rows_iff: "collect_rows f xs = Okay ys \<longleftrightarrow> list_all2 (\<lambda>x y. f x = Okay y) xs ys"
proof (induction xs arbitrary: ys)
  case (Cons x xs)
  then show ?case by (cases ys) (auto simp: and_then_Okay_iff)
qed auto

lemma rank_priority: "identity_kind_try_from_str v = Okay k \<Longrightarrow> kind_rank v = int (render_priority k)"
  by (cases k) (auto simp: identity_kind.parse_iff kind_rank_def)

lemma entity_ok_iff [simp]: "entity_ok r d = Okay x \<longleftrightarrow> r = Okay x"
  by (cases r) (auto simp: entity_ok_def)

lemma document_of_row:
  assumes "row_to_identity_document (k, r) = Okay d"
  shows "id_doc_id d = k" "kind_rank (ir_kind r) = int (render_priority (id_doc_kind d))"
    "millis (ir_created_at r) ''negative created_at '' = Okay (id_doc_created_at d)"
  using assms by (auto simp: row_to_identity_document_def and_then_Okay_iff Let_def rank_priority id_from_str_def
      split: sum.splits if_splits)

text \<open>Two rows compare in the listing as their documents compare in the assembler.\<close>

lemma listing_key:
  assumes "row_to_identity_document (k, r) = Okay d" "row_to_identity_document (k', r') = Okay d'"
    and "document_row_ok r" "document_row_ok r'"
    and "(kind_rank (ir_kind r), ir_created_at r, k) \<le> (kind_rank (ir_kind r'), ir_created_at r', k')"
  shows "identity_key d \<le> identity_key d'"
proof -
  have word: "id_doc_created_at d = word_of_int (ir_created_at r)" "id_doc_created_at d' = word_of_int (ir_created_at r')"
    using document_of_row(3)[OF assms(1)] document_of_row(3)[OF assms(2)]
    by (auto simp: millis_def u64_try_from_def split: if_splits)
  have same: "uint (word_of_int x :: u64) = x" if "0 \<le> x" "x < 2 ^ 63" for x
    using that by (simp add: uint_word_of_int)
  have "(word_of_int x :: u64) < word_of_int y \<longleftrightarrow> x < y" "(word_of_int x :: u64) = word_of_int y \<longleftrightarrow> x = y"
    if "0 \<le> x" "x < 2 ^ 63" "0 \<le> y" "y < 2 ^ 63" for x y
    using same[OF that(1,2)] same[OF that(3,4)] by (simp_all only: word_less_def word_uint_eq_iff)
  then show ?thesis
    using assms(3-5) document_of_row(1,2)[OF assms(1)] document_of_row(1,2)[OF assms(2)]
    by (auto simp: identity_key_def word document_row_ok_def less_eq_prod_def)
qed

lemma listed_in_render_order:
  assumes "identity_ok to_json s" "list_identity_documents s limit = Okay docs"
  shows "sort_by identity_cmp docs = docs"
proof -
  let ?K = "\<lambda>(k, r). (kind_rank (ir_kind r), ir_created_at r, k)"
  define rows where "rows = take (unat limit) (sort_key ?K (it_documents s))"
  have rel: "list_all2 (\<lambda>x y. row_to_identity_document x = Okay y) rows docs"
    using assms(2) by (simp add: list_identity_documents_def collect_rows_iff rows_def)
  have fine: "document_row_ok r" if "(k, r) \<in> set rows" for k r
  proof -
    have mem: "(k, r) \<in> set (it_documents s)" using that in_set_takeD unfolding rows_def by fastforce
    have "bt_ok (it_documents s)" using assms(1) by (simp add: identity_ok_def)
    then have "map_of (it_documents s) k = Some r" using map_of_is_SomeI[OF bt_ok_distinct mem] by blast
    then show ?thesis using assms(1) by (auto simp: identity_ok_def)
  qed
  have "sorted_wrt (\<lambda>x y. ?K x \<le> ?K y) rows"
    using sorted_sort_key[of ?K "it_documents s"] unfolding rows_def by (simp add: sorted_wrt_map sorted_wrt_take)
  then have sorted: "sorted_wrt (\<lambda>a b. identity_key a \<le> identity_key b) docs"
    unfolding sorted_wrt_iff_nth_less
  proof (intro allI impI)
    fix i j
    assume le: "\<forall>i j. i < j \<longrightarrow> j < length rows \<longrightarrow> ?K (rows ! i) \<le> ?K (rows ! j)" and ij: "i < j" "j < length docs"
    have len: "length rows = length docs" using rel by (rule list_all2_lengthD)
    obtain k r where i: "rows ! i = (k, r)" by fastforce
    obtain k' r' where j: "rows ! j = (k', r')" by fastforce
    note at = i j
    have "row_to_identity_document (k, r) = Okay (docs ! i)" "row_to_identity_document (k', r') = Okay (docs ! j)"
      using list_all2_nthD[OF rel, of i] list_all2_nthD[OF rel, of j] ij len at by simp_all
    moreover have "document_row_ok r" "document_row_ok r'"
      using fine[of k r] fine[of k' r'] at nth_mem[of i rows] nth_mem[of j rows] ij len by simp_all
    moreover have "?K (k, r) \<le> ?K (k', r')" using le[rule_format, of i j] ij len at by simp
    ultimately show "identity_key (docs ! i) \<le> identity_key (docs ! j)" by (simp add: listing_key)
  qed
  have "map id_doc_id docs = map fst rows"
    using rel by (induction rule: list_all2_induct) (auto simp: document_of_row(1))
  moreover have distinct_keys: "distinct (map fst (sort_key ?K (it_documents s)))"
  proof -
    have "distinct (map fst (it_documents s))" using assms(1) by (intro bt_ok_distinct) (simp add: identity_ok_def)
    moreover have "mset (map fst (sort_key ?K (it_documents s))) = mset (map fst (it_documents s))" by simp
    ultimately show ?thesis using mset_eq_imp_distinct_iff by blast
  qed
  ultimately have distinct: "distinct (map id_doc_id docs)"
    using distinct_keys unfolding rows_def by (simp add: distinct_take flip: take_map)
  show ?thesis
  proof (rule identity_order.sorted_unique)
    show "mset (sort_by identity_cmp docs) = mset docs" by (rule identity_order.mset_sort)
    show "sorted_wrt (\<lambda>a b. identity_key a \<le> identity_key b) (sort_by identity_cmp docs)"
      by (rule identity_order.sorted_sort) (simp add: list_all_iff)
    show "x = y" if "x \<in> set (sort_by identity_cmp docs)" "y \<in> set (sort_by identity_cmp docs)"
      "identity_key x \<le> identity_key y" "identity_key y \<le> identity_key x" for x y
      using that distinct by (auto simp: identity_order.set_sort identity_key_def distinct_map inj_on_def less_eq_prod_def)
  qed (rule sorted)
qed

section \<open>Properties\<close>

text \<open>C33: In every state the identity tables can reach there are at most 32 documents, and no document holds
  secret-shaped text. Every recorded snapshot row was written for a snapshot of its turn, with that snapshot's thread,
  mode, flag, time and JSON text; none of the free texts of that snapshot (the reasons of its memories, the code
  and the detail of its degradation, the rendered prompt) is secret-shaped, nor is the JSON text, which fits its
  bound; the row never changes whatever operations follow; and reading it back gives that snapshot when parsing
  inverts serialising. The documents are listed in the order in which the context assembler renders them, so that
  sorting them again changes nothing.\<close>

theorem identity_store_sound:
  assumes "reach (\<lambda>s. s = no_identity_tables) (identity_move to_json from_json) s"
  shows "count_identity_documents s \<le> 32
    \<and> (\<forall>k r. map_of (it_documents s) k = Some r \<longrightarrow> \<not> is_secret_shaped (ir_content r))
    \<and> (\<forall>k r. map_of (it_snapshots s) k = Some r \<longrightarrow>
         \<not> is_secret_shaped (sr_payload_json r) \<and> length (sr_payload_json r) \<le> context_snapshot_payload_max_bytes
         \<and> (\<exists>c. row_of_snapshot to_json c k r \<and> list_all (\<lambda>t. \<not> is_secret_shaped t) (snapshot_texts c)
              \<and> ((\<forall>c j. to_json c = Some j \<longrightarrow> from_json j = Some c) \<longrightarrow>
                   get_context_snapshot from_json s k = Okay (Some c)))
         \<and> (\<forall>t. (identity_move to_json from_json)\<^sup>*\<^sup>* s t \<longrightarrow> map_of (it_snapshots t) k = Some r))
    \<and> (\<forall>limit docs. list_identity_documents s limit = Okay docs \<longrightarrow> sort_by identity_cmp docs = docs)"
proof -
  have ok: "identity_ok to_json s" using identity_store.reach_good[OF assms] .
  have n: "count_identity_documents s \<le> 32"
    using ok by (simp add: identity_ok_def count_identity_documents_def identity_document_count_max_def)
  have docs: "\<forall>k r. map_of (it_documents s) k = Some r \<longrightarrow> \<not> is_secret_shaped (ir_content r)"
    using ok by (simp add: identity_ok_def document_row_ok_def)
  have read: "get_context_snapshot from_json s k = Okay (Some c)"
    if "map_of (it_snapshots s) k = Some r" "row_of_snapshot to_json c k r"
      "\<forall>c j. to_json c = Some j \<longrightarrow> from_json j = Some c" for k r c
  proof -
    have "from_json (sr_payload_json r) = Some c" using that(2,3) by (simp add: row_of_snapshot_def)
    then show ?thesis using that(1) by (simp add: get_context_snapshot_def query_optional_row_def snapshot_of_row_def)
  qed
  have "snapshot_row_ok to_json k r" if "map_of (it_snapshots s) k = Some r" for k r
    using that ok by (simp add: identity_ok_def)
  then have "\<not> is_secret_shaped (sr_payload_json r) \<and> length (sr_payload_json r) \<le> context_snapshot_payload_max_bytes
      \<and> (\<exists>c. row_of_snapshot to_json c k r \<and> list_all (\<lambda>t. \<not> is_secret_shaped t) (snapshot_texts c)
           \<and> ((\<forall>c j. to_json c = Some j \<longrightarrow> from_json j = Some c) \<longrightarrow> get_context_snapshot from_json s k = Okay (Some c)))"
    if "map_of (it_snapshots s) k = Some r" for k r
    using that read[OF that] unfolding snapshot_row_ok_def by blast
  then show ?thesis using n docs snapshots_kept[OF _ ok] listed_in_render_order[OF ok] by blast
qed

text \<open>An example: a name and, put first, a preference.\<close>

definition example_document :: "string \<Rightarrow> identity_document_kind \<Rightarrow> string \<Rightarrow> u64 \<Rightarrow> u64 \<Rightarrow> identity_document" where
  "example_document i kind content created updated = \<lparr>id_doc_id = i, id_doc_kind = kind, id_doc_content = content,
     id_doc_created_at = created, id_doc_updated_at = updated\<rparr>"

definition example_row :: "string \<Rightarrow> string \<Rightarrow> int \<Rightarrow> int \<Rightarrow> identity_row" where
  "example_row kind content created updated = \<lparr>ir_kind = kind, ir_content = content, ir_created_at = created, ir_updated_at = updated\<rparr>"

definition example_snapshot :: context_snapshot where
  "example_snapshot = \<lparr>cs_turn_id = ''trn_a'', cs_thread_id = ''thr_a'', cs_memory_mode = ''all'', cs_created_at = 7,
     cs_passthrough = True, cs_budget = \<lparr>tb_identity_limit = 0, tb_memory_limit = 0, tb_prompt = 1, tb_identity = 0, tb_memory = 0, tb_total = 1\<rparr>, cs_identity = [],
     cs_memories = [], cs_dropped = [], cs_degraded = None, cs_rendered_prompt = Some ''hi''\<rparr>"

definition example_to_json :: "context_snapshot \<Rightarrow> string option" where
  "example_to_json c = (if c = example_snapshot then Some ''snap'' else None)"

definition example_from_json :: "string \<Rightarrow> context_snapshot option" where
  "example_from_json j = (if j = ''snap'' then Some example_snapshot else None)"

definition example_tables :: "snapshot_row list \<Rightarrow> identity_tables" where
  "example_tables rs = \<lparr>it_documents = [(''idd_0000000000000001'', example_row ''name'' ''Ann'' 5 6)],
     it_snapshots = map (\<lambda>r. (''trn_a'', r)) rs\<rparr>"

definition example_snapshot_row :: snapshot_row where
  "example_snapshot_row = \<lparr>sr_thread_id = ''thr_a'', sr_memory_mode = ''all'', sr_passthrough = 1, sr_created_at = 7,
     sr_payload_json = ''snap''\<rparr>"

lemma example_put: "identity_move example_to_json example_from_json no_identity_tables (example_tables [])"
  unfolding identity_move_def
proof (rule exI[of _ "PutDocument (example_document ''idd_0000000000000001'' IdName ''Ann'' 5 6)"])
  have "\<not> is_secret_shaped ''Ann''" by code_simp
  moreover have "i64_try_from 5 = Some 5" "i64_try_from 6 = Some 6" by (simp_all add: i64_try_from_def)
  ultimately show "example_tables []
      = identity_run example_to_json example_from_json no_identity_tables (PutDocument (example_document ''idd_0000000000000001'' IdName ''Ann'' 5 6))"
    by (simp add: put_identity_document_def example_document_def example_row_def no_identity_tables_def entity_ok_def identity_validate_def
        column_millis_def identity_document_count_max_def example_tables_def)
qed

lemma example_record: "identity_move example_to_json example_from_json (example_tables []) (example_tables [example_snapshot_row])"
  unfolding identity_move_def
proof (rule exI[of _ "RecordSnapshot example_snapshot"])
  have "\<not> is_secret_shaped ''hi''" "\<not> is_secret_shaped ''snap''" by code_simp+
  moreover have "i64_try_from 7 = Some 7" by (simp add: i64_try_from_def)
  ultimately show "example_tables [example_snapshot_row]
      = identity_run example_to_json example_from_json (example_tables []) (RecordSnapshot example_snapshot)"
    by (simp add: record_context_snapshot_def validate_snapshot_secrets_def example_to_json_def example_snapshot_def
        context_snapshot_payload_max_bytes_def column_millis_def example_tables_def example_snapshot_row_def)
qed

theorem identity_store_sound_witness:
  "\<not> is_secret_shaped (sr_payload_json example_snapshot_row)
   \<and> (\<exists>c. row_of_snapshot example_to_json c ''trn_a'' example_snapshot_row
        \<and> list_all (\<lambda>t. \<not> is_secret_shaped t) (snapshot_texts c) \<and> snapshot_texts c = [''hi'']
        \<and> get_context_snapshot example_from_json (example_tables [example_snapshot_row]) ''trn_a'' = Okay (Some c))"
proof -
  let ?R = "reach (\<lambda>s. s = no_identity_tables) (identity_move example_to_json example_from_json)"
  have r0: "?R no_identity_tables" by (rule reach_start) simp
  have r1: "?R (example_tables [])" by (rule reach_move[OF r0]) (rule example_put)
  have r: "?R (example_tables [example_snapshot_row])" by (rule reach_move[OF r1]) (rule example_record)
  have j: "\<forall>c j. example_to_json c = Some j \<longrightarrow> example_from_json j = Some c"
    by (simp add: example_to_json_def example_from_json_def)
  have row: "map_of (it_snapshots (example_tables [example_snapshot_row])) ''trn_a'' = Some example_snapshot_row"
    by (simp add: example_tables_def)
  note stored = identity_store_sound[OF r, THEN conjunct2, THEN conjunct2, THEN conjunct1, THEN spec, THEN spec, THEN mp, OF row]
  have texts: "snapshot_texts c = [''hi'']" if "row_of_snapshot example_to_json c ''trn_a'' example_snapshot_row" for c
    using that by (simp add: row_of_snapshot_def example_to_json_def example_snapshot_def snapshot_texts_def split: if_splits)
  show ?thesis
    using stored j by (elim conjE exE, intro conjI exI) (assumption | erule texts | erule mp)+
qed

text \<open>An update is checked against the creation time the caller passes, not against the stored one: after it the document
  and every listing that reaches it can no longer be read.\<close>

theorem update_blocks_listing:
  "\<exists>s. fst (update_identity_document \<lparr>it_documents = [(''idd_0000000000000001'', example_row ''name'' ''Ann'' 5 6)], it_snapshots = []\<rparr>
          (example_document ''idd_0000000000000001'' IdName ''Ann'' 1 2)) = Okay ()
     \<and> snd (update_identity_document \<lparr>it_documents = [(''idd_0000000000000001'', example_row ''name'' ''Ann'' 5 6)], it_snapshots = []\<rparr>
          (example_document ''idd_0000000000000001'' IdName ''Ann'' 1 2)) = s
     \<and> list_identity_documents s 32 = Err (InvalidEntityData ''identity document invariant violated: '')"
proof -
  have c: "\<not> is_secret_shaped ''Ann''" "id_from_str identity_document_prefix ''idd_0000000000000001'' = Okay ''idd_0000000000000001''"
    "identity_content_try_from ''Ann'' = Okay ''Ann''" by code_simp+
  have k: "identity_kind_try_from_str ''name'' = Okay IdName" using identity_kind.roundtrip[of IdName] by simp
  have t: "i64_try_from 2 = Some 2" "u64_try_from 5 = Some 5" "u64_try_from 2 = Some 2"
    by (simp_all add: i64_try_from_def u64_try_from_def)
  show ?thesis
    using c k t by (simp add: update_identity_document_def example_document_def example_row_def identity_validate_def column_millis_def
        update_row_def list_identity_documents_def row_to_identity_document_def millis_def and_then_def entity_ok_def Let_def)
qed

end
