(* ===== verification/Domain_Vault.thy ===== *)
theory Domain_Vault
  imports Altior_Prelude
begin

text \<open>
  The vault contracts of \<open>crates/altior-domain/src/vault.rs\<close>: device labels, pairing sequences, the life cycle of a paired
  device, tombstones and acknowledgement frontiers; and the logical ticks of \<open>time.rs\<close>. A time in milliseconds is a
  \<open>u64\<close>.
\<close>

section \<open>Model\<close>

datatype vault_error =
    EmptyDeviceLabel
  | DeviceLabelTooLong nat nat
  | EmptySignature
  | SignatureTooLong nat nat
  | SelfPairing string
  | AlreadyRevoked string
  | CertificateDeviceMismatch string string
  | RevokedAtBeforeAddedAt u64 u64
  | EpochSeqExhausted
  | DigestAllZero

definition device_label_max_len :: nat where
  "device_label_max_len = 128"

definition device_label_new :: "string \<Rightarrow> (vault_error, string) result" where
  "device_label_new label =
     (if label = [] then Err EmptyDeviceLabel
      else if length label > device_label_max_len then Err (DeviceLabelTooLong (length label) device_label_max_len)
      else Okay label)"

definition epoch_seq_initial :: u32 where
  "epoch_seq_initial = 1"

definition epoch_seq_next :: "u32 \<Rightarrow> u32 option" where
  "epoch_seq_next n = (if n = - 1 then None else Some (n + 1))"

definition signature_max_len :: nat where
  "signature_max_len = 1024"

definition recovery_signature_new :: "bytes \<Rightarrow> (vault_error, bytes) result" where
  "recovery_signature_new bs =
     (if bs = [] then Err EmptySignature
      else if length bs > signature_max_len then Err (SignatureTooLong (length bs) signature_max_len)
      else Okay bs)"

record revocation_certificate =
  vc_device :: string
  vc_revoked_at :: u64
  vc_signature :: bytes

definition certificate_new :: "string \<Rightarrow> u64 \<Rightarrow> bytes \<Rightarrow> (vault_error, revocation_certificate) result" where
  "certificate_new device at sig = Okay \<lparr>vc_device = device, vc_revoked_at = at, vc_signature = sig\<rparr>"

datatype vault_device_status = VdActive | VdRevoked u64 revocation_certificate

record vault_device_record =
  vd_device :: string
  vd_added_at :: u64
  vd_added_by :: string
  vd_epoch_seq :: u32
  vd_status :: vault_device_status

definition vault_pair :: "string \<Rightarrow> string \<Rightarrow> u64 \<Rightarrow> u32 \<Rightarrow> (vault_error, vault_device_record) result" where
  "vault_pair device added_by added_at seq =
     (if device = added_by then Err (SelfPairing device)
      else Okay \<lparr>vd_device = device, vd_added_at = added_at, vd_added_by = added_by, vd_epoch_seq = seq, vd_status = VdActive\<rparr>)"

definition vault_revoke ::
  "vault_device_record \<Rightarrow> revocation_certificate \<Rightarrow> u64 \<Rightarrow> (vault_error, unit) result \<times> vault_device_record" where
  "vault_revoke r cert applied_at =
     (case vd_status r of
        VdRevoked _ _ \<Rightarrow> (Err (AlreadyRevoked (vd_device r)), r)
      | VdActive \<Rightarrow>
          if vc_device cert \<noteq> vd_device r then (Err (CertificateDeviceMismatch (vc_device cert) (vd_device r)), r)
          else if vc_revoked_at cert < vd_added_at r \<or> applied_at < vd_added_at r
          then (Err (RevokedAtBeforeAddedAt (vd_added_at r) (min (vc_revoked_at cert) applied_at)), r)
          else (Okay (), r\<lparr>vd_status := VdRevoked applied_at cert\<rparr>))"

definition vault_restore ::
  "string \<Rightarrow> string \<Rightarrow> u64 \<Rightarrow> u32 \<Rightarrow> vault_device_status \<Rightarrow> (vault_error, vault_device_record) result" where
  "vault_restore device added_by added_at seq status =
     (case vault_pair device added_by added_at seq of
        Inl e \<Rightarrow> Err e
      | Inr r \<Rightarrow>
          (case status of
             VdActive \<Rightarrow> Okay r
           | VdRevoked at cert \<Rightarrow>
               (case vault_revoke r cert at of (Inl e, _) \<Rightarrow> Err e | (Inr _, r') \<Rightarrow> Okay r')))"

definition vault_is_active :: "vault_device_record \<Rightarrow> bool" where
  "vault_is_active r \<longleftrightarrow> vd_status r = VdActive"

definition vault_bump_epoch_seq :: "vault_device_record \<Rightarrow> (vault_error, unit) result \<times> vault_device_record" where
  "vault_bump_epoch_seq r =
     (case epoch_seq_next (vd_epoch_seq r) of
        None \<Rightarrow> (Err EpochSeqExhausted, r)
      | Some n \<Rightarrow> (Okay (), r\<lparr>vd_epoch_seq := n\<rparr>))"

definition tombstone_digest_from_bytes :: "bytes \<Rightarrow> (vault_error, bytes) result" where
  "tombstone_digest_from_bytes bs = (if bs = replicate 32 0 then Err DigestAllZero else Okay bs)"

text \<open>\<open>AckFrontier\<close>: a cursor per device.\<close>

type_synonym ack_frontier = "(string \<times> u64) list"

definition ack_observe :: "ack_frontier \<Rightarrow> string \<Rightarrow> u64 \<Rightarrow> ack_frontier" where
  "ack_observe f device seq =
     (let old = (case map_of f device of None \<Rightarrow> 0 | Some v \<Rightarrow> v) in bt_insert device (if seq > old then seq else old) f)"

definition compaction_floor :: "ack_frontier \<Rightarrow> u64 option" where
  "compaction_floor f = (if f = [] then None else Some (Min (set (map snd f))))"

definition cursor_of :: "ack_frontier \<Rightarrow> string \<Rightarrow> u64 option" where
  "cursor_of f device = map_of f device"

definition recorded_devices :: "ack_frontier \<Rightarrow> nat" where
  "recorded_devices f = length f"

datatype time_error = TickOverflow

definition tick_next :: "u64 \<Rightarrow> (time_error, u64) result" where
  "tick_next t = (if t = - 1 then Err TickOverflow else Okay (t + 1))"

section \<open>Devices\<close>

definition device_move :: "vault_device_record \<Rightarrow> vault_device_record \<Rightarrow> bool" where
  "device_move r r' \<longleftrightarrow> (\<exists>cert at. r' = snd (vault_revoke r cert at)) \<or> r' = snd (vault_bump_epoch_seq r)"

text \<open>What every record that can be built satisfies.\<close>

definition device_ok :: "vault_device_record \<Rightarrow> bool" where
  "device_ok r \<longleftrightarrow> vd_device r \<noteq> vd_added_by r
     \<and> (case vd_status r of VdActive \<Rightarrow> True
        | VdRevoked at cert \<Rightarrow> vc_device cert = vd_device r \<and> vd_added_at r \<le> vc_revoked_at cert \<and> vd_added_at r \<le> at)"

interpretation vault_device: guarded_machine
  "\<lambda>r. \<exists>d b at seq. vault_pair d b at seq = Okay r" device_move device_ok
  by unfold_locales (auto simp: vault_pair_def device_ok_def device_move_def vault_revoke_def vault_bump_epoch_seq_def
      split: if_splits vault_device_status.splits option.splits)

definition revoked_with :: "u64 \<Rightarrow> revocation_certificate \<Rightarrow> vault_device_record \<Rightarrow> bool" where
  "revoked_with at cert r \<longleftrightarrow> vd_status r = VdRevoked at cert"

interpretation revoked_device: guarded_machine "\<lambda>r. revoked_with at cert r" device_move "revoked_with at cert" for at cert
  by unfold_locales (auto simp: device_move_def revoked_with_def vault_revoke_def vault_bump_epoch_seq_def split: option.splits)

lemma restore_ok: "device_ok r \<Longrightarrow> vault_restore (vd_device r) (vd_added_by r) (vd_added_at r) (vd_epoch_seq r) (vd_status r) = Okay r"
  by (cases r) (auto simp: vault_restore_def vault_pair_def device_ok_def vault_revoke_def split: vault_device_status.splits)

section \<open>Frontiers\<close>

definition frontier_move :: "ack_frontier \<Rightarrow> ack_frontier \<Rightarrow> bool" where
  "frontier_move f f' \<longleftrightarrow> (\<exists>d n. f' = ack_observe f d n)"

interpretation ack_table: guarded_machine "\<lambda>f. f = []" frontier_move bt_ok
  by unfold_locales (auto simp: frontier_move_def ack_observe_def Let_def bt_insert_ok)

lemma observe_grows:
  assumes "bt_ok f" "map_of f d = Some n"
  shows "\<exists>m. map_of (ack_observe f e k) d = Some m \<and> n \<le> m"
  using assms by (auto simp: ack_observe_def Let_def split: option.splits)

lemma cursors_grow:
  assumes "frontier_move\<^sup>*\<^sup>* f g" "bt_ok f" "map_of f d = Some n"
  shows "\<exists>m. map_of g d = Some m \<and> n \<le> m"
  using assms(1)
proof (induction rule: rtranclp_induct)
  case (step g h)
  then obtain m where m: "map_of g d = Some m" "n \<le> m" by blast
  obtain e k where h: "h = ack_observe g e k" using step.hyps(2) by (auto simp: frontier_move_def)
  obtain l where "map_of h d = Some l" "m \<le> l"
    using observe_grows[OF ack_table.star_good[OF step.hyps(1) assms(2)] m(1), of e k] h by blast
  then show ?case using m(2) order_trans by blast
qed (use assms(3) in auto)

text \<open>The floor is the lowest cursor, and it does not fall while no new device appears.\<close>

lemma floor_iff:
  assumes "bt_ok f"
  shows "compaction_floor f = Some n \<longleftrightarrow> (\<exists>d. map_of f d = Some n) \<and> (\<forall>d m. map_of f d = Some m \<longrightarrow> n \<le> m)"
proof (cases "f = []")
  case False
  have vals: "set (map snd f) = ran (map_of f)" using ran_distinct[OF bt_ok_distinct[OF assms]] by simp
  have "finite (set (map snd f))" "set (map snd f) \<noteq> {}" using False by simp_all
  then have "Min (set (map snd f)) = n \<longleftrightarrow> n \<in> set (map snd f) \<and> (\<forall>a\<in>set (map snd f). n \<le> a)" by (rule Min_eq_iff)
  then show ?thesis using False unfolding compaction_floor_def vals by (auto simp: ran_def)
qed (simp add: compaction_floor_def)

text \<open>A revoked device stays revoked by the same certificate, and every record that can be built is restored from its
  parts as it was.\<close>

theorem revocation_final:
  assumes "reach (\<lambda>r. \<exists>d b at seq. vault_pair d b at seq = Okay r) device_move r"
  shows "vault_restore (vd_device r) (vd_added_by r) (vd_added_at r) (vd_epoch_seq r) (vd_status r) = Okay r
    \<and> (\<forall>at cert r'. vd_status r = VdRevoked at cert \<and> device_move\<^sup>*\<^sup>* r r' \<longrightarrow> vd_status r' = VdRevoked at cert)"
  using restore_ok[OF vault_device.reach_good[OF assms]] revoked_device.star_good by (auto simp: revoked_with_def)

end
