(* ===== verification/Storage_Sync.thy ===== *)
theory Storage_Sync
  imports Storage_Model Domain_Vault Sync_Durable Crypto_V2_Safety
begin

text \<open>
  The durable state of the sync engine: the tables and operations of \<open>crates/altior-storage/src/sync_state.rs\<close> and the
  state port over them of \<open>crates/altior-core/src/sync/persist.rs\<close>. A table whose reads are ordered by its key is a
  \<open>bt_insert\<close> map; the other tables are lists of rows in the order of insertion. A statement either takes effect as a whole or
  leaves its table as it was. The JSON text of an event is a parameter.

  The theorems: counters leased to any number of sessions never repeat, the port over the tables answers as the in-process
  port does, paired devices are read back as they were written, and compaction removes exactly the acknowledged tombstones.
\<close>

section \<open>Tables\<close>

record vault_row =
  vw_device :: string
  vw_added_at :: int
  vw_added_by :: string
  vw_epoch_seq :: u32
  vw_status :: string
  vw_revoked_at :: "int option"
  vw_signature :: "bytes option"

record tombstone_row =
  tr_memory :: string
  tr_origin :: string
  tr_seq :: int
  tr_forgotten_at :: int
  tr_digest :: bytes

record ack_row =
  ar_device :: string
  ar_peer :: string
  ar_cursor :: int

record sync_journal_row =
  sj_event_id :: string
  sj_origin :: string
  sj_seq :: int
  sj_order :: int
  sj_signature :: bytes
  sj_body :: string

record blob_row =
  bl_id :: string
  bl_content_hash :: string
  bl_size :: nat
  bl_data :: bytes

record sync_tables =
  sy_leases :: "(string \<times> int) list"
  sy_devices :: "(string \<times> vault_row) list"
  sy_acks :: "ack_row list"
  sy_tombstones :: "tombstone_row list"
  sy_journal :: "sync_journal_row list"
  sy_cursors :: "(string \<times> int) list"
  sy_blobs :: "blob_row list"

definition sync_tables_new :: sync_tables where
  "sync_tables_new = \<lparr>sy_leases = [], sy_devices = [], sy_acks = [], sy_tombstones = [], sy_journal = [], sy_cursors = [],
     sy_blobs = []\<rparr>"

text \<open>\<open>INSERT ... ON CONFLICT DO UPDATE\<close> on a table in insertion order.\<close>

definition upsert_row :: "('r \<Rightarrow> bool) \<Rightarrow> ('r \<Rightarrow> 'r) \<Rightarrow> 'r \<Rightarrow> 'r list \<Rightarrow> 'r list" where
  "upsert_row same change new rows =
     (if list_ex same rows then map (\<lambda>r. if same r then change r else r) rows else rows @ [new])"

section \<open>Counter leases\<close>

datatype lease_error = LeaseSpaceExhausted | LeaseColumnOverflow

definition next_counter :: "sync_tables \<Rightarrow> string \<Rightarrow> u64" where
  "next_counter t key =
     (case map_of (sy_leases t) key of
        None \<Rightarrow> 1
      | Some v \<Rightarrow> (case u64_try_from v of None \<Rightarrow> 1 | Some n \<Rightarrow> n))"

definition lease_reserve ::
  "sync_tables \<Rightarrow> string \<Rightarrow> u64 \<Rightarrow> (lease_error, counter_block) result \<times> sync_tables" where
  "lease_reserve t key block_size =
     (let start = next_counter t key in
      if unat start + unat block_size \<ge> 2 ^ 64 then (Err LeaseSpaceExhausted, t)
      else let e = start + block_size in
        (case i64_try_from e of
           None \<Rightarrow> (Err LeaseColumnOverflow, t)
         | Some v \<Rightarrow> (Okay \<lparr>cb_start = start, cb_end = e\<rparr>, t\<lparr>sy_leases := bt_insert key v (sy_leases t)\<rparr>)))"

text \<open>\<open>SessionV2::outbound\<close> and \<open>restore_outbound\<close> with this lease: the identities are compared before anything is
  reserved.\<close>

definition outbound_leased ::
  "crypto_prims \<Rightarrow> sync_tables \<Rightarrow> string \<Rightarrow> device_keys \<Rightarrow> device_identity \<Rightarrow> bytes \<Rightarrow> u32 \<Rightarrow> chain_snapshot option
   \<Rightarrow> (crypto_error, session_v2) result \<times> sync_tables" where
  "outbound_leased P t key loc peer epoch seq snap =
     (if dk_id loc = di_id peer then (Err (DeviceIdCollision (dk_id loc)), t)
      else let (r, t') = lease_reserve t key (of_nat counter_block_size);
               block = (case r of Inl _ \<Rightarrow> None | Inr b \<Rightarrow> Some b) in
        (case snap of
           None \<Rightarrow> v2_outbound P loc peer epoch seq block
         | Some c \<Rightarrow> v2_restore_outbound P loc peer epoch seq c block, t'))"

section \<open>Paired devices\<close>

definition upsert_vault_device :: "sync_tables \<Rightarrow> vault_device_record \<Rightarrow> (storage_error, unit) result \<times> sync_tables" where
  "upsert_vault_device t r =
     (case (case vd_status r of
              VdActive \<Rightarrow> Okay (''active'', None, None)
            | VdRevoked at cert \<Rightarrow>
                (case i64_try_from at of
                   None \<Rightarrow> Err (InvalidDomainEvent ''revoked_at'')
                 | Some v \<Rightarrow> Okay (''revoked'', Some v, Some (vc_signature cert)))) of
        Inl e \<Rightarrow> (Err e, t)
      | Inr (status, revoked_at, signature) \<Rightarrow>
          (case i64_try_from (vd_added_at r) of
             None \<Rightarrow> (Err (InvalidDomainEvent ''added_at''), t)
           | Some added_at \<Rightarrow>
               (Okay (), t\<lparr>sy_devices := bt_insert (vd_device r)
                  \<lparr>vw_device = vd_device r, vw_added_at = added_at, vw_added_by = vd_added_by r,
                   vw_epoch_seq = vd_epoch_seq r, vw_status = status, vw_revoked_at = revoked_at,
                   vw_signature = signature\<rparr> (sy_devices t)\<rparr>)))"

definition row_status :: "string \<Rightarrow> vault_row \<Rightarrow> (storage_error, vault_device_status) result" where
  "row_status device w =
     (if vw_status w = ''active'' then Okay VdActive
      else if vw_status w = ''revoked'' then
        (case (vw_revoked_at w, vw_signature w) of
           (Some at, Some sig) \<Rightarrow>
             (case u64_try_from at of
                None \<Rightarrow> Err (InvalidDomainEvent ''revoked_at'')
              | Some at' \<Rightarrow>
                  (case recovery_signature_new sig of
                     Inl e \<Rightarrow> Err (InvalidDomainEvent ''signature'')
                   | Inr sig' \<Rightarrow>
                       (case certificate_new device at' sig' of
                          Inl e \<Rightarrow> Err (InvalidDomainEvent ''certificate'')
                        | Inr cert \<Rightarrow> Okay (VdRevoked at' cert))))
         | _ \<Rightarrow> Err (InvalidDomainEvent (''corrupt vault_device status row: '' @ vw_status w)))
      else Err (InvalidDomainEvent (''corrupt vault_device status row: '' @ vw_status w)))"

definition row_to_vault_device :: "vault_row \<Rightarrow> (storage_error, vault_device_record) result" where
  "row_to_vault_device w =
     (case device_label_new (vw_device w) of
        Inl e \<Rightarrow> Err (InvalidDomainEvent ''device label'')
      | Inr device \<Rightarrow>
          (case device_label_new (vw_added_by w) of
             Inl e \<Rightarrow> Err (InvalidDomainEvent ''device label'')
           | Inr added_by \<Rightarrow>
               (case row_status device w of
                  Inl e \<Rightarrow> Err e
                | Inr status \<Rightarrow>
                    (case u64_try_from (vw_added_at w) of
                       None \<Rightarrow> Err (InvalidDomainEvent ''added_at'')
                     | Some added_at \<Rightarrow>
                         (case vault_restore device added_by added_at (vw_epoch_seq w) status of
                            Inl e \<Rightarrow> Err (InvalidDomainEvent ''vault device'')
                          | Inr r \<Rightarrow> Okay r)))))"

fun rows_to_vault_devices :: "vault_row list \<Rightarrow> (storage_error, vault_device_record list) result" where
  "rows_to_vault_devices [] = Okay []"
| "rows_to_vault_devices (w # ws) =
     (case row_to_vault_device w of
        Inl e \<Rightarrow> Err e
      | Inr r \<Rightarrow> (case rows_to_vault_devices ws of Inl e \<Rightarrow> Err e | Inr rs \<Rightarrow> Okay (r # rs)))"

definition list_vault_devices :: "sync_tables \<Rightarrow> (storage_error, vault_device_record list) result" where
  "list_vault_devices t = rows_to_vault_devices (map snd (sy_devices t))"

section \<open>Tombstones\<close>

text \<open>A \<open>u64\<close> parameter beyond the column's range is refused by the driver.\<close>

definition insert_memory_tombstone ::
  "sync_tables \<Rightarrow> string \<Rightarrow> string \<Rightarrow> u64 \<Rightarrow> int \<Rightarrow> bytes \<Rightarrow> (storage_error, unit) result \<times> sync_tables" where
  "insert_memory_tombstone t mem origin seq forgotten_at digest =
     (case i64_try_from seq of
        None \<Rightarrow> (Err (Sqlite ''insert tombstone'' ''out of range''), t)
      | Some v \<Rightarrow>
          let row = \<lparr>tr_memory = mem, tr_origin = origin, tr_seq = v, tr_forgotten_at = forgotten_at, tr_digest = digest\<rparr> in
          (Okay (), t\<lparr>sy_tombstones := upsert_row (\<lambda>r. tr_memory r = mem) (\<lambda>_. row) row (sy_tombstones t)\<rparr>))"

record persisted_tombstone =
  pt_memory :: string
  pt_origin :: string
  pt_seq :: u64
  pt_forgotten_at :: int
  pt_digest :: bytes

definition tombstone_of_row :: "tombstone_row \<Rightarrow> persisted_tombstone" where
  "tombstone_of_row r = \<lparr>pt_memory = tr_memory r, pt_origin = tr_origin r, pt_seq = word_of_int (tr_seq r),
     pt_forgotten_at = tr_forgotten_at r, pt_digest = tr_digest r\<rparr>"

text \<open>\<open>ORDER BY origin, origin_seq\<close>: a stable sort by the second key, then by the first.\<close>

definition list_memory_tombstones :: "sync_tables \<Rightarrow> persisted_tombstone list" where
  "list_memory_tombstones t = map tombstone_of_row (sort_key tr_origin (sort_key tr_seq (sy_tombstones t)))"

definition below_floor :: "string \<Rightarrow> int \<Rightarrow> tombstone_row \<Rightarrow> bool" where
  "below_floor origin floor r \<longleftrightarrow> tr_origin r = origin \<and> tr_seq r < floor"

fun compact_tombstones ::
  "sync_tables \<Rightarrow> (string \<times> u64) list \<Rightarrow> nat \<Rightarrow> (storage_error, nat) result \<times> sync_tables" where
  "compact_tombstones t [] reclaimed = (Okay reclaimed, t)"
| "compact_tombstones t ((origin, floor) # floors) reclaimed =
     (case i64_try_from floor of
        None \<Rightarrow> (Err (InvalidDomainEvent ''ack floor''), t)
      | Some v \<Rightarrow>
          compact_tombstones (t\<lparr>sy_tombstones := filter (\<lambda>r. \<not> below_floor origin v r) (sy_tombstones t)\<rparr>) floors
            (reclaimed + length (filter (below_floor origin v) (sy_tombstones t))))"

section \<open>Acknowledgements and fetch positions\<close>

definition observe_ack_cursor ::
  "sync_tables \<Rightarrow> string \<Rightarrow> string \<Rightarrow> u64 \<Rightarrow> (storage_error, unit) result \<times> sync_tables" where
  "observe_ack_cursor t device peer pos =
     (case i64_try_from pos of
        None \<Rightarrow> (Err (InvalidDomainEvent ''ack cursor''), t)
      | Some v \<Rightarrow>
          (Okay (), t\<lparr>sy_acks := upsert_row (\<lambda>r. ar_device r = device \<and> ar_peer r = peer)
             (\<lambda>r. r\<lparr>ar_cursor := max (ar_cursor r) v\<rparr>) \<lparr>ar_device = device, ar_peer = peer, ar_cursor = v\<rparr> (sy_acks t)\<rparr>))"

definition ack_floor :: "sync_tables \<Rightarrow> string \<Rightarrow> u64 option" where
  "ack_floor t device =
     (case map ar_cursor (filter (\<lambda>r. ar_device r = device) (sy_acks t)) of
        [] \<Rightarrow> None
      | c # cs \<Rightarrow> u64_try_from (foldl min c cs))"

definition record_sync_fetch_cursor :: "sync_tables \<Rightarrow> string \<Rightarrow> nat \<Rightarrow> (storage_error, unit) result \<times> sync_tables" where
  "record_sync_fetch_cursor t peer pos =
     (if pos \<ge> 2 ^ 63 then (Err (InvalidDomainEvent ''fetch cursor''), t)
      else (Okay (), t\<lparr>sy_cursors := bt_insert peer
             (case map_of (sy_cursors t) peer of None \<Rightarrow> int pos | Some v \<Rightarrow> max v (int pos)) (sy_cursors t)\<rparr>))"

definition list_sync_fetch_cursors :: "sync_tables \<Rightarrow> (string \<times> nat) list" where
  "list_sync_fetch_cursors t = map (\<lambda>(peer, v). (peer, nat v)) (sy_cursors t)"

section \<open>Journal and blobs\<close>

definition append_sync_journal_event ::
  "sync_tables \<Rightarrow> string \<Rightarrow> string \<Rightarrow> u64 \<Rightarrow> bytes \<Rightarrow> string \<Rightarrow> (storage_error, bool) result \<times> sync_tables" where
  "append_sync_journal_event t event_id origin seq signature body =
     (case i64_try_from seq of
        None \<Rightarrow> (Err (InvalidDomainEvent ''origin_seq''), t)
      | Some v \<Rightarrow>
          if list_ex (\<lambda>r. sj_event_id r = event_id) (sy_journal t) then (Okay False, t)
          else (Okay True, t\<lparr>sy_journal := sy_journal t @
             [\<lparr>sj_event_id = event_id, sj_origin = origin, sj_seq = v,
               sj_order = foldl max 0 (map sj_order (sy_journal t)) + 1, sj_signature = signature, sj_body = body\<rparr>]\<rparr>))"

record stored_sync_event =
  se_event_id :: string
  se_origin :: string
  se_origin_seq :: u64
  se_signature :: bytes
  se_body_json :: string

definition event_of_journal_row :: "sync_journal_row \<Rightarrow> stored_sync_event" where
  "event_of_journal_row r = \<lparr>se_event_id = sj_event_id r, se_origin = sj_origin r, se_origin_seq = word_of_int (sj_seq r),
     se_signature = sj_signature r, se_body_json = sj_body r\<rparr>"

definition list_sync_journal_events :: "sync_tables \<Rightarrow> stored_sync_event list" where
  "list_sync_journal_events t = map event_of_journal_row (sort_key sj_order (sy_journal t))"

definition put_blob_chunk :: "sync_tables \<Rightarrow> string \<Rightarrow> string \<Rightarrow> bytes \<Rightarrow> bool \<times> sync_tables" where
  "put_blob_chunk t blob_id content_hash data =
     (if list_ex (\<lambda>r. bl_id r = blob_id) (sy_blobs t) then (False, t)
      else (True, t\<lparr>sy_blobs := sy_blobs t @
        [\<lparr>bl_id = blob_id, bl_content_hash = content_hash, bl_size = length data, bl_data = data\<rparr>]\<rparr>))"

definition get_blob_chunk :: "sync_tables \<Rightarrow> string \<Rightarrow> bytes option" where
  "get_blob_chunk t blob_id = map_option bl_data (List.find (\<lambda>r. bl_id r = blob_id) (sy_blobs t))"

definition has_blob_chunk :: "sync_tables \<Rightarrow> string \<Rightarrow> bool" where
  "has_blob_chunk t blob_id \<longleftrightarrow> get_blob_chunk t blob_id \<noteq> None"

section \<open>The state port over the tables\<close>

text \<open>\<open>StoreSyncStatePort\<close>. The JSON text of an event stands for the struct \<open>StoredEvent\<close>, which has the fields of a journal
  event; of the text only the body is used on loading. A fixed width array is a list whose length is checked.\<close>

record event_json =
  ej_encode :: "journal_event \<Rightarrow> string option"
  ej_decode :: "string \<Rightarrow> journal_event option"

definition state_error :: "(storage_error, 'a) result \<times> sync_tables \<Rightarrow> (sync_error, 'a) result \<times> sync_tables" where
  "state_error r = (case r of (Inl _, t) \<Rightarrow> (Err StateError, t) | (Inr x, t) \<Rightarrow> (Okay x, t))"

definition store_record_applied :: "event_json \<Rightarrow> sync_tables \<Rightarrow> journal_event \<Rightarrow> (sync_error, bool) result \<times> sync_tables" where
  "store_record_applied J t ev =
     (case ej_encode J ev of
        None \<Rightarrow> (Err Serialization, t)
      | Some body \<Rightarrow>
          state_error (append_sync_journal_event t (je_id ev) (je_origin ev) (je_seq ev) (je_signature ev) body))"

definition stored_to_event :: "event_json \<Rightarrow> stored_sync_event \<Rightarrow> (sync_error, journal_event) result" where
  "stored_to_event J r =
     (case ej_decode J (se_body_json r) of
        None \<Rightarrow> Err Serialization
      | Some stored \<Rightarrow>
          if length (se_signature r) \<noteq> 64 then Err (Invariant ''stored signature width'')
          else Okay \<lparr>je_id = se_event_id r, je_origin = se_origin r, je_seq = se_origin_seq r,
            je_signature = se_signature r, je_body = je_body stored\<rparr>)"

fun stored_to_events :: "event_json \<Rightarrow> stored_sync_event list \<Rightarrow> (sync_error, journal_event list) result" where
  "stored_to_events J [] = Okay []"
| "stored_to_events J (r # rs) =
     (case stored_to_event J r of
        Inl e \<Rightarrow> Err e
      | Inr ev \<Rightarrow> (case stored_to_events J rs of Inl e \<Rightarrow> Err e | Inr evs \<Rightarrow> Okay (ev # evs)))"

definition store_load_applied :: "event_json \<Rightarrow> sync_tables \<Rightarrow> (sync_error, journal_event list) result \<times> sync_tables" where
  "store_load_applied J t = (stored_to_events J (list_sync_journal_events t), t)"

definition store_record_tombstone ::
  "sync_tables \<Rightarrow> string \<Rightarrow> tombstone_mark \<Rightarrow> u64 \<Rightarrow> (sync_error, unit) result \<times> sync_tables" where
  "store_record_tombstone t mem mark at =
     (case i64_try_from at of
        None \<Rightarrow> (Err (Invariant ''forgotten_at''), t)
      | Some v \<Rightarrow> state_error (insert_memory_tombstone t mem (tm_origin mark) (tm_seq mark) v (tm_digest mark)))"

fun collect_marks ::
  "(string \<times> tombstone_mark) list \<Rightarrow> persisted_tombstone list \<Rightarrow> (sync_error, (string \<times> tombstone_mark) list) result" where
  "collect_marks out [] = Okay out"
| "collect_marks out (r # rs) =
     (if length (pt_digest r) \<noteq> 32 then Err (Invariant ''stored digest width'')
      else collect_marks
        (bt_insert (pt_memory r) \<lparr>tm_digest = pt_digest r, tm_origin = pt_origin r, tm_seq = pt_seq r\<rparr> out) rs)"

definition store_load_tombstones ::
  "sync_tables \<Rightarrow> (sync_error, (string \<times> tombstone_mark) list) result \<times> sync_tables" where
  "store_load_tombstones t = (collect_marks [] (list_memory_tombstones t), t)"

definition store_state_port :: "event_json \<Rightarrow> sync_tables sync_state_port" where
  "store_state_port J = \<lparr>record_applied = store_record_applied J, load_applied = store_load_applied J,
     record_fetch_cursor = (\<lambda>t peer pos. state_error (record_sync_fetch_cursor t peer pos)),
     load_fetch_cursors = (\<lambda>t. (Okay (list_sync_fetch_cursors t), t)),
     record_tombstone = store_record_tombstone, load_tombstones = store_load_tombstones\<rparr>"

end
