(* ===== verification/Storage_Sync_Safety.thy ===== *)
theory Storage_Sync_Safety
  imports Storage_Sync
begin

text \<open>
  What the durable sync state promises: leased counters never repeat across sessions and restarts, the port over the tables
  answers as the in-process port does while fetch positions do not fall and satisfies the interface durable_port, so that a
  node restarts on the tables without loss, paired devices are read back as they were written, and compaction removes exactly
  the acknowledged tombstones.
\<close>

section \<open>Leases\<close>

definition lease_ok :: "sync_tables \<Rightarrow> bool" where
  "lease_ok t \<longleftrightarrow> bt_ok (sy_leases t) \<and> (\<forall>key v. map_of (sy_leases t) key = Some v \<longrightarrow> 0 < v \<and> v < 2 ^ 63)"

lemma i64_try_from_SomeD:
  assumes "i64_try_from n = Some v"
  shows "v = uint n \<and> 0 \<le> v \<and> v < 2 ^ 63 \<and> u64_try_from v = Some n"
proof -
  have v: "v = uint n" "unat n < 2 ^ 63" using assms by (auto simp: i64_try_from_def split: if_splits)
  then have "uint n < 2 ^ 63" by (metis of_nat_less_iff of_nat_numeral of_nat_power uint_nat)
  then show ?thesis using v(1) by (simp add: u64_try_from_def)
qed

lemma lease_reserve_block:
  assumes "lease_reserve t key n = (Okay b, t')" "lease_ok t" "0 < n"
  shows "cb_start b = next_counter t key \<and> 0 < cb_start b \<and> cb_end b = next_counter t' key
    \<and> unat (cb_end b) = unat (cb_start b) + unat n \<and> lease_ok t'"
proof -
  let ?s = "next_counter t key"
  have no: "unat ?s + unat n < 2 ^ 64" and b: "b = \<lparr>cb_start = ?s, cb_end = ?s + n\<rparr>"
    and v: "i64_try_from (?s + n) = Some (uint (?s + n))"
    and t': "t' = t\<lparr>sy_leases := bt_insert key (uint (?s + n)) (sy_leases t)\<rparr>"
    using assms(1) by (auto simp: lease_reserve_def Let_def dest: i64_try_from_SomeD split: if_splits option.splits)
  have sum: "unat (?s + n) = unat ?s + unat n" using no by (simp add: unat_word_ariths)
  have sz: "0 < unat n" using assms(3) by (simp add: word_less_nat_alt)
  have "0 < ?s + n" using sum sz by (simp add: word_less_nat_alt)
  then have pos: "0 < uint (?s + n)" by (simp add: word_less_def)
  have "0 < v \<Longrightarrow> v < 2 ^ 63 \<Longrightarrow> (0 :: u64) < word_of_int v" for v
    by (simp add: word_less_def uint_word_of_int)
  then have start: "0 < ?s"
    using assms(2) by (auto simp: next_counter_def lease_ok_def u64_try_from_def split: option.splits)
  have ok: "bt_ok (sy_leases t)" using assms(2) by (simp add: lease_ok_def)
  have "next_counter t' key = ?s + n"
    using ok i64_try_from_SomeD[OF v] by (simp add: t' next_counter_def)
  moreover have "lease_ok t'"
    using assms(2) pos i64_try_from_SomeD[OF v] by (auto simp: t' lease_ok_def bt_insert_ok split: if_splits)
  ultimately show ?thesis using b sum start by simp
qed

lemma lease_reserve_fail: "lease_reserve t key n = (Err e, t') \<Longrightarrow> t' = t"
  by (auto simp: lease_reserve_def Let_def split: if_splits option.splits)

text \<open>Sessions without a block of their own seal only below the end of the block they were opened with.\<close>

definition within :: "nat \<Rightarrow> session_v2 \<Rightarrow> bool" where
  "within e s \<longleftrightarrow> (\<forall>b. s2_block s = Some b \<longrightarrow> unat (cb_end b) \<le> e)"

fun installs_block :: "v2_op \<Rightarrow> bool" where
  "installs_block (OpBlock _) = True"
| "installs_block _ = False"

lemma within_seal: "v2_seal P s m = (r, s') \<Longrightarrow> within e s \<Longrightarrow> within e s'"
  by (auto simp: v2_seal_def within_def Let_def split: if_splits option.splits)

lemma within_turn: "within e s \<Longrightarrow> within e (snd (open_turn P s seed))"
  by (auto simp: open_turn_def within_def split: option.splits sum.splits)

lemma seal_below:
  assumes "v2_seal P s m = (Okay env, s')" "within e s" "length (s2_epoch s) = 16"
  shows "wire_counter env < e"
proof -
  obtain b where "s2_block s = Some b" "s2_next_counter s < cb_end b"
    using assms(1) by (auto simp: v2_seal_def Let_def split: if_splits option.splits)
  then show ?thesis using v2_seal_wire_counter[OF assms(1,3)] assms(2) by (auto simp: within_def word_less_nat_alt)
qed

lemma v2_run_below:
  assumes "within e s" "length (s2_epoch s) = 16" "\<not> list_ex installs_block ops"
  shows "\<forall>env\<in>set (v2_run P s ops). wire_counter env < e"
  using assms
proof (induction P s ops rule: v2_run.induct)
  case (2 P s m ops)
  obtain r s' where e: "v2_seal P s m = (r, s')" by fastforce
  have s': "within e s'" "length (s2_epoch s') = 16"
    using within_seal[OF e 2(3)] v2_seal_frame[OF e] 2(4) by simp_all
  show ?case
  proof (cases r)
    case (Inl x)
    then show ?thesis using 2(1)[OF e[symmetric] Inl s'] e 2(5) by simp
  next
    case (Inr env)
    then show ?thesis using 2(2)[OF e[symmetric] Inr s'] e 2(5) seal_below[of P s m env s' e] 2(3,4) by simp
  qed
qed (auto simp: within_turn open_turn_frame)

text \<open>A process opens a session over the lease of its route, seals with it and is gone, again and again.\<close>

record leased_session =
  ls_key :: string
  ls_local :: device_keys
  ls_peer :: device_identity
  ls_epoch :: bytes
  ls_epoch_seq :: u32
  ls_snapshot :: "chain_snapshot option"
  ls_ops :: "v2_op list"

definition leased_run :: "crypto_prims \<Rightarrow> sync_tables \<Rightarrow> leased_session \<Rightarrow> bytes list \<times> sync_tables" where
  "leased_run P t l =
     (case outbound_leased P t (ls_key l) (ls_local l) (ls_peer l) (ls_epoch l) (ls_epoch_seq l) (ls_snapshot l) of
        (Inl _, t') \<Rightarrow> ([], t')
      | (Inr s, t') \<Rightarrow> (v2_run P s (ls_ops l), t'))"

fun leased_runs :: "crypto_prims \<Rightarrow> sync_tables \<Rightarrow> leased_session list \<Rightarrow> (string \<times> bytes) list" where
  "leased_runs P t [] = []"
| "leased_runs P t (l # ls) =
     (case leased_run P t l of (envs, t') \<Rightarrow> map (\<lambda>env. (ls_key l, env)) envs @ leased_runs P t' ls)"

definition route_counters :: "string \<Rightarrow> (string \<times> bytes) list \<Rightarrow> nat list" where
  "route_counters key sent = map (\<lambda>(_, env). wire_counter env) (filter (\<lambda>(k, _). k = key) sent)"

definition session_plain :: "leased_session \<Rightarrow> bool" where
  "session_plain l \<longleftrightarrow> length (ls_epoch l) = 16 \<and> \<not> list_ex installs_block (ls_ops l)"

lemma outbound_leased_cases:
  assumes "leased_run P t l = (envs, t')"
  obtains (refused) "envs = []" "t' = t"
  | (opened) b where "lease_reserve t (ls_key l) (of_nat counter_block_size) = (Okay b, t')" "envs = []"
  | (ran) b s where "lease_reserve t (ls_key l) (of_nat counter_block_size) = (Okay b, t')"
      "envs = v2_run P s (ls_ops l)" "s2_block s = Some b" "s2_next_counter s = cb_start b" "s2_epoch s = ls_epoch l"
proof -
  obtain r t1 where r: "lease_reserve t (ls_key l) (of_nat counter_block_size) = (r, t1)" by fastforce
  show thesis
  proof (cases "dk_id (ls_local l) = di_id (ls_peer l) \<or> isl r")
    case True
    then show thesis
      using refused assms r lease_reserve_fail[of t "ls_key l" "of_nat counter_block_size" _ t1]
      by (auto simp: leased_run_def outbound_leased_def v2_outbound_def v2_restore_outbound_def isl_def Let_def
          split: option.splits if_splits)
  next
    case False
    then obtain b where b: "r = Okay b" by (cases r) auto
    then show thesis
      using opened ran assms False r
      by (auto simp: leased_run_def outbound_leased_def v2_outbound_def v2_restore_outbound_def Let_def
          split: sum.splits option.splits if_splits)
  qed
qed

lemma leased_run_range:
  assumes "leased_run P t l = (envs, t')" "lease_ok t" "session_plain l"
  shows "lease_ok t' \<and> unat (next_counter t (ls_key l)) \<le> unat (next_counter t' (ls_key l))
    \<and> sorted_wrt (<) (map wire_counter envs)
    \<and> (\<forall>env\<in>set envs. unat (next_counter t (ls_key l)) \<le> wire_counter env
        \<and> wire_counter env < unat (next_counter t' (ls_key l)))"
proof -
  have n: "(0 :: u64) < of_nat counter_block_size" by (simp add: counter_block_size_def)
  show ?thesis
    using assms(1)
  proof (cases rule: outbound_leased_cases)
    case refused
    then show ?thesis using assms(2) by simp
  next
    case (opened b)
    then show ?thesis using lease_reserve_block[OF opened(1) assms(2) n] by auto
  next
    case (ran b s)
    have "within (unat (cb_end b)) s" "length (s2_epoch s) = 16"
      using ran assms(3) by (simp_all add: within_def session_plain_def)
    then show ?thesis
      using v2_run_below[of "unat (cb_end b)" s "ls_ops l" P] v2_run_counters[of s P "ls_ops l"] ran assms(3)
        lease_reserve_block[OF ran(1) assms(2) n]
      by (auto simp: session_plain_def)
  qed
qed

lemma leased_run_other:
  assumes "leased_run P t l = (envs, t')" "lease_ok t" "key \<noteq> ls_key l"
  shows "next_counter t' key = next_counter t key"
  using assms(1)
proof (cases rule: outbound_leased_cases)
  case refused
  then show ?thesis by simp
qed (use assms(2,3) in \<open>auto simp: lease_reserve_def next_counter_def lease_ok_def Let_def split: if_splits option.splits\<close>)

lemma leased_runs_sorted:
  assumes "lease_ok t" "list_all session_plain ls"
  shows "sorted_wrt (<) (route_counters key (leased_runs P t ls))
    \<and> (\<forall>c\<in>set (route_counters key (leased_runs P t ls)). unat (next_counter t key) \<le> c)"
  using assms
proof (induction ls arbitrary: t)
  case Nil
  then show ?case by (simp add: route_counters_def)
next
  case (Cons l ls)
  obtain envs t' where e: "leased_run P t l = (envs, t')" by fastforce
  have range: "lease_ok t'" "unat (next_counter t (ls_key l)) \<le> unat (next_counter t' (ls_key l))"
    "sorted_wrt (<) (map wire_counter envs)"
    "\<forall>c\<in>set (map wire_counter envs). unat (next_counter t (ls_key l)) \<le> c \<and> c < unat (next_counter t' (ls_key l))"
    using leased_run_range[OF e Cons.prems(1)] Cons.prems(2) by auto
  have split: "route_counters key (leased_runs P t (l # ls)) =
      (if key = ls_key l then map wire_counter envs else []) @ route_counters key (leased_runs P t' ls)"
    by (auto simp: route_counters_def e filter_map comp_def)
  show ?case
    using Cons.IH[OF range(1)] Cons.prems(2) range(2-4) leased_run_other[OF e Cons.prems(1), of key]
    unfolding split by (cases "key = ls_key l") (fastforce simp: sorted_wrt_append)+
qed

section \<open>Runs of a state port\<close>

datatype port_op =
    PApply journal_event | PCursor string nat | PMark string tombstone_mark u64
  | PLoadApplied | PLoadCursors | PLoadMarks

datatype port_answer =
    AApplied "(sync_error, bool) result" | ADone "(sync_error, unit) result"
  | AEvents "(sync_error, journal_event list) result" | ACursors "(sync_error, (string \<times> nat) list) result"
  | AMarks "(sync_error, (string \<times> tombstone_mark) list) result"

fun port_step :: "'p sync_state_port \<Rightarrow> 'p \<Rightarrow> port_op \<Rightarrow> port_answer \<times> 'p" where
  "port_step ops p (PApply ev) = apfst AApplied (record_applied ops p ev)"
| "port_step ops p (PCursor peer pos) = apfst ADone (record_fetch_cursor ops p peer pos)"
| "port_step ops p (PMark mem mark at) = apfst ADone (record_tombstone ops p mem mark at)"
| "port_step ops p PLoadApplied = apfst AEvents (load_applied ops p)"
| "port_step ops p PLoadCursors = apfst ACursors (load_fetch_cursors ops p)"
| "port_step ops p PLoadMarks = apfst AMarks (load_tombstones ops p)"

fun port_run :: "'p sync_state_port \<Rightarrow> 'p \<Rightarrow> port_op list \<Rightarrow> port_answer list" where
  "port_run ops p [] = []"
| "port_run ops p (x # xs) = (case port_step ops p x of (a, p') \<Rightarrow> a # port_run ops p' xs)"

text \<open>Arguments that fit the columns and the fixed widths.\<close>

fun port_op_ok :: "event_json \<Rightarrow> port_op \<Rightarrow> bool" where
  "port_op_ok J (PApply ev) \<longleftrightarrow> ej_encode J ev \<noteq> None \<and> unat (je_seq ev) < 2 ^ 63 \<and> length (je_signature ev) = 64"
| "port_op_ok J (PCursor peer pos) \<longleftrightarrow> pos < 2 ^ 63"
| "port_op_ok J (PMark mem mark at) \<longleftrightarrow> unat (tm_seq mark) < 2 ^ 63 \<and> unat at < 2 ^ 63 \<and> length (tm_digest mark) = 32"
| "port_op_ok J _ \<longleftrightarrow> True"

fun positions_for :: "string \<Rightarrow> port_op list \<Rightarrow> nat list" where
  "positions_for peer [] = []"
| "positions_for peer (PCursor q pos # xs) = (if q = peer then pos # positions_for peer xs else positions_for peer xs)"
| "positions_for peer (_ # xs) = positions_for peer xs"

definition row_holds :: "event_json \<Rightarrow> sync_journal_row \<Rightarrow> journal_event \<Rightarrow> bool" where
  "row_holds J r ev \<longleftrightarrow> stored_to_event J (event_of_journal_row r) = Okay ev \<and> sj_event_id r = je_id ev"

definition mark_of_row :: "tombstone_row \<Rightarrow> tombstone_mark" where
  "mark_of_row r = \<lparr>tm_digest = tr_digest r, tm_origin = tr_origin r, tm_seq = word_of_int (tr_seq r)\<rparr>"

definition marks_of_rows :: "tombstone_row list \<Rightarrow> (string \<times> tombstone_mark) list" where
  "marks_of_rows rs = map (\<lambda>r. (tr_memory r, mark_of_row r)) rs"

definition journals_match :: "event_json \<Rightarrow> sync_tables \<Rightarrow> memory_port \<Rightarrow> bool" where
  "journals_match J t p \<longleftrightarrow> list_all2 (row_holds J) (sy_journal t) (mp_applied p)
     \<and> map sj_order (sy_journal t) = map int [1..<Suc (length (sy_journal t))] \<and> memory_good p"

definition cursors_match :: "sync_tables \<Rightarrow> memory_port \<Rightarrow> bool" where
  "cursors_match t p \<longleftrightarrow> sy_cursors t = map (\<lambda>(peer, pos). (peer, int pos)) (mp_cursors p) \<and> bt_ok (mp_cursors p)"

definition marks_match :: "sync_tables \<Rightarrow> memory_port \<Rightarrow> bool" where
  "marks_match t p \<longleftrightarrow> distinct (map tr_memory (sy_tombstones t)) \<and> list_all (\<lambda>r. length (tr_digest r) = 32) (sy_tombstones t)
     \<and> map_of (marks_of_rows (sy_tombstones t)) = map_of (memory_marks p) \<and> bt_ok (memory_marks p)"

definition ports_match :: "event_json \<Rightarrow> sync_tables \<Rightarrow> memory_port \<Rightarrow> bool" where
  "ports_match J t p \<longleftrightarrow> journals_match J t p \<and> cursors_match t p \<and> marks_match t p"

lemma upsert_rows_keys:
  assumes "distinct (map key rows)" "key new = k"
  shows "distinct (map key (upsert_row (\<lambda>r. key r = k) (\<lambda>_. new) new rows))"
proof (cases "list_ex (\<lambda>r. key r = k) rows")
  case True
  then have "map key (upsert_row (\<lambda>r. key r = k) (\<lambda>_. new) new rows) = map key rows"
    using assms(2) by (simp add: upsert_row_def)
  then show ?thesis using assms(1) by simp
qed (use assms in \<open>auto simp: upsert_row_def list_ex_iff\<close>)

lemma upsert_row_set: "set (upsert_row same (\<lambda>_. new) new rows) \<subseteq> insert new (set rows)"
  by (auto simp: upsert_row_def)

lemma upsert_row_map_of:
  assumes "key new = k"
  shows "map_of (map (\<lambda>r. (key r, f r)) (upsert_row (\<lambda>r. key r = k) (\<lambda>_. new) new rows))
     = (map_of (map (\<lambda>r. (key r, f r)) rows))(k \<mapsto> f new)"
proof (cases "list_ex (\<lambda>r. key r = k) rows")
  case True
  have "map_of (map (\<lambda>r. (key r, f r)) (map (\<lambda>r. if key r = k then new else r) rows)) x =
      (if x = k \<and> k \<in> key ` set rows then Some (f new) else map_of (map (\<lambda>r. (key r, f r)) rows) x)" for x
    using assms by (induction rows) auto
  moreover have "k \<in> key ` set rows" using True by (auto simp: list_ex_iff)
  ultimately show ?thesis using True by (simp add: upsert_row_def fun_eq_iff)
next
  case False
  then have "map_of (map (\<lambda>r. (key r, f r)) rows) k = None" by (auto simp: map_of_eq_None_iff list_ex_iff)
  then show ?thesis using False assms by (auto simp: upsert_row_def map_add_def fun_eq_iff split: option.splits)
qed

lemma collect_marks_rows:
  assumes "list_all (\<lambda>r. length (tr_digest r) = 32) rs" "bt_ok out"
  shows "\<exists>m. collect_marks out (map tombstone_of_row rs) = Okay m \<and> bt_ok m
     \<and> map_of m = map_of (rev (marks_of_rows rs) @ out)"
  using assms
proof (induction rs arbitrary: out)
  case (Cons r rs)
  let ?out = "bt_insert (tr_memory r) (mark_of_row r) out"
  obtain m where m: "collect_marks ?out (map tombstone_of_row rs) = Okay m" "bt_ok m"
    "map_of m = map_of (rev (marks_of_rows rs) @ ?out)"
    using Cons.IH[of ?out] Cons.prems by (auto simp: bt_insert_ok)
  have "collect_marks out (map tombstone_of_row (r # rs)) = Okay m"
    using m(1) Cons.prems(1) by (simp add: tombstone_of_row_def mark_of_row_def)
  moreover have "map_of m = map_of (rev (marks_of_rows (r # rs)) @ out)"
    using m(3) Cons.prems(2) by (simp add: marks_of_rows_def)
  ultimately show ?case using m(2) by blast
qed (simp add: marks_of_rows_def)

lemma collect_sorted:
  assumes "distinct (map tr_memory (sy_tombstones t))" "list_all (\<lambda>r. length (tr_digest r) = 32) (sy_tombstones t)"
  shows "\<exists>m. collect_marks [] (list_memory_tombstones t) = Okay m \<and> bt_ok m
     \<and> map_of m = map_of (marks_of_rows (sy_tombstones t))"
proof -
  let ?rs = "sort_key tr_origin (sort_key tr_seq (sy_tombstones t))"
  obtain out where out: "collect_marks [] (map tombstone_of_row ?rs) = Okay out" "bt_ok out"
    "map_of out = map_of (rev (marks_of_rows ?rs))"
    using collect_marks_rows[of ?rs "[]"] assms(2) by (auto simp: list_all_iff)
  have d: "distinct (map fst (marks_of_rows (sy_tombstones t)))" "distinct (map fst (marks_of_rows ?rs))"
    using assms(1) by (simp_all add: marks_of_rows_def comp_def distinct_map)
  have "set (marks_of_rows ?rs) = set (marks_of_rows (sy_tombstones t))" by (simp add: marks_of_rows_def)
  then have "map_of (rev (marks_of_rows ?rs)) = map_of (marks_of_rows (sy_tombstones t))"
    using map_of_inject_set[of "rev (marks_of_rows ?rs)" "marks_of_rows (sy_tombstones t)"] d by (simp flip: rev_map)
  then show ?thesis using out by (simp add: list_memory_tombstones_def)
qed

lemma load_marks_match:
  assumes "marks_match t p"
  shows "store_load_tombstones t = (Okay (memory_marks p), t)"
proof -
  obtain m where "collect_marks [] (list_memory_tombstones t) = Okay m" "bt_ok m" "map_of m = map_of (memory_marks p)"
    using collect_sorted[of t] assms by (auto simp: marks_match_def)
  then show ?thesis using bt_eqI[of m "memory_marks p"] assms by (simp add: store_load_tombstones_def marks_match_def)
qed

lemma load_applied_match:
  assumes "journals_match J t p"
  shows "store_load_applied J t = (Okay (mp_applied p), t)"
proof -
  have "sorted (map sj_order (sy_journal t))"
    using assms by (auto simp: journals_match_def sorted_map sorted_wrt_map simp del: upt_Suc)
  then have "list_sync_journal_events t = map event_of_journal_row (sy_journal t)"
    by (simp add: list_sync_journal_events_def sort_key_id_if_sorted)
  moreover have "list_all2 (row_holds J) rs evs \<Longrightarrow> stored_to_events J (map event_of_journal_row rs) = Okay evs" for rs evs
    by (induction rule: list_all2_induct) (auto simp: row_holds_def)
  ultimately show ?thesis using assms by (simp add: store_load_applied_def journals_match_def)
qed

lemma apply_match:
  assumes "journals_match J t p" "port_op_ok J (PApply ev)"
    and json: "\<And>body. ej_encode J ev = Some body \<Longrightarrow> ej_decode J body = Some ev"
  obtains b t' p' where "store_record_applied J t ev = (Okay b, t')" "memory_record_applied p ev = (Okay b, p')"
    "journals_match J t' p'" "sy_cursors t' = sy_cursors t" "sy_tombstones t' = sy_tombstones t"
    "mp_cursors p' = mp_cursors p" "mp_tombstones p' = mp_tombstones p"
proof -
  obtain body where body: "ej_encode J ev = Some body" and sig: "length (je_signature ev) = 64"
    and seq: "i64_try_from (je_seq ev) = Some (uint (je_seq ev))"
    using assms(2) by (auto simp: i64_try_from_def)
  have rows: "list_all2 (row_holds J) (sy_journal t) (mp_applied p)" "memory_good p"
    "map sj_order (sy_journal t) = map int [1..<Suc (length (sy_journal t))]"
    using assms(1) by (simp_all add: journals_match_def)
  have "list_all2 (row_holds J) rs evs \<Longrightarrow> sj_event_id ` set rs = je_id ` set evs" for rs evs
    by (induction rule: list_all2_induct) (auto simp: row_holds_def)
  then have ids: "sj_event_id ` set (sy_journal t) = dom (map_of (mp_applied_ids p))"
    using rows(1,2) by (simp add: memory_good_def)
  have "list_ex (\<lambda>r. sj_event_id r = je_id ev) (sy_journal t) \<longleftrightarrow> je_id ev \<in> sj_event_id ` set (sy_journal t)"
    unfolding list_ex_iff image_iff by metis
  then have known: "list_ex (\<lambda>r. sj_event_id r = je_id ev) (sy_journal t) \<longleftrightarrow> map_of (mp_applied_ids p) (je_id ev) \<noteq> None"
    unfolding ids by blast
  show thesis
  proof (cases "map_of (mp_applied_ids p) (je_id ev) = None")
    case False
    then show thesis using that[of False t p] body seq known assms(1)
      by (simp add: store_record_applied_def append_sync_journal_event_def state_error_def memory_record_applied_def)
  next
    case True
    have "foldl max 0 (map int [1..<Suc n]) = int n" for n by (induction n) auto
    then have order: "foldl max 0 (map sj_order (sy_journal t)) = int (length (sy_journal t))" by (simp only: rows(3))
    let ?row = "\<lparr>sj_event_id = je_id ev, sj_origin = je_origin ev, sj_seq = uint (je_seq ev),
        sj_order = int (length (sy_journal t)) + 1, sj_signature = je_signature ev, sj_body = body\<rparr>"
    have "row_holds J ?row ev"
      using json[OF body] sig by (simp add: row_holds_def stored_to_event_def event_of_journal_row_def)
    then have "journals_match J (t\<lparr>sy_journal := sy_journal t @ [?row]\<rparr>) (snd (memory_record_applied p ev))"
      using rows True by (auto simp: journals_match_def memory_record_applied_def Let_def list_all2_appendI memory_good_def
          bt_insert_ok)
    then show thesis
      using that[of True "t\<lparr>sy_journal := sy_journal t @ [?row]\<rparr>" "snd (memory_record_applied p ev)"] body seq known True
      by (simp add: store_record_applied_def append_sync_journal_event_def state_error_def memory_record_applied_def Let_def
          order)
  qed
qed

lemma bt_insert_images:
  "map (\<lambda>(k, v). (k, g v)) (bt_insert k v m) = bt_insert k (g v) (map (\<lambda>(k, v). (k, g v)) m)"
  by (induction m) (auto split: prod.splits)

lemma cursor_match:
  assumes "cursors_match t p" "pos < 2 ^ 63" "\<And>v. map_of (mp_cursors p) peer = Some v \<Longrightarrow> v \<le> pos"
  shows "record_sync_fetch_cursor t peer pos = (Okay (), t\<lparr>sy_cursors := bt_insert peer (int pos) (sy_cursors t)\<rparr>)"
    "cursors_match (t\<lparr>sy_cursors := bt_insert peer (int pos) (sy_cursors t)\<rparr>)
       (p\<lparr>mp_cursors := bt_insert peer pos (mp_cursors p)\<rparr>)"
proof -
  have c: "sy_cursors t = map (\<lambda>(peer, pos). (peer, int pos)) (mp_cursors p)" "bt_ok (mp_cursors p)"
    using assms(1) by (simp_all add: cursors_match_def)
  then have "map_of (sy_cursors t) peer = map_option int (map_of (mp_cursors p) peer)" by (simp add: map_of_map)
  then show "record_sync_fetch_cursor t peer pos = (Okay (), t\<lparr>sy_cursors := bt_insert peer (int pos) (sy_cursors t)\<rparr>)"
    using assms(2,3) by (auto simp: record_sync_fetch_cursor_def max_def split: option.splits)
  show "cursors_match (t\<lparr>sy_cursors := bt_insert peer (int pos) (sy_cursors t)\<rparr>)
       (p\<lparr>mp_cursors := bt_insert peer pos (mp_cursors p)\<rparr>)"
    using c by (simp add: cursors_match_def bt_insert_images bt_insert_ok)
qed

lemma load_cursors_match: "cursors_match t p \<Longrightarrow> list_sync_fetch_cursors t = mp_cursors p"
  by (simp add: cursors_match_def list_sync_fetch_cursors_def comp_def split_def)

lemma mark_match:
  assumes "marks_match t p" "port_op_ok J (PMark mem mark at)"
  obtains t' where "store_record_tombstone t mem mark at = (Okay (), t')"
    "marks_match t' (p\<lparr>mp_tombstones := bt_insert mem (mark, at) (mp_tombstones p)\<rparr>)"
    "sy_cursors t' = sy_cursors t" "sy_journal t' = sy_journal t"
proof -
  let ?row = "\<lparr>tr_memory = mem, tr_origin = tm_origin mark, tr_seq = uint (tm_seq mark), tr_forgotten_at = uint at,
      tr_digest = tm_digest mark\<rparr>"
  let ?rows = "upsert_row (\<lambda>r. tr_memory r = mem) (\<lambda>_. ?row) ?row (sy_tombstones t)"
  have m: "distinct (map tr_memory (sy_tombstones t))" "list_all (\<lambda>r. length (tr_digest r) = 32) (sy_tombstones t)"
    "map_of (marks_of_rows (sy_tombstones t)) = map_of (memory_marks p)" "bt_ok (memory_marks p)"
    using assms(1) by (simp_all add: marks_match_def)
  have ok: "i64_try_from at = Some (uint at)" "i64_try_from (tm_seq mark) = Some (uint (tm_seq mark))"
    "length (tm_digest mark) = 32" using assms(2) by (simp_all add: i64_try_from_def)
  have row: "mark_of_row ?row = mark" by (cases mark) (simp add: mark_of_row_def)
  have "list_all (\<lambda>r. length (tr_digest r) = 32) ?rows"
    using upsert_row_set[of "\<lambda>r. tr_memory r = mem" ?row "sy_tombstones t"] m(2) ok(3) by (auto simp: list_all_iff)
  moreover have "distinct (map tr_memory ?rows)" using upsert_rows_keys[OF m(1), of ?row mem] by simp
  moreover have "map_of (marks_of_rows ?rows) = (map_of (memory_marks p))(mem \<mapsto> mark)"
    using upsert_row_map_of[of tr_memory ?row mem mark_of_row "sy_tombstones t"] m(3) row
    by (simp add: marks_of_rows_def)
  moreover have "memory_marks (p\<lparr>mp_tombstones := bt_insert mem (mark, at) (mp_tombstones p)\<rparr>) = bt_insert mem mark (memory_marks p)"
    by (simp add: memory_marks_def bt_insert_map)
  ultimately show thesis
    using that[of "t\<lparr>sy_tombstones := ?rows\<rparr>"] ok m(4)
    by (simp add: store_record_tombstone_def insert_memory_tombstone_def state_error_def marks_match_def bt_insert_ok Let_def)
qed

definition cursors_below :: "memory_port \<Rightarrow> port_op list \<Rightarrow> bool" where
  "cursors_below p xs \<longleftrightarrow> (\<forall>peer v. map_of (mp_cursors p) peer = Some v \<longrightarrow> (\<forall>pos\<in>set (positions_for peer xs). v \<le> pos))"

lemma match_step:
  assumes "ports_match J t p" "port_op_ok J x"
    and json: "\<And>ev body. ej_encode J ev = Some body \<Longrightarrow> ej_decode J body = Some ev"
    and "cursors_below p (x # xs)" "\<And>peer. sorted (positions_for peer (x # xs))"
  shows "\<exists>a t' p'. port_step (store_state_port J) t x = (a, t') \<and> port_step memory_state_port p x = (a, p')
    \<and> ports_match J t' p' \<and> cursors_below p' xs"
proof (cases x)
  case (PApply ev)
  obtain b t' p' where "store_record_applied J t ev = (Okay b, t')" "memory_record_applied p ev = (Okay b, p')"
    "journals_match J t' p'" "sy_cursors t' = sy_cursors t" "sy_tombstones t' = sy_tombstones t"
    "mp_cursors p' = mp_cursors p" "mp_tombstones p' = mp_tombstones p"
    using apply_match[of J t p ev] assms(1,2) json PApply unfolding ports_match_def by blast
  then show ?thesis
    using assms(1,4) PApply by (simp add: store_state_port_def memory_state_port_def ports_match_def cursors_match_def
        marks_match_def memory_marks_def cursors_below_def)
next
  case (PCursor peer pos)
  have "v \<le> pos" if "map_of (mp_cursors p) peer = Some v" for v
    using assms(4) that PCursor by (auto simp: cursors_below_def)
  then have c: "record_sync_fetch_cursor t peer pos = (Okay (), t\<lparr>sy_cursors := bt_insert peer (int pos) (sy_cursors t)\<rparr>)"
    "cursors_match (t\<lparr>sy_cursors := bt_insert peer (int pos) (sy_cursors t)\<rparr>)
       (p\<lparr>mp_cursors := bt_insert peer pos (mp_cursors p)\<rparr>)"
    using cursor_match[of t p pos peer] assms(1,2) PCursor by (simp_all add: ports_match_def)
  have "bt_ok (mp_cursors p)" using assms(1) by (simp add: ports_match_def cursors_match_def)
  moreover have "\<forall>q\<in>set (positions_for peer xs). pos \<le> q" using assms(5)[of peer] PCursor by simp
  ultimately have "cursors_below (p\<lparr>mp_cursors := bt_insert peer pos (mp_cursors p)\<rparr>) xs"
    using assms(4) PCursor by (auto simp: cursors_below_def split: if_splits)
  then show ?thesis
    using c assms(1) PCursor by (simp add: store_state_port_def memory_state_port_def state_error_def ports_match_def
        journals_match_def marks_match_def memory_marks_def memory_good_def)
next
  case (PMark mem mark at)
  obtain t' where "store_record_tombstone t mem mark at = (Okay (), t')"
    "marks_match t' (p\<lparr>mp_tombstones := bt_insert mem (mark, at) (mp_tombstones p)\<rparr>)"
    "sy_cursors t' = sy_cursors t" "sy_journal t' = sy_journal t"
    using mark_match[of t p J mem mark at] assms(1,2) PMark unfolding ports_match_def by blast
  then show ?thesis
    using assms(1,4) PMark by (simp add: store_state_port_def memory_state_port_def ports_match_def journals_match_def
        cursors_match_def cursors_below_def memory_good_def)
next
  case PLoadApplied
  then show ?thesis using assms(1,4) load_applied_match[of J t p]
    by (simp add: store_state_port_def memory_state_port_def ports_match_def cursors_below_def)
next
  case PLoadCursors
  then show ?thesis using assms(1,4) load_cursors_match[of t p]
    by (simp add: store_state_port_def memory_state_port_def ports_match_def cursors_below_def)
next
  case PLoadMarks
  then show ?thesis using assms(1,4) load_marks_match[of t p]
    by (simp add: store_state_port_def memory_state_port_def ports_match_def cursors_below_def memory_marks_def)
qed

lemma positions_for_tail: "sorted (positions_for peer (x # xs)) \<Longrightarrow> sorted (positions_for peer xs)"
  by (cases x) (auto split: if_splits)

lemma match_run:
  assumes json: "\<And>ev body. ej_encode J ev = Some body \<Longrightarrow> ej_decode J body = Some ev"
  shows "ports_match J t p \<Longrightarrow> list_all (port_op_ok J) xs \<Longrightarrow> cursors_below p xs \<Longrightarrow>
    (\<And>peer. sorted (positions_for peer xs)) \<Longrightarrow>
    port_run (store_state_port J) t xs = port_run memory_state_port p xs"
proof (induction xs arbitrary: t p)
  case (Cons x xs)
  obtain a t' p' where s: "port_step (store_state_port J) t x = (a, t')" "port_step memory_state_port p x = (a, p')"
    "ports_match J t' p'" "cursors_below p' xs"
    using match_step[OF Cons.prems(1) _ json Cons.prems(3,4)] Cons.prems(2) by auto
  show ?case
    using Cons.IH[OF s(3) _ s(4)] Cons.prems(2) positions_for_tail[OF Cons.prems(4)] s(1,2) by simp
qed simp

section \<open>The tables as the port of a node\<close>

definition row_event :: "event_json \<Rightarrow> sync_journal_row \<Rightarrow> journal_event" where
  "row_event J r = \<lparr>je_id = sj_event_id r, je_origin = sj_origin r, je_seq = word_of_int (sj_seq r),
     je_signature = sj_signature r,
     je_body = (case ej_decode J (sj_body r) of None \<Rightarrow> DocumentAppend [] [] | Some ev \<Rightarrow> je_body ev)\<rparr>"

definition stored_events :: "event_json \<Rightarrow> sync_tables \<Rightarrow> journal_event list" where
  "stored_events J t = map (row_event J) (sy_journal t)"

definition stored_marks :: "sync_tables \<Rightarrow> (string \<times> tombstone_mark) list" where
  "stored_marks t = (case collect_marks [] (list_memory_tombstones t) of Inl _ \<Rightarrow> [] | Inr m \<Rightarrow> m)"

definition journal_good :: "event_json \<Rightarrow> sync_journal_row list \<Rightarrow> bool" where
  "journal_good J rows \<longleftrightarrow> map sj_order rows = map int [1..<Suc (length rows)]
     \<and> (\<forall>r\<in>set rows. ej_decode J (sj_body r) \<noteq> None \<and> 0 \<le> sj_seq r \<and> sj_seq r < 2 ^ 63)"

definition tables_good :: "event_json \<Rightarrow> sync_tables \<Rightarrow> bool" where
  "tables_good J t \<longleftrightarrow> journal_good J (sy_journal t) \<and> distinct (map tr_memory (sy_tombstones t))
     \<and> list_all (\<lambda>r. length (tr_digest r) = 32) (sy_tombstones t)"

text \<open>A signature of 64 bytes, and in a forget a time within the signed column and a digest of 32 bytes.\<close>

definition event_fits :: "journal_event \<Rightarrow> bool" where
  "event_fits ev \<longleftrightarrow> length (je_signature ev) = 64
     \<and> (case je_body ev of MemoryForgotten mem at digest \<Rightarrow> unat at < 2 ^ 63 \<and> length digest = 32 | _ \<Rightarrow> True)"

lemma stored_marks_good:
  assumes "tables_good J t"
  shows "collect_marks [] (list_memory_tombstones t) = Okay (stored_marks t)" "bt_ok (stored_marks t)"
    "map_of (stored_marks t) = map_of (marks_of_rows (sy_tombstones t))"
  using collect_sorted[of t] assms by (auto simp: tables_good_def stored_marks_def)

lemma stored_events_load:
  assumes "tables_good J t" "\<forall>ev\<in>set (stored_events J t). event_fits ev"
  shows "store_load_applied J t = (Okay (stored_events J t), t)"
proof -
  have "sorted (map sj_order (sy_journal t))"
    using assms(1) by (auto simp: tables_good_def journal_good_def sorted_wrt_map simp del: upt_Suc)
  then have l: "list_sync_journal_events t = map event_of_journal_row (sy_journal t)"
    by (simp add: list_sync_journal_events_def sort_key_id_if_sorted)
  have "stored_to_event J (event_of_journal_row r) = Okay (row_event J r)" if "r \<in> set (sy_journal t)" for r
    using assms that by (auto simp: tables_good_def journal_good_def stored_events_def event_fits_def row_event_def
        stored_to_event_def event_of_journal_row_def)
  then have "stored_to_events J (map event_of_journal_row rows) = Okay (map (row_event J) rows)"
    if "set rows \<subseteq> set (sy_journal t)" for rows using that by (induction rows) auto
  then show ?thesis by (simp add: store_load_applied_def l stored_events_def)
qed

lemma order_next: "map sj_order rows = map int [1..<Suc (length rows)] \<Longrightarrow> foldl max 0 (map sj_order rows) = int (length rows)"
proof -
  have "foldl max 0 (map int [1..<Suc n]) = int n" for n by (induction n) auto
  then show "map sj_order rows = map int [1..<Suc (length rows)] \<Longrightarrow> foldl max 0 (map sj_order rows) = int (length rows)"
    by simp
qed

lemma store_record_new:
  assumes json: "\<And>ev body. ej_encode J ev = Some body \<Longrightarrow> ej_decode J body = Some ev"
    and "tables_good J t" "je_id ev \<notin> je_id ` set (stored_events J t)" "store_record_applied J t ev = (r, t')"
  shows "isl r \<and> t' = t \<or> r = Okay True \<and> tables_good J t' \<and> stored_events J t' = stored_events J t @ [ev]
    \<and> stored_marks t' = stored_marks t"
proof (cases "ej_encode J ev = None \<or> i64_try_from (je_seq ev) = None")
  case True
  then show ?thesis
    using assms(4) by (auto simp: store_record_applied_def append_sync_journal_event_def state_error_def split: option.splits)
next
  case False
  then obtain body v where b: "ej_encode J ev = Some body" "i64_try_from (je_seq ev) = Some v" by auto
  note v = i64_try_from_SomeD[OF b(2)]
  have "\<not> list_ex (\<lambda>r. sj_event_id r = je_id ev) (sy_journal t)"
    using assms(3) by (auto simp: list_ex_iff stored_events_def row_event_def image_iff)
  then have r: "r = Okay True" "t' = t\<lparr>sy_journal := sy_journal t @ [\<lparr>sj_event_id = je_id ev, sj_origin = je_origin ev,
      sj_seq = v, sj_order = foldl max 0 (map sj_order (sy_journal t)) + 1, sj_signature = je_signature ev, sj_body = body\<rparr>]\<rparr>"
    using assms(4) b by (simp_all add: store_record_applied_def append_sync_journal_event_def state_error_def)
  have "stored_events J t' = stored_events J t @ [ev]"
    using json[OF b(1)] v by (simp add: r stored_events_def row_event_def)
  moreover have "tables_good J t'"
    using assms(2) json[OF b(1)] v order_next[of "sy_journal t"] by (auto simp: r tables_good_def journal_good_def)
  moreover have "stored_marks t' = stored_marks t" by (simp add: r stored_marks_def list_memory_tombstones_def)
  ultimately show ?thesis using r(1) by blast
qed

lemma store_record_mark:
  assumes "tables_good J t" "ev \<in> set (stored_events J t)" "event_fits ev" "je_body ev = MemoryForgotten mem at digest"
    and "mark = \<lparr>tm_digest = digest, tm_origin = je_origin ev, tm_seq = je_seq ev\<rparr>"
  shows "\<exists>t'. store_record_tombstone t mem mark at = (Okay (), t') \<and> tables_good J t' \<and> stored_events J t' = stored_events J t
    \<and> stored_marks t' = bt_insert mem mark (stored_marks t)"
proof -
  obtain r where "r \<in> set (sy_journal t)" "je_seq ev = word_of_int (sj_seq r)"
    using assms(2) by (auto simp: stored_events_def row_event_def)
  then have "uint (je_seq ev) < 2 ^ 63"
    using assms(1) by (auto simp: tables_good_def journal_good_def uint_word_of_int)
  then have "unat (je_seq ev) < 2 ^ 63" by (metis nat_less_numeral_power_cancel_iff unat_eq_nat_uint)
  then have ok: "port_op_ok J (PMark mem mark at)" using assms(3-5) by (simp add: event_fits_def)
  let ?row = "\<lparr>tr_memory = mem, tr_origin = tm_origin mark, tr_seq = uint (tm_seq mark), tr_forgotten_at = uint at,
      tr_digest = tm_digest mark\<rparr>"
  let ?t = "t\<lparr>sy_tombstones := upsert_row (\<lambda>r. tr_memory r = mem) (\<lambda>_. ?row) ?row (sy_tombstones t)\<rparr>"
  have rec: "store_record_tombstone t mem mark at = (Okay (), ?t)"
    using ok by (simp add: store_record_tombstone_def insert_memory_tombstone_def state_error_def i64_try_from_def Let_def)
  have row: "mark_of_row ?row = mark" by (cases mark) (simp add: mark_of_row_def)
  have g: "tables_good J ?t"
    using assms(1) ok upsert_rows_keys[of tr_memory "sy_tombstones t" ?row mem]
      upsert_row_set[of "\<lambda>r. tr_memory r = mem" ?row "sy_tombstones t"]
    by (auto simp: tables_good_def list_all_iff)
  have "map_of (stored_marks ?t) = map_of (bt_insert mem mark (stored_marks t))"
    using stored_marks_good(3)[OF g] stored_marks_good(2,3)[OF assms(1)] row
      upsert_row_map_of[of tr_memory ?row mem mark_of_row "sy_tombstones t"] by (simp add: marks_of_rows_def)
  then have "stored_marks ?t = bt_insert mem mark (stored_marks t)"
    using bt_eqI stored_marks_good(2)[OF g] bt_insert_ok[OF stored_marks_good(2)[OF assms(1)]] by blast
  then show ?thesis using rec g by (auto simp: stored_events_def)
qed

text \<open>The promises of a durable port for the events that fit, given the round trip of the JSON text.\<close>

definition json_sound :: "event_json \<Rightarrow> bool" where
  "json_sound J \<longleftrightarrow> (\<forall>ev body. ej_encode J ev = Some body \<longrightarrow> ej_decode J body = Some ev)"

lemma store_durable:
  assumes "json_sound J"
  shows "durable_port (store_state_port J) (tables_good J) event_fits (stored_events J) stored_marks list_sync_fetch_cursors"
proof
  fix t t' r and ev :: journal_event
  assume "tables_good J t" "je_id ev \<notin> je_id ` set (stored_events J t)" "record_applied (store_state_port J) t ev = (r, t')"
  then show "isl r \<and> t' = t \<or> r = Okay True \<and> tables_good J t' \<and> stored_events J t' = stored_events J t @ [ev]
      \<and> stored_marks t' = stored_marks t"
    using store_record_new[of J t ev r t'] assms by (simp add: json_sound_def store_state_port_def)
next
  fix t t' r and ev :: journal_event
  assume "record_applied (store_state_port J) t ev = (r, t')"
  then show "set (stored_events J t) \<subseteq> set (stored_events J t')"
    by (auto simp: store_state_port_def store_record_applied_def append_sync_journal_event_def state_error_def stored_events_def
        split: option.splits if_splits)
next
  fix t t' res mem mark at
  assume "record_tombstone (store_state_port J) t mem mark at = (res, t')"
  then have "sy_journal t' = sy_journal t"
    by (auto simp: store_state_port_def store_record_tombstone_def insert_memory_tombstone_def state_error_def Let_def
        split: option.splits)
  then show "set (stored_events J t) \<subseteq> set (stored_events J t')" by (simp add: stored_events_def)
next
  fix t t' res peer pos
  assume "record_fetch_cursor (store_state_port J) t peer pos = (res, t')"
  then have "sy_journal t' = sy_journal t" "sy_tombstones t' = sy_tombstones t"
    by (auto simp: store_state_port_def record_sync_fetch_cursor_def state_error_def split: if_splits)
  then show "set (stored_events J t) \<subseteq> set (stored_events J t')"
    "tables_good J t \<Longrightarrow> tables_good J t' \<and> stored_events J t' = stored_events J t \<and> stored_marks t' = stored_marks t"
    by (simp_all add: stored_events_def tables_good_def stored_marks_def list_memory_tombstones_def)
qed (auto simp: store_state_port_def stored_events_load store_load_tombstones_def stored_marks_good(1)
    dest: store_record_mark)

section \<open>Paired devices\<close>

text \<open>What the store gives back for a device: the time on the certificate is the time the revocation was applied.\<close>

definition stored_form :: "vault_device_record \<Rightarrow> vault_device_record" where
  "stored_form r =
     (case vd_status r of
        VdActive \<Rightarrow> r
      | VdRevoked at cert \<Rightarrow> r\<lparr>vd_status := VdRevoked at (cert\<lparr>vc_revoked_at := at\<rparr>)\<rparr>)"

definition device_storable :: "vault_device_record \<Rightarrow> bool" where
  "device_storable r \<longleftrightarrow> device_ok r \<and> device_label_new (vd_device r) = Okay (vd_device r)
     \<and> device_label_new (vd_added_by r) = Okay (vd_added_by r) \<and> unat (vd_added_at r) < 2 ^ 63
     \<and> (case vd_status r of VdActive \<Rightarrow> True
        | VdRevoked at cert \<Rightarrow> unat at < 2 ^ 63 \<and> recovery_signature_new (vc_signature cert) = Okay (vc_signature cert))"

definition devices_hold :: "sync_tables \<Rightarrow> (string \<times> vault_device_record) list \<Rightarrow> bool" where
  "devices_hold t ds \<longleftrightarrow> map (\<lambda>(k, w). (k, row_to_vault_device w)) (sy_devices t) = map (\<lambda>(k, r). (k, Okay r)) ds"

lemma device_row:
  assumes "device_storable r"
  obtains w where "upsert_vault_device t r = (Okay (), t\<lparr>sy_devices := bt_insert (vd_device r) w (sy_devices t)\<rparr>)"
    "row_to_vault_device w = Okay (stored_form r)"
proof (cases "vd_status r")
  case VdActive
  have a: "i64_try_from (vd_added_at r) = Some (uint (vd_added_at r))" "u64_try_from (uint (vd_added_at r)) = Some (vd_added_at r)"
    using assms by (simp_all add: device_storable_def i64_try_from_def u64_try_from_def)
  show thesis
    using that a assms restore_ok[of r] VdActive
    by (simp add: upsert_vault_device_def row_to_vault_device_def row_status_def device_storable_def stored_form_def)
next
  case (VdRevoked at cert)
  have a: "i64_try_from (vd_added_at r) = Some (uint (vd_added_at r))" "u64_try_from (uint (vd_added_at r)) = Some (vd_added_at r)"
    "i64_try_from at = Some (uint at)" "u64_try_from (uint at) = Some at"
    using assms VdRevoked by (simp_all add: device_storable_def i64_try_from_def u64_try_from_def)
  have ok: "device_ok r" using assms by (simp add: device_storable_def)
  then have cert: "vc_device cert = vd_device r" using VdRevoked by (simp add: device_ok_def)
  have "device_ok (stored_form r)" using ok VdRevoked by (simp add: device_ok_def stored_form_def)
  then have "vault_restore (vd_device r) (vd_added_by r) (vd_added_at r) (vd_epoch_seq r)
      (VdRevoked at (cert\<lparr>vc_revoked_at := at\<rparr>)) = Okay (stored_form r)"
    using restore_ok[of "stored_form r"] VdRevoked by (simp add: stored_form_def)
  moreover have "\<lparr>vc_device = vd_device r, vc_revoked_at = at, vc_signature = vc_signature cert\<rparr> = cert\<lparr>vc_revoked_at := at\<rparr>"
    using cert by simp
  ultimately show thesis
    using that a assms VdRevoked
    by (simp add: upsert_vault_device_def row_to_vault_device_def row_status_def device_storable_def certificate_new_def)
qed

lemma devices_hold_upsert:
  assumes "devices_hold t ds" "device_storable r"
  shows "fst (upsert_vault_device t r) = Okay ()
    \<and> devices_hold (snd (upsert_vault_device t r)) (bt_insert (vd_device r) (stored_form r) ds)"
proof -
  obtain w where w: "upsert_vault_device t r = (Okay (), t\<lparr>sy_devices := bt_insert (vd_device r) w (sy_devices t)\<rparr>)"
    "row_to_vault_device w = Okay (stored_form r)" using device_row[OF assms(2)] .
  then show ?thesis using assms(1) by (simp add: devices_hold_def bt_insert_images)
qed

lemma rows_to_vault_devices_map:
  "map row_to_vault_device ws = map Inr rs \<Longrightarrow> rows_to_vault_devices ws = Okay rs"
  by (induction ws arbitrary: rs) (auto simp: Cons_eq_map_conv)

lemma devices_hold_list:
  assumes "devices_hold t ds"
  shows "list_vault_devices t = Okay (map snd ds)"
proof -
  have "map snd (map (\<lambda>(k, w). (k, row_to_vault_device w)) (sy_devices t)) = map snd (map (\<lambda>(k, r). (k, Inr r)) ds)"
    using assms by (simp add: devices_hold_def)
  then have "map row_to_vault_device (map snd (sy_devices t)) = map Inr (map snd ds)" by (simp add: comp_def split_def)
  then show ?thesis using rows_to_vault_devices_map by (simp only: list_vault_devices_def)
qed

definition upsert_all :: "sync_tables \<Rightarrow> vault_device_record list \<Rightarrow> sync_tables" where
  "upsert_all t rs = fold (\<lambda>r t. snd (upsert_vault_device t r)) rs t"

lemma devices_hold_all:
  "devices_hold t ds \<Longrightarrow> list_all device_storable rs \<Longrightarrow>
   devices_hold (upsert_all t rs) (fold (\<lambda>r. bt_insert (vd_device r) (stored_form r)) rs ds)"
  by (induction rs arbitrary: t ds) (simp_all add: upsert_all_def devices_hold_upsert)

section \<open>Compaction\<close>

definition acknowledged :: "(string \<times> u64) list \<Rightarrow> tombstone_row \<Rightarrow> bool" where
  "acknowledged floors r \<longleftrightarrow> (\<exists>(origin, floor)\<in>set floors. tr_origin r = origin \<and> tr_seq r < uint floor)"

lemma compact_exact:
  assumes "list_all (\<lambda>(_, floor). unat floor < 2 ^ 63) floors"
  shows "compact_tombstones t floors n =
     (Okay (n + length (filter (acknowledged floors) (sy_tombstones t))),
      t\<lparr>sy_tombstones := filter (\<lambda>r. \<not> acknowledged floors r) (sy_tombstones t)\<rparr>)"
  using assms
proof (induction floors arbitrary: t n)
  case Nil
  then show ?case by (simp add: acknowledged_def)
next
  case (Cons f floors)
  obtain origin fl where f: "f = (origin, fl)" by fastforce
  have ack: "acknowledged (f # floors) r \<longleftrightarrow> below_floor origin (uint fl) r \<or> acknowledged floors r" for r
    by (auto simp: acknowledged_def below_floor_def f)
  have count: "length (filter P xs) + length (filter Q (filter (\<lambda>r. \<not> P r) xs)) = length (filter (\<lambda>r. P r \<or> Q r) xs)"
    for P Q and xs :: "tombstone_row list" by (induction xs) auto
  have v: "i64_try_from fl = Some (uint fl)" using Cons.prems by (simp add: f i64_try_from_def)
  show ?case
    using Cons.IH Cons.prems v count[of "below_floor origin (uint fl)" "sy_tombstones t" "acknowledged floors"]
    by (simp add: f ack[unfolded f] conj_commute add.assoc)
qed

section \<open>Properties\<close>

text \<open>C18: Counters leased from the store never repeat. Over any sequence of sessions, opened afresh or from a saved chain,
  on any routes, each sealing and turning as it likes until it is dropped, the counters on the envelopes of one route strictly
  increase across all sessions, starting at the first counter the store has not handed out.\<close>

theorem leased_counters_never_repeat:
  assumes "lease_ok t" "list_all session_plain ls"
  shows "sorted_wrt (<) (route_counters key (leased_runs P t ls))
    \<and> (\<forall>c\<in>set (route_counters key (leased_runs P t ls)). unat (next_counter t key) \<le> c)"
  using leased_runs_sorted[OF assms] .

definition sample_leased :: "bytes list \<Rightarrow> leased_session" where
  "sample_leased ms = \<lparr>ls_key = ''a-b'', ls_local = sample_keys ''laptop'' 1,
     ls_peer = public_identity sample_prims (sample_keys ''phone'' 2), ls_epoch = sample_epoch, ls_epoch_seq = 1,
     ls_snapshot = None, ls_ops = map OpSeal ms\<rparr>"

lemma sample_reserve:
  "lease_reserve sync_tables_new ''a-b'' (of_nat counter_block_size) =
     (Okay \<lparr>cb_start = 1, cb_end = 10001\<rparr>, sync_tables_new\<lparr>sy_leases := [(''a-b'', 10001)]\<rparr>)"
  "lease_reserve (sync_tables_new\<lparr>sy_leases := [(''a-b'', 10001)]\<rparr>) ''a-b'' (of_nat counter_block_size) =
     (Okay \<lparr>cb_start = 10001, cb_end = 20001\<rparr>, sync_tables_new\<lparr>sy_leases := [(''a-b'', 20001)]\<rparr>)"
  by (simp_all add: lease_reserve_def next_counter_def i64_try_from_def u64_try_from_def counter_block_size_def
      sync_tables_new_def)

lemma sample_leased_run:
  assumes "lease_reserve t ''a-b'' (of_nat counter_block_size) = (Okay b, t')" "cb_start b \<noteq> 0" "cb_start b < cb_end b"
  shows "\<exists>envs. leased_run sample_prims t (sample_leased [m]) = (envs, t') \<and> length envs = 1"
proof -
  have sec: "\<not> isl (shared_secret_from sample_prims (dk_static (sample_keys ''laptop'' 1))
      (di_x25519 (public_identity sample_prims (sample_keys ''phone'' 2))))" by code_simp
  have ne: "dk_id (sample_keys ''laptop'' 1) \<noteq> di_id (public_identity sample_prims (sample_keys ''phone'' 2))"
    by code_simp
  obtain chain where "shared_secret_from sample_prims (dk_static (sample_keys ''laptop'' 1))
      (di_x25519 (public_identity sample_prims (sample_keys ''phone'' 2))) = Okay chain"
    using sec by (auto simp: isl_def) (metis sum.exhaust)
  then show ?thesis
    using ne assms by (simp add: leased_run_def outbound_leased_def sample_leased_def v2_outbound_def v2_seal_def Let_def)
qed

theorem leased_counters_never_repeat_witness:
  "length (route_counters ''a-b'' (leased_runs sample_prims sync_tables_new [sample_leased [[1]], sample_leased [[2]]])) = 2
   \<and> sorted_wrt (<) (route_counters ''a-b''
       (leased_runs sample_prims sync_tables_new [sample_leased [[1]], sample_leased [[2]]]))"
proof
  obtain envs envs' where
    "leased_run sample_prims sync_tables_new (sample_leased [[1]])
       = (envs, sync_tables_new\<lparr>sy_leases := [(''a-b'', 10001)]\<rparr>)" "length envs = 1"
    "leased_run sample_prims (sync_tables_new\<lparr>sy_leases := [(''a-b'', 10001)]\<rparr>) (sample_leased [[2]])
       = (envs', sync_tables_new\<lparr>sy_leases := [(''a-b'', 20001)]\<rparr>)" "length envs' = 1"
    using sample_leased_run[OF sample_reserve(1), of "[1]"] sample_leased_run[OF sample_reserve(2), of "[2]"]
    by (auto simp: word_less_nat_alt)
  moreover have "ls_key (sample_leased ms) = ''a-b''" for ms by (simp add: sample_leased_def)
  ultimately show "length (route_counters ''a-b''
      (leased_runs sample_prims sync_tables_new [sample_leased [[1]], sample_leased [[2]]])) = 2"
    by (simp add: route_counters_def filter_map comp_def)
  have "lease_ok sync_tables_new" by (simp add: lease_ok_def sync_tables_new_def)
  moreover have "list_all session_plain [sample_leased [[1]], sample_leased [[2]]]"
    by (simp add: session_plain_def sample_leased_def sample_epoch_def)
  ultimately show "sorted_wrt (<) (route_counters ''a-b''
       (leased_runs sample_prims sync_tables_new [sample_leased [[1]], sample_leased [[2]]]))"
    using leased_counters_never_repeat by blast
qed

definition sample_json :: "journal_event \<Rightarrow> event_json" where
  "sample_json ev = \<lparr>ej_encode = (\<lambda>e. if e = ev then Some ''{}'' else None),
     ej_decode = (\<lambda>b. if b = ''{}'' then Some ev else None)\<rparr>"

text \<open>C19: The port over the database answers as the in-process port does. For every sequence of port operations whose
  arguments fit the columns and fixed widths and in which the fetch positions recorded for a peer never fall, each answer (whether an event was new, the
  journal in the order of application, the fetch positions, the tombstones) is the same from the tables as from memory, given
  that reading the JSON text of an event gives the event back.\<close>

theorem store_port_refines_memory:
  assumes "\<And>ev body. ej_encode J ev = Some body \<Longrightarrow> ej_decode J body = Some ev"
    and "list_all (port_op_ok J) xs" "\<And>peer. sorted (positions_for peer xs)"
  shows "port_run (store_state_port J) sync_tables_new xs = port_run memory_state_port memory_port_new xs"
  by (rule match_run[OF assms(1) _ assms(2) _ assms(3)])
    (simp_all add: ports_match_def journals_match_def cursors_match_def marks_match_def cursors_below_def
      sync_tables_new_def memory_port_new_def memory_good_def memory_marks_def marks_of_rows_def)

definition sample_event :: journal_event where
  "sample_event = \<lparr>je_id = ''e1'', je_origin = ''laptop'', je_seq = 1, je_signature = replicate 64 0,
     je_body = MemoryForgotten ''mem'' 5 (replicate 32 1)\<rparr>"

definition sample_port_ops :: "port_op list" where
  "sample_port_ops = [PApply sample_event, PApply sample_event,
     PMark ''mem'' \<lparr>tm_digest = replicate 32 1, tm_origin = ''laptop'', tm_seq = 1\<rparr> 5, PCursor ''phone'' 3, PCursor ''phone'' 4,
     PLoadApplied, PLoadCursors, PLoadMarks]"

theorem store_port_refines_memory_witness:
  "port_run (store_state_port (sample_json sample_event)) sync_tables_new sample_port_ops
     = port_run memory_state_port memory_port_new sample_port_ops
   \<and> AEvents (Okay [sample_event]) \<in> set (port_run memory_state_port memory_port_new sample_port_ops)
   \<and> ACursors (Okay [(''phone'', 4)]) \<in> set (port_run memory_state_port memory_port_new sample_port_ops)"
proof (intro conjI)
  show "port_run (store_state_port (sample_json sample_event)) sync_tables_new sample_port_ops
     = port_run memory_state_port memory_port_new sample_port_ops"
  proof (rule store_port_refines_memory)
    show "list_all (port_op_ok (sample_json sample_event)) sample_port_ops"
      by (simp add: sample_port_ops_def sample_json_def sample_event_def)
    show "sorted (positions_for peer sample_port_ops)" for peer by (simp add: sample_port_ops_def)
  qed (auto simp: sample_json_def split: if_splits)
  show "AEvents (Okay [sample_event]) \<in> set (port_run memory_state_port memory_port_new sample_port_ops)" by code_simp
  show "ACursors (Okay [(''phone'', 4)]) \<in> set (port_run memory_state_port memory_port_new sample_port_ops)" by code_simp
qed

text \<open>The two ports part when a position falls: the database keeps the highest one, the in-process port the last one.\<close>

theorem falling_position_diverges:
  "port_run (store_state_port J) sync_tables_new [PCursor ''phone'' 4, PCursor ''phone'' 3, PLoadCursors]
     = [ADone (Okay ()), ADone (Okay ()), ACursors (Okay [(''phone'', 4)])]
   \<and> port_run memory_state_port memory_port_new [PCursor ''phone'' 4, PCursor ''phone'' 3, PLoadCursors]
     = [ADone (Okay ()), ADone (Okay ()), ACursors (Okay [(''phone'', 3)])]"
  by (simp add: store_state_port_def memory_state_port_def record_sync_fetch_cursor_def state_error_def
      list_sync_fetch_cursors_def sync_tables_new_def memory_port_new_def)

lemma own_seq_below:
  assumes "tables_good J t" "ev \<in> set (stored_events J t)"
  shows "unat (je_seq ev) < 2 ^ 63"
proof -
  obtain r where "r \<in> set (sy_journal t)" "je_seq ev = word_of_int (sj_seq r)"
    using assms(2) by (auto simp: stored_events_def row_event_def)
  then have "uint (je_seq ev) < 2 ^ 63"
    using assms(1) by (auto simp: tables_good_def journal_good_def uint_word_of_int)
  then show ?thesis by (metis nat_less_numeral_power_cancel_iff unat_eq_nat_uint)
qed

lemma next_own_seq_above:
  assumes "bt_ok (sn_applied n)" "ev \<in> events_of n" "je_origin ev = sn_label n"
    "\<forall>ev\<in>events_of n. unat (je_seq ev) < 2 ^ 63"
  shows "je_seq ev < next_own_seq n"
proof -
  let ?S = "insert 0 (set (map je_seq (filter (\<lambda>ev. je_origin ev = sn_label n) (map snd (sn_applied n)))))"
  have e: "events_of n = snd ` set (sn_applied n)" using assms(1) by (simp add: events_of_def ran_distinct bt_ok_distinct)
  have n: "next_own_seq n = Max ?S + 1" by (simp only: next_own_seq_def foldl_max_word)
  have le: "je_seq ev \<le> Max ?S" using assms(2,3) e by (intro Max_ge) auto
  have "Max ?S \<in> ?S" by (rule Max_in) auto
  then have "unat (Max ?S) < 2 ^ 63" using assms(4) e by auto
  moreover have "unat (- 1 :: u64) = 2 ^ 64 - 1" by (simp add: unsigned_minus_1_eq_mask mask_eq_exp_minus_1)
  ultimately have "Max ?S \<noteq> - 1" by (intro notI) simp
  then have "unat (Max ?S + 1) = unat (Max ?S) + 1" by (rule unat_plus_one)
  then show ?thesis using le n by (simp add: word_le_nat_alt word_less_nat_alt)
qed

lemma project_all_events:
  "bt_ok (sn_applied n) \<Longrightarrow> events_of (fold project evs n) \<subseteq> events_of n \<union> set evs"
proof (induction evs arbitrary: n)
  case (Cons ev evs)
  have "events_of (project ev n) \<subseteq> insert ev (events_of n)"
    using Cons.prems by (auto simp: events_of_def project_applied ran_def split: if_splits)
  moreover have "bt_ok (sn_applied (project ev n))" using Cons.prems by (simp add: project_applied bt_insert_ok)
  ultimately show ?case using Cons.IH[of "project ev n"] by auto
qed simp

text \<open>C17: A restart over the database loses nothing of the journal. Starting from empty tables, after any sequence of
  operations of a node, with refused events and failures in between, a node that is opened again on the tables has the same
  journal, documents, memories, tombstones and acknowledgements, resumes at the recorded fetch positions, and continues
  under its own name with a sequence number above every one in its journal. The hypotheses are the round trip of the JSON
  text and that the recorded events fit: signatures of 64 bytes, and forgets with a time in the signed range and a digest
  of 32 bytes.\<close>

theorem store_restart_rebuilds:
  assumes "json_sound J" "se_port E = store_state_port J" "sync_durable E keys label sync_tables_new = Okay n0"
    and "(node_step E)\<^sup>*\<^sup>* n0 n" "sn_state n = Some t" "\<forall>ev\<in>set (stored_events J t). event_fits ev"
  shows "\<exists>n'. sync_durable E keys label t = Okay n' \<and> sn_applied n' = sn_applied n
     \<and> sn_documents n' = sn_documents n \<and> sn_memories n' = sn_memories n
     \<and> sn_tombstones n' = sn_tombstones n \<and> sn_peer_acks n' = sn_peer_acks n
     \<and> sn_loaded_cursors n' = list_sync_fetch_cursors t
     \<and> (\<forall>ev\<in>events_of n'. je_origin ev = label \<longrightarrow> je_seq ev < sn_next_seq n')"
proof -
  note port = store_durable[OF assms(1)]
  have g0: "tables_good J sync_tables_new" "stored_events J sync_tables_new = []" "stored_marks sync_tables_new = []"
    by (simp_all add: tables_good_def journal_good_def sync_tables_new_def stored_events_def stored_marks_def
        list_memory_tombstones_def)
  have n0: "n0 = (sync_new keys label)\<lparr>sn_state := Some sync_tables_new\<rparr>"
    using assms(2,3) by (simp add: sync_durable_def store_state_port_def store_load_applied_def list_sync_journal_events_def
        store_load_tombstones_def list_memory_tombstones_def list_sync_fetch_cursors_def sync_tables_new_def
        next_own_seq_def sync_new_def)
  then have ok0: "node_ok E n0" by (intro journal_machine.good_start) (simp add: node_start_def sync_new_def)
  have tr0: "durable_port.tracked (tables_good J) (stored_events J) stored_marks n0 sync_tables_new"
    by (simp add: durable_port.tracked_def[OF port] n0 g0 sync_new_def same_view_def)
  have fit: "durable_port.all_fit event_fits (stored_events J) t"
    using assms(6) by (simp add: durable_port.all_fit_def[OF port])
  have g: "sn_label n = label" "sn_keys n = keys"
    using node_steps_grow[OF assms(4) ok0] by (simp_all add: node_grows_def n0 sync_new_def)
  have tr: "durable_port.tracked (tables_good J) (stored_events J) stored_marks n t"
    using durable_port.tracked_steps[OF port assms(4) ok0 tr0 assms(2,5) fit] .
  obtain n' where n': "sync_durable E keys label t = Okay n'" "same_view n' n"
    "sn_loaded_cursors n' = list_sync_fetch_cursors t" "sn_next_seq n' = next_own_seq n'" "sn_label n' = label"
    using durable_port.restart[OF port tr assms(2) fit] g by auto
  have t: "tables_good J t" "bt_ok (sn_applied n)" "same_view (fold project (stored_events J t) (sync_new keys label)) n"
    using tr g by (simp_all add: durable_port.tracked_def[OF port])
  have "bt_ok (sn_applied n')" using n'(2) t(2) by (simp add: same_view_def)
  moreover have "events_of n' \<subseteq> set (stored_events J t)"
  proof -
    let ?m = "sync_new keys label :: sync_tables sync_node"
    have "bt_ok (sn_applied ?m)" "events_of ?m = {}" by (simp_all add: sync_new_def events_of_def)
    then have "events_of (fold project (stored_events J t) ?m) \<subseteq> set (stored_events J t)"
      using project_all_events[of ?m "stored_events J t"] by simp
    moreover have "events_of n' = events_of (fold project (stored_events J t) ?m)"
      using t(3) n'(2) by (simp add: same_view_def events_of_def)
    ultimately show ?thesis by simp
  qed
  then have "\<forall>ev\<in>events_of n'. unat (je_seq ev) < 2 ^ 63" using own_seq_below[OF t(1)] by blast
  ultimately have "\<forall>ev\<in>events_of n'. je_origin ev = label \<longrightarrow> je_seq ev < sn_next_seq n'"
    using next_own_seq_above[of n'] n'(4,5) by simp
  then show ?thesis using n' by (auto simp: same_view_def)
qed

definition sample_written :: journal_event where
  "sample_written = \<lparr>je_id = event_id_of ''laptop'' 1, je_origin = ''laptop'', je_seq = 1,
     je_signature = keys_sign sample_prims (sample_keys ''laptop'' 1) [], je_body = MemoryProposed ''mem'' ''tea''\<rparr>"

definition sample_store_env :: "sync_tables sync_env" where
  "sample_store_env = \<lparr>se_prims = sample_prims, se_sha = id, se_encode = (\<lambda>_. None), se_decode = (\<lambda>_. None),
     se_canonical = (\<lambda>_ _ _ _. []), se_port = store_state_port (sample_json sample_written)\<rparr>"

definition sample_opened :: "sync_tables sync_node" where
  "sample_opened = (sync_new (sample_keys ''laptop'' 1) ''laptop'')\<lparr>sn_state := Some sync_tables_new\<rparr>"

lemma sample_propose:
  "\<exists>t. sn_state (snd (propose_memory sample_store_env sample_opened ''mem'' ''tea'')) = Some t
     \<and> stored_events (sample_json sample_written) t = [sample_written]
     \<and> sn_applied (snd (propose_memory sample_store_env sample_opened ''mem'' ''tea'')) = [(je_id sample_written, sample_written)]"
  by (simp add: propose_memory_def local_event_def sync_create_def sample_store_env_def sample_opened_def sync_new_def
      sync_admit_def store_state_port_def store_record_applied_def sample_json_def sample_written_def
      append_sync_journal_event_def i64_try_from_def sync_tables_new_def state_error_def sync_apply_def mark_applied_def
      stored_events_def row_event_def Let_def)

theorem store_restart_rebuilds_witness:
  "\<exists>t n'. sn_state (snd (propose_memory sample_store_env sample_opened ''mem'' ''tea'')) = Some t
     \<and> sync_durable sample_store_env (sample_keys ''laptop'' 1) ''laptop'' t = Okay n'
     \<and> sn_applied n' = [(je_id sample_written, sample_written)]"
proof -
  let ?J = "sample_json sample_written" and ?n = "snd (propose_memory sample_store_env sample_opened ''mem'' ''tea'')"
  obtain t where t: "sn_state ?n = Some t" "stored_events ?J t = [sample_written]"
    "sn_applied ?n = [(je_id sample_written, sample_written)]"
    using sample_propose by blast
  have "json_sound ?J" by (auto simp: json_sound_def sample_json_def split: if_splits)
  moreover have "se_port sample_store_env = store_state_port ?J" by (simp add: sample_store_env_def)
  moreover have "sync_durable sample_store_env (sample_keys ''laptop'' 1) ''laptop'' sync_tables_new = Okay sample_opened"
    by (simp add: sync_durable_def sample_store_env_def store_state_port_def store_load_applied_def list_sync_journal_events_def
        store_load_tombstones_def list_memory_tombstones_def list_sync_fetch_cursors_def sync_tables_new_def
        next_own_seq_def sync_new_def sample_opened_def)
  moreover have "(node_step sample_store_env)\<^sup>*\<^sup>* sample_opened ?n"
    by (intro r_into_rtranclp ns_propose) (rule surjective_pairing)
  moreover have "event_fits sample_written"
    by (simp add: event_fits_def sample_written_def keys_sign_def sample_prims_def)
  ultimately show ?thesis using store_restart_rebuilds[of ?J sample_store_env "sample_keys ''laptop'' 1" "''laptop''" sample_opened ?n t] t
    by auto
qed

text \<open>C20: Paired devices are read back as they were written. After any sequence of writes of well-formed records that fit the
  columns, the listing gives, in the order of their labels, the last record written for each device, with the time on a
  revocation certificate replaced by the time the revocation was applied.\<close>

theorem vault_devices_roundtrip:
  assumes "list_all device_storable rs"
  shows "list_vault_devices (upsert_all sync_tables_new rs)
     = Okay (map snd (fold (\<lambda>r. bt_insert (vd_device r) (stored_form r)) rs []))"
  using devices_hold_list[OF devices_hold_all[OF _ assms]] by (simp add: devices_hold_def sync_tables_new_def)

definition sample_device :: vault_device_record where
  "sample_device = \<lparr>vd_device = ''phone'', vd_added_at = 10, vd_added_by = ''laptop'', vd_epoch_seq = 1,
     vd_status = VdRevoked 30 \<lparr>vc_device = ''phone'', vc_revoked_at = 20, vc_signature = [7]\<rparr>\<rparr>"

lemma sample_device_storable: "device_storable sample_device"
  by (simp add: device_storable_def sample_device_def device_ok_def device_label_new_def device_label_max_len_def
      recovery_signature_new_def signature_max_len_def)

theorem vault_devices_roundtrip_witness:
  "list_vault_devices (upsert_all sync_tables_new [sample_device]) = Okay [stored_form sample_device]"
  using vault_devices_roundtrip[of "[sample_device]"] sample_device_storable by simp

text \<open>The certificate that is read back is not the certificate that was signed: its time is the time the revocation was
  applied on this device.\<close>

theorem stored_certificate_altered:
  "stored_form sample_device \<noteq> sample_device
   \<and> vd_status (stored_form sample_device) = VdRevoked 30 \<lparr>vc_device = ''phone'', vc_revoked_at = 30, vc_signature = [7]\<rparr>"
  by (simp add: stored_form_def sample_device_def)

text \<open>Compaction removes exactly the acknowledged tombstones. For floors that fit the column it removes the tombstones whose
  sequence number is strictly below a floor of their origin, keeps all others in order, and reports how many it removed.\<close>

theorem compaction_exact:
  assumes "list_all (\<lambda>(_, floor). unat floor < 2 ^ 63) floors"
  shows "compact_tombstones t floors 0 =
     (Okay (length (filter (acknowledged floors) (sy_tombstones t))),
      t\<lparr>sy_tombstones := filter (\<lambda>r. \<not> acknowledged floors r) (sy_tombstones t)\<rparr>)"
  using compact_exact[OF assms, of t 0] by simp

end
