(* ===== verification/Spec2Isabelle.thy ===== *)
theory Spec2Isabelle
  imports Relay_Queue Crypto_V2_Safety Ipc_Delivery Core_Supervision Runtime_Safety Sync_Replicas Acp_Safety
    Context_Assembly Acp_Launch Storage_Properties Storage_Identity Storage_Sync_Safety
begin

text \<open>
  Altior, a local-first agent workbench, verified as a library of theories.

  The program.  A desktop shell talks to a Core daemon over a local framed IPC connection
  (crates/altior-ipc, altior-protocol).  The Core supervises agent processes per conversation thread
  (crates/altior-core/src/runtime), admits each client operation once (operations.rs), records turns with
  a checkpoint store, and keeps replicas of a vault in step through end-to-end encrypted envelopes
  (crates/altior-crypto) that travel over an untrusted store-and-forward relay (crates/altior-relay).
  Identifiers are validated strings (crates/altior-domain).

  Conventions.  A struct is a record, an enum a datatype, a u64 or u32 a word of that width, a usize an
  unbounded natural number, a String or a byte vector a string of bytes.  Result is a sum with Okay and Err as names of its
  injections.  Operations that take a mutable receiver return the updated state beside the result.  Vectors and
  queues are lists; BTreeMap and BTreeSet are strictly ordered association lists with the operations of
  Altior_Prelude.  Cryptographic primitives, operating-system entropy, the JSON text layer, the agent process and the
  checkpoint store are not part of the repository's own logic: they are arguments of the definitions, and
  a theorem that relies on a law of a primitive (decryption inverts encryption, X25519 commutes, an
  accepted ciphertext is authentic) has it as a named hypothesis, shown satisfiable by its witness.

  Altior_Prelude: words, results, ordered maps, and the locale guarded_machine (an invariant kept by every
  step holds in every reachable state), which the relay, the connection supervisor and the agent runtime
  interpret.

  Relay_Queue (altior-relay/src/lib.rs, error.rs): RelayPolicy, buckets, push with idempotency and caps, paged
  fetch with read marks and gaps, compaction below the common read mark, expiry.  The locale mailbox states
  what a paging client needs of fetch; its drain loop is proved complete and terminating once and interpreted on the
  relay.  Reachable states keep the queue ordered, within bounds and above the compaction checkpoint;
  compaction is invisible above the frontier; expiry is announced as a gap; a duplicate push is harmless.

  Crypto_Device (device.rs, pairing.rs), Crypto_Replay and Crypto_Session (session.rs), Crypto_Session_V2
  (session_v2.rs) and Crypto_V2_Safety: identities and the canonical pairing transcript; the 64-entry replay
  bitmap on machine words as a refinement of a set of accepted counters (locale replay_filter); sealing and opening in
  both session versions, with ratchet turns, counter blocks, the byte layout of the envelope, snapshots
  and restoration.  Conversations round trip over any number of turns, counters never repeat, refusals leave
  the receiver untouched (but for an authentic envelope of the next turn with the counter 0, which moves it to that
  turn), no position is accepted twice by a fresh receiver.

  Crypto_Blob (blob.rs): a blob is split into chunks, each sealed under a key derived from its content, and
  reassembled against its manifest.

  Sync_Model (altior-core/src/sync/mod.rs, persist.rs): the vault sync engine, a signed journal on every
  device, sealed per peer with v2 sessions and exchanged over the relay, with blobs and a durable state
  port.  Serialisation and the port are one record of parameters.  Sync_Journal breaks every operation into
  micro steps; Sync_State shows that a journal is authentic, that it determines the documents and
  the sets of memories and tombstones of a node (their contents where no two events propose or forget the same
  memory differently) and that a forgotten memory stays forgotten; Sync_Durable has the locale durable_port,
  what a state port promises a node that restarts on it, interpreted on the in-process port here and shown for the
  database tables in Storage_Sync_Safety; Sync_Exchange says what one poll and one flush do to relay,
  sessions and journals; Sync_Convergence has the invariant of two paired replicas, and Sync_Replicas their
  convergence after any interleaving of successful calls.

  Protocol_Types (version.rs, capability.rs, auth.rs, error.rs), Protocol_Handshake (handshake.rs,
  greeting.rs), Domain_Id (altior-domain/src/id.rs), Protocol_Event (event.rs, bounded.rs), Protocol_Command
  (command.rs): validated values, negotiation of the highest common version, identifiers, the JSON values
  of events including unknown kinds that are preserved, command kinds and control commands.  Parsers
  accept exactly what they should and printing is inverted by parsing.

  Rust_Text: the text operations of Rust the domain uses, on UTF-8 bytes.  Secret_Shape
  (altior-domain/src/secret_shape.rs): the detector of secret-shaped text and what its detectors find.
  Domain_Entity (entity.rs, lib.rs, identity.rs): bounded texts (locale bounded_text), closed vocabularies (locale
  named_vocabulary), event kinds, payloads, bindings and page limits.  Domain_Memory: memories, their scopes and life
  cycle, identity documents.  Context_Assembly (altior-core/src/context/mod.rs): the prompt of a turn from identity
  documents, retrieved memories and the user's text, within token budgets; what is needed of a comparison for sorting is
  the locale sort_order, interpreted on both comparisons of the assembler.  Every hit is accounted for, the order of the
  inputs does not matter and a memory stays in its item.

  Ipc_Frame (frame.rs), Ipc_Session (auth.rs, session.rs), Ipc_Delivery: length-prefixed frames decoded from any
  chunking of the stream with a cap; launch tokens and their constant-time comparison; the retained event
  log, server and client sessions, the command ledger.  The locale replayable_feed states what a log
  promises a reader; a reader that catches up repeatedly sees every event once and in order, or a gap.

  Core_Registry (operations.rs, ownership.rs, sync_gate.rs): admission of operations with a bounded memory of
  finished ones (locale admission_registry), turns owned by the Core and not by the window, the latch that keeps
  synchronisation off.  Core_Supervision (supervision.rs): the probe, spawn, attach and reconnect machine.

  Runtime_Model (runtime/state.rs, ports.rs, supervisor.rs, coordinator.rs), Runtime_Supervisor,
  Runtime_Safety: the supervisor of one thread and the coordinator of all.  Each port is a function of the trace of
  port calls made so far, ending with the present one, so its answers may change at every call in any way; the trace is part of the coordinator
  state and the ordering theorems are about it.  Intents are checkpointed before every effect, a turn whose delivery is
  settled or unknown is not sent again, an operation is prompted once, threads do not interfere.  Diagnostics
  (runtime/diagnostics.rs): the redaction of secrets in what the runtime reports.

  Acp_Wire (altior-acp/src/wire.rs, error.rs), Acp_Model (messages.rs, mapping.rs, negotiation.rs, requests.rs,
  delivery.rs, lifecycle.rs), Acp_Runtime (runtime.rs), Acp_Safety: the client of one agent process.  Lines are decoded
  from any chunking of the pipe (locale chunked_decoder of the prelude, shared with the frames of the IPC);
  messages are JSON values with exactly the shapes the derived decoders accept; the turn loop talks to an arbitrary process
  and arbitrary callbacks through a trace of transport calls.  A prompt that was written is classified by what the agent said,
  every request of the agent is answered before the next read, normalisation drops nothing.  Acp_Launch (config.rs,
  transport.rs): the bounded launch configuration and the readers of the agent's pipes.

  Bounds.  Loops over finite data are structural recursions.  The page loop of fetch and the decoder loop have a
  measure and are total; the drain loop of a client takes fuel, and relay_drain_complete shows that the
  number of retained items plus one is enough.  The page loop of poll takes fuel as well, and poll_delivers
  shows the same bound for it; the read loops of the agent client may run for ever and take fuel, and their
  theorems hold for every run that ends.  Capacities and counters are those of the source.

  Storage_Model, Storage_Domain, Storage_Entities, Storage_Memory (altior-storage/src/lib.rs, memory.rs, error.rs,
  migrations.rs): the tables of the SQLite database as ordered association lists, each method as the change its
  transaction makes.  Storage_Model has the protocol journal with its thread summaries; Storage_Domain the check of a
  domain event against the projections, its fold into threads, turns, permissions, memories and the search
  index, the digest, the rebuild; Storage_Entities profiles, bindings, projects, checkpoints, sessions, the pages and
  the opening of a store; Storage_Memory the memory repository.  Storage_Journal, Storage_Facts and Storage_Safety
  show that every operation, except the append of a custom kind under the name of a known one, keeps both
  journals replayable (locale event_sourced, interpreted on the domain
  journal, and on both journals under all operations), and Storage_Properties states what follows: a rebuild
  gives the projections again (with the counterexample of such a disguised kind), facts are final, an event is recorded once, the index is exact, checkpoints settle
  once, opening a store keeps everything.  Failures of SQLite itself, the execution of migrations and the
  ranked search are left out; full text matching and the order of unordered queries are arguments.

  Storage_Identity (altior-storage/src/identity.rs): identity documents and the context snapshots of turns; the number of
  documents stays within its cap, no document and no text of a snapshot is secret-shaped, a snapshot never changes, a listing is in the order of
  rendering.  Domain_Vault (altior-domain/src/vault.rs, time.rs): the life cycle of a paired device, with a revocation
  that is final, acknowledgement frontiers whose cursors only grow.  Storage_Sync (altior-storage/src/sync_state.rs,
  altior-core/src/sync/persist.rs): the tables behind the sync engine and the state port over them.  Storage_Sync_Safety
  composes them with their clients: counters leased to sessions of Crypto_Session_V2 never repeat over restarts, a
  node that restarts on the tables has its journal and view again, the
  port over the tables answers as the in-process port of Sync_Model does while fetch positions do not fall, paired devices are read back as they
  were written, compaction removes exactly the acknowledged tombstones.  The sessions of the first theorem seal and open
  turns and do not install further blocks; the ranges of the second are those of the signed columns.

  Not modelled: process and socket I/O, the async daemon, the operating system's secret store with the session chains
  kept in it, the desktop shell, the CRDT libraries, Display and Debug texts.
\<close>

end
